(* ===== verification/Prelude.thy ===== *)
theory Prelude
  imports Main "HOL-Library.Word"
begin

text \<open>
  Shared vocabulary of the development: results of fallible Rust code as values of a sum type
  (\<open>Inl\<close> the error), the combinators that model \<open>?\<close>, \<open>collect::<Result<_, _>>\<close> and fallible
  \<open>for\<close> loops, the unsigned 64-bit arithmetic of the Rust standard library on natural numbers
  with the overflow written out, byte strings, and the generic lemmas the component theories use.
\<close>

named_theorems res_simps \<open>inversion of successful fallible computations\<close>
named_theorems u64_simps \<open>definitions of the 64-bit arithmetic\<close>

section \<open>Fallible computations\<close>

type_synonym ('e, 'a) res = "'e + 'a"

text \<open>The operator \<open>?\<close>: stop with the error, continue with the value.\<close>

definition bindR :: "('e, 'a) res \<Rightarrow> ('a \<Rightarrow> ('e, 'b) res) \<Rightarrow> ('e, 'b) res" where
  "bindR m f = (case m of Inl e \<Rightarrow> Inl e | Inr x \<Rightarrow> f x)"

text \<open>\<open>Option::ok_or\<close>.\<close>

definition ok_or :: "'a option \<Rightarrow> 'e \<Rightarrow> ('e, 'a) res" where
  "ok_or x e = (case x of None \<Rightarrow> Inl e | Some a \<Rightarrow> Inr a)"

text \<open>\<open>Result::map_err\<close>.\<close>

definition map_err :: "('e \<Rightarrow> 'f) \<Rightarrow> ('e, 'a) res \<Rightarrow> ('f, 'a) res" where
  "map_err f m = (case m of Inl e \<Rightarrow> Inl (f e) | Inr x \<Rightarrow> Inr x)"

text \<open>An early return: \<open>if b { return Err(e); }\<close>.\<close>

definition failIf :: "bool \<Rightarrow> 'e \<Rightarrow> ('e, unit) res" where
  "failIf b e = (if b then Inl e else Inr ())"

text \<open>\<open>iter().map(f).collect::<Result<Vec<_>, _>>()\<close>: the first error in iteration order.\<close>

fun mapR :: "('a \<Rightarrow> ('e, 'b) res) \<Rightarrow> 'a list \<Rightarrow> ('e, 'b list) res" where
  "mapR f [] = Inr []"
| "mapR f (x # xs) = bindR (f x) (\<lambda>y. bindR (mapR f xs) (\<lambda>ys. Inr (y # ys)))"

text \<open>A \<open>for\<close> loop whose body may return an error.\<close>

fun foldR :: "('s \<Rightarrow> 'a \<Rightarrow> ('e, 's) res) \<Rightarrow> 's \<Rightarrow> 'a list \<Rightarrow> ('e, 's) res" where
  "foldR f s [] = Inr s"
| "foldR f s (x # xs) = bindR (f s x) (\<lambda>s'. foldR f s' xs)"

lemma bindR_simps [simp]:
  "bindR (Inl e) f = Inl e"
  "bindR (Inr x) f = f x"
  by (simp_all add: bindR_def)

lemma bindR_eq_Inr [res_simps]: "bindR m f = Inr y \<longleftrightarrow> (\<exists>x. m = Inr x \<and> f x = Inr y)"
  by (cases m) simp_all

lemma bindR_eq_Inl: "bindR m f = Inl e \<longleftrightarrow> m = Inl e \<or> (\<exists>x. m = Inr x \<and> f x = Inl e)"
  by (cases m) simp_all

lemma bindR_cong [fundef_cong]:
  "m = m' \<Longrightarrow> (\<And>x. m' = Inr x \<Longrightarrow> f x = g x) \<Longrightarrow> bindR m f = bindR m' g"
  by (cases m') simp_all

lemma bindR_assoc: "bindR (bindR m f) g = bindR m (\<lambda>x. bindR (f x) g)"
  by (cases m) simp_all

lemma ok_or_simps [simp]: "ok_or None e = Inl e" "ok_or (Some x) e = Inr x"
  by (simp_all add: ok_or_def)

lemma ok_or_eq_Inr [res_simps]: "ok_or x e = Inr y \<longleftrightarrow> x = Some y"
  by (cases x) simp_all

lemma ok_or_eq_Inl: "ok_or x e = Inl f \<longleftrightarrow> x = None \<and> f = e"
  by (cases x) auto

lemma map_err_simps [simp]: "map_err f (Inl e) = Inl (f e)" "map_err f (Inr x) = Inr x"
  by (simp_all add: map_err_def)

lemma map_err_eq_Inr [res_simps]: "map_err f m = Inr y \<longleftrightarrow> m = Inr y"
  by (cases m) simp_all

lemma failIf_simps [simp]: "failIf True e = Inl e" "failIf False e = Inr ()"
  by (simp_all add: failIf_def)

lemma failIf_eq_Inr [res_simps]: "failIf b e = Inr u \<longleftrightarrow> \<not> b"
  by (cases b) simp_all

lemma failIf_eq_Inl: "failIf b e = Inl f \<longleftrightarrow> b \<and> f = e"
  by (cases b) auto

lemma mapR_eq_Inr:
  "mapR f xs = Inr ys \<longleftrightarrow> list_all2 (\<lambda>x y. f x = Inr y) xs ys"
  by (induction xs arbitrary: ys) (auto simp: bindR_eq_Inr list_all2_Cons1)

lemma mapR_length: "mapR f xs = Inr ys \<Longrightarrow> length ys = length xs"
  by (simp add: mapR_eq_Inr list_all2_lengthD)

lemma mapR_nth: "mapR f xs = Inr ys \<Longrightarrow> i < length xs \<Longrightarrow> f (xs ! i) = Inr (ys ! i)"
  by (simp add: mapR_eq_Inr list_all2_conv_all_nth)

lemma mapR_map: "mapR f (map g xs) = mapR (\<lambda>x. f (g x)) xs"
  by (induction xs) auto

lemma mapR_cong [fundef_cong]:
  "xs = ys \<Longrightarrow> (\<And>x. x \<in> set ys \<Longrightarrow> f x = g x) \<Longrightarrow> mapR f xs = mapR g ys"
  by (induction xs arbitrary: ys) auto

lemma mapR_Inr_map: "(\<And>x. x \<in> set xs \<Longrightarrow> f x = Inr (g x)) \<Longrightarrow> mapR f xs = Inr (map g xs)"
  by (induction xs) auto

lemma foldR_append:
  "foldR f s (xs @ ys) = bindR (foldR f s xs) (\<lambda>s'. foldR f s' ys)"
  by (induction xs arbitrary: s) (auto simp: bindR_assoc)

lemma foldR_invariant:
  assumes step: "\<And>s x s'. x \<in> set xs \<Longrightarrow> I s \<Longrightarrow> f s x = Inr s' \<Longrightarrow> I s'"
    and run: "foldR f s xs = Inr s'" and init: "I s"
  shows "I s'"
  using assms by (induction xs arbitrary: s) (auto simp: bindR_eq_Inr)

lemma foldR_total:
  assumes step: "\<And>s x. x \<in> set xs \<Longrightarrow> I s \<Longrightarrow> \<exists>s'. f s x = Inr s' \<and> I s'" and init: "I s"
  shows "\<exists>s'. foldR f s xs = Inr s' \<and> I s'"
  using assms
proof (induction xs arbitrary: s)
  case Nil
  then show ?case by simp
next
  case (Cons x xs)
  from Cons.prems obtain s1 where "f s x = Inr s1" and "I s1" by (meson list.set_intros(1))
  with Cons show ?case by simp
qed

section \<open>Unsigned 64-bit arithmetic\<close>

text \<open>
  A \<open>u64\<close> (and a \<open>usize\<close> of a 64-bit host) is a natural number below \<open>2 ^ 64\<close>. The operations
  are those of the Rust standard library; \<open>wrapping\<close> ones are the plain operators of a release
  build, which the development uses only where it also proves that they do not wrap.
\<close>

type_synonym u64 = nat
type_synonym usize = nat

definition u64_max :: nat where
  "u64_max = 18446744073709551615"

abbreviation (input) usize_max :: nat where
  "usize_max \<equiv> u64_max"

definition u32_max :: nat where
  "u32_max = 4294967295"

definition checked_add :: "nat \<Rightarrow> nat \<Rightarrow> nat option" where
  "checked_add a b = (if a + b \<le> u64_max then Some (a + b) else None)"

definition checked_sub :: "nat \<Rightarrow> nat \<Rightarrow> nat option" where
  "checked_sub a b = (if b \<le> a then Some (a - b) else None)"

definition checked_mul :: "nat \<Rightarrow> nat \<Rightarrow> nat option" where
  "checked_mul a b = (if a * b \<le> u64_max then Some (a * b) else None)"

definition saturating_add :: "nat \<Rightarrow> nat \<Rightarrow> nat" where
  "saturating_add a b = min (a + b) u64_max"

definition saturating_sub :: "nat \<Rightarrow> nat \<Rightarrow> nat" where
  "saturating_sub a b = a - b"

definition saturating_mul :: "nat \<Rightarrow> nat \<Rightarrow> nat" where
  "saturating_mul a b = min (a * b) u64_max"

definition wrapping_mul :: "nat \<Rightarrow> nat \<Rightarrow> nat" where
  "wrapping_mul a b = (a * b) mod (u64_max + 1)"

definition wrapping_add :: "nat \<Rightarrow> nat \<Rightarrow> nat" where
  "wrapping_add a b = (a + b) mod (u64_max + 1)"

definition div_ceil :: "nat \<Rightarrow> nat \<Rightarrow> nat" where
  "div_ceil a b = (a + b - 1) div b"

lemmas u64_defs [u64_simps] =
  checked_add_def checked_sub_def checked_mul_def saturating_add_def saturating_sub_def
  saturating_mul_def

lemma u64_max_eq: "u64_max = 2 ^ 64 - 1"
  by (simp add: u64_max_def)

lemma checked_add_eq_Some [res_simps]:
  "checked_add a b = Some c \<longleftrightarrow> c = a + b \<and> a + b \<le> u64_max"
  by (auto simp: checked_add_def)

lemma checked_add_eq_None: "checked_add a b = None \<longleftrightarrow> u64_max < a + b"
  by (auto simp: checked_add_def)

lemma checked_sub_eq_Some [res_simps]: "checked_sub a b = Some c \<longleftrightarrow> b \<le> a \<and> c = a - b"
  by (auto simp: checked_sub_def)

lemma checked_mul_eq_Some [res_simps]:
  "checked_mul a b = Some c \<longleftrightarrow> c = a * b \<and> a * b \<le> u64_max"
  by (auto simp: checked_mul_def)

lemma checked_mul_eq_None: "checked_mul a b = None \<longleftrightarrow> u64_max < a * b"
  by (auto simp: checked_mul_def)

lemma wrapping_mul_exact: "a * b \<le> u64_max \<Longrightarrow> wrapping_mul a b = a * b"
  by (simp add: wrapping_mul_def)

lemma wrapping_add_exact: "a + b \<le> u64_max \<Longrightarrow> wrapping_add a b = a + b"
  by (simp add: wrapping_add_def)

section \<open>Byte strings\<close>

type_synonym byte = "8 word"
type_synonym bytes = "8 word list"

text \<open>\<open>to_le_bytes\<close> of a \<open>w\<close>-byte integer and its inverse \<open>from_le_bytes\<close>.\<close>

fun to_le_bytes :: "nat \<Rightarrow> nat \<Rightarrow> bytes" where
  "to_le_bytes 0 n = []"
| "to_le_bytes (Suc w) n = word_of_nat n # to_le_bytes w (n div 256)"

fun from_le_bytes :: "bytes \<Rightarrow> nat" where
  "from_le_bytes [] = 0"
| "from_le_bytes (b # bs) = unat b + 256 * from_le_bytes bs"

text \<open>The slice \<open>xs[a..b]\<close>; every use is shown to be in range.\<close>

definition slice_of :: "'a list \<Rightarrow> nat \<Rightarrow> nat \<Rightarrow> 'a list" where
  "slice_of xs a b = take (b - a) (drop a xs)"

lemma length_to_le_bytes [simp]: "length (to_le_bytes w n) = w"
  by (induction w arbitrary: n) auto

lemma unat_byte_lt: "unat (b :: byte) < 256"
  using unsigned_less [of b] by simp

lemma unat_word_of_nat_byte: "unat (word_of_nat n :: byte) = n mod 256"
  by (simp add: unat_of_nat)

lemma from_le_bytes_lt: "from_le_bytes bs < 256 ^ length bs"
proof (induction bs)
  case Nil
  then show ?case by simp
next
  case (Cons b bs)
  have "unat b < 256" by (rule unat_byte_lt)
  with Cons.IH show ?case by simp
qed

lemma from_to_le_bytes: "n < 256 ^ w \<Longrightarrow> from_le_bytes (to_le_bytes w n) = n"
proof (induction w arbitrary: n)
  case 0
  then show ?case by simp
next
  case (Suc w)
  from Suc.prems have "n div 256 < 256 ^ w" by (simp add: less_mult_imp_div_less mult.commute)
  with Suc.IH show ?case by (simp add: unat_word_of_nat_byte)
qed

lemma to_from_le_bytes: "length bs = w \<Longrightarrow> to_le_bytes w (from_le_bytes bs) = bs"
proof (induction w arbitrary: bs)
  case 0
  then show ?case by simp
next
  case (Suc w)
  then obtain b cs where bs: "bs = b # cs" and "length cs = w" by (cases bs) auto
  have lt: "unat b < 256" by (rule unat_byte_lt)
  have "(unat b + 256 * from_le_bytes cs) div 256 = from_le_bytes cs" using lt by simp
  moreover have "(word_of_nat (unat b + 256 * from_le_bytes cs) :: byte) = b"
    by (metis (no_types) lt mod_less mod_mult_self2 unat_eq_nat_uint unat_word_of_nat_byte
        word_unat_eq_iff)
  ultimately show ?case using Suc.IH \<open>length cs = w\<close> bs by simp
qed

lemma length_slice_of [simp]: "length (slice_of xs a b) = min (b - a) (length xs - a)"
  by (simp add: slice_of_def min.commute)

lemma slice_append_middle: "length xs = a \<Longrightarrow> b = a + length ys \<Longrightarrow> slice_of (xs @ ys @ zs) a b = ys"
  by (simp add: slice_of_def)

lemma take_slice_append: "a \<le> b \<Longrightarrow> take a xs @ slice_of xs a b = take b xs"
  by (metis le_add_diff_inverse slice_of_def take_add)

lemma slice_drop_append:
  "a \<le> b \<Longrightarrow> slice_of xs a b @ drop b xs = drop a xs"
  by (metis append_take_drop_id drop_drop le_add_diff_inverse2 slice_of_def)

end
