(* ===== verification/Ssz_Codec.thy ===== *)
theory Ssz_Codec
  imports Prelude
begin

text \<open>
  The byte-level building blocks of the SSZ layer (\<open>moonglass-core/src/ssz\<close>): the error enums,
  offset words (\<open>codec.rs\<close>), homogeneous sequences (\<open>codec.rs\<close>) and the container encoder and
  decoder (\<open>container.rs\<close>). The element codec of a generic Rust function \<open>f::<T>\<close> is passed as
  arguments: \<open>T::is_variable_size()\<close>, \<open>T::size_hint()\<close>, and either \<open>T::deserialize\<close> itself or the
  list of results of \<open>T::serialize\<close> on the values. A serializer's result is the byte string it
  appends to the buffer; the \<open>usize\<close> it returns in Rust is the length of that string.
\<close>

section \<open>Errors (error.rs)\<close>

datatype SerializeError =
    SerOffsetOverflow
  | SerContainerFixedSize (ser_got: usize) (ser_expected: usize)
  | SerListTooLong (ser_len: usize) (ser_limit: usize)
  | SerVectorLength (ser_vlen: usize) (ser_vexpected: usize)

datatype DeserializeError =
    ExpectedFurtherInput (de_provided: usize) (de_expected: usize)
  | AdditionalInput (de_provided: usize) (de_expected: usize)
  | InvalidOffset (de_offset: usize) (de_len: usize)
  | NonMonotonicOffset (de_previous: usize) (de_offset: usize)
  | DeOffsetOverflow
  | DeListTooLong (de_len: usize) (de_limit: usize)
  | DeVectorLength (de_expected: usize) (de_got: usize)
  | MissingBitlistDelimiter
  | NonZeroPaddingBits
  | InvalidBool byte
  | MissingField string

definition BYTES_PER_CHUNK :: usize where
  "BYTES_PER_CHUNK = 32"

definition BYTES_PER_LENGTH_OFFSET :: usize where
  "BYTES_PER_LENGTH_OFFSET = 4"

section \<open>Offsets (codec.rs)\<close>

definition write_offset :: "usize \<Rightarrow> bytes \<Rightarrow> (SerializeError, bytes) res" where
  "write_offset offset buffer =
     (if offset \<le> u32_max then Inr (buffer @ to_le_bytes 4 offset) else Inl SerOffsetOverflow)"

definition read_offset_at :: "bytes \<Rightarrow> usize \<Rightarrow> (DeserializeError, usize) res" where
  "read_offset_at encoding cursor =
     bindR (ok_or (checked_add cursor BYTES_PER_LENGTH_OFFSET) DeOffsetOverflow) (\<lambda>stop.
     if stop > length encoding then Inl (ExpectedFurtherInput (length encoding) stop)
     else Inr (from_le_bytes (slice_of encoding cursor stop)))"

text \<open>The loop over the offsets after the first, with the running \<open>previous\<close> and \<open>bounds\<close>.\<close>

fun check_offsets :: "usize \<Rightarrow> usize \<Rightarrow> usize list \<Rightarrow> usize list \<Rightarrow> (DeserializeError, usize list) res"
where
  "check_offsets input_len previous bounds [] = Inr (bounds @ [input_len])"
| "check_offsets input_len previous bounds (offset # offsets) =
     (if offset < previous then Inl (NonMonotonicOffset previous offset)
      else if offset > input_len then Inl (InvalidOffset offset input_len)
      else check_offsets input_len offset (bounds @ [offset]) offsets)"

fun validate_variable_offsets ::
  "usize list \<Rightarrow> usize \<Rightarrow> usize \<Rightarrow> (DeserializeError, usize list) res"
where
  "validate_variable_offsets [] fixed_end input_len =
     (if fixed_end \<noteq> input_len then Inl (AdditionalInput input_len fixed_end)
      else Inr [input_len])"
| "validate_variable_offsets (first # offsets) fixed_end input_len =
     (if first \<noteq> fixed_end \<or> first > input_len then Inl (InvalidOffset first input_len)
      else check_offsets input_len first [first] offsets)"

section \<open>Homogeneous sequences (codec.rs)\<close>

text \<open>The loop of the variable-size branch: \<open>(fixed, variable, offset)\<close>.\<close>

fun serialize_variable_items ::
  "bytes \<Rightarrow> bytes \<Rightarrow> usize \<Rightarrow> (SerializeError, bytes) res list \<Rightarrow> (SerializeError, bytes \<times> bytes) res"
where
  "serialize_variable_items fixed variable offset [] = Inr (fixed, variable)"
| "serialize_variable_items fixed variable offset (r # rs) =
     bindR (write_offset offset fixed) (\<lambda>fixed'.
     bindR r (\<lambda>enc.
     bindR (ok_or (checked_add offset (length enc)) SerOffsetOverflow) (\<lambda>offset'.
       serialize_variable_items fixed' (variable @ enc) offset' rs)))"

definition serialize_sequence ::
  "bool \<Rightarrow> (SerializeError, bytes) res list \<Rightarrow> (SerializeError, bytes) res"
where
  "serialize_sequence item_variable rs =
     (if item_variable then
        bindR (ok_or (checked_mul (length rs) BYTES_PER_LENGTH_OFFSET) SerOffsetOverflow) (\<lambda>fixed_size.
        bindR (serialize_variable_items [] [] fixed_size rs) (\<lambda>(fixed, variable).
        bindR (ok_or (checked_add (length fixed) (length variable)) SerOffsetOverflow) (\<lambda>written.
          Inr (fixed @ variable))))
      else bindR (mapR id rs) (\<lambda>encs. Inr (concat encs)))"

text \<open>\<open>chunks_exact(n)\<close> for positive \<open>n\<close>: the full chunks, a shorter rest is left out.\<close>

function chunks_exact :: "nat \<Rightarrow> 'a list \<Rightarrow> 'a list list" where
  "chunks_exact n xs =
     (if n = 0 \<or> length xs < n then [] else take n xs # chunks_exact n (drop n xs))"
  by pat_completeness auto
termination
  by (relation "measure (\<lambda>(n, xs). length xs)") auto

declare chunks_exact.simps [simp del]

definition deserialize_variable_items ::
  "(bytes \<Rightarrow> (DeserializeError, 'v) res) \<Rightarrow> bytes \<Rightarrow> usize \<Rightarrow> (DeserializeError, 'v list) res"
where
  "deserialize_variable_items dec encoding count =
     bindR (ok_or (checked_mul count BYTES_PER_LENGTH_OFFSET) DeOffsetOverflow) (\<lambda>fixed_end.
     if fixed_end > length encoding then
       Inl (ExpectedFurtherInput (length encoding) fixed_end)
     else
       bindR (mapR (\<lambda>i. read_offset_at encoding (i * BYTES_PER_LENGTH_OFFSET)) [0..<count]) (\<lambda>offsets.
       bindR (validate_variable_offsets offsets fixed_end (length encoding)) (\<lambda>bounds.
         mapR (\<lambda>i. dec (slice_of encoding (bounds ! i) (bounds ! (i + 1)))) [0..<count])))"

definition deserialize_list_items ::
  "bool \<Rightarrow> usize \<Rightarrow> (bytes \<Rightarrow> (DeserializeError, 'v) res) \<Rightarrow> usize \<Rightarrow> bytes \<Rightarrow>
    (DeserializeError, 'v list) res"
where
  "deserialize_list_items item_variable item_size dec limit encoding =
     (if item_variable then
        if encoding = [] then Inr []
        else
          bindR (read_offset_at encoding 0) (\<lambda>first_offset.
          if first_offset = 0 then Inl (InvalidOffset first_offset (length encoding))
          else if first_offset mod BYTES_PER_LENGTH_OFFSET \<noteq> 0 then
            Inl (InvalidOffset first_offset (length encoding))
          else
            let count = first_offset div BYTES_PER_LENGTH_OFFSET in
            if count > limit then Inl (DeListTooLong count limit)
            else deserialize_variable_items dec encoding count)
      else if item_size = 0 then Inl (InvalidOffset 0 (length encoding))
      else if length encoding mod item_size \<noteq> 0 then
        Inl (AdditionalInput (length encoding) (length encoding div item_size * item_size))
      else
        let count = length encoding div item_size in
        if count > limit then Inl (DeListTooLong count limit)
        else mapR dec (chunks_exact item_size encoding))"

definition deserialize_vector_items ::
  "bool \<Rightarrow> usize \<Rightarrow> (bytes \<Rightarrow> (DeserializeError, 'v) res) \<Rightarrow> usize \<Rightarrow> bytes \<Rightarrow>
    (DeserializeError, 'v list) res"
where
  "deserialize_vector_items item_variable item_size dec n encoding =
     (if item_variable then
        if n = 0 then
          (if encoding = [] then Inr [] else Inl (AdditionalInput (length encoding) 0))
        else deserialize_variable_items dec encoding n
      else
        bindR (ok_or (checked_mul n item_size) DeOffsetOverflow) (\<lambda>expected.
        if length encoding < expected then
          Inl (ExpectedFurtherInput (length encoding) expected)
        else if length encoding > expected then
          Inl (AdditionalInput (length encoding) expected)
        else mapR dec (chunks_exact item_size encoding)))"

section \<open>Containers (container.rs)\<close>

record FieldLayout =
  variable_size :: bool
  fl_size_hint :: usize

definition field_layout :: "bool \<Rightarrow> usize \<Rightarrow> FieldLayout" where
  "field_layout is_variable_size size_hint =
     \<lparr>variable_size = is_variable_size,
      fl_size_hint = (if is_variable_size then BYTES_PER_LENGTH_OFFSET else size_hint)\<rparr>"

definition container_is_variable_size :: "FieldLayout list \<Rightarrow> bool" where
  "container_is_variable_size layouts = list_ex variable_size layouts"

definition container_size_hint :: "FieldLayout list \<Rightarrow> usize" where
  "container_size_hint layouts = sum_list (map fl_size_hint layouts)"

record ContainerEncoder =
  enc_fixed :: bytes
  enc_variable :: bytes
  enc_fixed_size :: usize
  enc_variable_offset :: usize

definition encoder_new :: "usize \<Rightarrow> ContainerEncoder" where
  "encoder_new fixed_size =
     \<lparr>enc_fixed = [], enc_variable = [], enc_fixed_size = fixed_size,
      enc_variable_offset = fixed_size\<rparr>"

definition write_field ::
  "ContainerEncoder \<Rightarrow> bool \<times> (SerializeError, bytes) res \<Rightarrow> (SerializeError, ContainerEncoder) res"
where
  "write_field self field = (case field of (is_variable, value) \<Rightarrow>
     if is_variable then
       bindR (write_offset (enc_variable_offset self) (enc_fixed self)) (\<lambda>fixed.
       bindR value (\<lambda>enc.
       bindR (ok_or (checked_add (enc_variable_offset self) (length enc)) SerOffsetOverflow) (\<lambda>offset.
         Inr (self\<lparr>enc_fixed := fixed, enc_variable := enc_variable self @ enc,
                    enc_variable_offset := offset\<rparr>))))
     else
       bindR value (\<lambda>enc. Inr (self\<lparr>enc_fixed := enc_fixed self @ enc\<rparr>)))"

definition encoder_finish :: "ContainerEncoder \<Rightarrow> (SerializeError, bytes) res" where
  "encoder_finish self =
     (if length (enc_fixed self) \<noteq> enc_fixed_size self then
        Inl (SerContainerFixedSize (length (enc_fixed self)) (enc_fixed_size self))
      else
        bindR (ok_or (checked_add (length (enc_fixed self)) (length (enc_variable self)))
                 SerOffsetOverflow) (\<lambda>written.
          Inr (enc_fixed self @ enc_variable self)))"

text \<open>A \<open>Serialize\<close> impl of a container: one \<open>write_field\<close> per field, then \<open>finish\<close>.\<close>

definition serialize_container ::
  "usize \<Rightarrow> (bool \<times> (SerializeError, bytes) res) list \<Rightarrow> (SerializeError, bytes) res"
where
  "serialize_container fixed_size values =
     bindR (foldR write_field (encoder_new fixed_size) values) encoder_finish"

text \<open>
  The scan of \<open>container_field_ranges\<close>: cursor, the ranges (initially all \<open>0..0\<close>), and the indices
  and offsets of the variable-size fields seen so far.
\<close>

record RangeScan =
  rs_cursor :: usize
  rs_ranges :: "(usize \<times> usize) list"
  rs_variable_fields :: "usize list"
  rs_variable_offsets :: "usize list"

definition scan_field ::
  "bytes \<Rightarrow> RangeScan \<Rightarrow> usize \<times> FieldLayout \<Rightarrow> (DeserializeError, RangeScan) res"
where
  "scan_field encoding s il = (case il of (field_index, layout) \<Rightarrow>
     if variable_size layout then
       bindR (read_offset_at encoding (rs_cursor s)) (\<lambda>offset.
       bindR (ok_or (checked_add (rs_cursor s) BYTES_PER_LENGTH_OFFSET) DeOffsetOverflow) (\<lambda>cursor.
         Inr (s\<lparr>rs_cursor := cursor,
                 rs_variable_fields := rs_variable_fields s @ [field_index],
                 rs_variable_offsets := rs_variable_offsets s @ [offset]\<rparr>)))
     else
       bindR (ok_or (checked_add (rs_cursor s) (fl_size_hint layout)) DeOffsetOverflow) (\<lambda>stop.
       if stop > length encoding then Inl (ExpectedFurtherInput (length encoding) stop)
       else Inr (s\<lparr>rs_ranges := (rs_ranges s)[field_index := (rs_cursor s, stop)],
                    rs_cursor := stop\<rparr>)))"

text \<open>The final loop: variable field number \<open>i\<close> gets the range \<open>bounds[i]..bounds[i + 1]\<close>.\<close>

definition place_variable_ranges ::
  "usize list \<Rightarrow> usize list \<Rightarrow> (usize \<times> usize) list \<Rightarrow> (usize \<times> usize) list"
where
  "place_variable_ranges bounds variable_fields ranges =
     fold (\<lambda>(variable_index, field_index) rs.
             rs[field_index := (bounds ! variable_index, bounds ! (variable_index + 1))])
          (enumerate 0 variable_fields) ranges"

definition container_field_ranges ::
  "bytes \<Rightarrow> FieldLayout list \<Rightarrow> (DeserializeError, (usize \<times> usize) list) res"
where
  "container_field_ranges encoding layouts =
     bindR (foldR (scan_field encoding)
              \<lparr>rs_cursor = 0, rs_ranges = replicate (length layouts) (0, 0),
               rs_variable_fields = [], rs_variable_offsets = []\<rparr>
              (enumerate 0 layouts)) (\<lambda>s.
     if rs_variable_offsets s = [] then
       (if rs_cursor s \<noteq> length encoding then
          Inl (AdditionalInput (length encoding) (rs_cursor s))
        else Inr (rs_ranges s))
     else
       bindR (validate_variable_offsets (rs_variable_offsets s) (rs_cursor s) (length encoding)) (\<lambda>bounds.
         Inr (place_variable_ranges bounds (rs_variable_fields s) (rs_ranges s))))"

record ContainerDecoder =
  dec_encoding :: bytes
  dec_ranges :: "(usize \<times> usize) list"
  dec_next :: usize

definition decoder_new :: "bytes \<Rightarrow> FieldLayout list \<Rightarrow> (DeserializeError, ContainerDecoder) res" where
  "decoder_new encoding layouts =
     bindR (container_field_ranges encoding layouts) (\<lambda>ranges.
       Inr \<lparr>dec_encoding = encoding, dec_ranges = ranges, dec_next = 0\<rparr>)"

definition deserialize_next ::
  "ContainerDecoder \<Rightarrow> (bytes \<Rightarrow> (DeserializeError, 'v) res) \<Rightarrow> (DeserializeError, 'v \<times> ContainerDecoder) res"
where
  "deserialize_next self dec =
     (if dec_next self < length (dec_ranges self) then
        (case dec_ranges self ! dec_next self of (a, b) \<Rightarrow>
           bindR (dec (slice_of (dec_encoding self) a b)) (\<lambda>v.
             Inr (v, self\<lparr>dec_next := dec_next self + 1\<rparr>)))
      else Inl (MissingField ''past end of layout''))"

text \<open>A \<open>Deserialize\<close> impl of a container: one \<open>deserialize_next\<close> per field, in order.\<close>

fun deserialize_fields ::
  "ContainerDecoder \<Rightarrow> (bytes \<Rightarrow> (DeserializeError, 'v) res) list \<Rightarrow> (DeserializeError, 'v list) res"
where
  "deserialize_fields d [] = Inr []"
| "deserialize_fields d (dec # decs) =
     bindR (deserialize_next d dec) (\<lambda>(v, d'). bindR (deserialize_fields d' decs) (\<lambda>vs. Inr (v # vs)))"

definition deserialize_container ::
  "FieldLayout list \<Rightarrow> (bytes \<Rightarrow> (DeserializeError, 'v) res) list \<Rightarrow> bytes \<Rightarrow> (DeserializeError, 'v list) res"
where
  "deserialize_container layouts decs encoding =
     bindR (decoder_new encoding layouts) (\<lambda>d. deserialize_fields d decs)"

end
