(* ===== verification/Ssz_Codec_Laws.thy ===== *)
theory Ssz_Codec_Laws
  imports Ssz_Codec
begin

text \<open>
  The laws of the SSZ building blocks: what the offset checks accept, which byte strings a
  sequence or a container is encoded to, and that the decoders accept exactly these. The client
  is the locale \<open>item_codec\<close>, the contract of one element codec, in which the laws of lists and
  vectors of such elements are proved once.
\<close>

section \<open>Cutting a byte string at offsets\<close>

fun cuts :: "'a list \<Rightarrow> nat list \<Rightarrow> 'a list list" where
  "cuts xs (a # b # bs) = slice_of xs a b # cuts xs (b # bs)"
| "cuts xs bs = []"

fun offsets_from :: "nat \<Rightarrow> 'a list list \<Rightarrow> nat list" where
  "offsets_from c [] = []"
| "offsets_from c (e # es) = c # offsets_from (c + length e) es"

definition offsets_fit :: "nat \<Rightarrow> 'a list list \<Rightarrow> bool" where
  "offsets_fit c es \<longleftrightarrow> (\<forall>o' \<in> set (offsets_from c es). o' \<le> u32_max)"

lemma length_offsets_from [simp]: "length (offsets_from c es) = length es"
  by (induction es arbitrary: c) auto

lemma offsets_from_eq_Nil [simp]: "offsets_from c es = [] \<longleftrightarrow> es = []"
  by (cases es) auto

lemma hd_offsets_from [simp]: "es \<noteq> [] \<Longrightarrow> hd (offsets_from c es) = c"
  by (cases es) auto

lemma offsets_from_ge: "x \<in> set (offsets_from c es) \<Longrightarrow> c \<le> x"
  by (induction es arbitrary: c) (auto, force)

lemma offsets_from_le: "x \<in> set (offsets_from c es) \<Longrightarrow> x \<le> c + length (concat es)"
  by (induction es arbitrary: c) (auto, force)

lemma sorted_offsets_from: "sorted (offsets_from c es)"
  by (induction es arbitrary: c) (auto dest!: offsets_from_ge)

lemma length_cuts: "length (cuts xs bs) = length bs - 1"
  by (induction xs bs rule: cuts.induct) auto

lemma nth_cuts: "i + 1 < length bs \<Longrightarrow> cuts xs bs ! i = slice_of xs (bs ! i) (bs ! (i + 1))"
  by (induction xs bs arbitrary: i rule: cuts.induct) (auto simp: nth_Cons split: nat.splits)

lemma cuts_conv: "length bs = n + 1 \<Longrightarrow> map (\<lambda>i. slice_of xs (bs ! i) (bs ! (i + 1))) [0..<n] = cuts xs bs"
  by (rule nth_equalityI) (auto simp: length_cuts nth_cuts)

text \<open>Cutting at the offsets of the pieces gives the pieces back.\<close>

lemma cuts_offsets_from:
  "length pre = c \<Longrightarrow> cuts (pre @ concat es) (offsets_from c es @ [c + length (concat es)]) = es"
proof (induction es arbitrary: pre c)
  case Nil
  then show ?case by simp
next
  case (Cons e es)
  let ?xs = "pre @ concat (e # es)"
  have IH: "cuts ((pre @ e) @ concat es)
      (offsets_from (c + length e) es @ [c + length e + length (concat es)]) = es"
    by (rule Cons.IH) (simp add: Cons.prems)
  have first: "slice_of ?xs c (c + length e) = e"
    using slice_append_middle [of pre c "c + length e" e "concat es"] Cons.prems by simp
  show ?case
  proof (cases es)
    case Nil
    with first show ?thesis by (simp add: add.assoc)
  next
    case (Cons e' es')
    with first IH show ?thesis by (simp add: add.assoc)
  qed
qed

text \<open>Conversely, in-range non-decreasing offsets are the offsets of the pieces they cut out.\<close>

lemma offsets_from_cuts:
  assumes "sorted offs" and "\<forall>x \<in> set offs. x \<le> length xs" and "offs \<noteq> []"
  shows "offsets_from (hd offs) (cuts xs (offs @ [length xs])) = offs
    \<and> concat (cuts xs (offs @ [length xs])) = drop (hd offs) xs"
  using assms
proof (induction offs)
  case Nil
  then show ?case by simp
next
  case (Cons a offs)
  show ?case
  proof (cases offs)
    case Nil
    then show ?thesis by (simp add: slice_of_def)
  next
    case (Cons b bs)
    have ab: "a \<le> b" and b: "b \<le> length xs" using Cons.prems Cons by auto
    have IH: "offsets_from b (cuts xs (offs @ [length xs])) = offs"
      "concat (cuts xs (offs @ [length xs])) = drop b xs"
      using Cons.IH Cons.prems Cons by auto
    have len: "a + length (slice_of xs a b) = b" using ab b by simp
    show ?thesis
      using IH Cons ab len by (simp add: slice_drop_append)
  qed
qed

lemma concat_length_le: "e \<in> set es \<Longrightarrow> length e \<le> length (concat es)"
  by (induction es) auto

section \<open>What the offset checks accept\<close>

lemma check_offsets_eq_Inr:
  "check_offsets n prev bs offs = Inr r \<longleftrightarrow>
     sorted (prev # offs) \<and> (\<forall>x \<in> set offs. x \<le> n) \<and> r = bs @ offs @ [n]"
  by (induction n prev bs offs rule: check_offsets.induct)
     (auto simp del: sorted_wrt.simps simp: sorted2_simps)

lemma validate_variable_offsets_eq_Inr:
  "offs \<noteq> [] \<Longrightarrow> validate_variable_offsets offs fixed_end n = Inr r \<longleftrightarrow>
     hd offs = fixed_end \<and> sorted offs \<and> (\<forall>x \<in> set offs. x \<le> n) \<and> r = offs @ [n]"
  by (cases offs) (auto simp: check_offsets_eq_Inr)

text \<open>
  The check accepts offsets into a buffer exactly when they are the offsets of some pieces that
  fill the buffer after its fixed part; the bounds then cut out these pieces.
\<close>

lemma validate_variable_offsets_pieces:
  assumes "fixed_end \<le> length xs"
  shows "(\<exists>bounds. validate_variable_offsets offs fixed_end (length xs) = Inr bounds \<and> cuts xs bounds = es)
    \<longleftrightarrow> offs = offsets_from fixed_end es \<and> concat es = drop fixed_end xs"
    (is "?L \<longleftrightarrow> ?R")
proof (cases "offs = []")
  case True
  then show ?thesis using assms by (cases es) auto
next
  case False
  show ?thesis
  proof
    assume ?L
    then have v: "hd offs = fixed_end" "sorted offs" "\<forall>x \<in> set offs. x \<le> length xs"
      and c: "cuts xs (offs @ [length xs]) = es"
      using False by (auto simp: validate_variable_offsets_eq_Inr)
    show ?R using offsets_from_cuts [OF v(2,3) False] v(1) c by simp
  next
    assume R: ?R
    let ?pre = "take fixed_end xs"
    have xs: "?pre @ concat es = xs" using R by simp
    have lpre: "length ?pre = fixed_end" using assms by simp
    have n: "length xs = fixed_end + length (concat es)" using R assms by simp
    have offs: "offs = offsets_from fixed_end es" using R by simp
    have ne: "es \<noteq> []" using offs False by auto
    have "\<forall>x \<in> set offs. x \<le> length xs" unfolding offs n using offsets_from_le by blast
    then have "validate_variable_offsets offs fixed_end (length xs) = Inr (offs @ [length xs])"
      using False ne offs by (simp add: validate_variable_offsets_eq_Inr sorted_offsets_from)
    moreover have "cuts xs (offs @ [length xs]) = es"
      using cuts_offsets_from [OF lpre, of es] unfolding xs n [symmetric] offs .
    ultimately show ?L by blast
  qed
qed

lemma length_validate_variable_offsets:
  "validate_variable_offsets offs fixed_end n = Inr bounds \<Longrightarrow> length bounds = length offs + 1"
  by (cases "offs = []") (auto simp: validate_variable_offsets_eq_Inr split: if_splits)

section \<open>Offset tables\<close>

definition offset_table :: "nat list \<Rightarrow> bytes" where
  "offset_table offs = concat (map (to_le_bytes 4) offs)"

lemma length_offset_table [simp]: "length (offset_table offs) = 4 * length offs"
  by (induction offs) (auto simp: offset_table_def)

lemma offset_table_Cons [simp]: "offset_table (x # xs) = to_le_bytes 4 x @ offset_table xs"
  by (simp add: offset_table_def)

lemma offset_table_Nil [simp]: "offset_table [] = []"
  by (simp add: offset_table_def)

lemma le4_lt: "x \<le> u32_max \<longleftrightarrow> x < 256 ^ 4"
  by (auto simp: u32_max_def)

lemma from_le_bytes_4: "length bs = 4 \<Longrightarrow> from_le_bytes bs \<le> u32_max"
  using from_le_bytes_lt [of bs] by (simp add: u32_max_def)

lemma read_offset_at_eq_Inr:
  "length enc \<le> u64_max \<Longrightarrow> read_offset_at enc c = Inr x \<longleftrightarrow>
     c + 4 \<le> length enc \<and> x = from_le_bytes (slice_of enc c (c + 4))"
  by (auto simp: read_offset_at_def bindR_eq_Inr ok_or_eq_Inr checked_add_eq_Some
      BYTES_PER_LENGTH_OFFSET_def)

lemma read_offset_at_append:
  assumes "length pre = c" and "x \<le> u32_max" and "length (pre @ to_le_bytes 4 x @ post) \<le> u64_max"
  shows "read_offset_at (pre @ to_le_bytes 4 x @ post) c = Inr x"
proof -
  have "slice_of (pre @ to_le_bytes 4 x @ post) c (c + 4) = to_le_bytes 4 x"
    by (rule slice_append_middle) (simp_all add: assms(1))
  then show ?thesis
    using assms by (simp add: read_offset_at_eq_Inr from_to_le_bytes le4_lt)
qed

text \<open>Reading the first \<open>n\<close> offset words of a buffer inverts writing them.\<close>

lemma read_offset_table:
  assumes "length enc \<le> u64_max" and "4 * n \<le> length enc"
  shows "mapR (\<lambda>i. read_offset_at enc (i * 4)) [0..<n] = Inr offs \<longleftrightarrow>
    length offs = n \<and> (\<forall>x \<in> set offs. x \<le> u32_max) \<and> take (4 * n) enc = offset_table offs"
  using assms(2)
proof (induction n arbitrary: offs)
  case 0
  then show ?case by auto
next
  case (Suc n)
  let ?w = "slice_of enc (4 * n) (4 * n + 4)"
  let ?R = "\<lambda>m os. length os = m \<and> (\<forall>x \<in> set os. x \<le> u32_max) \<and> take (4 * m) enc = offset_table os"
  have lw: "length ?w = 4" using Suc.prems by simp
  have read: "read_offset_at enc (n * 4) = Inr (from_le_bytes ?w)"
    using Suc.prems assms(1) by (simp add: read_offset_at_eq_Inr mult.commute)
  have tk: "take (4 * Suc n) enc = take (4 * n) enc @ ?w"
    using take_slice_append [of "4 * n" "4 * n + 4" enc] by (simp add: add.commute)
  have app: "offset_table (os @ [x]) = offset_table os @ to_le_bytes 4 x" for os x
    by (simp add: offset_table_def)
  have step: "mapR f (ys @ [y]) = Inr zs \<longleftrightarrow>
      (\<exists>us u. mapR f ys = Inr us \<and> f y = Inr u \<and> zs = us @ [u])" for f :: "nat \<Rightarrow> (DeserializeError, nat) res" and ys y zs
    by (auto simp: mapR_eq_Inr list_all2_append1 list_all2_Cons1) (metis list_all2_lengthD)
  have "mapR (\<lambda>i. read_offset_at enc (i * 4)) [0..<Suc n] = Inr offs \<longleftrightarrow>
      (\<exists>os. ?R n os \<and> offs = os @ [from_le_bytes ?w])"
    using Suc.IH Suc.prems read by (auto simp: step)
  also have "\<dots> \<longleftrightarrow> ?R (Suc n) offs"
  proof
    assume "\<exists>os. ?R n os \<and> offs = os @ [from_le_bytes ?w]"
    then show "?R (Suc n) offs"
      using lw tk by (auto simp: app to_from_le_bytes from_le_bytes_4)
  next
    assume R: "?R (Suc n) offs"
    then obtain os x where offs: "offs = os @ [x]" by (metis Zero_not_Suc list.size(3) rev_exhaust)
    have "take (4 * n) enc @ ?w = offset_table os @ to_le_bytes 4 x"
      using R tk by (simp add: offs app)
    moreover have "length (take (4 * n) enc) = length (offset_table os)"
      using R Suc.prems by (simp add: offs)
    ultimately have "take (4 * n) enc = offset_table os" and "?w = to_le_bytes 4 x" by simp_all
    then have "x = from_le_bytes ?w" using R by (simp add: offs from_to_le_bytes le4_lt)
    then show "\<exists>os. ?R n os \<and> offs = os @ [from_le_bytes ?w]"
      using R offs \<open>take (4 * n) enc = offset_table os\<close> by auto
  qed
  finally show ?case .
qed

section \<open>Sequences\<close>

lemma map_Inr_eq_iff: "mapR id rs = Inr es \<longleftrightarrow> rs = map Inr es"
  by (simp add: mapR_eq_Inr list_all2_conv_all_nth list_eq_iff_nth_eq) auto

lemma offsets_fit_Cons:
  "offsets_fit c (e # es) \<longleftrightarrow> c \<le> u32_max \<and> offsets_fit (c + length e) es"
  by (simp add: offsets_fit_def)

lemma offsets_fit_Nil [simp]: "offsets_fit c []"
  by (simp add: offsets_fit_def)

lemma u32_le_u64: "x \<le> u32_max \<Longrightarrow> x \<le> u64_max"
  by (simp add: u32_max_def u64_max_def)

lemma serialize_variable_items_eq_Inr:
  "serialize_variable_items fixed variable offset rs = Inr (f, v) \<longleftrightarrow>
     (\<exists>es. rs = map Inr es \<and> offsets_fit offset es
        \<and> (es = [] \<or> offset + length (concat es) \<le> u64_max)
        \<and> f = fixed @ offset_table (offsets_from offset es) \<and> v = variable @ concat es)"
proof (induction fixed variable offset rs rule: serialize_variable_items.induct)
  case (1 fixed variable offset)
  then show ?case by auto
next
  case (2 fixed variable offset r rs)
  show ?case
  proof (cases "\<exists>e. r = Inr e \<and> offset \<le> u32_max \<and> offset + length e \<le> u64_max")
    case True
    then obtain e where r: "r = Inr e" and o32: "offset \<le> u32_max"
      and o64: "offset + length e \<le> u64_max" by blast
    have IH: "serialize_variable_items (fixed @ to_le_bytes 4 offset) (variable @ e)
          (offset + length e) rs = Inr (f, v) \<longleftrightarrow>
        (\<exists>es. rs = map Inr es \<and> offsets_fit (offset + length e) es
          \<and> (es = [] \<or> offset + length e + length (concat es) \<le> u64_max)
          \<and> f = (fixed @ to_le_bytes 4 offset) @ offset_table (offsets_from (offset + length e) es)
          \<and> v = (variable @ e) @ concat es)"
      by (rule "2.IH") (use r o32 o64 in \<open>auto simp: write_offset_def checked_add_def\<close>)
    have ex: "(\<exists>es. r # rs = map Inr es \<and> P es) \<longleftrightarrow> (\<exists>es. rs = map Inr es \<and> P (e # es))" for P
      using r by (auto simp: Cons_eq_map_conv)
    show ?thesis
      unfolding ex using r o32 o64 IH
      by (auto simp: write_offset_def checked_add_def offsets_fit_Cons add.assoc)
  next
    case False
    then show ?thesis
      by (auto simp: write_offset_def bindR_eq_Inr ok_or_eq_Inr checked_add_eq_Some
          Cons_eq_map_conv offsets_fit_Cons split: if_splits)
  qed
qed

text \<open>The encoding of a sequence of variable-size items: an offset table, then the items.\<close>

lemma serialize_sequence_variable:
  "serialize_sequence True rs = Inr b \<longleftrightarrow>
     (\<exists>es. rs = map Inr es \<and> offsets_fit (4 * length es) es
        \<and> 4 * length es + length (concat es) \<le> u64_max
        \<and> b = offset_table (offsets_from (4 * length es) es) @ concat es)"
  by (fastforce simp: serialize_sequence_def bindR_eq_Inr ok_or_eq_Inr checked_mul_eq_Some
      checked_add_eq_Some BYTES_PER_LENGTH_OFFSET_def serialize_variable_items_eq_Inr mult.commute)

lemma serialize_sequence_fixed:
  "serialize_sequence False rs = Inr b \<longleftrightarrow> (\<exists>es. rs = map Inr es \<and> b = concat es)"
  by (auto simp: serialize_sequence_def bindR_eq_Inr map_Inr_eq_iff)

lemma deserialize_variable_items_eq_Inr:
  assumes len: "length enc \<le> u64_max"
  shows "deserialize_variable_items dec enc n = Inr vs \<longleftrightarrow>
    (\<exists>es. list_all2 (\<lambda>e v. dec e = Inr v) es vs \<and> length es = n \<and> offsets_fit (4 * n) es
       \<and> enc = offset_table (offsets_from (4 * n) es) @ concat es)"
    (is "?L \<longleftrightarrow> ?R")
proof (cases "4 * n \<le> length enc")
  case False
  have "\<not> ?R" using False by auto
  moreover have "\<not> ?L"
    using False
    by (auto simp: deserialize_variable_items_def bindR_eq_Inr BYTES_PER_LENGTH_OFFSET_def
        ok_or_eq_Inr checked_mul_eq_Some mult.commute)
  ultimately show ?thesis by simp
next
  case fits: True
  let ?read = "\<lambda>offs. length offs = n \<and> (\<forall>x \<in> set offs. x \<le> u32_max)
    \<and> take (4 * n) enc = offset_table offs"
  have mul: "n * 4 \<le> u64_max" using fits len by simp
  have L: "?L \<longleftrightarrow> (\<exists>offs bounds. ?read offs
      \<and> validate_variable_offsets offs (4 * n) (length enc) = Inr bounds
      \<and> mapR dec (cuts enc bounds) = Inr vs)" (is "_ \<longleftrightarrow> ?M")
  proof -
    have len_bounds: "length bounds = n + 1"
      if "?read offs" and "validate_variable_offsets offs (4 * n) (length enc) = Inr bounds"
      for offs bounds
      using that by (cases "offs = []") (auto simp: validate_variable_offsets_eq_Inr split: if_splits)
    have conv: "mapR (\<lambda>i. dec (slice_of enc (bounds ! i) (bounds ! (i + 1)))) [0..<n]
        = mapR dec (cuts enc bounds)" if "length bounds = n + 1" for bounds
      unfolding cuts_conv [OF that, symmetric] by (simp add: mapR_map)
    have table: "mapR (\<lambda>i. read_offset_at enc (i * 4)) [0..<n] = Inr offs \<longleftrightarrow> ?read offs" for offs
      using read_offset_table [OF len fits] .
    have "?L \<longleftrightarrow> (\<exists>offs bounds. ?read offs
        \<and> validate_variable_offsets offs (4 * n) (length enc) = Inr bounds
        \<and> mapR (\<lambda>i. dec (slice_of enc (bounds ! i) (bounds ! (i + 1)))) [0..<n] = Inr vs)"
      using mul fits
      by (simp add: deserialize_variable_items_def bindR_eq_Inr BYTES_PER_LENGTH_OFFSET_def
          ok_or_eq_Inr checked_mul_eq_Some table mult.commute del: upt_Suc)
    also have "\<dots> \<longleftrightarrow> ?M"
    proof (intro iff_exI conj_cong refl)
      fix offs bounds
      assume "?read offs" and "validate_variable_offsets offs (4 * n) (length enc) = Inr bounds"
      then have "length bounds = n + 1" by (rule len_bounds)
      then show "mapR (\<lambda>i. dec (slice_of enc (bounds ! i) (bounds ! (i + 1)))) [0..<n] = Inr vs
        \<longleftrightarrow> mapR dec (cuts enc bounds) = Inr vs"
        by (simp only: conv)
    qed
    finally show ?thesis .
  qed
  also have "\<dots> \<longleftrightarrow> ?R"
  proof (cases "n = 0")
    case True
    then show ?thesis
      by (auto simp: mapR_eq_Inr split: if_splits)
  next
    case False
    show ?thesis
    proof
      assume ?M
      then obtain offs bounds where r: "?read offs"
        and b: "validate_variable_offsets offs (4 * n) (length enc) = Inr bounds"
        and v: "mapR dec (cuts enc bounds) = Inr vs" by blast
      have "offs \<noteq> []" using r False by auto
      define es where "es = cuts enc bounds"
      have offs: "offs = offsets_from (4 * n) es" and rest: "concat es = drop (4 * n) enc"
        using validate_variable_offsets_pieces [OF fits, of offs es] b
        by (auto simp: es_def)
      have "take (4 * n) enc @ drop (4 * n) enc = offset_table offs @ concat es"
        using r rest by simp
      then have "enc = offset_table (offsets_from (4 * n) es) @ concat es"
        unfolding append_take_drop_id offs .
      moreover have "length es = n" and "offsets_fit (4 * n) es"
        using r unfolding offs offsets_fit_def by simp_all
      moreover have "list_all2 (\<lambda>e v. dec e = Inr v) es vs"
        using v by (simp add: mapR_eq_Inr es_def)
      ultimately show ?R by blast
    next
      assume ?R
      then obtain es where es: "list_all2 (\<lambda>e v. dec e = Inr v) es vs" "length es = n"
        "offsets_fit (4 * n) es" and enc: "enc = offset_table (offsets_from (4 * n) es) @ concat es"
        by blast
      let ?offs = "offsets_from (4 * n) es"
      have tk: "take (4 * n) enc = offset_table ?offs" and dr: "concat es = drop (4 * n) enc"
        using es(2) by (simp_all add: enc)
      have "?offs \<noteq> []" using es(2) False by auto
      then obtain bounds where
        "validate_variable_offsets ?offs (4 * n) (length enc) = Inr bounds" "cuts enc bounds = es"
        using validate_variable_offsets_pieces [OF fits, of ?offs es] dr by auto
      moreover have "?read ?offs" using es(2,3) tk by (simp add: offsets_fit_def)
      moreover have "mapR dec es = Inr vs" using es(1) by (simp add: mapR_eq_Inr)
      ultimately show ?M by blast
    qed
  qed
  finally show ?thesis .
qed

text \<open>Cutting into chunks of a fixed width inverts concatenation.\<close>

lemma chunks_exact_stop: "length xs < w \<Longrightarrow> chunks_exact w xs = []"
  by (subst chunks_exact.simps) simp

lemma chunks_exact_step:
  "0 < w \<Longrightarrow> w \<le> length xs \<Longrightarrow> chunks_exact w xs = take w xs # chunks_exact w (drop w xs)"
  by (subst chunks_exact.simps) simp

lemma chunks_exact_concat:
  "0 < w \<Longrightarrow> (\<forall>e \<in> set es. length e = w) \<Longrightarrow> chunks_exact w (concat es) = es"
proof (induction es)
  case (Cons e es)
  then show ?case using chunks_exact_step [of w "e @ concat es"] by simp
qed (simp add: chunks_exact_stop)

lemma chunks_exact_props:
  "0 < w \<Longrightarrow> length xs = n * w \<Longrightarrow>
     concat (chunks_exact w xs) = xs \<and> list_all (\<lambda>e. length e = w) (chunks_exact w xs)"
proof (induction n arbitrary: xs)
  case 0
  then show ?case by (simp add: chunks_exact_stop)
next
  case (Suc n)
  have w: "w \<le> length xs" and d: "length (drop w xs) = n * w" using Suc.prems by simp_all
  from Suc.IH [OF Suc.prems(1) d] w show ?case
    by (simp add: chunks_exact_step [OF Suc.prems(1) w] min_absorb2)
qed

lemma mapR_chunks_exact:
  assumes "0 < w" and "length enc mod w = 0"
  shows "mapR dec (chunks_exact w enc) = Inr vs \<longleftrightarrow>
    (\<exists>es. list_all2 (\<lambda>e v. dec e = Inr v) es vs \<and> list_all (\<lambda>e. length e = w) es \<and> enc = concat es)"
    (is "?L \<longleftrightarrow> ?R")
proof
  assume ?L
  have "length enc = (length enc div w) * w"
    using assms(2) div_mult_mod_eq [of "length enc" w] by linarith
  from chunks_exact_props [OF assms(1) this] \<open>?L\<close> show ?R
    by (intro exI [of _ "chunks_exact w enc"]) (simp add: mapR_eq_Inr)
next
  assume ?R
  then show ?L
    by (auto simp: mapR_eq_Inr chunks_exact_concat [OF assms(1)] list_all_iff)
qed

lemma concat_fixed_length: "list_all (\<lambda>e. length e = w) es \<Longrightarrow> length (concat es) = length es * w"
  by (induction es) auto

lemma all_encodings:
  assumes "map ser vs = map Inr es" and "list_all ok vs" and "\<And>v e. ok v \<Longrightarrow> ser v = Inr e \<Longrightarrow> P e"
  shows "list_all P es"
  using assms(1,2)
proof (induction es arbitrary: vs)
  case (Cons e es)
  then show ?case using assms(3) [of _ e] by (cases vs) auto
qed auto

text \<open>
  The decoders are specified on inputs of at most \<open>2 ^ 60\<close> bytes, for which no byte or bit count
  overflows a \<open>usize\<close>.
\<close>

definition max_len :: nat where
  "max_len = 2 ^ 60"

lemma max_len_le_u64: "n \<le> max_len \<Longrightarrow> n \<le> u64_max"
  by (simp add: max_len_def u64_max_def)

lemma pieces_small: "length (concat es) \<le> max_len \<Longrightarrow> list_all (\<lambda>e. length e \<le> max_len) es"
  by (induction es) (simp_all del: length_concat)

section \<open>The contract of an element codec\<close>

text \<open>
  \<open>item_codec var w ser dec ok\<close>: the decoder accepts a byte string exactly when it is the encoding
  of an admissible value, and fixed-size encodings have \<open>w > 0\<close> bytes.
\<close>

locale item_codec =
  fixes var :: bool and w :: nat
    and ser :: "'v \<Rightarrow> (SerializeError, bytes) res"
    and dec :: "bytes \<Rightarrow> (DeserializeError, 'v) res"
    and ok :: "'v \<Rightarrow> bool"
  assumes codec: "length e \<le> max_len \<Longrightarrow> dec e = Inr v \<longleftrightarrow> ok v \<and> ser v = Inr e"
    and fixed_length: "\<not> var \<Longrightarrow> ok v \<Longrightarrow> ser v = Inr e \<Longrightarrow> length e = w"
begin

lemma items_codec:
  "list_all (\<lambda>e. length e \<le> max_len) es \<Longrightarrow>
     list_all2 (\<lambda>e v. dec e = Inr v) es vs \<longleftrightarrow> list_all ok vs \<and> map ser vs = map Inr es"
proof (induction es arbitrary: vs)
  case (Cons e es)
  then show ?case using codec [of e] by (cases vs) auto
qed auto

lemma variable_items_codec:
  assumes "length enc \<le> max_len"
  shows "deserialize_variable_items dec enc n = Inr vs \<longleftrightarrow>
    length vs = n \<and> list_all ok vs \<and> serialize_sequence True (map ser vs) = Inr enc" (is "?L \<longleftrightarrow> ?R")
proof
  assume ?L
  then obtain es where es: "list_all2 (\<lambda>e v. dec e = Inr v) es vs" "length es = n"
    "offsets_fit (4 * n) es" and enc: "enc = offset_table (offsets_from (4 * n) es) @ concat es"
    unfolding deserialize_variable_items_eq_Inr [OF max_len_le_u64 [OF assms]] by blast
  have "list_all (\<lambda>e. length e \<le> max_len) es" by (rule pieces_small) (use assms enc in simp)
  then have v: "list_all ok vs" "map ser vs = map Inr es" using items_codec es(1) by simp_all
  moreover have "length vs = n" using es(1,2) by (simp add: list_all2_lengthD [symmetric])
  moreover have "4 * length es + length (concat es) \<le> u64_max"
    using max_len_le_u64 [OF assms] by (simp add: enc del: length_concat)
  ultimately show ?R
    unfolding serialize_sequence_variable using es(2,3) enc by (intro conjI exI [of _ es]) simp_all
next
  assume R: ?R
  then obtain es where es: "map ser vs = map Inr es" "offsets_fit (4 * length es) es"
    "enc = offset_table (offsets_from (4 * length es) es) @ concat es"
    unfolding serialize_sequence_variable by blast
  have n: "length es = n" using R map_eq_imp_length_eq [OF es(1)] by simp
  have "list_all (\<lambda>e. length e \<le> max_len) es" by (rule pieces_small) (use assms es(3) in simp)
  then have "list_all2 (\<lambda>e v. dec e = Inr v) es vs" using items_codec es(1) R by simp
  then show ?L
    unfolding deserialize_variable_items_eq_Inr [OF max_len_le_u64 [OF assms]]
    using es(2,3) n by (intro exI [of _ es]) simp
qed

lemma fixed_items_codec:
  assumes "length enc \<le> max_len" and "length enc mod w = 0" and "0 < w" and "\<not> var"
  shows "mapR dec (chunks_exact w enc) = Inr vs \<longleftrightarrow>
    list_all ok vs \<and> serialize_sequence False (map ser vs) = Inr enc" (is "?L \<longleftrightarrow> ?R")
proof -
  have small: "list_all (\<lambda>e. length e \<le> max_len) es" if "enc = concat es" for es
    using pieces_small [of es] that assms(1) by simp
  have width: "list_all (\<lambda>e. length e = w) es" if "map ser vs = map Inr es" "list_all ok vs" for es
    by (rule all_encodings [OF that]) (rule fixed_length [OF assms(4)])
  have "?L \<longleftrightarrow> (\<exists>es. list_all ok vs \<and> map ser vs = map Inr es \<and> enc = concat es)"
    unfolding mapR_chunks_exact [OF assms(3,2)]
  proof (intro iff_exI iffI)
    fix es
    assume A: "list_all2 (\<lambda>e v. dec e = Inr v) es vs \<and> list_all (\<lambda>e. length e = w) es \<and> enc = concat es"
    then have "list_all (\<lambda>e. length e \<le> max_len) es" using small by simp
    with A show "list_all ok vs \<and> map ser vs = map Inr es \<and> enc = concat es"
      using items_codec by simp
  next
    fix es
    assume A: "list_all ok vs \<and> map ser vs = map Inr es \<and> enc = concat es"
    then have "list_all (\<lambda>e. length e \<le> max_len) es" using small by simp
    with A show "list_all2 (\<lambda>e v. dec e = Inr v) es vs \<and> list_all (\<lambda>e. length e = w) es \<and> enc = concat es"
      using items_codec width by simp
  qed
  also have "\<dots> \<longleftrightarrow> ?R"
    unfolding serialize_sequence_fixed by blast
  finally show ?thesis .
qed

lemma fixed_sequence_length:
  assumes "\<not> var" and "list_all ok vs" and "serialize_sequence False (map ser vs) = Inr enc"
  shows "length enc = length vs * w"
proof -
  from assms(3) obtain es where es: "map ser vs = map Inr es" "enc = concat es"
    unfolding serialize_sequence_fixed by blast
  have "length vs = length es" using map_eq_imp_length_eq [OF es(1)] .
  moreover have "list_all (\<lambda>e. length e = w) es"
    by (rule all_encodings [OF es(1) assms(2)]) (rule fixed_length [OF assms(1)])
  ultimately show ?thesis by (simp only: es(2) concat_fixed_length)
qed

lemma variable_sequence_first_offset:
  assumes "length enc \<le> max_len" and "serialize_sequence True (map ser vs) = Inr enc" and "enc \<noteq> []"
  shows "read_offset_at enc 0 = Inr (4 * length vs) \<and> vs \<noteq> []"
proof -
  from assms(2) obtain es where es: "map ser vs = map Inr es" "offsets_fit (4 * length es) es"
    "enc = offset_table (offsets_from (4 * length es) es) @ concat es"
    unfolding serialize_sequence_variable by blast
  have len: "length vs = length es" using map_eq_imp_length_eq [OF es(1)] .
  have "es \<noteq> []" using es(3) assms(3) by auto
  then obtain e es' where e: "es = e # es'" by (cases es) auto
  define post where "post = offset_table (offsets_from (4 * length es + length e) es') @ concat es"
  have enc: "enc = [] @ to_le_bytes 4 (4 * length es) @ post"
    unfolding es(3) post_def by (simp add: e)
  have "4 * length es \<le> u32_max" using es(2) unfolding e offsets_fit_Cons by blast
  then have "read_offset_at enc 0 = Inr (4 * length es)"
    using read_offset_at_append [of "[]" 0 "4 * length es" post] max_len_le_u64 [OF assms(1)] unfolding enc by simp
  then show ?thesis using len \<open>es \<noteq> []\<close> by auto
qed

lemma variable_list_codec:
  assumes "length enc \<le> max_len"
  shows "deserialize_list_items True w dec limit enc = Inr vs \<longleftrightarrow>
    length vs \<le> limit \<and> list_all ok vs \<and> serialize_sequence True (map ser vs) = Inr enc"
    (is "?L \<longleftrightarrow> ?R")
proof (cases "enc = []")
  case True
  have "vs = []" if "serialize_sequence True (map ser vs) = Inr []"
  proof -
    from that obtain es where "map ser vs = map Inr es"
      "[] = offset_table (offsets_from (4 * length es) es) @ concat es"
      unfolding serialize_sequence_variable by blast
    then show ?thesis using length_offset_table [of "offsets_from (4 * length es) es"] by simp
  qed
  moreover have "serialize_sequence True (map ser []) = Inr []"
    by (simp add: serialize_sequence_variable u64_max_def)
  ultimately have R: "?R \<longleftrightarrow> vs = []" unfolding True by fastforce
  have "?L \<longleftrightarrow> vs = []" unfolding True by (auto simp: deserialize_list_items_def)
  then show ?thesis unfolding R .
next
  case False
  have L: "?L \<longleftrightarrow> (\<exists>n. 0 < n \<and> read_offset_at enc 0 = Inr (4 * n) \<and> n \<le> limit
        \<and> deserialize_variable_items dec enc n = Inr vs)"
  proof (cases "read_offset_at enc 0")
    case (Inl e)
    then show ?thesis using False by (simp add: deserialize_list_items_def)
  next
    case (Inr x)
    have "?L \<longleftrightarrow> x \<noteq> 0 \<and> x mod 4 = 0 \<and> x div 4 \<le> limit
        \<and> deserialize_variable_items dec enc (x div 4) = Inr vs"
      using False Inr
      by (simp add: deserialize_list_items_def BYTES_PER_LENGTH_OFFSET_def Let_def)
    also have "\<dots> \<longleftrightarrow> (\<exists>n. 0 < n \<and> x = 4 * n \<and> n \<le> limit
        \<and> deserialize_variable_items dec enc n = Inr vs)"
      by (rule iffI, rule exI [of _ "x div 4"]) (simp add: div_greater_zero_iff dvd_imp_le, auto)
    finally show ?thesis using Inr by (simp only: sum.inject)
  qed
  show ?thesis
  proof
    assume ?L
    then show ?R unfolding L variable_items_codec [OF assms] by blast
  next
    assume R: ?R
    from variable_sequence_first_offset [OF assms _ False] R show ?L
      unfolding L variable_items_codec [OF assms] by (intro exI [of _ "length vs"]) simp
  qed
qed

lemma fixed_list_codec:
  assumes "length enc \<le> max_len" and "0 < w" and "\<not> var"
  shows "deserialize_list_items False w dec limit enc = Inr vs \<longleftrightarrow>
    length vs \<le> limit \<and> list_all ok vs \<and> serialize_sequence False (map ser vs) = Inr enc"
    (is "?L \<longleftrightarrow> ?R")
proof (cases "length enc mod w = 0")
  case True
  have "?L \<longleftrightarrow> length enc div w \<le> limit \<and> mapR dec (chunks_exact w enc) = Inr vs"
    using assms(2) True by (simp add: deserialize_list_items_def Let_def)
  also have "\<dots> \<longleftrightarrow> length enc div w \<le> limit \<and> list_all ok vs
      \<and> serialize_sequence False (map ser vs) = Inr enc"
    by (simp only: fixed_items_codec [OF assms(1) True assms(2,3)])
  also have "\<dots> \<longleftrightarrow> ?R"
    using fixed_sequence_length [OF assms(3), of vs enc] assms(2) by auto
  finally show ?thesis .
next
  case False
  then have "\<not> ?L" using assms(2) by (simp add: deserialize_list_items_def Let_def)
  moreover have "\<not> ?R"
    using fixed_sequence_length [OF assms(3), of vs enc] False by auto
  ultimately show ?thesis by simp
qed

lemma list_items_codec:
  assumes "length enc \<le> max_len" and "var \<or> 0 < w"
  shows "deserialize_list_items var w dec limit enc = Inr vs \<longleftrightarrow>
    length vs \<le> limit \<and> list_all ok vs \<and> serialize_sequence var (map ser vs) = Inr enc"
proof (cases var)
  case True
  then show ?thesis using variable_list_codec [OF assms(1)] by simp
next
  case False
  then show ?thesis using fixed_list_codec [OF assms(1)] assms(2) by simp
qed

lemma fixed_vector_codec:
  assumes "length enc \<le> max_len" and "0 < w" and "\<not> var"
  shows "deserialize_vector_items False w dec n enc = Inr vs \<longleftrightarrow>
    length vs = n \<and> list_all ok vs \<and> serialize_sequence False (map ser vs) = Inr enc"
    (is "?L \<longleftrightarrow> ?R")
proof (cases "length enc = n * w")
  case True
  have "?L \<longleftrightarrow> mapR dec (chunks_exact w enc) = Inr vs"
    using True max_len_le_u64 [OF assms(1)] by (simp add: deserialize_vector_items_def checked_mul_def)
  also have "\<dots> \<longleftrightarrow> list_all ok vs \<and> serialize_sequence False (map ser vs) = Inr enc"
    using True by (intro fixed_items_codec [OF assms(1) _ assms(2,3)]) simp
  also have "\<dots> \<longleftrightarrow> ?R"
    using fixed_sequence_length [OF assms(3), of vs enc] assms(2) True by auto
  finally show ?thesis .
next
  case False
  then have "\<not> ?L"
    by (auto simp: deserialize_vector_items_def bindR_eq_Inr ok_or_eq_Inr checked_mul_eq_Some
        split: if_splits)
  moreover have "\<not> ?R"
    using fixed_sequence_length [OF assms(3), of vs enc] False by auto
  ultimately show ?thesis by simp
qed

lemma vector_items_codec:
  assumes "length enc \<le> max_len" and "var \<or> 0 < w" and "0 < n"
  shows "deserialize_vector_items var w dec n enc = Inr vs \<longleftrightarrow>
    length vs = n \<and> list_all ok vs \<and> serialize_sequence var (map ser vs) = Inr enc"
proof (cases var)
  case True
  then show ?thesis
    using variable_items_codec [OF assms(1), of n vs] assms(3)
    by (simp add: deserialize_vector_items_def)
next
  case False
  then show ?thesis using fixed_vector_codec [OF assms(1)] assms(2) by simp
qed

end

end
