(* ===== verification/Ssz_Bits.thy ===== *)
theory Ssz_Bits
  imports Ssz_Codec_Laws
begin

unbundle bit_operations_syntax

text \<open>
  Bitvectors and bitlists (\<open>ssz/bitfield.rs\<close>): bits are packed least significant bit first, a
  bitvector must leave its padding bits clear, and a bitlist ends in a delimiter bit that gives its
  length. Both decoders accept exactly the encodings.
\<close>

section \<open>Packing (bitfield.rs)\<close>

definition bitfield_byte_len :: "usize \<Rightarrow> usize" where
  "bitfield_byte_len bits = div_ceil bits 8"

definition set_bit_at :: "bytes \<Rightarrow> usize \<times> bool \<Rightarrow> bytes" where
  "set_bit_at bytes ib = (case ib of (index, b) \<Rightarrow>
     if b then bytes[index div 8 := bytes ! (index div 8) OR push_bit (index mod 8) 1] else bytes)"

definition pack_bits :: "bool list \<Rightarrow> bytes" where
  "pack_bits bits =
     foldl set_bit_at (replicate (bitfield_byte_len (length bits)) 0) (enumerate 0 bits)"

definition bit_at :: "bytes \<Rightarrow> usize \<Rightarrow> bool" where
  "bit_at bytes index \<longleftrightarrow> bytes ! (index div 8) AND push_bit (index mod 8) 1 \<noteq> 0"

definition validate_padding_bits :: "bytes \<Rightarrow> usize \<Rightarrow> (DeserializeError, unit) res" where
  "validate_padding_bits bytes bits =
     (if bits = 0 \<or> bits mod 8 = 0 then Inr ()
      else
        let used_bits = bits mod 8;
            mask = NOT (push_bit used_bits 1 - 1);
            last_byte = (if bytes = [] then 0 else last bytes)
        in if last_byte AND mask \<noteq> 0 then Inl NonZeroPaddingBits else Inr ())"

text \<open>\<open>u8::leading_zeros\<close>.\<close>

definition leading_zeros_u8 :: "byte \<Rightarrow> nat" where
  "leading_zeros_u8 b = length (takeWhile (\<lambda>i. \<not> bit b i) [7, 6, 5, 4, 3, 2, 1, 0])"

definition bitvector_serialize :: "bool list \<Rightarrow> (SerializeError, bytes) res" where
  "bitvector_serialize bits = Inr (pack_bits bits)"

definition bitvector_deserialize :: "usize \<Rightarrow> bytes \<Rightarrow> (DeserializeError, bool list) res" where
  "bitvector_deserialize n encoding =
     (let expected = bitfield_byte_len n in
      if length encoding < expected then Inl (ExpectedFurtherInput (length encoding) expected)
      else if length encoding > expected then Inl (AdditionalInput (length encoding) expected)
      else bindR (validate_padding_bits encoding n) (\<lambda>_.
        Inr (map (bit_at encoding) [0..<n])))"

definition bitlist_serialize :: "usize \<Rightarrow> bool list \<Rightarrow> (SerializeError, bytes) res" where
  "bitlist_serialize n bits =
     (if length bits > n then Inl (SerListTooLong (length bits) n)
      else
        let bytes = pack_bits bits;
            delimiter_index = length bits mod 8
        in if delimiter_index = 0 then Inr (bytes @ [1])
           else if bytes = [] then Inr bytes
           else Inr (bytes[length bytes - 1 := last bytes OR push_bit delimiter_index 1]))"

definition bitlist_deserialize :: "usize \<Rightarrow> bytes \<Rightarrow> (DeserializeError, bool list) res" where
  "bitlist_deserialize n encoding =
     (if encoding = [] then Inl MissingBitlistDelimiter
      else if last encoding = 0 then Inl MissingBitlistDelimiter
      else
        let delimiter_index = saturating_sub 7 (leading_zeros_u8 (last encoding));
            bit_len = wrapping_add (wrapping_mul (length encoding - 1) 8) delimiter_index
        in if bit_len > n then Inl (DeListTooLong bit_len n)
           else
             let last_index = length encoding - 1;
                 payload = encoding[last_index :=
                   encoding ! last_index AND NOT (push_bit delimiter_index 1)]
             in Inr (map (bit_at payload) [0..<bit_len]))"

section \<open>What packing stores\<close>

lemma bit_push_one: "k < 8 \<Longrightarrow> bit (push_bit m (1 :: byte)) k \<longleftrightarrow> k = m"
  by (auto simp: bit_simps)

lemma bit_at_iff: "bit_at bytes i \<longleftrightarrow> bit (bytes ! (i div 8)) (i mod 8)"
  by (simp only: bit_at_def bit_iff_and_push_bit_not_eq_0)

lemma byte_eqI: "(\<And>k. k < 8 \<Longrightarrow> bit (x :: byte) k \<longleftrightarrow> bit y k) \<Longrightarrow> x = y"
  by (rule bit_word_eqI) simp

lemma bytes_eqI:
  assumes "length xs = length ys" and "\<And>i. i < 8 * length xs \<Longrightarrow> bit_at xs i \<longleftrightarrow> bit_at ys i"
  shows "xs = ys"
proof (rule nth_equalityI [OF assms(1)])
  fix j assume j: "j < length xs"
  show "xs ! j = ys ! j"
  proof (rule byte_eqI)
    fix k :: nat assume "k < 8"
    then show "bit (xs ! j) k \<longleftrightarrow> bit (ys ! j) k"
      using assms(2) [of "8 * j + k"] j by (simp add: bit_at_iff)
  qed
qed

lemma length_set_bits: "length (foldl set_bit_at bs ibs) = length bs"
  by (induction ibs arbitrary: bs) (auto simp: set_bit_at_def split: prod.splits)

lemma bit_at_set_bit_at:
  "j < 8 * length bs \<Longrightarrow> bit_at (set_bit_at bs (j, b)) i \<longleftrightarrow> bit_at bs i \<or> (b \<and> i = j)"
proof -
  assume j: "j < 8 * length bs"
  have ij: "i = j \<longleftrightarrow> i div 8 = j div 8 \<and> i mod 8 = j mod 8" by (metis div_mult_mod_eq)
  have k: "i mod 8 < 8" by simp
  have "j div 8 < length bs" using j by simp
  then show ?thesis
    by (cases "i div 8 = j div 8")
       (auto simp: set_bit_at_def bit_at_iff bit_or_iff bit_push_one [OF k] ij nth_list_update
          simp del: push_bit_of_1)
qed

lemma bit_at_set_bits:
  "length bits \<le> 8 * n \<Longrightarrow> i < 8 * n \<Longrightarrow>
     bit_at (foldl set_bit_at (replicate n 0) (enumerate 0 bits)) i \<longleftrightarrow> i < length bits \<and> bits ! i"
proof (induction bits rule: rev_induct)
  case Nil
  then show ?case by (simp add: bit_at_iff nth_replicate)
next
  case (snoc b bits)
  have "length bits < 8 * length (foldl set_bit_at (replicate n 0) (enumerate 0 bits))"
    using snoc.prems by (simp add: length_set_bits)
  from bit_at_set_bit_at [OF this] snoc show ?case
    by (auto simp: enumerate_append_eq nth_append)
qed

lemma byte_len_bounds: "n \<le> 8 * bitfield_byte_len n" "8 * bitfield_byte_len n < n + 8"
  by (simp_all add: bitfield_byte_len_def div_ceil_def)

lemma byte_len_dvd: "n mod 8 = 0 \<Longrightarrow> bitfield_byte_len n = n div 8"
  unfolding bitfield_byte_len_def div_ceil_def by (auto elim!: dvdE)

lemma byte_len_not_dvd: "n mod 8 \<noteq> 0 \<Longrightarrow> bitfield_byte_len n = n div 8 + 1"
proof -
  assume "n mod 8 \<noteq> 0"
  define q r where "q = n div 8" and "r = n mod 8"
  have n: "n = 8 * q + r" and r: "r < 8" "r \<noteq> 0"
    using \<open>n mod 8 \<noteq> 0\<close> by (simp_all add: q_def r_def)
  have "n + 8 - 1 = 8 * (q + 1) + (r - 1)" using n r by simp
  moreover have "r - 1 < 8" using r by simp
  ultimately have "(n + 8 - 1) div 8 = q + 1" by (simp only: div_mult_self4 div_less add_0_right)
  then show ?thesis by (simp add: q_def bitfield_byte_len_def div_ceil_def)
qed

lemma byte_len_Suc: "bitfield_byte_len (Suc n) = n div 8 + 1"
proof (cases "Suc n mod 8 = 0")
  case True
  then have "Suc n div 8 = Suc (n div 8)" by (simp add: div_Suc)
  then show ?thesis using byte_len_dvd [OF True] by simp
next
  case False
  then have "Suc n div 8 = n div 8" by (simp add: div_Suc)
  then show ?thesis using byte_len_not_dvd [OF False] by simp
qed

lemma length_pack_bits [simp]: "length (pack_bits bits) = bitfield_byte_len (length bits)"
  by (simp add: pack_bits_def length_set_bits)

lemma bit_at_pack_bits:
  "i < 8 * bitfield_byte_len (length bits) \<Longrightarrow> bit_at (pack_bits bits) i \<longleftrightarrow> i < length bits \<and> bits ! i"
  unfolding pack_bits_def by (rule bit_at_set_bits) (simp_all add: byte_len_bounds)

text \<open>The byte strings that pack given bits.\<close>

lemma pack_bits_eq_iff:
  "pack_bits bits = e \<longleftrightarrow> length e = bitfield_byte_len (length bits)
     \<and> (\<forall>i < 8 * length e. bit_at e i \<longleftrightarrow> i < length bits \<and> bits ! i)" (is "?L \<longleftrightarrow> ?R")
proof
  assume ?L
  then show ?R using bit_at_pack_bits by auto
next
  assume R: ?R
  show ?L by (rule bytes_eqI) (use R in \<open>auto simp: bit_at_pack_bits\<close>)
qed

section \<open>Bitvectors\<close>

lemma mask_bit: "k < 8 \<Longrightarrow> bit (NOT (push_bit m 1 - 1) :: byte) k \<longleftrightarrow> m \<le> k"
  by (simp add: push_bit_of_1 mask_eq_exp_minus_1 [symmetric] bit_simps not_less)

lemma byte_and_eq_0_iff: "(x :: byte) AND m = 0 \<longleftrightarrow> (\<forall>k < 8. \<not> (bit x k \<and> bit m k))"
  by (auto simp: bit_eq_iff bit_simps)

lemma last_byte_bits:
  assumes "length e = bitfield_byte_len n" and "0 < length e" and "i < 8 * length e"
    and "8 * (length e - 1) \<le> i"
  shows "bit_at e i \<longleftrightarrow> bit (last e) (i - 8 * (length e - 1))"
proof -
  have "i div 8 = length e - 1" using assms(3,4) by auto
  moreover from this have "i mod 8 = i - 8 * (length e - 1)"
    using minus_mult_div_eq_mod [of i 8] by simp
  ultimately show ?thesis using assms(2) by (simp add: bit_at_iff last_conv_nth)
qed

lemma validate_padding_bits_eq_Inr:
  assumes "length e = bitfield_byte_len n"
  shows "validate_padding_bits e n = Inr u \<longleftrightarrow> (\<forall>i < 8 * length e. n \<le> i \<longrightarrow> \<not> bit_at e i)"
proof (cases "n mod 8 = 0")
  case True
  then have "8 * length e = n"
    using assms byte_len_dvd [OF True] mult_div_mod_eq [of 8 n] True by simp
  then show ?thesis using True by (simp add: validate_padding_bits_def)
next
  case False
  let ?m = "8 * (length e - 1)"
  have "length e = n div 8 + 1" using assms byte_len_not_dvd [OF False] by simp
  then have pos: "0 < length e" and n: "n = ?m + n mod 8" by simp_all
  have "validate_padding_bits e n = Inr u \<longleftrightarrow> (\<forall>k < 8. \<not> (bit (last e) k \<and> n mod 8 \<le> k))"
    using False pos
    by (auto simp: validate_padding_bits_def Let_def byte_and_eq_0_iff mask_bit
        simp del: push_bit_of_1)
  also have "\<dots> \<longleftrightarrow> (\<forall>i < 8 * length e. n \<le> i \<longrightarrow> \<not> bit_at e i)"
  proof (intro iffI allI impI notI)
    fix i assume A: "\<forall>k < 8. \<not> (bit (last e) k \<and> n mod 8 \<le> k)" "i < 8 * length e" "n \<le> i" "bit_at e i"
    then have "bit (last e) (i - ?m)"
      using last_byte_bits [OF assms pos A(2)] n by simp
    moreover have "i - ?m < 8" and "n mod 8 \<le> i - ?m" using A(2,3) n by arith+
    ultimately show False using A(1) by blast
  next
    fix k assume A: "\<forall>i < 8 * length e. n \<le> i \<longrightarrow> \<not> bit_at e i" "k < 8"
      "bit (last e) k \<and> n mod 8 \<le> k"
    have "?m + k < 8 * length e" using A(2) pos by arith
    then show False
      using A last_byte_bits [OF assms pos, of "?m + k"] n by auto
  qed
  finally show ?thesis .
qed

lemma bitvector_codec:
  "bitvector_deserialize n e = Inr bits \<longleftrightarrow> length bits = n \<and> bitvector_serialize bits = Inr e"
proof (cases "length e = bitfield_byte_len n")
  case True
  then have "bitvector_deserialize n e = Inr bits \<longleftrightarrow>
      (\<forall>i < 8 * length e. n \<le> i \<longrightarrow> \<not> bit_at e i) \<and> bits = map (bit_at e) [0..<n]"
    by (auto simp: bitvector_deserialize_def Let_def bindR_eq_Inr validate_padding_bits_eq_Inr)
  also have "\<dots> \<longleftrightarrow> length bits = n \<and> pack_bits bits = e"
  proof
    assume A: "(\<forall>i < 8 * length e. n \<le> i \<longrightarrow> \<not> bit_at e i) \<and> bits = map (bit_at e) [0..<n]"
    then have "length bits = n" by simp
    moreover have "bit_at e i \<longleftrightarrow> i < n \<and> bits ! i" if "i < 8 * length e" for i
      using A that by (cases "i < n") auto
    ultimately show "length bits = n \<and> pack_bits bits = e"
      unfolding pack_bits_eq_iff using True by blast
  next
    assume A: "length bits = n \<and> pack_bits bits = e"
    then have bit: "bit_at e i \<longleftrightarrow> i < n \<and> bits ! i" if "i < 8 * length e" for i
      using that unfolding pack_bits_eq_iff by blast
    have "n \<le> 8 * length e" using True byte_len_bounds(1) [of n] by simp
    then have "bits = map (bit_at e) [0..<n]"
      using A bit by (intro nth_equalityI) simp_all
    then show "(\<forall>i < 8 * length e. n \<le> i \<longrightarrow> \<not> bit_at e i) \<and> bits = map (bit_at e) [0..<n]"
      using bit by auto
  qed
  finally show ?thesis by (simp add: bitvector_serialize_def)
next
  case False
  then show ?thesis
    by (auto simp: bitvector_deserialize_def bitvector_serialize_def Let_def)
qed

section \<open>Bitlists\<close>

text \<open>A bitlist is packed with its delimiter as one more bit.\<close>

lemma bitlist_serialize_eq_Inr:
  "bitlist_serialize n bits = Inr e \<longleftrightarrow> length bits \<le> n \<and> pack_bits (bits @ [True]) = e"
proof -
  let ?l = "length bits" and ?bs = "pack_bits bits"
  have "(if ?l mod 8 = 0 then ?bs @ [1] else if ?bs = [] then ?bs
      else ?bs[length ?bs - 1 := last ?bs OR push_bit (?l mod 8) 1]) = pack_bits (bits @ [True])"
  proof (cases "?l mod 8 = 0")
    case True
    have len: "8 * length ?bs = ?l" using byte_len_dvd [OF True] mult_div_mod_eq [of 8 ?l] True by simp
    have "pack_bits (bits @ [True]) = ?bs @ [1]"
      unfolding pack_bits_eq_iff
    proof (intro conjI allI impI)
      show "length (?bs @ [1]) = bitfield_byte_len (length (bits @ [True]))"
        using byte_len_dvd [OF True] by (simp add: byte_len_Suc)
    next
      fix i assume i: "i < 8 * length (?bs @ [1])"
      show "bit_at (?bs @ [1]) i \<longleftrightarrow> i < length (bits @ [True]) \<and> (bits @ [True]) ! i"
      proof (cases "i < ?l")
        case True
        then have "i div 8 < length ?bs" using len by linarith
        then have "bit_at (?bs @ [1]) i \<longleftrightarrow> bit_at ?bs i" by (simp add: bit_at_iff nth_append)
        with True len show ?thesis by (simp add: bit_at_pack_bits nth_append)
      next
        case False
        then obtain k where k: "i = ?l + k" using le_Suc_ex not_less by blast
        have "k < 8" using i len k by simp
        moreover have "i = 8 * length ?bs + k" using len k by linarith
        ultimately have "i div 8 = length ?bs" and "i mod 8 = k" by (simp_all del: length_pack_bits)
        then show ?thesis using k by (auto simp: bit_at_iff nth_append bit_1_iff)
      qed
    qed
    with True show ?thesis by simp
  next
    case False
    have len: "length ?bs = ?l div 8 + 1" using byte_len_not_dvd [OF False] by simp
    moreover have "last ?bs = ?bs ! (?l div 8)" using last_conv_nth [of ?bs] len by fastforce
    ultimately have "?bs[length ?bs - 1 := last ?bs OR push_bit (?l mod 8) 1] = set_bit_at ?bs (?l, True)"
      by (simp add: set_bit_at_def)
    also have "\<dots> = pack_bits (bits @ [True])"
      using byte_len_not_dvd [OF False]
      by (simp add: pack_bits_def enumerate_append_eq byte_len_Suc)
    finally show ?thesis using False len by auto
  qed
  then show ?thesis
    by (auto simp: bitlist_serialize_def Let_def simp del: push_bit_of_1)
qed

lemma leading_zeros_u8:
  assumes "b \<noteq> 0" and "d = 7 - leading_zeros_u8 b"
  shows "d < 8" and "bit b d" and "\<And>k. d < k \<Longrightarrow> k < 8 \<Longrightarrow> \<not> bit b k"
proof -
  let ?xs = "[7, 6, 5, 4, 3, 2, 1, 0 :: nat]" and ?P = "\<lambda>i. \<not> bit b i"
  define n where "n = length (takeWhile ?P ?xs)"
  have xs: "rev [0..<8] = ?xs" by code_simp
  have "rev [0..<8] ! j = 7 - j" if "j < 8" for j
    using that by (subst rev_nth) (simp_all del: upt_rec_numeral)
  then have nth: "?xs ! j = 7 - j" if "j < 8" for j using that by (simp only: xs)
  have "\<exists>k < 8. bit b k" using assms(1) byte_eqI [of b 0] by auto
  then obtain k where k: "k < 8" "bit b k" by blast
  have "k \<in> set (rev [0..<8])" using k(1) by simp
  then have mem: "k \<in> set ?xs" by (simp only: xs)
  have "n < length ?xs"
  proof (rule ccontr)
    assume "\<not> n < length ?xs"
    then have "takeWhile ?P ?xs = ?xs"
      using takeWhile_eq_take [of ?P ?xs] take_all [of ?xs n] unfolding n_def [symmetric]
      by (simp only: not_less)
    then show False using k(2) mem unfolding takeWhile_eq_all_conv by blast
  qed
  then have n: "n < 8" by simp
  have d: "d = 7 - n" by (simp only: assms(2) leading_zeros_u8_def n_def)
  show "d < 8" using d by simp
  show "bit b d"
    using nth_length_takeWhile [of ?P ?xs] \<open>n < length ?xs\<close> nth [OF n] unfolding n_def [symmetric] d
    by (simp only: not_not)
  fix k assume k: "d < k" "k < 8"
  have j: "7 - k < n" using k d n by simp
  then have "?xs ! (7 - k) = takeWhile ?P ?xs ! (7 - k)"
    using takeWhile_nth [of "7 - k" ?P ?xs] unfolding n_def by (simp only:)
  moreover have "takeWhile ?P ?xs ! (7 - k) \<in> set (takeWhile ?P ?xs)"
    using j unfolding n_def by (rule nth_mem)
  ultimately have "\<not> bit b (?xs ! (7 - k))" using set_takeWhileD by metis
  moreover have "?xs ! (7 - k) = 7 - (7 - k)" by (rule nth) simp
  ultimately show "\<not> bit b k" using k(2) by simp
qed

text \<open>The delimiter is the highest set bit of the encoding.\<close>

lemma delimiter_is_highest:
  assumes "e \<noteq> []" and "last e \<noteq> 0" and "L = (length e - 1) * 8 + (7 - leading_zeros_u8 (last e))"
  shows "bit_at e L" and "L div 8 = length e - 1" and "L < 8 * length e"
    and "\<And>i. L < i \<Longrightarrow> i < 8 * length e \<Longrightarrow> \<not> bit_at e i"
proof -
  let ?d = "7 - leading_zeros_u8 (last e)" and ?n = "length e - 1"
  note lz = leading_zeros_u8 [OF assms(2) refl]
  have len: "length e = ?n + 1" using assms(1) by (cases e) auto
  have L: "L div 8 = ?n" "L mod 8 = ?d" using lz(1) by (simp_all add: assms(3))
  have last: "e ! ?n = last e" using assms(1) by (simp add: last_conv_nth)
  show "L div 8 = ?n" by (rule L(1))
  show "L < 8 * length e" using assms(3) lz(1) len by linarith
  show "bit_at e L" unfolding bit_at_iff L last by (rule lz(2))
  fix i assume i: "L < i" "i < 8 * length e"
  then have q: "i div 8 = ?n" using L(1) len div_le_mono [of L i 8] by linarith
  then have "?d < i mod 8"
    using i(1) L div_mult_mod_eq [of i 8] div_mult_mod_eq [of L 8] by simp
  then show "\<not> bit_at e i" unfolding bit_at_iff q last by (rule lz(3)) simp
qed

lemma clear_bit_payload:
  assumes "e \<noteq> []" and "d < 8" and "i < 8 * (length e - 1) + d"
  shows "bit_at (e[length e - 1 := e ! (length e - 1) AND NOT (push_bit d 1)]) i \<longleftrightarrow> bit_at e i"
proof (cases "i div 8 = length e - 1")
  case True
  then have "i mod 8 \<noteq> d" using assms(3) div_mult_mod_eq [of i 8] by auto
  then show ?thesis
    using True assms(1) by (simp add: bit_at_iff bit_and_iff bit_not_iff bit_push_one del: push_bit_of_1)
next
  case False
  then show ?thesis by (simp add: bit_at_iff)
qed

lemma bitlist_codec:
  assumes "8 * length e \<le> u64_max"
  shows "bitlist_deserialize n e = Inr bits \<longleftrightarrow> length bits \<le> n \<and> bitlist_serialize n bits = Inr e"
proof (cases "e = [] \<or> last e = 0")
  case True
  have "pack_bits (bits @ [True]) \<noteq> e"
  proof
    assume p: "pack_bits (bits @ [True]) = e"
    then have len: "length e = length bits div 8 + 1" by (auto simp: byte_len_Suc)
    have "bit_at e (length bits)"
      using p byte_len_bounds(1) [of "Suc (length bits)"] unfolding pack_bits_eq_iff by simp
    moreover have "e ! (length bits div 8) = last e" using len last_conv_nth [of e] by fastforce
    ultimately show False using True len by (auto simp: bit_at_iff)
  qed
  then show ?thesis using True by (auto simp: bitlist_deserialize_def bitlist_serialize_eq_Inr)
next
  case False
  define d where "d = 7 - leading_zeros_u8 (last e)"
  define L where "L = (length e - 1) * 8 + d"
  have e: "e \<noteq> []" "last e \<noteq> 0" using False by auto
  note hi = delimiter_is_highest [OF e, of L, unfolded L_def d_def, OF refl, folded d_def, folded L_def]
  have d8: "d < 8" using leading_zeros_u8(1) [OF e(2) d_def] .
  have "wrapping_add (wrapping_mul (length e - 1) 8) d = L"
    using assms hi(3) unfolding L_def by (simp add: wrapping_add_exact wrapping_mul_exact)
  then have "bitlist_deserialize n e = Inr bits \<longleftrightarrow> L \<le> n
      \<and> bits = map (bit_at (e[length e - 1 := e ! (length e - 1) AND NOT (push_bit d 1)])) [0..<L]"
    using e by (auto simp: bitlist_deserialize_def Let_def d_def saturating_sub_def simp del: push_bit_of_1)
  also have "\<dots> \<longleftrightarrow> L \<le> n \<and> bits = map (bit_at e) [0..<L]"
  proof -
    let ?p = "e[length e - 1 := e ! (length e - 1) AND NOT (push_bit d 1)]"
    have "map (bit_at ?p) [0..<L] = map (bit_at e) [0..<L]"
    proof (rule map_cong [OF refl])
      fix i assume "i \<in> set [0..<L]"
      then have "i < 8 * (length e - 1) + d" by (simp add: L_def mult.commute)
      then show "bit_at ?p i = bit_at e i" by (rule clear_bit_payload [OF e(1) d8])
    qed
    then show ?thesis by (simp only:)
  qed
  also have "\<dots> \<longleftrightarrow> length bits \<le> n \<and> pack_bits (bits @ [True]) = e"
  proof
    assume A: "L \<le> n \<and> bits = map (bit_at e) [0..<L]"
    have "bit_at e i \<longleftrightarrow> i < length (bits @ [True]) \<and> (bits @ [True]) ! i" if "i < 8 * length e" for i
      using A that hi(1,4) by (cases i L rule: linorder_cases) (auto simp: nth_append)
    then show "length bits \<le> n \<and> pack_bits (bits @ [True]) = e"
      unfolding pack_bits_eq_iff using A hi(2) e(1) by (auto simp: byte_len_Suc)
  next
    assume A: "length bits \<le> n \<and> pack_bits (bits @ [True]) = e"
    then have bit: "\<And>i. i < 8 * length e \<Longrightarrow> bit_at e i \<longleftrightarrow> i < length (bits @ [True]) \<and> (bits @ [True]) ! i"
      unfolding pack_bits_eq_iff by blast
    have lt: "length bits < 8 * length e"
      using A byte_len_bounds(1) [of "Suc (length bits)"] by auto
    have "bit_at e (length bits)" using bit [OF lt] by simp
    then have "length bits \<le> L" using hi(4) lt not_less by blast
    moreover have "L \<le> length bits" using bit [OF hi(3)] hi(1) by simp
    ultimately have "length bits = L" by simp
    moreover have "bits = map (bit_at e) [0..<L]"
      using bit hi(3) \<open>length bits = L\<close> by (intro nth_equalityI) (auto simp: nth_append)
    ultimately show "L \<le> n \<and> bits = map (bit_at e) [0..<L]" using A by simp
  qed
  finally show ?thesis by (simp add: bitlist_serialize_eq_Inr)
qed

end
