(* ===== verification/Ssz_Container_Laws.thy ===== *)
theory Ssz_Container_Laws
  imports Ssz_Codec_Laws
begin

text \<open>
  The laws of SSZ containers (\<open>container.rs\<close>): a container is encoded to its fixed part, in which a
  variable-size field is an offset word, followed by the variable-size fields in order; the
  decoder accepts exactly these byte strings. A field's encoding is a pair of its
  \<open>is_variable_size\<close> and its bytes.
\<close>

section \<open>The encoder\<close>

fun fixed_part :: "nat \<Rightarrow> (bool \<times> bytes) list \<Rightarrow> bytes" where
  "fixed_part off [] = []"
| "fixed_part off ((True, e) # ps) = to_le_bytes 4 off @ fixed_part (off + length e) ps"
| "fixed_part off ((False, e) # ps) = e @ fixed_part off ps"

definition var_pieces :: "(bool \<times> bytes) list \<Rightarrow> bytes list" where
  "var_pieces ps = map snd (filter fst ps)"

lemma var_pieces_simps [simp]:
  "var_pieces [] = []"
  "var_pieces ((True, e) # ps) = e # var_pieces ps"
  "var_pieces ((False, e) # ps) = var_pieces ps"
  by (simp_all add: var_pieces_def)

fun encoded :: "(bool \<times> bytes) list \<Rightarrow> (bool \<times> (SerializeError, bytes) res) list" where
  "encoded [] = []"
| "encoded ((b, e) # ps) = (b, Inr e) # encoded ps"

lemma encoded_eq_Cons:
  "(b, r) # fs = encoded ps \<longleftrightarrow> (\<exists>e ps'. r = Inr e \<and> ps = (b, e) # ps' \<and> fs = encoded ps')"
  by (induction ps rule: encoded.induct) auto

lemma encoded_eq_Nil [simp]: "[] = encoded ps \<longleftrightarrow> ps = []"
  by (cases ps rule: encoded.cases) auto

lemma write_field_eq_Inr:
  "write_field s (b, r) = Inr s' \<longleftrightarrow> (\<exists>e. r = Inr e \<and>
     (if b then enc_variable_offset s \<le> u32_max \<and> enc_variable_offset s + length e \<le> u64_max
          \<and> s' = s\<lparr>enc_fixed := enc_fixed s @ to_le_bytes 4 (enc_variable_offset s),
                   enc_variable := enc_variable s @ e,
                   enc_variable_offset := enc_variable_offset s + length e\<rparr>
      else s' = s\<lparr>enc_fixed := enc_fixed s @ e\<rparr>))"
  by (cases r)
     (auto simp: write_field_def write_offset_def bindR_eq_Inr ok_or_eq_Inr checked_add_eq_Some)

lemma write_fields_eq_Inr:
  "foldR write_field s fs = Inr s' \<longleftrightarrow>
     (\<exists>ps. fs = encoded ps \<and> offsets_fit (enc_variable_offset s) (var_pieces ps)
        \<and> (var_pieces ps = [] \<or> enc_variable_offset s + length (concat (var_pieces ps)) \<le> u64_max)
        \<and> s' = s\<lparr>enc_fixed := enc_fixed s @ fixed_part (enc_variable_offset s) ps,
                 enc_variable := enc_variable s @ concat (var_pieces ps),
                 enc_variable_offset := enc_variable_offset s + length (concat (var_pieces ps))\<rparr>)"
proof (induction fs arbitrary: s)
  case Nil
  then show ?case by auto
next
  case (Cons f fs)
  obtain b r where f: "f = (b, r)" by (cases f)
  have ex: "(\<exists>ps. f # fs = encoded ps \<and> P ps) \<longleftrightarrow>
      (\<exists>e ps. r = Inr e \<and> fs = encoded ps \<and> P ((b, e) # ps))" for P
    by (auto simp: f encoded_eq_Cons)
  show ?case
  proof (cases r)
    case (Inl err)
    then show ?thesis unfolding ex by (simp add: f bindR_eq_Inr write_field_eq_Inr)
  next
    case (Inr e)
    show ?thesis
    proof (cases b)
      case True
      show ?thesis
        unfolding ex
        by (auto simp: f Inr True bindR_eq_Inr write_field_eq_Inr Cons.IH offsets_fit_Cons add.assoc
            simp del: length_concat)
    next
      case False
      show ?thesis
        unfolding ex
        by (simp add: f Inr False bindR_eq_Inr write_field_eq_Inr Cons.IH del: length_concat)
    qed
  qed
qed

lemma serialize_container_eq_Inr:
  "serialize_container F fs = Inr enc \<longleftrightarrow>
     (\<exists>ps. fs = encoded ps \<and> offsets_fit F (var_pieces ps) \<and> length (fixed_part F ps) = F
        \<and> F + length (concat (var_pieces ps)) \<le> u64_max
        \<and> enc = fixed_part F ps @ concat (var_pieces ps))"
proof -
  let ?s = "\<lambda>ps. \<lparr>enc_fixed = fixed_part F ps, enc_variable = concat (var_pieces ps),
    enc_fixed_size = F, enc_variable_offset = F + length (concat (var_pieces ps))\<rparr>"
  have fin: "encoder_finish (?s ps) = Inr enc \<longleftrightarrow> length (fixed_part F ps) = F
      \<and> F + length (concat (var_pieces ps)) \<le> u64_max
      \<and> enc = fixed_part F ps @ concat (var_pieces ps)" for ps
    by (auto simp: encoder_finish_def bindR_eq_Inr ok_or_eq_Inr checked_add_eq_Some
        simp del: length_concat)
  have "serialize_container F fs = Inr enc \<longleftrightarrow>
      (\<exists>ps. fs = encoded ps \<and> offsets_fit F (var_pieces ps)
        \<and> (var_pieces ps = [] \<or> F + length (concat (var_pieces ps)) \<le> u64_max)
        \<and> encoder_finish (?s ps) = Inr enc)"
    unfolding serialize_container_def bindR_eq_Inr write_fields_eq_Inr encoder_new_def by force
  then show ?thesis unfolding fin by blast
qed

section \<open>The decoder's ranges\<close>

abbreviation fixed_size :: "FieldLayout list \<Rightarrow> nat" where
  "fixed_size ls \<equiv> container_size_hint ls"

lemma fixed_size_simps [simp]:
  "fixed_size [] = 0" "fixed_size (l # ls) = fl_size_hint l + fixed_size ls"
  by (simp_all add: container_size_hint_def)

definition wf_layout :: "FieldLayout \<Rightarrow> bool" where
  "wf_layout l \<longleftrightarrow> (variable_size l \<longrightarrow> fl_size_hint l = 4)"

lemma wf_field_layout [simp]: "wf_layout (field_layout v w)"
  by (simp add: wf_layout_def field_layout_def BYTES_PER_LENGTH_OFFSET_def)

text \<open>What the scan computes: ranges before the bounds are known, variable fields, their offsets.\<close>

fun fixed_ranges :: "nat \<Rightarrow> FieldLayout list \<Rightarrow> (nat \<times> nat) list" where
  "fixed_ranges c [] = []"
| "fixed_ranges c (l # ls) =
     (if variable_size l then (0, 0) else (c, c + fl_size_hint l)) # fixed_ranges (c + fl_size_hint l) ls"

fun var_fields :: "nat \<Rightarrow> FieldLayout list \<Rightarrow> nat list" where
  "var_fields i [] = []"
| "var_fields i (l # ls) = (if variable_size l then i # var_fields (i + 1) ls else var_fields (i + 1) ls)"

fun var_offsets :: "bytes \<Rightarrow> nat \<Rightarrow> FieldLayout list \<Rightarrow> nat list" where
  "var_offsets enc c [] = []"
| "var_offsets enc c (l # ls) =
     (if variable_size l
      then from_le_bytes (slice_of enc c (c + 4)) # var_offsets enc (c + fl_size_hint l) ls
      else var_offsets enc (c + fl_size_hint l) ls)"

fun field_ranges :: "nat list \<Rightarrow> nat \<Rightarrow> nat \<Rightarrow> FieldLayout list \<Rightarrow> (nat \<times> nat) list" where
  "field_ranges bounds k c [] = []"
| "field_ranges bounds k c (l # ls) =
     (if variable_size l
      then (bounds ! k, bounds ! (k + 1)) # field_ranges bounds (k + 1) (c + fl_size_hint l) ls
      else (c, c + fl_size_hint l) # field_ranges bounds k (c + fl_size_hint l) ls)"

lemma length_field_ranges [simp]: "length (field_ranges bounds k c ls) = length ls"
  by (induction ls arbitrary: k c) auto

lemma scan_fields_eq_Inr:
  assumes "length enc \<le> u64_max" and "list_all wf_layout ls" and "rs_cursor s \<le> length enc"
    and "rs_ranges s = pre @ replicate (length ls) (0, 0)"
  shows "foldR (scan_field enc) s (enumerate (length pre) ls) = Inr s' \<longleftrightarrow>
    rs_cursor s + fixed_size ls \<le> length enc \<and>
    s' = \<lparr>rs_cursor = rs_cursor s + fixed_size ls, rs_ranges = pre @ fixed_ranges (rs_cursor s) ls,
          rs_variable_fields = rs_variable_fields s @ var_fields (length pre) ls,
          rs_variable_offsets = rs_variable_offsets s @ var_offsets enc (rs_cursor s) ls\<rparr>"
  using assms(2-)
proof (induction ls arbitrary: s pre)
  case Nil
  then show ?case by (cases s) auto
next
  case (Cons l ls)
  let ?c = "rs_cursor s + fl_size_hint l"
  define s1 where "s1 = (if variable_size l
    then s\<lparr>rs_cursor := ?c, rs_variable_fields := rs_variable_fields s @ [length pre],
           rs_variable_offsets := rs_variable_offsets s
             @ [from_le_bytes (slice_of enc (rs_cursor s) (rs_cursor s + 4))]\<rparr>
    else s\<lparr>rs_ranges := (rs_ranges s)[length pre := (rs_cursor s, ?c)], rs_cursor := ?c\<rparr>)"
  define pre1 where "pre1 = pre @ [if variable_size l then (0, 0) else (rs_cursor s, ?c)]"
  have step: "scan_field enc s (length pre, l) = Inr s'' \<longleftrightarrow> ?c \<le> length enc \<and> s'' = s1" for s''
    using assms(1) Cons.prems
    by (auto simp: scan_field_def bindR_eq_Inr ok_or_eq_Inr checked_add_eq_Some s1_def wf_layout_def
        read_offset_at_eq_Inr BYTES_PER_LENGTH_OFFSET_def split: if_splits)
  have rs1: "rs_ranges s1 = pre1 @ replicate (length ls) (0, 0)"
    using Cons.prems by (simp add: s1_def pre1_def list_update_append)
  have IH: "?c \<le> length enc \<Longrightarrow> foldR (scan_field enc) s1 (enumerate (length pre1) ls) = Inr s' \<longleftrightarrow>
    rs_cursor s1 + fixed_size ls \<le> length enc \<and>
    s' = \<lparr>rs_cursor = rs_cursor s1 + fixed_size ls, rs_ranges = pre1 @ fixed_ranges (rs_cursor s1) ls,
          rs_variable_fields = rs_variable_fields s1 @ var_fields (length pre1) ls,
          rs_variable_offsets = rs_variable_offsets s1 @ var_offsets enc (rs_cursor s1) ls\<rparr>"
    by (rule Cons.IH) (use Cons.prems rs1 in \<open>auto simp: s1_def\<close>)
  have "foldR (scan_field enc) s (enumerate (length pre) (l # ls)) = Inr s' \<longleftrightarrow>
      ?c \<le> length enc \<and> foldR (scan_field enc) s1 (enumerate (length pre1) ls) = Inr s'"
    by (auto simp: bindR_eq_Inr step pre1_def)
  then show ?case
    using IH by (auto simp: s1_def pre1_def add.assoc)
qed

lemma place_variable_ranges_eq:
  "fold (\<lambda>(variable_index, field_index) rs.
           rs[field_index := (bounds ! variable_index, bounds ! (variable_index + 1))])
     (enumerate k (var_fields (length pre) ls)) (pre @ fixed_ranges c ls)
   = pre @ field_ranges bounds k c ls"
proof (induction ls arbitrary: k pre c)
  case Nil
  then show ?case by simp
next
  case (Cons l ls)
  show ?case
    using Cons.IH [of "k + 1" "pre @ [(bounds ! k, bounds ! (k + 1))]" "c + fl_size_hint l"]
      Cons.IH [of k "pre @ [(c, c + fl_size_hint l)]" "c + fl_size_hint l"]
    by (simp add: list_update_append)
qed

lemma length_var_offsets:
  "length (var_offsets enc c ls) = length (filter variable_size ls)"
  by (induction ls arbitrary: c) auto

text \<open>The decoder's ranges: the offset words it reads are validated against the fixed part.\<close>

lemma container_field_ranges_eq_Inr:
  assumes "length enc \<le> u64_max" and "list_all wf_layout ls"
  shows "container_field_ranges enc ls = Inr ranges \<longleftrightarrow>
    (\<exists>bounds. fixed_size ls \<le> length enc
       \<and> validate_variable_offsets (var_offsets enc 0 ls) (fixed_size ls) (length enc) = Inr bounds
       \<and> ranges = field_ranges bounds 0 0 ls)"
proof -
  let ?s0 = "\<lparr>rs_cursor = 0, rs_ranges = replicate (length ls) (0, 0),
    rs_variable_fields = [], rs_variable_offsets = []\<rparr>"
  have scan: "foldR (scan_field enc) ?s0 (enumerate 0 ls) = Inr s \<longleftrightarrow> fixed_size ls \<le> length enc \<and>
      s = \<lparr>rs_cursor = fixed_size ls, rs_ranges = fixed_ranges 0 ls,
           rs_variable_fields = var_fields 0 ls, rs_variable_offsets = var_offsets enc 0 ls\<rparr>" for s
    using scan_fields_eq_Inr [OF assms, of ?s0 "[]" s] by simp
  have place: "place_variable_ranges bounds (var_fields 0 ls) (fixed_ranges 0 ls)
      = field_ranges bounds 0 0 ls" for bounds
    using place_variable_ranges_eq [of bounds 0 "[]" ls 0] by (simp add: place_variable_ranges_def)
  have fixed: "field_ranges bounds 0 0 ls = fixed_ranges 0 ls" if "var_offsets enc 0 ls = []" for bounds
  proof -
    have "field_ranges bounds k c ls = fixed_ranges c ls" if "filter variable_size ls = []" for c k
      using that by (induction ls arbitrary: c k) (auto split: if_splits)
    moreover have "filter variable_size ls = []" using that length_var_offsets [of enc 0 ls] by simp
    ultimately show ?thesis by simp
  qed
  show ?thesis
    unfolding container_field_ranges_def bindR_eq_Inr scan
    by (cases "var_offsets enc 0 ls = []") (auto simp: fixed place bindR_eq_Inr split: if_splits)
qed

section \<open>Ranges and pieces\<close>

text \<open>The fixed-size fields of \<open>ps\<close> are the bytes at their place of the fixed part.\<close>

fun fixed_fields_at :: "bytes \<Rightarrow> nat \<Rightarrow> FieldLayout list \<Rightarrow> (bool \<times> bytes) list \<Rightarrow> bool" where
  "fixed_fields_at enc c (l # ls) (p # ps) \<longleftrightarrow>
     (\<not> variable_size l \<longrightarrow> snd p = slice_of enc c (c + fl_size_hint l))
     \<and> fixed_fields_at enc (c + fl_size_hint l) ls ps"
| "fixed_fields_at enc c ls ps \<longleftrightarrow> True"

definition sizes_ok :: "FieldLayout list \<Rightarrow> (bool \<times> bytes) list \<Rightarrow> bool" where
  "sizes_ok ls ps = list_all2 (\<lambda>l p. variable_size l \<or> length (snd p) = fl_size_hint l) ls ps"

lemma length_fixed_part:
  "map fst ps = map variable_size ls \<Longrightarrow> list_all wf_layout ls \<Longrightarrow> sizes_ok ls ps \<Longrightarrow>
     length (fixed_part off ps) = fixed_size ls"
proof (induction ls arbitrary: ps off)
  case (Cons l ls)
  then obtain e ps' where "ps = (variable_size l, e) # ps'" by (cases ps) auto
  with Cons show ?case
    by (cases "variable_size l") (auto simp: sizes_ok_def wf_layout_def)
qed simp

lemma slice_of_split: "a \<le> b \<Longrightarrow> b \<le> d \<Longrightarrow> slice_of xs a d = slice_of xs a b @ slice_of xs b d"
  using take_add [of "b - a" "d - b" "drop a xs"] by (simp add: slice_of_def)

lemma offset_word_eq:
  "length bs = 4 \<Longrightarrow> bs = to_le_bytes 4 x \<and> x \<le> u32_max \<longleftrightarrow> from_le_bytes bs = x"
  using from_le_bytes_4 [of bs] by (auto simp: le4_lt from_to_le_bytes to_from_le_bytes)

text \<open>The fixed part of the buffer is the one of \<open>ps\<close> exactly when its words and fields are.\<close>

lemma fixed_part_at:
  assumes "map fst ps = map variable_size ls" and "list_all wf_layout ls"
    and "c + fixed_size ls \<le> length enc"
  shows "slice_of enc c (c + fixed_size ls) = fixed_part off ps \<and> sizes_ok ls ps
      \<and> offsets_fit off (var_pieces ps)
    \<longleftrightarrow> var_offsets enc c ls = offsets_from off (var_pieces ps) \<and> fixed_fields_at enc c ls ps"
  using assms
proof (induction ls arbitrary: ps c off)
  case Nil
  then show ?case by (simp add: sizes_ok_def slice_of_def)
next
  case (Cons l ls)
  then obtain e ps' where ps: "ps = (variable_size l, e) # ps'"
    and fst: "map fst ps' = map variable_size ls" by (cases ps) auto
  let ?h = "fl_size_hint l"
  let ?c = "c + ?h"
  have split: "slice_of enc c (c + fixed_size (l # ls)) =
      slice_of enc c ?c @ slice_of enc ?c (?c + fixed_size ls)"
    using slice_of_split [of c ?c "?c + fixed_size ls" enc] by (simp add: add.assoc)
  have len: "length (slice_of enc c ?c) = ?h" using Cons.prems by simp
  have IH: "slice_of enc ?c (?c + fixed_size ls) = fixed_part off' ps' \<and> sizes_ok ls ps'
      \<and> offsets_fit off' (var_pieces ps')
    \<longleftrightarrow> var_offsets enc ?c ls = offsets_from off' (var_pieces ps') \<and> fixed_fields_at enc ?c ls ps'" for off'
    using Cons.IH [OF fst, of ?c off'] Cons.prems by (simp add: add.assoc)
  show ?case
  proof (cases "variable_size l")
    case True
    then have h: "?h = 4" using Cons.prems by (simp add: wf_layout_def)
    have "slice_of enc c (c + fixed_size (l # ls)) = fixed_part off ps \<longleftrightarrow>
        slice_of enc c ?c = to_le_bytes 4 off
        \<and> slice_of enc ?c (?c + fixed_size ls) = fixed_part (off + length e) ps'"
      unfolding split using len h by (simp add: ps True)
    moreover have "slice_of enc c ?c = to_le_bytes 4 off \<and> off \<le> u32_max
        \<longleftrightarrow> from_le_bytes (slice_of enc c ?c) = off"
      by (rule offset_word_eq) (use len h in \<open>simp only:\<close>)
    ultimately show ?thesis
      using IH [of "off + length e"] True h by (auto simp: ps sizes_ok_def offsets_fit_Cons)
  next
    case False
    have "slice_of enc c (c + fixed_size (l # ls)) = fixed_part off ps \<and> length e = ?h \<longleftrightarrow>
        e = slice_of enc c ?c \<and> slice_of enc ?c (?c + fixed_size ls) = fixed_part off ps'"
      unfolding split using len by (auto simp: ps False)
    then show ?thesis
      using IH [of off] False by (auto simp: ps sizes_ok_def)
  qed
qed

text \<open>Slicing along the decoder's ranges gives the fixed fields and the cut-out pieces.\<close>

lemma field_ranges_pieces:
  assumes "map fst ps = map variable_size ls"
    and "length bounds = k + length (filter variable_size ls) + 1"
  shows "map (\<lambda>(a, b). slice_of enc a b) (field_ranges bounds k c ls) = map snd ps
    \<longleftrightarrow> fixed_fields_at enc c ls ps \<and> cuts enc (drop k bounds) = var_pieces ps"
  using assms
proof (induction ls arbitrary: ps k c)
  case Nil
  then have "drop k bounds = [bounds ! k]"
    by (metis Cons_nth_drop_Suc add.right_neutral add_Suc_right drop_all filter.simps(1) le_refl
        lessI list.size(3) One_nat_def)
  then show ?case using Nil by simp
next
  case (Cons l ls)
  then obtain e ps' where ps: "ps = (variable_size l, e) # ps'"
    and fst: "map fst ps' = map variable_size ls" by (cases ps) auto
  let ?c = "c + fl_size_hint l"
  show ?case
  proof (cases "variable_size l")
    case True
    with Cons.prems have len: "length bounds = (k + 1) + length (filter variable_size ls) + 1" by simp
    have "drop k bounds = bounds ! k # bounds ! (k + 1) # drop (k + 2) bounds"
      and d1: "drop (k + 1) bounds = bounds ! (k + 1) # drop (k + 2) bounds"
      using len by (simp_all add: Cons_nth_drop_Suc)
    then have "cuts enc (drop k bounds) = slice_of enc (bounds ! k) (bounds ! (k + 1))
        # cuts enc (drop (k + 1) bounds)" by simp
    then show ?thesis
      using Cons.IH [OF fst len, of ?c] True by (auto simp: ps)
  next
    case False
    with Cons.prems have "length bounds = k + length (filter variable_size ls) + 1" by simp
    from Cons.IH [OF fst this, of ?c] False show ?thesis by (auto simp: ps)
  qed
qed

section \<open>The decoder\<close>

lemma deserialize_fields_eq_Inr:
  assumes "dec_next d + length decs = length (dec_ranges d)"
  shows "deserialize_fields d decs = Inr vs \<longleftrightarrow>
    list_all2 (\<lambda>(dec, e) v. dec e = Inr v)
      (zip decs (map (\<lambda>(a, b). slice_of (dec_encoding d) a b) (drop (dec_next d) (dec_ranges d)))) vs"
  using assms
proof (induction decs arbitrary: d vs)
  case Nil
  then show ?case by auto
next
  case (Cons dec decs)
  let ?d = "d\<lparr>dec_next := dec_next d + 1\<rparr>"
  have lt: "dec_next d < length (dec_ranges d)" using Cons.prems by simp
  obtain a b where ab: "dec_ranges d ! dec_next d = (a, b)" by fastforce
  have drop: "drop (dec_next d) (dec_ranges d) = (a, b) # drop (dec_next d + 1) (dec_ranges d)"
    using Cons_nth_drop_Suc [OF lt] ab by simp
  have IH: "deserialize_fields ?d decs = Inr us \<longleftrightarrow> list_all2 (\<lambda>(dec, e) v. dec e = Inr v)
      (zip decs (map (\<lambda>(a, b). slice_of (dec_encoding d) a b)
        (drop (dec_next d + 1) (dec_ranges d)))) us" for us
    using Cons.IH [of ?d us] Cons.prems by simp
  have "deserialize_fields d (dec # decs) = Inr vs \<longleftrightarrow> (\<exists>v us. vs = v # us
      \<and> dec (slice_of (dec_encoding d) a b) = Inr v \<and> deserialize_fields ?d decs = Inr us)"
    using lt ab by (auto simp: deserialize_next_def bindR_eq_Inr)
  then show ?case
    unfolding IH drop by (auto simp: list_all2_Cons1)
qed

text \<open>
  The container decoder accepts a buffer exactly when it is the fixed part followed by the
  variable-size pieces of some encodings of the fields that the field decoders accept.
\<close>

lemma deserialize_container_eq_Inr:
  assumes "length enc \<le> u64_max" and "list_all wf_layout ls" and "length decs = length ls"
  shows "deserialize_container ls decs enc = Inr vs \<longleftrightarrow>
    (\<exists>ps. map fst ps = map variable_size ls \<and> sizes_ok ls ps
       \<and> offsets_fit (fixed_size ls) (var_pieces ps)
       \<and> enc = fixed_part (fixed_size ls) ps @ concat (var_pieces ps)
       \<and> list_all2 (\<lambda>(dec, e) v. dec e = Inr v) (zip decs (map snd ps)) vs)"
    (is "?L \<longleftrightarrow> ?R")
proof -
  let ?F = "fixed_size ls" and ?voffs = "var_offsets enc 0 ls"
  let ?slices = "map (\<lambda>(a, b). slice_of enc a b)"
  let ?ok = "\<lambda>es. list_all2 (\<lambda>(dec, e) v. dec e = Inr v) (zip decs es) vs"
  have L: "?L \<longleftrightarrow> (\<exists>bounds. ?F \<le> length enc
      \<and> validate_variable_offsets ?voffs ?F (length enc) = Inr bounds
      \<and> ?ok (?slices (field_ranges bounds 0 0 ls)))"
    by (auto simp: deserialize_container_def decoder_new_def bindR_eq_Inr
        container_field_ranges_eq_Inr [OF assms(1,2)] deserialize_fields_eq_Inr assms(3))
  have pieces: "?F \<le> length enc \<and> (\<exists>bounds. validate_variable_offsets ?voffs ?F (length enc) = Inr bounds
        \<and> ?slices (field_ranges bounds 0 0 ls) = map snd ps)
      \<longleftrightarrow> sizes_ok ls ps \<and> offsets_fit ?F (var_pieces ps)
        \<and> enc = fixed_part ?F ps @ concat (var_pieces ps)" (is "?A \<longleftrightarrow> ?B")
    if fst: "map fst ps = map variable_size ls" for ps
  proof (cases "?F \<le> length enc")
    case True
    have "validate_variable_offsets ?voffs ?F (length enc) = Inr bounds \<Longrightarrow>
        ?slices (field_ranges bounds 0 0 ls) = map snd ps \<longleftrightarrow>
        fixed_fields_at enc 0 ls ps \<and> cuts enc bounds = var_pieces ps" for bounds
      using field_ranges_pieces [OF fst, of bounds 0 enc 0] length_validate_variable_offsets
      by (fastforce simp: length_var_offsets)
    then have "?A \<longleftrightarrow> fixed_fields_at enc 0 ls ps \<and> (\<exists>bounds.
        validate_variable_offsets ?voffs ?F (length enc) = Inr bounds \<and> cuts enc bounds = var_pieces ps)"
      using True by blast
    also have "\<dots> \<longleftrightarrow> (?voffs = offsets_from ?F (var_pieces ps) \<and> fixed_fields_at enc 0 ls ps)
        \<and> concat (var_pieces ps) = drop ?F enc"
      unfolding validate_variable_offsets_pieces [OF True] by blast
    also have "\<dots> \<longleftrightarrow> (take ?F enc = fixed_part ?F ps \<and> sizes_ok ls ps
        \<and> offsets_fit ?F (var_pieces ps)) \<and> concat (var_pieces ps) = drop ?F enc"
      using fixed_part_at [OF fst assms(2), of 0 enc ?F] True by (simp add: slice_of_def)
    also have "\<dots> \<longleftrightarrow> ?B"
      using length_fixed_part [OF fst assms(2)] by (metis append_eq_conv_conj)
    finally show ?thesis .
  next
    case False
    then show ?thesis using length_fixed_part [OF fst assms(2), of ?F] by auto
  qed
  have zip: "map fst (zip (map variable_size ls) es) = map variable_size ls"
    "map snd (zip (map variable_size ls) es) = es" if "length es = length ls" for es :: "bytes list"
    using that by simp_all
  show ?thesis
  proof
    assume ?L
    then obtain bounds where b: "?F \<le> length enc"
      "validate_variable_offsets ?voffs ?F (length enc) = Inr bounds"
      "?ok (?slices (field_ranges bounds 0 0 ls))" unfolding L by blast
    let ?es = "?slices (field_ranges bounds 0 0 ls)"
    let ?ps = "zip (map variable_size ls) ?es"
    have p: "map fst ?ps = map variable_size ls" "map snd ?ps = ?es" using zip [of ?es] by simp_all
    then have "sizes_ok ls ?ps \<and> offsets_fit ?F (var_pieces ?ps)
        \<and> enc = fixed_part ?F ?ps @ concat (var_pieces ?ps)"
      using pieces [OF p(1)] b(1,2) by metis
    with p b(3) show ?R by (intro exI [of _ ?ps]) simp
  next
    assume ?R
    then obtain ps where p: "map fst ps = map variable_size ls" "sizes_ok ls ps"
      "offsets_fit ?F (var_pieces ps)" "enc = fixed_part ?F ps @ concat (var_pieces ps)"
      "?ok (map snd ps)" by blast
    then show ?L unfolding L using pieces [OF p(1)] by metis
  qed
qed

section \<open>Containers of codecs\<close>

text \<open>
  For fields whose codecs satisfy the contract of an element codec, the container decoder accepts a
  byte string exactly when it is the container encoding of admissible field values.
\<close>

abbreviation layouts_of :: "('t \<Rightarrow> bool) \<Rightarrow> ('t \<Rightarrow> nat) \<Rightarrow> 't list \<Rightarrow> FieldLayout list" where
  "layouts_of var w ts \<equiv> map (\<lambda>t. field_layout (var t) (w t)) ts"

lemma encoded_values:
  "map2 (\<lambda>t v. (var t, ser t v)) ts vs = encoded ps \<and> length vs = length ts \<longleftrightarrow>
     map fst ps = map var ts \<and> length vs = length ts
     \<and> list_all2 (\<lambda>(t, e) v. ser t v = Inr e) (zip ts (map snd ps)) vs"
proof (induction ts arbitrary: vs ps)
  case Nil
  then show ?case by (cases ps rule: encoded.cases) auto
next
  case (Cons t ts)
  show ?case
  proof (cases vs)
    case Nil
    then show ?thesis by simp
  next
    case (Cons v vs')
    then show ?thesis
      using Cons.IH [of vs'] by (cases ps rule: encoded.cases) auto
  qed
qed

lemma field_codecs:
  assumes "\<forall>t \<in> set ts. item_codec (var t) (w t) (ser t) (dec t) (ok t)"
    and "list_all (\<lambda>e. length e \<le> max_len) es" and "length es = length ts"
  shows "list_all2 (\<lambda>(d, e) v. d e = Inr v) (zip (map dec ts) es) vs \<longleftrightarrow>
    list_all2 ok ts vs \<and> list_all2 (\<lambda>(t, e) v. ser t v = Inr e) (zip ts es) vs"
  using assms
proof (induction ts arbitrary: es vs)
  case (Cons t ts)
  then obtain e es' where es: "es = e # es'" by (cases es) auto
  have "dec t e = Inr v \<longleftrightarrow> ok t v \<and> ser t v = Inr e" for v
    using Cons.prems es by (intro item_codec.codec [of "var t" "w t"]) auto
  moreover have "list_all2 (\<lambda>(d, e) v. d e = Inr v) (zip (map dec ts) es') us \<longleftrightarrow>
      list_all2 ok ts us \<and> list_all2 (\<lambda>(t, e) v. ser t v = Inr e) (zip ts es') us" for us
    using Cons.IH [of es' us] Cons.prems es by simp
  ultimately show ?case by (cases vs) (auto simp: es)
qed auto

lemma fields_sizes_ok:
  assumes "\<forall>t \<in> set ts. item_codec (var t) (w t) (ser t) (dec t) (ok t)"
    and "map fst ps = map var ts" and "list_all2 ok ts vs"
    and "list_all2 (\<lambda>(t, e) v. ser t v = Inr e) (zip ts (map snd ps)) vs"
  shows "sizes_ok (layouts_of var w ts) ps"
  using assms
proof (induction ts arbitrary: ps vs)
  case (Cons t ts)
  then obtain e ps' where ps: "ps = (var t, e) # ps'" by (cases ps) auto
  with Cons.prems obtain v vs' where vs: "vs = v # vs'" by (cases vs) auto
  have c: "item_codec (var t) (w t) (ser t) (dec t) (ok t)" and v: "ok t v" "ser t v = Inr e"
    using Cons.prems ps vs by auto
  have "var t \<or> length e = w t" using item_codec.fixed_length [OF c _ v] by blast
  moreover have "sizes_ok (layouts_of var w ts) ps'"
    using Cons.IH [of ps' vs'] Cons.prems ps vs by auto
  ultimately show ?case by (auto simp: ps sizes_ok_def field_layout_def)
qed (simp add: sizes_ok_def)

lemma container_pieces_small:
  "length (fixed_part off ps @ concat (var_pieces ps)) \<le> max_len \<Longrightarrow>
     list_all (\<lambda>e. length e \<le> max_len) (map snd ps)"
proof (induction ps arbitrary: off rule: encoded.induct)
  case (2 b e ps)
  then show ?case
    using "2.IH" [of "off + length e"] "2.IH" [of off] by (cases b) (auto simp del: length_concat)
qed simp

theorem container_codec:
  assumes codecs: "\<forall>t \<in> set ts. item_codec (var t) (w t) (ser t) (dec t) (ok t)"
    and len: "length enc \<le> max_len"
  defines "ls \<equiv> layouts_of var w ts"
  shows "deserialize_container ls (map dec ts) enc = Inr vs \<longleftrightarrow>
    list_all2 ok ts vs \<and>
    serialize_container (container_size_hint ls) (map2 (\<lambda>t v. (var t, ser t v)) ts vs) = Inr enc"
    (is "?L \<longleftrightarrow> ?R")
proof -
  let ?F = "container_size_hint ls"
  let ?enc = "\<lambda>ps. offsets_fit ?F (var_pieces ps) \<and> enc = fixed_part ?F ps @ concat (var_pieces ps)"
  let ?ser = "\<lambda>ps. list_all2 (\<lambda>(t, e) v. ser t v = Inr e) (zip ts (map snd ps)) vs"
  have wf: "list_all wf_layout ls" by (simp add: ls_def list_all_iff)
  have vars: "map variable_size ls = map var ts" by (simp add: ls_def field_layout_def)
  have dec: "list_all2 (\<lambda>(d, e) v. d e = Inr v) (zip (map dec ts) (map snd ps)) vs \<longleftrightarrow>
      list_all2 ok ts vs \<and> ?ser ps" if "?enc ps" and "map fst ps = map var ts" for ps
  proof (rule field_codecs [OF codecs])
    show "list_all (\<lambda>e. length e \<le> max_len) (map snd ps)"
      using container_pieces_small that(1) len by metis
    show "length (map snd ps) = length ts" using that(2) map_eq_imp_length_eq by fastforce
  qed
  have "?L \<longleftrightarrow> (\<exists>ps. map fst ps = map var ts \<and> sizes_ok ls ps \<and> ?enc ps
      \<and> list_all2 (\<lambda>(d, e) v. d e = Inr v) (zip (map dec ts) (map snd ps)) vs)"
    using deserialize_container_eq_Inr [OF max_len_le_u64 [OF len] wf, of "map dec ts" vs]
    by (simp add: ls_def [symmetric] vars) (simp add: ls_def)
  also have "\<dots> \<longleftrightarrow> (\<exists>ps. map fst ps = map var ts \<and> list_all2 ok ts vs \<and> ?enc ps \<and> ?ser ps)"
    using dec fields_sizes_ok [OF codecs] unfolding ls_def by blast
  also have "\<dots> \<longleftrightarrow> list_all2 ok ts vs \<and>
      (\<exists>ps. map2 (\<lambda>t v. (var t, ser t v)) ts vs = encoded ps \<and> ?enc ps)"
    using encoded_values [of var ser ts vs] list_all2_lengthD [of ok ts vs] by fastforce
  also have "\<dots> \<longleftrightarrow> ?R"
  proof -
    have "length (fixed_part ?F ps) = ?F \<and> ?F + length (concat (var_pieces ps)) \<le> u64_max"
      if "list_all2 ok ts vs" "map2 (\<lambda>t v. (var t, ser t v)) ts vs = encoded ps" "?enc ps" for ps
    proof -
      have m: "map fst ps = map var ts" "?ser ps"
        using that(1,2) encoded_values [of var ser ts vs ps] list_all2_lengthD [of ok ts vs] by auto
      have "length (fixed_part ?F ps) = ?F"
        by (rule length_fixed_part [OF _ wf])
           (use m vars fields_sizes_ok [OF codecs m(1) that(1) m(2)] in \<open>simp_all add: ls_def\<close>)
      moreover have "length enc \<le> u64_max" by (rule max_len_le_u64 [OF len])
      ultimately show ?thesis using that(3) by (simp del: length_concat)
    qed
    then show ?thesis unfolding serialize_container_eq_Inr by blast
  qed
  finally show ?thesis .
qed

end
