(* ===== verification/Ssz_Types.thy ===== *)
theory Ssz_Types
  imports Ssz_Bits Ssz_Container_Laws
begin

text \<open>
  The SSZ traits \<open>SszSized\<close>, \<open>Serialize\<close> and \<open>Deserialize\<close> (\<open>ssz/traits.rs\<close>) over a universe of
  type descriptors: \<open>ssz_ty\<close> describes a Rust type that implements the traits, \<open>ssz_val\<close> its
  values. The impls of the basic types are in \<open>ssz/basic.rs\<close>, of \<open>List\<close> and \<open>Vector\<close> in
  \<open>ssz/list.rs\<close> and \<open>ssz/vector.rs\<close>, of bitfields in \<open>ssz/bitfield.rs\<close>, and a container impl lists its
  fields as \<open>TContainer\<close> does. The length parameters are compile-time constants, so the products
  and sums of size hints are computed exactly.
\<close>

section \<open>Types and values\<close>

datatype ssz_ty =
    TUint nat
  | TBool
  | TBytes nat
  | TUint256
  | TVector ssz_ty nat
  | TList ssz_ty nat
  | TBitvector nat
  | TBitlist nat
  | TContainer "ssz_ty list"

datatype ssz_val =
    VUint nat
  | VBool bool
  | VBytes bytes
  | VSeq "ssz_val list"
  | VBits "bool list"
  | VContainer "ssz_val list"

text \<open>The pair of \<open>is_variable_size()\<close> and \<open>size_hint()\<close>.\<close>

fun ssz_sized :: "ssz_ty \<Rightarrow> bool \<times> usize" where
  "ssz_sized (TUint w) = (False, w)"
| "ssz_sized TBool = (False, 1)"
| "ssz_sized (TBytes n) = (False, n)"
| "ssz_sized TUint256 = (False, 32)"
| "ssz_sized (TVector t n) = (case ssz_sized t of (var, sz) \<Rightarrow>
     (var, if var then n * BYTES_PER_LENGTH_OFFSET else n * sz))"
| "ssz_sized (TList t n) = (True, BYTES_PER_LENGTH_OFFSET)"
| "ssz_sized (TBitvector n) = (False, bitfield_byte_len n)"
| "ssz_sized (TBitlist n) = (True, BYTES_PER_LENGTH_OFFSET)"
| "ssz_sized (TContainer ts) = (let layouts = map (\<lambda>t. case ssz_sized t of (var, sz) \<Rightarrow> field_layout var sz) ts
     in (container_is_variable_size layouts, container_size_hint layouts))"

definition is_variable_size :: "ssz_ty \<Rightarrow> bool" where
  "is_variable_size t = fst (ssz_sized t)"

definition size_hint :: "ssz_ty \<Rightarrow> usize" where
  "size_hint t = snd (ssz_sized t)"

abbreviation layouts :: "ssz_ty list \<Rightarrow> FieldLayout list" where
  "layouts ts \<equiv> layouts_of is_variable_size size_hint ts"

section \<open>Serialization\<close>

text \<open>
  A value of another type than the descriptor's has no encoding; Rust's types rule this case out,
  and the model returns an arbitrary error.
\<close>

fun serialize :: "ssz_ty \<Rightarrow> ssz_val \<Rightarrow> (SerializeError, bytes) res" where
  "serialize (TUint w) = (\<lambda>v. case v of VUint n \<Rightarrow> Inr (to_le_bytes w n) | _ \<Rightarrow> Inl SerOffsetOverflow)"
| "serialize TBool = (\<lambda>v. case v of VBool b \<Rightarrow> Inr [if b then 1 else 0] | _ \<Rightarrow> Inl SerOffsetOverflow)"
| "serialize (TBytes n) = (\<lambda>v. case v of VBytes bs \<Rightarrow> Inr bs | _ \<Rightarrow> Inl SerOffsetOverflow)"
| "serialize TUint256 = (\<lambda>v. case v of VBytes bs \<Rightarrow> Inr bs | _ \<Rightarrow> Inl SerOffsetOverflow)"
| "serialize (TVector t n) = (\<lambda>v. case v of VSeq vs \<Rightarrow>
       if length vs \<noteq> n then Inl (SerVectorLength (length vs) n)
       else serialize_sequence (is_variable_size t) (map (serialize t) vs)
     | _ \<Rightarrow> Inl SerOffsetOverflow)"
| "serialize (TList t n) = (\<lambda>v. case v of VSeq vs \<Rightarrow>
       if length vs > n then Inl (SerListTooLong (length vs) n)
       else serialize_sequence (is_variable_size t) (map (serialize t) vs)
     | _ \<Rightarrow> Inl SerOffsetOverflow)"
| "serialize (TBitvector n) = (\<lambda>v. case v of VBits bs \<Rightarrow> bitvector_serialize bs
     | _ \<Rightarrow> Inl SerOffsetOverflow)"
| "serialize (TBitlist n) = (\<lambda>v. case v of VBits bs \<Rightarrow> bitlist_serialize n bs
     | _ \<Rightarrow> Inl SerOffsetOverflow)"
| "serialize (TContainer ts) = (\<lambda>v. case v of VContainer vs \<Rightarrow>
       serialize_container (container_size_hint (layouts ts))
         (map2 (\<lambda>(var, ser) v. (var, ser v)) (map (\<lambda>t. (is_variable_size t, serialize t)) ts) vs)
     | _ \<Rightarrow> Inl SerOffsetOverflow)"

definition deserialize_fixed_bytes :: "usize \<Rightarrow> bytes \<Rightarrow> (DeserializeError, bytes) res" where
  "deserialize_fixed_bytes n encoding =
     (if length encoding < n then Inl (ExpectedFurtherInput (length encoding) n)
      else if length encoding > n then Inl (AdditionalInput (length encoding) n)
      else Inr encoding)"

fun deserialize :: "ssz_ty \<Rightarrow> bytes \<Rightarrow> (DeserializeError, ssz_val) res" where
  "deserialize (TUint w) = (\<lambda>e. bindR (deserialize_fixed_bytes w e) (\<lambda>bs. Inr (VUint (from_le_bytes bs))))"
| "deserialize TBool = (\<lambda>e. bindR (deserialize_fixed_bytes 1 e) (\<lambda>bs.
     let byte = from_le_bytes bs in
     if byte = 0 then Inr (VBool False) else if byte = 1 then Inr (VBool True)
     else Inl (InvalidBool (word_of_nat byte))))"
| "deserialize (TBytes n) = (\<lambda>e. bindR (deserialize_fixed_bytes n e) (\<lambda>bs. Inr (VBytes bs)))"
| "deserialize TUint256 = (\<lambda>e. bindR (deserialize_fixed_bytes 32 e) (\<lambda>bs. Inr (VBytes bs)))"
| "deserialize (TVector t n) = (\<lambda>e.
     bindR (deserialize_vector_items (is_variable_size t) (size_hint t) (deserialize t) n e) (\<lambda>vs. Inr (VSeq vs)))"
| "deserialize (TList t n) = (\<lambda>e.
     bindR (deserialize_list_items (is_variable_size t) (size_hint t) (deserialize t) n e) (\<lambda>vs. Inr (VSeq vs)))"
| "deserialize (TBitvector n) = (\<lambda>e. bindR (bitvector_deserialize n e) (\<lambda>bs. Inr (VBits bs)))"
| "deserialize (TBitlist n) = (\<lambda>e. bindR (bitlist_deserialize n e) (\<lambda>bs. Inr (VBits bs)))"
| "deserialize (TContainer ts) = (\<lambda>e.
     bindR (deserialize_container (layouts ts) (map deserialize ts) e) (\<lambda>vs. Inr (VContainer vs)))"

section \<open>Well-formed types and their values\<close>

text \<open>The values of a type: what the Rust types and the invariants of \<open>List\<close> and \<open>Vector\<close> admit.\<close>

fun well_typed :: "ssz_ty \<Rightarrow> ssz_val \<Rightarrow> bool" where
  "well_typed (TUint w) = (\<lambda>v. case v of VUint n \<Rightarrow> n < 256 ^ w | _ \<Rightarrow> False)"
| "well_typed TBool = (\<lambda>v. case v of VBool b \<Rightarrow> True | _ \<Rightarrow> False)"
| "well_typed (TBytes n) = (\<lambda>v. case v of VBytes bs \<Rightarrow> length bs = n | _ \<Rightarrow> False)"
| "well_typed TUint256 = (\<lambda>v. case v of VBytes bs \<Rightarrow> length bs = 32 | _ \<Rightarrow> False)"
| "well_typed (TVector t n) = (\<lambda>v. case v of VSeq vs \<Rightarrow> length vs = n \<and> list_all (well_typed t) vs | _ \<Rightarrow> False)"
| "well_typed (TList t n) = (\<lambda>v. case v of VSeq vs \<Rightarrow> length vs \<le> n \<and> list_all (well_typed t) vs | _ \<Rightarrow> False)"
| "well_typed (TBitvector n) = (\<lambda>v. case v of VBits bs \<Rightarrow> length bs = n | _ \<Rightarrow> False)"
| "well_typed (TBitlist n) = (\<lambda>v. case v of VBits bs \<Rightarrow> length bs \<le> n | _ \<Rightarrow> False)"
| "well_typed (TContainer ts) = (\<lambda>v. case v of VContainer vs \<Rightarrow>
     list_all2 (\<lambda>f v. f v) (map well_typed ts) vs | _ \<Rightarrow> False)"

text \<open>No type of the program has an empty fixed-size encoding.\<close>

fun wf_ty :: "ssz_ty \<Rightarrow> bool" where
  "wf_ty (TUint w) = (0 < w)"
| "wf_ty TBool = True"
| "wf_ty (TBytes n) = (0 < n)"
| "wf_ty TUint256 = True"
| "wf_ty (TVector t n) = (wf_ty t \<and> 0 < n)"
| "wf_ty (TList t n) = wf_ty t"
| "wf_ty (TBitvector n) = (0 < n)"
| "wf_ty (TBitlist n) = True"
| "wf_ty (TContainer ts) = (ts \<noteq> [] \<and> (\<forall>t \<in> set ts. wf_ty t))"

lemma ssz_sized_simps [simp]:
  "is_variable_size (TUint w) = False" "size_hint (TUint w) = w"
  "is_variable_size TBool = False" "size_hint TBool = 1"
  "is_variable_size (TBytes n) = False" "size_hint (TBytes n) = n"
  "is_variable_size TUint256 = False" "size_hint TUint256 = 32"
  "is_variable_size (TVector t n) = is_variable_size t"
  "size_hint (TVector t n) = (if is_variable_size t then n * 4 else n * size_hint t)"
  "is_variable_size (TList t n) = True" "size_hint (TList t n) = 4"
  "is_variable_size (TBitvector n) = False" "size_hint (TBitvector n) = bitfield_byte_len n"
  "is_variable_size (TBitlist n) = True" "size_hint (TBitlist n) = 4"
  "is_variable_size (TContainer ts) = list_ex is_variable_size ts"
  "size_hint (TContainer ts) = container_size_hint (layouts ts)"
  by (simp_all add: is_variable_size_def size_hint_def BYTES_PER_LENGTH_OFFSET_def split_beta Let_def
      container_is_variable_size_def list_ex_iff field_layout_def)

lemma wf_size_pos: "wf_ty t \<Longrightarrow> is_variable_size t \<or> 0 < size_hint t"
proof (induction t)
  case (TBitvector n)
  then show ?case using byte_len_bounds(1) [of n] by simp
next
  case (TContainer ts)
  then obtain t ts' where ts: "ts = t # ts'" by (cases ts) auto
  with TContainer show ?case
    by (auto simp: field_layout_def BYTES_PER_LENGTH_OFFSET_def)
qed auto

section \<open>The codec of every type\<close>

lemma fixed_bytes_eq_Inr: "deserialize_fixed_bytes n e = Inr bs \<longleftrightarrow> length e = n \<and> bs = e"
  by (auto simp: deserialize_fixed_bytes_def)

lemma uint_codec: "item_codec False w (serialize (TUint w)) (deserialize (TUint w)) (well_typed (TUint w))"
  by unfold_locales
     (auto simp: bindR_eq_Inr fixed_bytes_eq_Inr from_to_le_bytes to_from_le_bytes
       intro: from_le_bytes_lt split: ssz_val.splits)

lemma byte_of_bool:
  assumes "length e = 1"
  shows "from_le_bytes e = 0 \<longleftrightarrow> e = [0]" and "from_le_bytes e = 1 \<longleftrightarrow> e = [1]"
proof -
  obtain b where b: "e = [b]" using assms by (cases e) auto
  then show "from_le_bytes e = 0 \<longleftrightarrow> e = [0]" by (simp add: unsigned_eq_0_iff)
  have "unat b = 1 \<longleftrightarrow> b = 1" by (metis unsigned_1 unsigned_word_eqI)
  then show "from_le_bytes e = 1 \<longleftrightarrow> e = [1]" using b by simp
qed

lemma bool_codec: "item_codec False 1 (serialize TBool) (deserialize TBool) (well_typed TBool)"
proof
  fix e :: bytes and v
  show "deserialize TBool e = Inr v \<longleftrightarrow> well_typed TBool v \<and> serialize TBool v = Inr e"
  proof (cases "length e = 1")
    case True
    then have "deserialize TBool e = Inr v \<longleftrightarrow> (e = [0] \<and> v = VBool False) \<or> (e = [1] \<and> v = VBool True)"
      using byte_of_bool [OF True] by (auto simp: deserialize_fixed_bytes_def Let_def)
    then show ?thesis by (cases v) auto
  next
    case False
    then show ?thesis by (auto simp: bindR_eq_Inr fixed_bytes_eq_Inr split: ssz_val.splits)
  qed
qed (auto split: ssz_val.splits)

lemma bytes_codec: "item_codec False n (serialize (TBytes n)) (deserialize (TBytes n)) (well_typed (TBytes n))"
  by unfold_locales (auto simp: bindR_eq_Inr fixed_bytes_eq_Inr split: ssz_val.splits)

lemma uint256_codec: "item_codec False 32 (serialize TUint256) (deserialize TUint256) (well_typed TUint256)"
  by unfold_locales (auto simp: bindR_eq_Inr fixed_bytes_eq_Inr split: ssz_val.splits)

lemma bitvector_ty_codec:
  "item_codec False (bitfield_byte_len n) (serialize (TBitvector n)) (deserialize (TBitvector n))
     (well_typed (TBitvector n))"
  by unfold_locales
     (auto simp: bindR_eq_Inr bitvector_codec bitvector_serialize_def split: ssz_val.splits)

lemma bitlist_ty_codec:
  "item_codec True 4 (serialize (TBitlist n)) (deserialize (TBitlist n)) (well_typed (TBitlist n))"
proof
  fix e :: bytes and v
  assume "length e \<le> max_len"
  then have "8 * length e \<le> u64_max" by (simp add: max_len_def u64_max_def)
  then show "deserialize (TBitlist n) e = Inr v \<longleftrightarrow>
      well_typed (TBitlist n) v \<and> serialize (TBitlist n) v = Inr e"
    by (auto simp: bindR_eq_Inr bitlist_codec bitlist_serialize_eq_Inr split: ssz_val.splits)
qed auto

lemma vector_codec:
  assumes c: "item_codec (is_variable_size t) (size_hint t) (serialize t) (deserialize t) (well_typed t)"
    and wf: "wf_ty t" "0 < n"
  shows "item_codec (is_variable_size (TVector t n)) (size_hint (TVector t n))
    (serialize (TVector t n)) (deserialize (TVector t n)) (well_typed (TVector t n))"
proof
  fix e :: bytes and v
  assume "length e \<le> max_len"
  from item_codec.vector_items_codec [OF c this wf_size_pos [OF wf(1)] wf(2)]
  show "deserialize (TVector t n) e = Inr v \<longleftrightarrow>
      well_typed (TVector t n) v \<and> serialize (TVector t n) v = Inr e"
    by (auto simp: bindR_eq_Inr split: ssz_val.splits)
next
  fix v e
  assume A: "\<not> is_variable_size (TVector t n)" "well_typed (TVector t n) v"
    "serialize (TVector t n) v = Inr e"
  then obtain vs where "v = VSeq vs" "length vs = n" "list_all (well_typed t) vs"
    "serialize_sequence False (map (serialize t) vs) = Inr e"
    by (auto split: ssz_val.splits)
  with A(1) show "length e = size_hint (TVector t n)"
    using item_codec.fixed_sequence_length [OF c, of vs e] by simp
qed

lemma list_codec:
  assumes c: "item_codec (is_variable_size t) (size_hint t) (serialize t) (deserialize t) (well_typed t)"
    and wf: "wf_ty t"
  shows "item_codec True 4 (serialize (TList t n)) (deserialize (TList t n)) (well_typed (TList t n))"
proof
  fix e :: bytes and v
  assume "length e \<le> max_len"
  from item_codec.list_items_codec [OF c this wf_size_pos [OF wf]]
  show "deserialize (TList t n) e = Inr v \<longleftrightarrow>
      well_typed (TList t n) v \<and> serialize (TList t n) v = Inr e"
    by (auto simp: bindR_eq_Inr split: ssz_val.splits)
qed auto

lemma serialize_TContainer:
  "serialize (TContainer ts) (VContainer vs) =
     serialize_container (container_size_hint (layouts ts))
       (map2 (\<lambda>t v. (is_variable_size t, serialize t v)) ts vs)"
  by (simp add: zip_map1 comp_def case_prod_unfold)

lemma well_typed_TContainer: "well_typed (TContainer ts) (VContainer vs) = list_all2 well_typed ts vs"
  by (simp add: list_all2_map1)

lemma container_ty_codec:
  assumes "\<And>t. t \<in> set ts \<Longrightarrow>
    item_codec (is_variable_size t) (size_hint t) (serialize t) (deserialize t) (well_typed t)"
  shows "item_codec (is_variable_size (TContainer ts)) (size_hint (TContainer ts))
    (serialize (TContainer ts)) (deserialize (TContainer ts)) (well_typed (TContainer ts))"
proof
  fix e :: bytes and v
  assume len: "length e \<le> max_len"
  have *: "deserialize_container (layouts ts) (map deserialize ts) e = Inr vs \<longleftrightarrow>
      well_typed (TContainer ts) (VContainer vs) \<and> serialize (TContainer ts) (VContainer vs) = Inr e" for vs
    unfolding serialize_TContainer well_typed_TContainer
    by (rule container_codec [OF _ len]) (use assms in blast)
  show "deserialize (TContainer ts) e = Inr v \<longleftrightarrow>
      well_typed (TContainer ts) v \<and> serialize (TContainer ts) v = Inr e"
    using * by (cases v) (auto simp: bindR_eq_Inr)
next
  fix v e
  assume A: "\<not> is_variable_size (TContainer ts)" "well_typed (TContainer ts) v"
    "serialize (TContainer ts) v = Inr e"
  then obtain vs where v: "v = VContainer vs" "list_all2 well_typed ts vs"
    by (cases v) (auto simp: list_all2_map1)
  from A(3) obtain ps where ps:
    "map2 (\<lambda>t v. (is_variable_size t, serialize t v)) ts vs = encoded ps"
    "length (fixed_part (size_hint (TContainer ts)) ps) = size_hint (TContainer ts)"
    "e = fixed_part (size_hint (TContainer ts)) ps @ concat (var_pieces ps)"
    unfolding v(1) serialize_TContainer serialize_container_eq_Inr by auto
  have fst: "map fst ps = map is_variable_size ts"
    using encoded_values [of is_variable_size serialize ts vs ps] ps(1) list_all2_lengthD [OF v(2)] by auto
  have "\<not> fst p" if "p \<in> set ps" for p
  proof -
    have "fst p \<in> set (map fst ps)" using that by simp
    then show ?thesis using A(1) unfolding fst by (auto simp: list_ex_iff)
  qed
  then have "filter fst ps = []" by (simp add: filter_empty_conv)
  then show "length e = size_hint (TContainer ts)" using ps(2,3) by (simp add: var_pieces_def)
qed

lemma ssz_codec:
  "wf_ty t \<Longrightarrow> item_codec (is_variable_size t) (size_hint t) (serialize t) (deserialize t) (well_typed t)"
proof (induction t)
  case TBool
  show ?case unfolding ssz_sized_simps by (rule bool_codec)
next
  case (TVector t n)
  then show ?case by (intro vector_codec) simp_all
next
  case (TContainer ts)
  then show ?case by (intro container_ty_codec) auto
qed (simp_all add: uint_codec bytes_codec uint256_codec bitvector_ty_codec bitlist_ty_codec list_codec
      del: serialize.simps deserialize.simps well_typed.simps)

lemma to_le_bytes_numeral:
  "to_le_bytes (numeral k) n = word_of_nat n # to_le_bytes (pred_numeral k) (n div 256)"
  using to_le_bytes.simps(2) [of "pred_numeral k" n] unfolding numeral_eq_Suc [of k, symmetric] .

lemmas codec_eval = to_le_bytes_numeral serialize_container_def encoder_new_def write_field_def write_offset_def
  encoder_finish_def serialize_sequence_def bitlist_serialize_def pack_bits_def set_bit_at_def
  bitfield_byte_len_def div_ceil_def checked_add_def checked_mul_def u64_max_def u32_max_def
  container_size_hint_def field_layout_def BYTES_PER_LENGTH_OFFSET_def ok_or_def Let_def

text \<open>The contract holds for the integer types, over which the others are built.\<close>

interpretation u64_ssz: item_codec False 8 "serialize (TUint 8)" "deserialize (TUint 8)" "well_typed (TUint 8)"
  by (rule uint_codec)

text \<open>
  C1: SSZ decoding is the exact inverse of SSZ encoding, for every type built from the program's
  constructors. The decoder accepts a byte string as a value exactly when the value is one of the
  type and its encoding is that byte string: every accepted input is canonical, and every encoding is
  decoded to the value it came from.
\<close>

theorem ssz_decode_iff_encode:
  assumes "wf_ty t" and "length e \<le> max_len"
  shows "deserialize t e = Inr v \<longleftrightarrow> well_typed t v \<and> serialize t v = Inr e"
  using item_codec.codec [OF ssz_codec [OF assms(1)] assms(2)] .

theorem ssz_decode_iff_encode_witness:
  "deserialize (TContainer [TUint 2, TList (TUint 1) 4, TBitlist 5])
     [1, 2, 10, 0, 0, 0, 12, 0, 0, 0, 7, 9, 13]
   = Inr (VContainer [VUint 513, VSeq [VUint 7, VUint 9], VBits [True, False, True]])"
proof -
  let ?t = "TContainer [TUint 2, TList (TUint 1) 4, TBitlist 5]"
  let ?e = "[1, 2, 10, 0, 0, 0, 12, 0, 0, 0, 7, 9, 13] :: bytes"
  let ?v = "VContainer [VUint 513, VSeq [VUint 7, VUint 9], VBits [True, False, True]]"
  have "wf_ty ?t" by simp
  moreover have "length ?e \<le> max_len" by (simp add: max_len_def)
  moreover have "well_typed ?t ?v" by simp
  moreover have "serialize ?t ?v = Inr ?e"
    by (simp add: codec_eval)
  ultimately show ?thesis using ssz_decode_iff_encode [of ?t ?e ?v] by blast
qed

end
