(* ===== verification/Ssz_Merkle.thy ===== *)
theory Ssz_Merkle
  imports Ssz_Types
begin

text \<open>
  Merkleization (\<open>ssz/merkle.rs\<close>, \<open>ssz/collection.rs\<close>, \<open>ssz/node.rs\<close>) and the trait \<open>Merkleized\<close> over
  the universe of SSZ types. A node is a string of 32 bytes; the SHA-256 function of the \<open>sha2\<close>
  crate is the parameter \<open>sha256\<close>. The iterative level-by-level computation with cached zero
  subtrees is proved equal to the root of the full zero-padded binary tree.
\<close>

section \<open>Nodes and zero hashes (merkle.rs, node.rs)\<close>

type_synonym node = bytes

datatype MerkleizationError =
    MerLengthOverflow
  | MerListTooLong (mer_len: usize) (mer_limit: usize)
  | MerVectorLength (mer_len: usize) (mer_expected: usize)
  | MerBasicValueTooLong (mer_len: usize) (mer_limit: usize)

definition node_default :: node where
  "node_default = replicate BYTES_PER_CHUNK 0"

definition hash_pair :: "(bytes \<Rightarrow> bytes) \<Rightarrow> node \<Rightarrow> node \<Rightarrow> node" where
  "hash_pair sha256 left right = sha256 (left @ right)"

definition MAX_TREE_HEIGHT :: usize where
  "MAX_TREE_HEIGHT = 64"

definition ZERO_HASHES :: "(bytes \<Rightarrow> bytes) \<Rightarrow> node list" where
  "ZERO_HASHES sha256 =
     foldl (\<lambda>table depth. table[depth := hash_pair sha256 (table ! (depth - 1)) (table ! (depth - 1))])
       (replicate (MAX_TREE_HEIGHT + 1) node_default) [1..<MAX_TREE_HEIGHT + 1]"

text \<open>\<open>u64::leading_zeros\<close>.\<close>

definition leading_zeros_u64 :: "usize \<Rightarrow> nat" where
  "leading_zeros_u64 n = length (takeWhile (\<lambda>i. \<not> bit n i) (rev [0..<64]))"

definition tree_depth_for_limit :: "usize \<Rightarrow> usize" where
  "tree_depth_for_limit limit = (if limit \<le> 1 then 0 else 64 - leading_zeros_u64 (limit - 1))"

section \<open>Merkleization (merkle.rs)\<close>

text \<open>One round of the first loop: pad to an even number of nodes, then hash pairs.\<close>

definition merkle_level :: "(bytes \<Rightarrow> bytes) \<Rightarrow> usize \<Rightarrow> node list \<Rightarrow> node list" where
  "merkle_level sha256 depth nodes =
     (let nodes = (if length nodes mod 2 \<noteq> 0 then nodes @ [ZERO_HASHES sha256 ! depth] else nodes)
      in map (\<lambda>p. hash_pair sha256 (p ! 0) (p ! 1)) (chunks_exact 2 nodes))"

lemma length_chunks_exact_2: "length (chunks_exact 2 xs) = length xs div 2"
proof (induction "2 :: nat" xs rule: chunks_exact.induct)
  case (1 xs)
  then show ?case
    by (cases "length xs < 2") (auto simp: chunks_exact_stop chunks_exact_step le_div_geq)
qed

lemma length_merkle_level: "length (merkle_level sha256 depth nodes) = (length nodes + 1) div 2"
  by (auto simp: merkle_level_def Let_def length_chunks_exact_2 elim!: oddE evenE)

function merkle_levels :: "(bytes \<Rightarrow> bytes) \<Rightarrow> usize \<Rightarrow> node list \<Rightarrow> usize \<times> node list" where
  "merkle_levels sha256 depth nodes =
     (if length nodes > 1 then merkle_levels sha256 (depth + 1) (merkle_level sha256 depth nodes)
      else (depth, nodes))"
  by pat_completeness auto
termination
  by (relation "measure (\<lambda>(sha256, depth, nodes). length nodes)") (auto simp: length_merkle_level)

declare merkle_levels.simps [simp del]

text \<open>The second loop: combine the root with zero subtrees up to the height.\<close>

function merkle_extend :: "(bytes \<Rightarrow> bytes) \<Rightarrow> usize \<Rightarrow> usize \<Rightarrow> node \<Rightarrow> node" where
  "merkle_extend sha256 depth height root =
     (if depth < height
      then merkle_extend sha256 (depth + 1) height (hash_pair sha256 root (ZERO_HASHES sha256 ! depth))
      else root)"
  by pat_completeness auto
termination
  by (relation "measure (\<lambda>(sha256, depth, height, root). height - depth)") auto

declare merkle_extend.simps [simp del]

definition merkleize_roots_unchecked :: "(bytes \<Rightarrow> bytes) \<Rightarrow> node list \<Rightarrow> usize \<Rightarrow> node" where
  "merkleize_roots_unchecked sha256 roots limit =
     (let height = tree_depth_for_limit (max limit 1) in
      if roots = [] then ZERO_HASHES sha256 ! height
      else case merkle_levels sha256 0 roots of (depth, nodes) \<Rightarrow>
        merkle_extend sha256 depth height (nodes ! 0))"

definition merkleize_roots :: "(bytes \<Rightarrow> bytes) \<Rightarrow> node list \<Rightarrow> node" where
  "merkleize_roots sha256 roots = merkleize_roots_unchecked sha256 roots (length roots)"

definition merkleize_roots_with_limit ::
  "(bytes \<Rightarrow> bytes) \<Rightarrow> node list \<Rightarrow> usize \<Rightarrow> (MerkleizationError, node) res"
where
  "merkleize_roots_with_limit sha256 roots limit =
     (if length roots > limit then Inl (MerListTooLong (length roots) limit)
      else Inr (merkleize_roots_unchecked sha256 roots limit))"

definition chunk_count :: "usize \<Rightarrow> usize" where
  "chunk_count bytes = div_ceil bytes BYTES_PER_CHUNK"

text \<open>\<open>chunks(n)\<close>: the last chunk may be shorter.\<close>

function chunks :: "nat \<Rightarrow> 'a list \<Rightarrow> 'a list list" where
  "chunks n xs = (if n = 0 \<or> xs = [] then [] else take n xs # chunks n (drop n xs))"
  by pat_completeness auto
termination
  by (relation "measure (\<lambda>(n, xs). length xs)") auto

declare chunks.simps [simp del]

definition pad_chunk :: "bytes \<Rightarrow> node" where
  "pad_chunk chunk = chunk @ replicate (BYTES_PER_CHUNK - length chunk) 0"

definition pack_bytes :: "bytes \<Rightarrow> node list" where
  "pack_bytes bytes =
     (if bytes = [] then [node_default] else map pad_chunk (chunks BYTES_PER_CHUNK bytes))"

definition merkleize_byte_sequence_unchecked :: "(bytes \<Rightarrow> bytes) \<Rightarrow> bytes \<Rightarrow> usize \<Rightarrow> node" where
  "merkleize_byte_sequence_unchecked sha256 bytes byte_limit =
     (let chunk_limit = max (chunk_count byte_limit) 1
      in merkleize_roots_unchecked sha256 (pack_bytes bytes) chunk_limit)"

definition merkleize_byte_sequence :: "(bytes \<Rightarrow> bytes) \<Rightarrow> bytes \<Rightarrow> node" where
  "merkleize_byte_sequence sha256 bytes = merkleize_byte_sequence_unchecked sha256 bytes (length bytes)"

definition merkleize_byte_sequence_with_limit ::
  "(bytes \<Rightarrow> bytes) \<Rightarrow> bytes \<Rightarrow> usize \<Rightarrow> (MerkleizationError, node) res"
where
  "merkleize_byte_sequence_with_limit sha256 bytes byte_limit =
     (if length bytes > byte_limit then Inl (MerListTooLong (length bytes) byte_limit)
      else Inr (merkleize_byte_sequence_unchecked sha256 bytes byte_limit))"

definition mix_in_length :: "(bytes \<Rightarrow> bytes) \<Rightarrow> node \<Rightarrow> usize \<Rightarrow> node" where
  "mix_in_length sha256 root len = hash_pair sha256 root (to_le_bytes 8 len @ replicate 24 0)"

definition basic_root :: "bytes \<Rightarrow> (MerkleizationError, node) res" where
  "basic_root bytes =
     (if length bytes > BYTES_PER_CHUNK then Inl (MerBasicValueTooLong (length bytes) BYTES_PER_CHUNK)
      else Inr (pad_chunk bytes))"

section \<open>Collections (collection.rs)\<close>

text \<open>
  \<open>roots\<close> are the results of \<open>hash_tree_root\<close> on the values and \<open>encs\<close> those of \<open>serialize\<close>; only the
  ones of the branch taken are demanded.
\<close>

definition collection_root ::
  "(bytes \<Rightarrow> bytes) \<Rightarrow> bool \<Rightarrow> usize \<Rightarrow> (MerkleizationError, node) res list \<Rightarrow>
    (SerializeError, bytes) res list \<Rightarrow> usize \<Rightarrow> (MerkleizationError, node) res"
where
  "collection_root sha256 composite item_size roots encs limit =
     (if length roots > limit then Inl (MerListTooLong (length roots) limit)
      else if composite then
        bindR (mapR id roots) (\<lambda>rs. merkleize_roots_with_limit sha256 rs limit)
      else
        bindR (map_err (\<lambda>_. MerLengthOverflow) (mapR id encs)) (\<lambda>bs.
        bindR (ok_or (checked_mul limit item_size) MerLengthOverflow) (\<lambda>byte_limit.
          merkleize_byte_sequence_with_limit sha256 (concat bs) byte_limit)))"

section \<open>\<open>hash_tree_root\<close> of every type\<close>

fun is_composite_type :: "ssz_ty \<Rightarrow> bool" where
  "is_composite_type (TUint w) = False"
| "is_composite_type TBool = False"
| "is_composite_type TUint256 = False"
| "is_composite_type _ = True"

fun hash_tree_root :: "(bytes \<Rightarrow> bytes) \<Rightarrow> ssz_ty \<Rightarrow> ssz_val \<Rightarrow> (MerkleizationError, node) res" where
  "hash_tree_root sha256 (TUint w) = (\<lambda>v. case v of VUint n \<Rightarrow> basic_root (to_le_bytes w n)
     | _ \<Rightarrow> Inl MerLengthOverflow)"
| "hash_tree_root sha256 TBool = (\<lambda>v. case v of VBool b \<Rightarrow> basic_root [if b then 1 else 0]
     | _ \<Rightarrow> Inl MerLengthOverflow)"
| "hash_tree_root sha256 (TBytes n) = (\<lambda>v. case v of VBytes bs \<Rightarrow> merkleize_byte_sequence_with_limit sha256 bs n
     | _ \<Rightarrow> Inl MerLengthOverflow)"
| "hash_tree_root sha256 TUint256 = (\<lambda>v. case v of VBytes bs \<Rightarrow> Inr bs | _ \<Rightarrow> Inl MerLengthOverflow)"
| "hash_tree_root sha256 (TVector t n) = (\<lambda>v. case v of VSeq vs \<Rightarrow>
       if length vs \<noteq> n then Inl (MerVectorLength (length vs) n)
       else collection_root sha256 (is_composite_type t) (size_hint t)
              (map (hash_tree_root sha256 t) vs) (map (serialize t) vs) n
     | _ \<Rightarrow> Inl MerLengthOverflow)"
| "hash_tree_root sha256 (TList t n) = (\<lambda>v. case v of VSeq vs \<Rightarrow>
       if length vs > n then Inl (MerListTooLong (length vs) n)
       else bindR (collection_root sha256 (is_composite_type t) (size_hint t)
              (map (hash_tree_root sha256 t) vs) (map (serialize t) vs) n) (\<lambda>root.
            Inr (mix_in_length sha256 root (length vs)))
     | _ \<Rightarrow> Inl MerLengthOverflow)"
| "hash_tree_root sha256 (TBitvector n) = (\<lambda>v. case v of VBits bs \<Rightarrow>
       merkleize_byte_sequence_with_limit sha256 (pack_bits bs) (bitfield_byte_len n)
     | _ \<Rightarrow> Inl MerLengthOverflow)"
| "hash_tree_root sha256 (TBitlist n) = (\<lambda>v. case v of VBits bs \<Rightarrow>
       if length bs > n then Inl (MerListTooLong (length bs) n)
       else bindR (merkleize_byte_sequence_with_limit sha256 (pack_bits bs) (bitfield_byte_len n)) (\<lambda>root.
            Inr (mix_in_length sha256 root (length bs)))
     | _ \<Rightarrow> Inl MerLengthOverflow)"
| "hash_tree_root sha256 (TContainer ts) = (\<lambda>v. case v of VContainer vs \<Rightarrow>
       bindR (mapR (\<lambda>(f, v). f v) (zip (map (hash_tree_root sha256) ts) vs)) (\<lambda>roots.
         Inr (merkleize_roots sha256 roots))
     | _ \<Rightarrow> Inl MerLengthOverflow)"

section \<open>The reference tree\<close>

text \<open>
  \<open>tree_root h z d xs\<close>: the root of the full binary tree of depth \<open>d\<close> whose leaves are \<open>xs\<close>, padded with
  \<open>z\<close> on the right.
\<close>

primrec tree_root :: "(bytes \<Rightarrow> bytes) \<Rightarrow> node \<Rightarrow> nat \<Rightarrow> node list \<Rightarrow> node" where
  "tree_root h z 0 xs = (if xs = [] then z else hd xs)"
| "tree_root h z (Suc d) xs =
     hash_pair h (tree_root h z d (take (2 ^ d) xs)) (tree_root h z d (drop (2 ^ d) xs))"

primrec zero_hash :: "(bytes \<Rightarrow> bytes) \<Rightarrow> nat \<Rightarrow> node" where
  "zero_hash h 0 = node_default"
| "zero_hash h (Suc d) = hash_pair h (zero_hash h d) (zero_hash h d)"

fun pair_up :: "(bytes \<Rightarrow> bytes) \<Rightarrow> node \<Rightarrow> node list \<Rightarrow> node list" where
  "pair_up h z (x # y # xs) = hash_pair h x y # pair_up h z xs"
| "pair_up h z [x] = [hash_pair h x z]"
| "pair_up h z [] = []"

lemma ZERO_HASHES_nth:
  assumes "d \<le> 64"
  shows "ZERO_HASHES h ! d = zero_hash h d"
proof -
  let ?step = "\<lambda>table depth. table[depth := hash_pair h (table ! (depth - 1)) (table ! (depth - 1))]"
  have "length (foldl ?step (replicate 65 node_default) [1..<n + 1]) = 65
      \<and> (\<forall>i \<le> n. foldl ?step (replicate 65 node_default) [1..<n + 1] ! i = zero_hash h i)" if "n \<le> 64" for n
    using that
  proof (induction n)
    case 0
    then show ?case by simp
  next
    case (Suc n)
    then show ?case by (auto simp: nth_list_update le_Suc_eq)
  qed
  from this [of 64] assms show ?thesis
    by (simp add: ZERO_HASHES_def MAX_TREE_HEIGHT_def del: upt_rec_numeral)
qed

lemma take_pair_up: "take n (pair_up h z xs) = pair_up h z (take (2 * n) xs)"
proof (induction h z xs arbitrary: n rule: pair_up.induct)
  case (1 h z x y xs)
  then show ?case by (cases n) auto
next
  case (2 h z x)
  then show ?case by (cases n) auto
qed simp

lemma drop_pair_up: "drop n (pair_up h z xs) = pair_up h z (drop (2 * n) xs)"
proof (induction h z xs arbitrary: n rule: pair_up.induct)
  case (1 h z x y xs)
  then show ?case by (cases n) auto
next
  case (2 h z x)
  then show ?case by (cases n) auto
qed simp

text \<open>Hashing the leaves pairwise gives the tree one level up.\<close>

lemma tree_root_pair_up: "tree_root h (hash_pair h z z) d (pair_up h z xs) = tree_root h z (Suc d) xs"
proof (induction d arbitrary: xs)
  case 0
  show ?case by (cases "(h, z, xs)" rule: pair_up.cases) auto
next
  case (Suc d)
  have "tree_root h (hash_pair h z z) (Suc d) (pair_up h z xs) =
      hash_pair h (tree_root h (hash_pair h z z) d (pair_up h z (take (2 * 2 ^ d) xs)))
                  (tree_root h (hash_pair h z z) d (pair_up h z (drop (2 * 2 ^ d) xs)))"
    by (simp only: tree_root.simps(2) take_pair_up drop_pair_up)
  also have "\<dots> = tree_root h z (Suc (Suc d)) xs"
    unfolding Suc.IH by (simp only: tree_root.simps(2) [of h z "Suc d"] power_Suc)
  finally show ?case .
qed

lemma tree_root_Nil: "tree_root h (zero_hash h k) d [] = zero_hash h (k + d)"
  by (induction d) auto

lemma tree_root_single: "tree_root h z (Suc d) [x] = hash_pair h (tree_root h z d [x]) (tree_root h z d [])"
proof -
  have "take (2 ^ d) [x] = [x]" and "drop (2 ^ d) [x] = []" by (simp_all add: Suc_leI)
  then show ?thesis by simp
qed

section \<open>The loops compute the tree\<close>

lemma merkle_level_pair_up:
  assumes "depth \<le> 64"
  shows "merkle_level h depth nodes = pair_up h (zero_hash h depth) nodes"
proof -
  let ?f = "\<lambda>p. hash_pair h (p ! 0) (p ! 1)"
  have even: "map ?f (chunks_exact 2 xs) = pair_up h z xs" if "even (length xs)" for z xs
    using that
  proof (induction h z xs rule: pair_up.induct)
    case (1 h z x y xs)
    then show ?case using chunks_exact_step [of 2 "x # y # xs"] by simp
  qed (simp_all add: chunks_exact_stop)
  have odd: "pair_up h z (xs @ [z]) = pair_up h z xs" if "odd (length xs)" for z xs
    using that by (induction h z xs rule: pair_up.induct) auto
  show ?thesis
    using even odd [of nodes "zero_hash h depth"]
    by (auto simp: merkle_level_def Let_def ZERO_HASHES_nth [OF assms] odd_iff_mod_2_eq_one)
qed

lemma merkle_extend_tree:
  assumes "d \<le> height" and "height \<le> 64" and "length xs \<le> 2 ^ d"
  shows "merkle_extend h d height (tree_root h (zero_hash h 0) d xs) = tree_root h (zero_hash h 0) height xs"
  using assms(1,3)
proof (induction "height - d" arbitrary: d)
  case 0
  then show ?case by (simp add: merkle_extend.simps)
next
  case (Suc n)
  have lt: "d < height" using Suc.hyps(2) by simp
  have "merkle_extend h d height (tree_root h (zero_hash h 0) d xs) =
      merkle_extend h (d + 1) height (hash_pair h (tree_root h (zero_hash h 0) d xs) (zero_hash h d))"
    using lt assms(2) by (subst merkle_extend.simps) (simp add: ZERO_HASHES_nth)
  also have "hash_pair h (tree_root h (zero_hash h 0) d xs) (zero_hash h d)
      = tree_root h (zero_hash h 0) (d + 1) xs"
    using Suc.prems(2) tree_root_Nil [of h 0 d] by simp
  also have "merkle_extend h (d + 1) height \<dots> = tree_root h (zero_hash h 0) height xs"
    using Suc.hyps(1) [of "d + 1"] Suc.hyps(2) Suc.prems by simp
  finally show ?case .
qed

lemma merkle_levels_tree:
  assumes "nodes \<noteq> []" and "length nodes \<le> 2 ^ m" and "depth + m \<le> 64"
  shows "\<exists>d \<le> m. merkle_levels h depth nodes = (depth + d, [tree_root h (zero_hash h depth) d nodes])
    \<and> length nodes \<le> 2 ^ d"
  using assms
proof (induction m arbitrary: depth nodes)
  case 0
  then obtain x where "nodes = [x]" by (cases nodes) auto
  then show ?case by (simp add: merkle_levels.simps)
next
  case (Suc m)
  show ?case
  proof (cases "length nodes > 1")
    case True
    let ?nodes = "merkle_level h depth nodes"
    have level: "?nodes = pair_up h (zero_hash h depth) nodes"
      using Suc.prems by (intro merkle_level_pair_up) simp
    have len: "length ?nodes = (length nodes + 1) div 2" by (rule length_merkle_level)
    have "?nodes \<noteq> []" using True len by (cases ?nodes) auto
    moreover have "length ?nodes \<le> 2 ^ m" using len Suc.prems(2) by simp
    ultimately obtain d where d: "d \<le> m" "length ?nodes \<le> 2 ^ d"
      "merkle_levels h (depth + 1) ?nodes = (depth + 1 + d, [tree_root h (zero_hash h (depth + 1)) d ?nodes])"
      using Suc.IH [of ?nodes "depth + 1"] Suc.prems(3) by auto
    have "tree_root h (zero_hash h (depth + 1)) d ?nodes = tree_root h (zero_hash h depth) (Suc d) nodes"
      unfolding level using tree_root_pair_up [of h "zero_hash h depth" d nodes] by simp
    moreover have "merkle_levels h depth nodes = merkle_levels h (depth + 1) ?nodes"
      using True by (subst merkle_levels.simps) simp
    moreover have "length nodes \<le> 2 ^ Suc d" using d(2) len by simp
    ultimately show ?thesis using d(1,3) by (intro exI [of _ "Suc d"]) simp
  next
    case False
    then obtain x where "nodes = [x]" using Suc.prems(1) by (cases nodes) auto
    then show ?thesis by (intro exI [of _ 0]) (simp add: merkle_levels.simps)
  qed
qed

lemma leading_zeros_u64_bound:
  assumes "n < 2 ^ 64"
  shows "n < 2 ^ (64 - leading_zeros_u64 n)"
proof -
  let ?xs = "rev [0..<64]" and ?P = "\<lambda>i. \<not> bit n i"
  define k where "k = length (takeWhile ?P ?xs)"
  have "k \<le> length ?xs" unfolding k_def by (rule length_takeWhile_le)
  then have k: "k \<le> 64" by simp
  have "\<not> bit n i" if "64 - k \<le> i" for i
  proof (cases "i < 64")
    case True
    then have j: "63 - i < k" using that k by simp
    then have "takeWhile ?P ?xs ! (63 - i) \<in> set (takeWhile ?P ?xs)"
      unfolding k_def by (rule nth_mem)
    then have "?P (takeWhile ?P ?xs ! (63 - i))" using set_takeWhileD by fast
    moreover have "takeWhile ?P ?xs ! (63 - i) = ?xs ! (63 - i)"
      using j unfolding k_def by (rule takeWhile_nth)
    moreover have "?xs ! (63 - i) = i" using True by (subst rev_nth) (simp_all del: upt_rec_numeral)
    ultimately show ?thesis by simp
  next
    case False
    then have "n < 2 ^ i" using assms by (meson not_less order_less_le_trans power_increasing one_le_numeral)
    then show ?thesis by (simp add: bit_iff_odd)
  qed
  then have "take_bit (64 - k) n = n"
    by (auto simp: bit_eq_iff bit_take_bit_iff not_less [symmetric])
  then show ?thesis
    using take_bit_nat_less_exp [of "64 - k" n] by (simp add: leading_zeros_u64_def k_def)
qed

lemma leading_zeros_u64_lower:
  assumes "n < 2 ^ 64" and "0 < n"
  shows "leading_zeros_u64 n < 64" and "2 ^ (63 - leading_zeros_u64 n) \<le> n"
proof -
  let ?xs = "rev [0..<64]" and ?P = "\<lambda>i. \<not> bit n i"
  define k where "k = leading_zeros_u64 n"
  show k: "leading_zeros_u64 n < 64"
  proof (rule ccontr)
    assume "\<not> leading_zeros_u64 n < 64"
    then have "64 - leading_zeros_u64 n = 0" by simp
    then show False using leading_zeros_u64_bound [OF assms(1)] assms(2) by simp
  qed
  then have "length (takeWhile ?P ?xs) < length ?xs" by (simp add: leading_zeros_u64_def)
  from nth_length_takeWhile [OF this] have "bit n (?xs ! k)"
    by (simp add: leading_zeros_u64_def k_def)
  moreover have "?xs ! k = 63 - k"
    using k unfolding k_def [symmetric] by (subst rev_nth) (simp_all del: upt_rec_numeral)
  ultimately have "bit n (63 - k)" by simp
  then have "\<not> n < 2 ^ (63 - k)" by (auto simp: bit_iff_odd)
  then show "2 ^ (63 - leading_zeros_u64 n) \<le> n" by (simp add: k_def)
qed

text \<open>The depth is the base-2 logarithm of the limit, rounded up.\<close>

lemma tree_depth_for_limit_unique:
  assumes "2 ^ d < limit" and "limit \<le> 2 ^ Suc d" and "limit \<le> u64_max"
  shows "tree_depth_for_limit limit = Suc d"
proof -
  let ?n = "limit - 1" and ?k = "leading_zeros_u64 (limit - 1)"
  have "(1 :: nat) \<le> 2 ^ d" by simp
  then have "1 < limit" using assms(1) by linarith
  then have n: "0 < ?n" "?n < 2 ^ 64" using assms(3) by (simp_all add: u64_max_def)
  note hi = leading_zeros_u64_bound [OF n(2)] and lo = leading_zeros_u64_lower [OF n(2,1)]
  have "(2 :: nat) ^ d < 2 ^ (64 - ?k)" using hi assms(1) by linarith
  then have "d < 64 - ?k" by simp
  moreover have "(2 :: nat) ^ (63 - ?k) < 2 ^ Suc d" using lo(2) assms(2) \<open>1 < limit\<close> by linarith
  then have "63 - ?k < Suc d" by (simp only: power_strict_increasing_iff one_less_numeral_iff semiring_norm)
  ultimately show ?thesis using lo(1) \<open>1 < limit\<close> by (simp add: tree_depth_for_limit_def)
qed

lemma tree_depth_for_limit:
  assumes "limit \<le> u64_max"
  shows "limit \<le> 2 ^ tree_depth_for_limit limit" and "tree_depth_for_limit limit \<le> 64"
proof -
  have "limit - 1 < 2 ^ 64" using assms by (simp add: u64_max_def)
  from leading_zeros_u64_bound [OF this]
  show "limit \<le> 2 ^ tree_depth_for_limit limit" by (auto simp: tree_depth_for_limit_def)
qed (simp add: tree_depth_for_limit_def)

lemma merkleize_roots_unchecked_tree:
  assumes "length roots \<le> limit" and "limit \<le> u64_max"
  shows "merkleize_roots_unchecked h roots limit =
    tree_root h node_default (tree_depth_for_limit (max limit 1)) roots"
proof -
  let ?H = "tree_depth_for_limit (max limit 1)"
  have lim: "max limit 1 \<le> u64_max" using assms(2) by (simp add: u64_max_def)
  have H: "max limit 1 \<le> 2 ^ ?H" "?H \<le> 64" using tree_depth_for_limit [OF lim] by auto
  show ?thesis
  proof (cases "roots = []")
    case True
    then show ?thesis
      using ZERO_HASHES_nth [OF H(2)] tree_root_Nil [of h 0 ?H]
      by (simp add: merkleize_roots_unchecked_def Let_def)
  next
    case False
    have "length roots \<le> 2 ^ ?H" using assms(1) H(1) by linarith
    then obtain d where "d \<le> ?H" "merkle_levels h 0 roots = (d, [tree_root h (zero_hash h 0) d roots])"
      "length roots \<le> 2 ^ d"
      using merkle_levels_tree [OF False, of ?H 0 h] H(2) by auto
    then show ?thesis
      using False H(2) merkle_extend_tree [of d ?H roots h]
      by (simp add: merkleize_roots_unchecked_def Let_def)
  qed
qed

text \<open>
  C2: the Merkle root of at most \<open>limit\<close> nodes, computed level by level with cached zero hashes and
  without materialising the padding, is the root of the full binary tree over the nodes padded with
  zero chunks to the next power of two of the limit; more nodes than the limit are an error.
\<close>

theorem merkleize_roots_with_limit_correct:
  assumes "limit \<le> u64_max"
  shows "merkleize_roots_with_limit sha256 roots limit =
    (if length roots \<le> limit
     then Inr (tree_root sha256 node_default (tree_depth_for_limit (max limit 1)) roots)
     else Inl (MerListTooLong (length roots) limit))"
  using merkleize_roots_unchecked_tree [OF _ assms] by (simp add: merkleize_roots_with_limit_def)

theorem merkleize_roots_with_limit_correct_witness:
  "merkleize_roots_with_limit (\<lambda>bs. take 32 (rev bs)) [replicate 32 1, replicate 32 2, replicate 32 3] 5 =
    Inr (tree_root (\<lambda>bs. take 32 (rev bs)) node_default 3
      [replicate 32 1, replicate 32 2, replicate 32 3])"
proof -
  have "(5 :: nat) \<le> u64_max" by (simp add: u64_max_def)
  moreover have "tree_depth_for_limit 5 = 3"
    using tree_depth_for_limit_unique [of 2 5] by (simp add: u64_max_def)
  ultimately show ?thesis
    using merkleize_roots_with_limit_correct [of 5 "\<lambda>bs. take 32 (rev bs)"
        "[replicate 32 1, replicate 32 2, replicate 32 3]"] by simp
qed

section \<open>Every value has a root\<close>

text \<open>The size bounds under which merkleization cannot overflow; all types of the program meet them.\<close>

fun merkle_ok :: "ssz_ty \<Rightarrow> bool" where
  "merkle_ok (TUint w) = (w \<le> 32)"
| "merkle_ok (TVector t n) = (merkle_ok t \<and> n * size_hint t \<le> u64_max)"
| "merkle_ok (TList t n) = (merkle_ok t \<and> n * size_hint t \<le> u64_max)"
| "merkle_ok (TContainer ts) = (length ts \<le> u64_max \<and> (\<forall>t \<in> set ts. merkle_ok t))"
| "merkle_ok (TBytes n) = (n \<le> u64_max)"
| "merkle_ok (TBitvector n) = (n \<le> u64_max)"
| "merkle_ok (TBitlist n) = (n \<le> u64_max)"
| "merkle_ok _ = True"

abbreviation digest32 :: "(bytes \<Rightarrow> bytes) \<Rightarrow> bool" where
  "digest32 sha256 \<equiv> \<forall>bs. length (sha256 bs) = 32"

lemma length_chunks_le: "0 < n \<Longrightarrow> \<forall>c \<in> set (chunks n xs). length c \<le> n"
proof (induction n xs rule: chunks.induct)
  case (1 n xs)
  then show ?case by (subst chunks.simps) auto
qed

lemma length_node_default: "length node_default = 32"
  by (simp add: node_default_def BYTES_PER_CHUNK_def)

lemma pack_bytes_nodes: "\<forall>x \<in> set (pack_bytes bs). length x = 32"
  using length_chunks_le [of 32 bs]
  by (auto simp: pack_bytes_def pad_chunk_def BYTES_PER_CHUNK_def length_node_default)

lemma length_tree_root:
  "digest32 h \<Longrightarrow> \<forall>x \<in> set xs. length x = 32 \<Longrightarrow> length (tree_root h node_default d xs) = 32"
  by (cases d) (auto simp: hash_pair_def length_node_default)

lemma length_zero_hash: "digest32 h \<Longrightarrow> length (zero_hash h d) = 32"
  by (cases d) (auto simp: hash_pair_def length_node_default)

lemma length_pack_bytes: "length (pack_bytes bs) \<le> max (chunk_count (length bs)) 1"
proof -
  have "length (chunks 32 xs) \<le> div_ceil (length xs) 32" for xs :: bytes
  proof (induction "32 :: nat" xs rule: chunks.induct)
    case (1 xs)
    show ?case
    proof (cases "xs = []")
      case True
      then show ?thesis by (subst chunks.simps) simp
    next
      case False
      have "div_ceil (length xs) 32 = Suc (div_ceil (length xs - 32) 32)"
      proof (cases "length xs \<le> 32")
        case True
        then have "length xs + 31 = 32 + (length xs - 1)" and "length xs - 1 < 32"
          using False by (cases xs; simp)+
        then show ?thesis using True by (simp add: div_ceil_def)
      next
        case False
        then have "length xs + 31 = 32 + (length xs - 32 + 31)" by simp
        then show ?thesis by (simp add: div_ceil_def)
      qed
      with 1 False show ?thesis by (subst chunks.simps) simp
    qed
  qed
  from this [of bs] show ?thesis
    by (auto simp: pack_bytes_def chunk_count_def BYTES_PER_CHUNK_def)
qed

lemma div_ceil_mono: "a \<le> b \<Longrightarrow> div_ceil a n \<le> div_ceil b n"
  by (simp add: div_ceil_def div_le_mono)

lemma chunk_count_le: "n \<le> u64_max \<Longrightarrow> max (chunk_count n) 1 \<le> u64_max"
  by (simp add: chunk_count_def div_ceil_def BYTES_PER_CHUNK_def u64_max_def)

lemma merkleize_bytes_node:
  assumes "digest32 h" and "length bs \<le> n" and "n \<le> u64_max"
  shows "\<exists>r. merkleize_byte_sequence_with_limit h bs n = Inr r \<and> length r = 32"
proof -
  have "length (pack_bytes bs) \<le> max (chunk_count n) 1"
    using length_pack_bytes [of bs] div_ceil_mono [OF assms(2), of BYTES_PER_CHUNK]
    by (simp add: chunk_count_def)
  then have "merkleize_byte_sequence_unchecked h bs n =
      tree_root h node_default (tree_depth_for_limit (max (max (chunk_count n) 1) 1)) (pack_bytes bs)"
    unfolding merkleize_byte_sequence_unchecked_def Let_def
    by (rule merkleize_roots_unchecked_tree [OF _ chunk_count_le [OF assms(3)]])
  then show ?thesis
    using assms(1,2) length_tree_root [OF assms(1) pack_bytes_nodes]
    by (simp add: merkleize_byte_sequence_with_limit_def)
qed

lemma collection_node:
  assumes "digest32 h" and "length roots \<le> n" and "n * sz \<le> u64_max" and "0 < sz"
    and "composite \<Longrightarrow> \<forall>r \<in> set roots. \<exists>x. r = Inr x \<and> length x = 32"
    and "\<not> composite \<Longrightarrow> \<forall>r \<in> set encs. \<exists>x. r = Inr x \<and> length x = sz"
    and "length encs = length roots"
  shows "\<exists>r. collection_root h composite sz roots encs n = Inr r \<and> length r = 32"
proof (cases composite)
  case True
  have roots: "mapR id roots = Inr (map projr roots)"
    using assms(5) [OF True] by (intro mapR_Inr_map) fastforce
  have "\<forall>x \<in> set (map projr roots). length x = 32" using assms(5) [OF True] by fastforce
  moreover have "n \<le> n * sz" using assms(4) by (cases sz) auto
  then have "n \<le> u64_max" using assms(3) by linarith
  ultimately show ?thesis
    using True assms(1,2) roots length_tree_root [of h "map projr roots"]
      merkleize_roots_unchecked_tree [of "map projr roots" n h]
    by (simp add: collection_root_def merkleize_roots_with_limit_def)
next
  case False
  have encs: "mapR id encs = Inr (map projr encs)"
    using assms(6) [OF False] by (intro mapR_Inr_map) fastforce
  have "list_all (\<lambda>e. length e = sz) (map projr encs)"
    using assms(6) [OF False] by (fastforce simp: list_all_iff)
  then have "length (concat (map projr encs)) = length encs * sz"
    using concat_fixed_length by fastforce
  then have "length (concat (map projr encs)) \<le> n * sz" using assms(2,7) by simp
  from merkleize_bytes_node [OF assms(1) this assms(3)] False assms(2,3) encs show ?thesis
    by (auto simp: collection_root_def checked_mul_def)
qed

lemma basic_encoding:
  "wf_ty t \<Longrightarrow> well_typed t v \<Longrightarrow> \<not> is_composite_type t \<Longrightarrow>
     \<exists>e. serialize t v = Inr e \<and> length e = size_hint t"
  by (cases t) (auto split: ssz_val.splits)

lemma size_hint_pos: "wf_ty t \<Longrightarrow> 0 < size_hint t"
proof (induction t)
  case (TBitvector n)
  then show ?case using byte_len_bounds(1) [of n] by simp
next
  case (TContainer ts)
  then obtain t ts' where ts: "ts = t # ts'" by (cases ts) auto
  with TContainer show ?case by (auto simp: field_layout_def BYTES_PER_LENGTH_OFFSET_def)
qed auto

lemma byte_len_le: "n \<le> u64_max \<Longrightarrow> bitfield_byte_len n \<le> u64_max"
  by (simp add: bitfield_byte_len_def div_ceil_def u64_max_def)

lemma byte_len_mono: "a \<le> b \<Longrightarrow> bitfield_byte_len a \<le> bitfield_byte_len b"
  by (simp add: bitfield_byte_len_def div_ceil_mono)

lemma sequence_root:
  assumes "digest32 h" and "wf_ty t" and "n * size_hint t \<le> u64_max" and "length vs \<le> n"
    and "list_all (well_typed t) vs"
    and "\<And>v. well_typed t v \<Longrightarrow> \<exists>r. hash_tree_root h t v = Inr r \<and> length r = 32"
  shows "\<exists>r. collection_root h (is_composite_type t) (size_hint t) (map (hash_tree_root h t) vs)
    (map (serialize t) vs) n = Inr r \<and> length r = 32"
proof (rule collection_node [OF assms(1) _ assms(3) size_hint_pos [OF assms(2)]])
  show "\<forall>r \<in> set (map (hash_tree_root h t) vs). \<exists>x. r = Inr x \<and> length x = 32"
    using assms(5,6) by (auto simp: list_all_iff)
  show "\<forall>r \<in> set (map (serialize t) vs). \<exists>x. r = Inr x \<and> length x = size_hint t"
    if "\<not> is_composite_type t"
    using assms(5) basic_encoding [OF assms(2) _ that] by (auto simp: list_all_iff)
qed (use assms(4) in simp_all)

lemma container_root:
  assumes "digest32 h" and "length ts \<le> u64_max" and "list_all2 well_typed ts vs"
    and "\<And>t v. t \<in> set ts \<Longrightarrow> well_typed t v \<Longrightarrow> \<exists>r. hash_tree_root h t v = Inr r \<and> length r = 32"
  shows "\<exists>r. hash_tree_root h (TContainer ts) (VContainer vs) = Inr r \<and> length r = 32"
proof -
  let ?roots = "mapR (\<lambda>(f, v). f v) (zip (map (hash_tree_root h) ts) vs)"
  have "\<exists>rs. ?roots = Inr rs \<and> length rs = length ts \<and> (\<forall>x \<in> set rs. length x = 32)"
    using assms(3,4) by (induction ts vs rule: list_all2_induct) fastforce+
  then obtain rs where rs: "?roots = Inr rs" "length rs = length ts" "\<forall>x \<in> set rs. length x = 32"
    by blast
  then show ?thesis
    using merkleize_roots_unchecked_tree [of rs "length rs" h] length_tree_root [OF assms(1) rs(3)] assms(2)
    by (simp add: merkleize_roots_def)
qed

lemma hash_tree_root_node:
  assumes "\<forall>bs. length (sha256 bs) = 32" and "wf_ty t" and "merkle_ok t" and "well_typed t v"
  shows "\<exists>r. hash_tree_root sha256 t v = Inr r \<and> length r = 32"
  using assms(2-)
proof (induction t arbitrary: v)
  case (TUint w)
  then show ?case by (auto simp: basic_root_def pad_chunk_def BYTES_PER_CHUNK_def split: ssz_val.splits)
next
  case TBool
  then show ?case by (auto simp: basic_root_def pad_chunk_def BYTES_PER_CHUNK_def split: ssz_val.splits)
next
  case (TBytes n)
  then show ?case using merkleize_bytes_node [OF assms(1)] by (auto split: ssz_val.splits)
next
  case TUint256
  then show ?case by (auto split: ssz_val.splits)
next
  case (TVector t n)
  then obtain vs where v: "v = VSeq vs" "length vs = n" "list_all (well_typed t) vs"
    by (auto split: ssz_val.splits)
  from sequence_root [OF assms(1) _ _ _ v(3), of n] TVector v show ?case by simp
next
  case (TList t n)
  then obtain vs where v: "v = VSeq vs" "length vs \<le> n" "list_all (well_typed t) vs"
    by (auto split: ssz_val.splits)
  from sequence_root [OF assms(1) _ _ v(2,3)] TList v show ?case
    by (auto simp: mix_in_length_def hash_pair_def assms(1))
next
  case (TBitvector n)
  then obtain bs where "v = VBits bs" "length bs = n" by (auto split: ssz_val.splits)
  with TBitvector show ?case
    using merkleize_bytes_node [OF assms(1), of "pack_bits bs"] byte_len_le by simp
next
  case (TBitlist n)
  then obtain bs where "v = VBits bs" "length bs \<le> n" by (auto split: ssz_val.splits)
  with TBitlist show ?case
    using merkleize_bytes_node [OF assms(1), of "pack_bits bs" "bitfield_byte_len n"]
      byte_len_le byte_len_mono [of "length bs" n]
    by (auto simp: mix_in_length_def hash_pair_def assms(1))
next
  case (TContainer ts)
  then obtain vs where v: "v = VContainer vs" "list_all2 well_typed ts vs"
    by (cases v) (auto simp: list_all2_map1)
  show ?case
    unfolding v(1) by (rule container_root [OF assms(1) _ v(2)]) (use TContainer in auto)
qed

text \<open>
  C3: every value of a type has a hash tree root, a node of 32 bytes: merkleization fails on no
  well-typed value, for any hash function with 32-byte digests.
\<close>

theorem hash_tree_root_total:
  assumes "\<forall>bs. length (sha256 bs) = 32" and "wf_ty t" and "merkle_ok t" and "well_typed t v"
  shows "\<exists>r. hash_tree_root sha256 t v = Inr r \<and> length r = 32"
  using hash_tree_root_node [OF assms] .

theorem hash_tree_root_total_witness:
  "\<exists>r. hash_tree_root (\<lambda>bs. replicate 32 (foldl (+) 1 bs))
      (TContainer [TUint 8, TList (TUint 8) 100, TBitvector 4])
      (VContainer [VUint 5, VSeq [VUint 1, VUint 2], VBits [True, False, True, True]]) = Inr r
    \<and> length r = 32"
  by (rule hash_tree_root_total) (simp_all add: u64_max_def)

end
