(* ===== verification/Constants.thy ===== *)
theory Constants
  imports Prelude
begin

text \<open>
  Protocol constants (\<open>moonglass-core/src/constants\<close>). The crate is compiled for one of two presets,
  selected by a Cargo feature; a constant that differs between them takes the preset as argument.
  Amounts and times are \<open>u64\<close> newtypes in Rust and naturals here.
\<close>

datatype preset = Mainnet | Minimal

section \<open>Time parameters (constants/time.rs)\<close>

definition SLOT_DURATION_MS :: "preset \<Rightarrow> u64" where
  "SLOT_DURATION_MS p = (case p of Mainnet \<Rightarrow> 12000 | Minimal \<Rightarrow> 6000)"

definition SLOTS_PER_EPOCH :: "preset \<Rightarrow> usize" where
  "SLOTS_PER_EPOCH p = (case p of Mainnet \<Rightarrow> 32 | Minimal \<Rightarrow> 8)"

definition SLOTS_PER_HISTORICAL_ROOT :: "preset \<Rightarrow> usize" where
  "SLOTS_PER_HISTORICAL_ROOT p = (case p of Mainnet \<Rightarrow> 8192 | Minimal \<Rightarrow> 64)"

definition MIN_ATTESTATION_INCLUSION_DELAY :: u64 where
  "MIN_ATTESTATION_INCLUSION_DELAY = 1"

definition MIN_SEED_LOOKAHEAD :: usize where
  "MIN_SEED_LOOKAHEAD = 1"

definition MAX_SEED_LOOKAHEAD :: u64 where
  "MAX_SEED_LOOKAHEAD = 4"

definition EPOCHS_PER_ETH1_VOTING_PERIOD :: "preset \<Rightarrow> usize" where
  "EPOCHS_PER_ETH1_VOTING_PERIOD p = (case p of Mainnet \<Rightarrow> 64 | Minimal \<Rightarrow> 4)"

definition MIN_EPOCHS_TO_INACTIVITY_PENALTY :: u64 where
  "MIN_EPOCHS_TO_INACTIVITY_PENALTY = 4"

definition EPOCHS_PER_SYNC_COMMITTEE_PERIOD :: "preset \<Rightarrow> u64" where
  "EPOCHS_PER_SYNC_COMMITTEE_PERIOD p = (case p of Mainnet \<Rightarrow> 256 | Minimal \<Rightarrow> 8)"

definition MIN_VALIDATOR_WITHDRAWABILITY_DELAY :: u64 where
  "MIN_VALIDATOR_WITHDRAWABILITY_DELAY = 256"

definition SHARD_COMMITTEE_PERIOD :: "preset \<Rightarrow> u64" where
  "SHARD_COMMITTEE_PERIOD p = (case p of Mainnet \<Rightarrow> 256 | Minimal \<Rightarrow> 64)"

definition MIN_BUILDER_WITHDRAWABILITY_DELAY :: "preset \<Rightarrow> u64" where
  "MIN_BUILDER_WITHDRAWABILITY_DELAY p = (case p of Mainnet \<Rightarrow> 8192 | Minimal \<Rightarrow> 2)"

definition FAR_FUTURE_EPOCH :: u64 where
  "FAR_FUTURE_EPOCH = u64_max"

section \<open>State list lengths (constants/state.rs)\<close>

definition EPOCHS_PER_HISTORICAL_VECTOR :: "preset \<Rightarrow> usize" where
  "EPOCHS_PER_HISTORICAL_VECTOR p = (case p of Mainnet \<Rightarrow> 65536 | Minimal \<Rightarrow> 64)"

definition ETH1_DATA_VOTES_LEN :: "preset \<Rightarrow> usize" where
  "ETH1_DATA_VOTES_LEN p = EPOCHS_PER_ETH1_VOTING_PERIOD p * SLOTS_PER_EPOCH p"

definition PROPOSER_LOOKAHEAD_LEN :: "preset \<Rightarrow> usize" where
  "PROPOSER_LOOKAHEAD_LEN p = (MIN_SEED_LOOKAHEAD + 1) * SLOTS_PER_EPOCH p"

definition EPOCHS_PER_SLASHINGS_VECTOR :: "preset \<Rightarrow> usize" where
  "EPOCHS_PER_SLASHINGS_VECTOR p = (case p of Mainnet \<Rightarrow> 8192 | Minimal \<Rightarrow> 64)"

definition HISTORICAL_ROOTS_LIMIT :: usize where
  "HISTORICAL_ROOTS_LIMIT = 16777216"

definition VALIDATOR_REGISTRY_LIMIT :: usize where
  "VALIDATOR_REGISTRY_LIMIT = 1099511627776"

definition PENDING_DEPOSITS_LIMIT :: usize where
  "PENDING_DEPOSITS_LIMIT = 134217728"

definition PENDING_PARTIAL_WITHDRAWALS_LIMIT :: "preset \<Rightarrow> usize" where
  "PENDING_PARTIAL_WITHDRAWALS_LIMIT p = (case p of Mainnet \<Rightarrow> 134217728 | Minimal \<Rightarrow> 64)"

definition PENDING_CONSOLIDATIONS_LIMIT :: "preset \<Rightarrow> usize" where
  "PENDING_CONSOLIDATIONS_LIMIT p = (case p of Mainnet \<Rightarrow> 262144 | Minimal \<Rightarrow> 64)"

definition BUILDER_REGISTRY_LIMIT :: usize where
  "BUILDER_REGISTRY_LIMIT = 1099511627776"

definition BUILDER_PENDING_WITHDRAWALS_LIMIT :: usize where
  "BUILDER_PENDING_WITHDRAWALS_LIMIT = 1048576"

definition JUSTIFICATION_BITS_LENGTH :: usize where
  "JUSTIFICATION_BITS_LENGTH = 4"

section \<open>Validator parameters (constants/validator.rs)\<close>

definition MIN_DEPOSIT_AMOUNT :: u64 where
  "MIN_DEPOSIT_AMOUNT = 1000000000"

definition EFFECTIVE_BALANCE_INCREMENT :: u64 where
  "EFFECTIVE_BALANCE_INCREMENT = 1000000000"

definition MIN_ACTIVATION_BALANCE :: u64 where
  "MIN_ACTIVATION_BALANCE = 32000000000"

definition MAX_EFFECTIVE_BALANCE :: u64 where
  "MAX_EFFECTIVE_BALANCE = 2048000000000"

definition EJECTION_BALANCE :: u64 where
  "EJECTION_BALANCE = 16000000000"

definition HYSTERESIS_QUOTIENT :: u64 where
  "HYSTERESIS_QUOTIENT = 4"

definition HYSTERESIS_DOWNWARD_MULTIPLIER :: u64 where
  "HYSTERESIS_DOWNWARD_MULTIPLIER = 1"

definition HYSTERESIS_UPWARD_MULTIPLIER :: u64 where
  "HYSTERESIS_UPWARD_MULTIPLIER = 5"

definition MIN_PER_EPOCH_CHURN_LIMIT :: "preset \<Rightarrow> u64" where
  "MIN_PER_EPOCH_CHURN_LIMIT p = (case p of Mainnet \<Rightarrow> 128000000000 | Minimal \<Rightarrow> 64000000000)"

definition CHURN_LIMIT_QUOTIENT :: "preset \<Rightarrow> u64" where
  "CHURN_LIMIT_QUOTIENT p = (case p of Mainnet \<Rightarrow> 32768 | Minimal \<Rightarrow> 16)"

definition CONSOLIDATION_CHURN_LIMIT_QUOTIENT :: "preset \<Rightarrow> u64" where
  "CONSOLIDATION_CHURN_LIMIT_QUOTIENT p = (case p of Mainnet \<Rightarrow> 65536 | Minimal \<Rightarrow> 32)"

definition MAX_PER_EPOCH_ACTIVATION_CHURN_LIMIT :: "preset \<Rightarrow> u64" where
  "MAX_PER_EPOCH_ACTIVATION_CHURN_LIMIT p = (case p of Mainnet \<Rightarrow> 256000000000 | Minimal \<Rightarrow> 128000000000)"

definition MAX_WITHDRAWALS_PER_PAYLOAD :: "preset \<Rightarrow> usize" where
  "MAX_WITHDRAWALS_PER_PAYLOAD p = (case p of Mainnet \<Rightarrow> 16 | Minimal \<Rightarrow> 4)"

definition MAX_VALIDATORS_PER_WITHDRAWALS_SWEEP :: "preset \<Rightarrow> u64" where
  "MAX_VALIDATORS_PER_WITHDRAWALS_SWEEP p = (case p of Mainnet \<Rightarrow> 16384 | Minimal \<Rightarrow> 16)"

definition MAX_PENDING_PARTIALS_PER_WITHDRAWALS_SWEEP :: "preset \<Rightarrow> u64" where
  "MAX_PENDING_PARTIALS_PER_WITHDRAWALS_SWEEP p = (case p of Mainnet \<Rightarrow> 8 | Minimal \<Rightarrow> 2)"

definition MAX_PENDING_DEPOSITS_PER_EPOCH :: u64 where
  "MAX_PENDING_DEPOSITS_PER_EPOCH = 16"

definition MAX_BUILDERS_PER_WITHDRAWALS_SWEEP :: "preset \<Rightarrow> u64" where
  "MAX_BUILDERS_PER_WITHDRAWALS_SWEEP p = (case p of Mainnet \<Rightarrow> 16384 | Minimal \<Rightarrow> 16)"

definition FULL_EXIT_REQUEST_AMOUNT :: u64 where
  "FULL_EXIT_REQUEST_AMOUNT = 0"

definition BLS_WITHDRAWAL_PREFIX :: byte where
  "BLS_WITHDRAWAL_PREFIX = 0"

definition ETH1_ADDRESS_WITHDRAWAL_PREFIX :: byte where
  "ETH1_ADDRESS_WITHDRAWAL_PREFIX = 1"

definition COMPOUNDING_WITHDRAWAL_PREFIX :: byte where
  "COMPOUNDING_WITHDRAWAL_PREFIX = 2"

section \<open>Rewards and penalties (constants/rewards.rs)\<close>

definition BASE_REWARD_FACTOR :: u64 where
  "BASE_REWARD_FACTOR = 64"

definition WHISTLEBLOWER_REWARD_QUOTIENT :: u64 where
  "WHISTLEBLOWER_REWARD_QUOTIENT = 4096"

definition INACTIVITY_PENALTY_QUOTIENT :: u64 where
  "INACTIVITY_PENALTY_QUOTIENT = 16777216"

definition MIN_SLASHING_PENALTY_QUOTIENT :: u64 where
  "MIN_SLASHING_PENALTY_QUOTIENT = 4096"

definition PROPORTIONAL_SLASHING_MULTIPLIER :: u64 where
  "PROPORTIONAL_SLASHING_MULTIPLIER = 3"

definition INACTIVITY_SCORE_BIAS :: u64 where
  "INACTIVITY_SCORE_BIAS = 4"

definition INACTIVITY_SCORE_RECOVERY_RATE :: u64 where
  "INACTIVITY_SCORE_RECOVERY_RATE = 16"

definition TIMELY_SOURCE_FLAG_INDEX :: usize where
  "TIMELY_SOURCE_FLAG_INDEX = 0"

definition TIMELY_TARGET_FLAG_INDEX :: usize where
  "TIMELY_TARGET_FLAG_INDEX = 1"

definition TIMELY_HEAD_FLAG_INDEX :: usize where
  "TIMELY_HEAD_FLAG_INDEX = 2"

definition TIMELY_SOURCE_WEIGHT :: u64 where
  "TIMELY_SOURCE_WEIGHT = 14"

definition TIMELY_TARGET_WEIGHT :: u64 where
  "TIMELY_TARGET_WEIGHT = 26"

definition TIMELY_HEAD_WEIGHT :: u64 where
  "TIMELY_HEAD_WEIGHT = 14"

definition SYNC_REWARD_WEIGHT :: u64 where
  "SYNC_REWARD_WEIGHT = 2"

definition PROPOSER_WEIGHT :: u64 where
  "PROPOSER_WEIGHT = 8"

definition WEIGHT_DENOMINATOR :: u64 where
  "WEIGHT_DENOMINATOR = 64"

definition PARTICIPATION_FLAG_WEIGHTS :: "u64 list" where
  "PARTICIPATION_FLAG_WEIGHTS = [TIMELY_SOURCE_WEIGHT, TIMELY_TARGET_WEIGHT, TIMELY_HEAD_WEIGHT]"

section \<open>Block and committee limits (constants/block.rs)\<close>

definition MAX_COMMITTEES_PER_SLOT :: "preset \<Rightarrow> usize" where
  "MAX_COMMITTEES_PER_SLOT p = (case p of Mainnet \<Rightarrow> 64 | Minimal \<Rightarrow> 4)"

definition TARGET_COMMITTEE_SIZE :: "preset \<Rightarrow> u64" where
  "TARGET_COMMITTEE_SIZE p = (case p of Mainnet \<Rightarrow> 128 | Minimal \<Rightarrow> 4)"

definition MAX_VALIDATORS_PER_COMMITTEE :: usize where
  "MAX_VALIDATORS_PER_COMMITTEE = 2048"

definition MAX_ATTESTING_INDICES :: "preset \<Rightarrow> usize" where
  "MAX_ATTESTING_INDICES p = MAX_VALIDATORS_PER_COMMITTEE * MAX_COMMITTEES_PER_SLOT p"

definition SHUFFLE_ROUND_COUNT :: "preset \<Rightarrow> u64" where
  "SHUFFLE_ROUND_COUNT p = (case p of Mainnet \<Rightarrow> 90 | Minimal \<Rightarrow> 10)"

definition SYNC_COMMITTEE_SIZE :: "preset \<Rightarrow> usize" where
  "SYNC_COMMITTEE_SIZE p = (case p of Mainnet \<Rightarrow> 512 | Minimal \<Rightarrow> 32)"

definition SYNC_COMMITTEE_SUBNET_COUNT :: usize where
  "SYNC_COMMITTEE_SUBNET_COUNT = 4"

definition PTC_SIZE :: "preset \<Rightarrow> usize" where
  "PTC_SIZE p = (case p of Mainnet \<Rightarrow> 512 | Minimal \<Rightarrow> 16)"

definition MAX_PROPOSER_SLASHINGS :: usize where
  "MAX_PROPOSER_SLASHINGS = 16"

definition MAX_ATTESTER_SLASHINGS :: usize where
  "MAX_ATTESTER_SLASHINGS = 1"

definition MAX_ATTESTATIONS :: usize where
  "MAX_ATTESTATIONS = 8"

definition MAX_DEPOSITS :: usize where
  "MAX_DEPOSITS = 16"

definition MAX_VOLUNTARY_EXITS :: usize where
  "MAX_VOLUNTARY_EXITS = 16"

definition MAX_BLS_TO_EXECUTION_CHANGES :: usize where
  "MAX_BLS_TO_EXECUTION_CHANGES = 16"

definition MAX_PAYLOAD_ATTESTATIONS :: usize where
  "MAX_PAYLOAD_ATTESTATIONS = 4"

definition MAX_DEPOSIT_REQUESTS_PER_PAYLOAD :: usize where
  "MAX_DEPOSIT_REQUESTS_PER_PAYLOAD = 8192"

definition MAX_WITHDRAWAL_REQUESTS_PER_PAYLOAD :: usize where
  "MAX_WITHDRAWAL_REQUESTS_PER_PAYLOAD = 16"

definition MAX_CONSOLIDATION_REQUESTS_PER_PAYLOAD :: usize where
  "MAX_CONSOLIDATION_REQUESTS_PER_PAYLOAD = 2"

definition MAX_BUILDER_DEPOSIT_REQUESTS_PER_PAYLOAD :: usize where
  "MAX_BUILDER_DEPOSIT_REQUESTS_PER_PAYLOAD = 256"

definition MAX_BUILDER_EXIT_REQUESTS_PER_PAYLOAD :: usize where
  "MAX_BUILDER_EXIT_REQUESTS_PER_PAYLOAD = 16"

definition MAX_BYTES_PER_TRANSACTION :: usize where
  "MAX_BYTES_PER_TRANSACTION = 1073741824"

definition MAX_TRANSACTIONS_PER_PAYLOAD :: usize where
  "MAX_TRANSACTIONS_PER_PAYLOAD = 1048576"

definition BYTES_PER_LOGS_BLOOM :: usize where
  "BYTES_PER_LOGS_BLOOM = 256"

definition MAX_EXTRA_DATA_BYTES :: usize where
  "MAX_EXTRA_DATA_BYTES = 32"

definition MAX_BLOB_COMMITMENTS_PER_BLOCK :: usize where
  "MAX_BLOB_COMMITMENTS_PER_BLOCK = 4096"

definition BYTES_PER_FIELD_ELEMENT :: usize where
  "BYTES_PER_FIELD_ELEMENT = 32"

definition FIELD_ELEMENTS_PER_BLOB :: usize where
  "FIELD_ELEMENTS_PER_BLOB = 4096"

definition FIELD_ELEMENTS_PER_EXT_BLOB :: usize where
  "FIELD_ELEMENTS_PER_EXT_BLOB = 2 * FIELD_ELEMENTS_PER_BLOB"

definition FIELD_ELEMENTS_PER_CELL :: usize where
  "FIELD_ELEMENTS_PER_CELL = 64"

definition BYTES_PER_CELL :: usize where
  "BYTES_PER_CELL = FIELD_ELEMENTS_PER_CELL * BYTES_PER_FIELD_ELEMENT"

definition CELLS_PER_EXT_BLOB :: usize where
  "CELLS_PER_EXT_BLOB = FIELD_ELEMENTS_PER_EXT_BLOB div FIELD_ELEMENTS_PER_CELL"

definition NUMBER_OF_COLUMNS :: usize where
  "NUMBER_OF_COLUMNS = CELLS_PER_EXT_BLOB"

definition NUMBER_OF_CUSTODY_GROUPS :: usize where
  "NUMBER_OF_CUSTODY_GROUPS = 128"

definition DATA_COLUMN_SIDECAR_SUBNET_COUNT :: u64 where
  "DATA_COLUMN_SIDECAR_SUBNET_COUNT = 128"

definition MAX_REQUEST_BLOCKS_DENEB :: u64 where
  "MAX_REQUEST_BLOCKS_DENEB = 128"

definition MAX_BLOBS_PER_BLOCK :: u64 where
  "MAX_BLOBS_PER_BLOCK = 9"

definition BLOB_SCHEDULE :: "preset \<Rightarrow> (u64 \<times> u64) list" where
  "BLOB_SCHEDULE p = (case p of Mainnet \<Rightarrow> [(412672, 15), (419072, 21)] | Minimal \<Rightarrow> [])"

section \<open>Builder parameters (constants/builder.rs)\<close>

definition BUILDER_PAYMENT_WINDOW_LEN :: "preset \<Rightarrow> usize" where
  "BUILDER_PAYMENT_WINDOW_LEN p = 2 * SLOTS_PER_EPOCH p"

definition PTC_WINDOW_LEN :: "preset \<Rightarrow> usize" where
  "PTC_WINDOW_LEN p = (2 + MIN_SEED_LOOKAHEAD) * SLOTS_PER_EPOCH p"

definition BUILDER_INDEX_FLAG :: u64 where
  "BUILDER_INDEX_FLAG = 2 ^ 40"

definition BUILDER_INDEX_SELF_BUILD :: u64 where
  "BUILDER_INDEX_SELF_BUILD = u64_max"

definition PAYLOAD_BUILDER_VERSION :: byte where
  "PAYLOAD_BUILDER_VERSION = 0"

definition BUILDER_PAYMENT_THRESHOLD_NUMERATOR :: u64 where
  "BUILDER_PAYMENT_THRESHOLD_NUMERATOR = 6"

definition BUILDER_PAYMENT_THRESHOLD_DENOMINATOR :: u64 where
  "BUILDER_PAYMENT_THRESHOLD_DENOMINATOR = 10"

section \<open>Chain parameters (constants/chain.rs)\<close>

definition GENESIS_EPOCH :: u64 where
  "GENESIS_EPOCH = 0"

definition GENESIS_SLOT :: u64 where
  "GENESIS_SLOT = 0"

definition GENESIS_FORK_VERSION :: "preset \<Rightarrow> bytes" where
  "GENESIS_FORK_VERSION p = (case p of Mainnet \<Rightarrow> [0, 0, 0, 0] | Minimal \<Rightarrow> [0, 0, 0, 1])"

definition CAPELLA_FORK_VERSION :: "preset \<Rightarrow> bytes" where
  "CAPELLA_FORK_VERSION p = (case p of Mainnet \<Rightarrow> [3, 0, 0, 0] | Minimal \<Rightarrow> [3, 0, 0, 1])"

definition ELECTRA_FORK_EPOCH :: "preset \<Rightarrow> u64" where
  "ELECTRA_FORK_EPOCH p = (case p of Mainnet \<Rightarrow> 364032 | Minimal \<Rightarrow> u64_max)"

definition DEPOSIT_CONTRACT_TREE_DEPTH :: usize where
  "DEPOSIT_CONTRACT_TREE_DEPTH = 32"

definition DEPOSIT_PROOF_LEN :: usize where
  "DEPOSIT_PROOF_LEN = DEPOSIT_CONTRACT_TREE_DEPTH + 1"

definition UNSET_DEPOSIT_REQUESTS_START_INDEX :: u64 where
  "UNSET_DEPOSIT_REQUESTS_START_INDEX = u64_max"

section \<open>Signature domains (constants/domains.rs)\<close>

definition DOMAIN_BEACON_PROPOSER :: bytes where
  "DOMAIN_BEACON_PROPOSER = [0, 0, 0, 0]"

definition DOMAIN_BEACON_ATTESTER :: bytes where
  "DOMAIN_BEACON_ATTESTER = [1, 0, 0, 0]"

definition DOMAIN_RANDAO :: bytes where
  "DOMAIN_RANDAO = [2, 0, 0, 0]"

definition DOMAIN_DEPOSIT :: bytes where
  "DOMAIN_DEPOSIT = [3, 0, 0, 0]"

definition DOMAIN_VOLUNTARY_EXIT :: bytes where
  "DOMAIN_VOLUNTARY_EXIT = [4, 0, 0, 0]"

definition DOMAIN_SYNC_COMMITTEE :: bytes where
  "DOMAIN_SYNC_COMMITTEE = [7, 0, 0, 0]"

definition DOMAIN_BLS_TO_EXECUTION_CHANGE :: bytes where
  "DOMAIN_BLS_TO_EXECUTION_CHANGE = [10, 0, 0, 0]"

definition DOMAIN_BEACON_BUILDER :: bytes where
  "DOMAIN_BEACON_BUILDER = [11, 0, 0, 0]"

definition DOMAIN_PTC_ATTESTER :: bytes where
  "DOMAIN_PTC_ATTESTER = [12, 0, 0, 0]"

definition DOMAIN_BUILDER_DEPOSIT :: bytes where
  "DOMAIN_BUILDER_DEPOSIT = [14, 0, 0, 0]"

section \<open>Fork choice parameters (constants/fork_choice.rs)\<close>

definition BASIS_POINTS :: u64 where
  "BASIS_POINTS = 10000"

definition PROPOSER_SCORE_BOOST :: u64 where
  "PROPOSER_SCORE_BOOST = 40"

definition REORG_HEAD_WEIGHT_THRESHOLD :: u64 where
  "REORG_HEAD_WEIGHT_THRESHOLD = 20"

definition REORG_PARENT_WEIGHT_THRESHOLD :: u64 where
  "REORG_PARENT_WEIGHT_THRESHOLD = 160"

definition REORG_MAX_EPOCHS_SINCE_FINALIZATION :: u64 where
  "REORG_MAX_EPOCHS_SINCE_FINALIZATION = 2"

definition PROPOSER_REORG_CUTOFF_BPS :: u64 where
  "PROPOSER_REORG_CUTOFF_BPS = 1667"

definition ATTESTATION_DUE_BPS_GLOAS :: u64 where
  "ATTESTATION_DUE_BPS_GLOAS = 2500"

definition PAYLOAD_ATTESTATION_DUE_BPS :: u64 where
  "PAYLOAD_ATTESTATION_DUE_BPS = 7500"

definition PAYLOAD_TIMELY_THRESHOLD :: "preset \<Rightarrow> u64" where
  "PAYLOAD_TIMELY_THRESHOLD p = PTC_SIZE p div 2"

definition DATA_AVAILABILITY_TIMELY_THRESHOLD :: "preset \<Rightarrow> u64" where
  "DATA_AVAILABILITY_TIMELY_THRESHOLD p = PTC_SIZE p div 2"

lemmas const_defs =
  SLOT_DURATION_MS_def SLOTS_PER_EPOCH_def SLOTS_PER_HISTORICAL_ROOT_def
  MIN_ATTESTATION_INCLUSION_DELAY_def MIN_SEED_LOOKAHEAD_def MAX_SEED_LOOKAHEAD_def
  EPOCHS_PER_ETH1_VOTING_PERIOD_def MIN_EPOCHS_TO_INACTIVITY_PENALTY_def
  EPOCHS_PER_SYNC_COMMITTEE_PERIOD_def MIN_VALIDATOR_WITHDRAWABILITY_DELAY_def
  SHARD_COMMITTEE_PERIOD_def MIN_BUILDER_WITHDRAWABILITY_DELAY_def FAR_FUTURE_EPOCH_def
  EPOCHS_PER_HISTORICAL_VECTOR_def ETH1_DATA_VOTES_LEN_def PROPOSER_LOOKAHEAD_LEN_def
  EPOCHS_PER_SLASHINGS_VECTOR_def HISTORICAL_ROOTS_LIMIT_def VALIDATOR_REGISTRY_LIMIT_def
  PENDING_DEPOSITS_LIMIT_def PENDING_PARTIAL_WITHDRAWALS_LIMIT_def
  PENDING_CONSOLIDATIONS_LIMIT_def BUILDER_REGISTRY_LIMIT_def
  BUILDER_PENDING_WITHDRAWALS_LIMIT_def JUSTIFICATION_BITS_LENGTH_def MIN_DEPOSIT_AMOUNT_def
  EFFECTIVE_BALANCE_INCREMENT_def MIN_ACTIVATION_BALANCE_def MAX_EFFECTIVE_BALANCE_def
  EJECTION_BALANCE_def HYSTERESIS_QUOTIENT_def HYSTERESIS_DOWNWARD_MULTIPLIER_def
  HYSTERESIS_UPWARD_MULTIPLIER_def MIN_PER_EPOCH_CHURN_LIMIT_def CHURN_LIMIT_QUOTIENT_def
  CONSOLIDATION_CHURN_LIMIT_QUOTIENT_def MAX_PER_EPOCH_ACTIVATION_CHURN_LIMIT_def
  MAX_WITHDRAWALS_PER_PAYLOAD_def MAX_VALIDATORS_PER_WITHDRAWALS_SWEEP_def
  MAX_PENDING_PARTIALS_PER_WITHDRAWALS_SWEEP_def MAX_PENDING_DEPOSITS_PER_EPOCH_def
  MAX_BUILDERS_PER_WITHDRAWALS_SWEEP_def FULL_EXIT_REQUEST_AMOUNT_def BLS_WITHDRAWAL_PREFIX_def
  ETH1_ADDRESS_WITHDRAWAL_PREFIX_def COMPOUNDING_WITHDRAWAL_PREFIX_def BASE_REWARD_FACTOR_def
  WHISTLEBLOWER_REWARD_QUOTIENT_def INACTIVITY_PENALTY_QUOTIENT_def
  MIN_SLASHING_PENALTY_QUOTIENT_def PROPORTIONAL_SLASHING_MULTIPLIER_def
  INACTIVITY_SCORE_BIAS_def INACTIVITY_SCORE_RECOVERY_RATE_def TIMELY_SOURCE_FLAG_INDEX_def
  TIMELY_TARGET_FLAG_INDEX_def TIMELY_HEAD_FLAG_INDEX_def TIMELY_SOURCE_WEIGHT_def
  TIMELY_TARGET_WEIGHT_def TIMELY_HEAD_WEIGHT_def SYNC_REWARD_WEIGHT_def PROPOSER_WEIGHT_def
  WEIGHT_DENOMINATOR_def PARTICIPATION_FLAG_WEIGHTS_def MAX_COMMITTEES_PER_SLOT_def
  TARGET_COMMITTEE_SIZE_def MAX_VALIDATORS_PER_COMMITTEE_def MAX_ATTESTING_INDICES_def
  SHUFFLE_ROUND_COUNT_def SYNC_COMMITTEE_SIZE_def SYNC_COMMITTEE_SUBNET_COUNT_def PTC_SIZE_def
  MAX_PROPOSER_SLASHINGS_def MAX_ATTESTER_SLASHINGS_def MAX_ATTESTATIONS_def MAX_DEPOSITS_def
  MAX_VOLUNTARY_EXITS_def MAX_BLS_TO_EXECUTION_CHANGES_def MAX_PAYLOAD_ATTESTATIONS_def
  MAX_DEPOSIT_REQUESTS_PER_PAYLOAD_def MAX_WITHDRAWAL_REQUESTS_PER_PAYLOAD_def
  MAX_CONSOLIDATION_REQUESTS_PER_PAYLOAD_def MAX_BUILDER_DEPOSIT_REQUESTS_PER_PAYLOAD_def
  MAX_BUILDER_EXIT_REQUESTS_PER_PAYLOAD_def MAX_BYTES_PER_TRANSACTION_def
  MAX_TRANSACTIONS_PER_PAYLOAD_def BYTES_PER_LOGS_BLOOM_def MAX_EXTRA_DATA_BYTES_def
  MAX_BLOB_COMMITMENTS_PER_BLOCK_def BYTES_PER_FIELD_ELEMENT_def FIELD_ELEMENTS_PER_BLOB_def
  FIELD_ELEMENTS_PER_EXT_BLOB_def FIELD_ELEMENTS_PER_CELL_def BYTES_PER_CELL_def
  CELLS_PER_EXT_BLOB_def NUMBER_OF_COLUMNS_def NUMBER_OF_CUSTODY_GROUPS_def
  DATA_COLUMN_SIDECAR_SUBNET_COUNT_def MAX_REQUEST_BLOCKS_DENEB_def MAX_BLOBS_PER_BLOCK_def
  BLOB_SCHEDULE_def BUILDER_PAYMENT_WINDOW_LEN_def PTC_WINDOW_LEN_def BUILDER_INDEX_FLAG_def
  BUILDER_INDEX_SELF_BUILD_def PAYLOAD_BUILDER_VERSION_def
  BUILDER_PAYMENT_THRESHOLD_NUMERATOR_def BUILDER_PAYMENT_THRESHOLD_DENOMINATOR_def
  GENESIS_EPOCH_def GENESIS_SLOT_def GENESIS_FORK_VERSION_def CAPELLA_FORK_VERSION_def
  ELECTRA_FORK_EPOCH_def DEPOSIT_CONTRACT_TREE_DEPTH_def DEPOSIT_PROOF_LEN_def
  UNSET_DEPOSIT_REQUESTS_START_INDEX_def DOMAIN_BEACON_PROPOSER_def DOMAIN_BEACON_ATTESTER_def
  DOMAIN_RANDAO_def DOMAIN_DEPOSIT_def DOMAIN_VOLUNTARY_EXIT_def DOMAIN_SYNC_COMMITTEE_def
  DOMAIN_BLS_TO_EXECUTION_CHANGE_def DOMAIN_BEACON_BUILDER_def DOMAIN_PTC_ATTESTER_def
  DOMAIN_BUILDER_DEPOSIT_def BASIS_POINTS_def PROPOSER_SCORE_BOOST_def
  REORG_HEAD_WEIGHT_THRESHOLD_def REORG_PARENT_WEIGHT_THRESHOLD_def
  REORG_MAX_EPOCHS_SINCE_FINALIZATION_def PROPOSER_REORG_CUTOFF_BPS_def
  ATTESTATION_DUE_BPS_GLOAS_def PAYLOAD_ATTESTATION_DUE_BPS_def PAYLOAD_TIMELY_THRESHOLD_def
  DATA_AVAILABILITY_TIMELY_THRESHOLD_def

end
