(* ===== verification/Errors.thy ===== *)
theory Errors
  imports Prelude
begin

text \<open>
  The error taxonomy of the transition (\<open>moonglass-core/src/error\<close>): one datatype per Rust enum with
  its variants, prefixed by the enum they belong to, and \<open>TransitionError\<close> over them. Payloads are
  indices, slots and epochs (naturals) or roots (byte strings).
\<close>

section \<open>error/primitive.rs\<close>

datatype (plugins only: code size) PrimitivesError =
    Prim_NotBuilderIndex
  | Prim_FlagIndexOutOfRange usize
  | Prim_SentinelBuilderIndex
  | Prim_BuilderIndexOutOfRange

section \<open>error/slot.rs\<close>

datatype (plugins only: code size) SlotError =
    Slot_NotAfter u64 u64
  | Slot_NextSlotOverflow u64

section \<open>error/registry.rs\<close>

datatype (plugins only: code size) RegistryError =
    Reg_ValidatorIndexOutOfRange u64
  | Reg_BuilderIndexOutOfRange u64
  | Reg_SyncCommitteeMemberNotFound

section \<open>error/merkle.rs\<close>

datatype (plugins only: code size) MerkleError =
    Mer_BeaconState
  | Mer_BeaconBlock
  | Mer_BeaconBlockHeader
  | Mer_BeaconBlockBody
  | Mer_ForkData
  | Mer_SigningData
  | Mer_VoluntaryExit
  | Mer_BlsToExecutionChange
  | Mer_Epoch
  | Mer_Attestation
  | Mer_AttestationData
  | Mer_IndexedAttestation
  | Mer_DepositMessage
  | Mer_ExecutionPayloadBid
  | Mer_ExecutionPayloadEnvelope
  | Mer_PayloadAttestationData
  | Mer_ExecutionRequests
  | Mer_BlockRoots
  | Mer_StateRoots

section \<open>error/signature.rs\<close>

datatype (plugins only: code size) SignatureError =
    Sig_BlockProposer u64
  | Sig_RandaoReveal
  | Sig_VoluntaryExit u64
  | Sig_BlsToExecutionChange u64
  | Sig_SyncAggregate
  | Sig_SyncInfinitySignatureRequired
  | Sig_Attestation
  | Sig_ProposerSlashingHeaderOne
  | Sig_ProposerSlashingHeaderTwo
  | Sig_AttesterSlashingAttestationOne
  | Sig_AttesterSlashingAttestationTwo
  | Sig_PayloadAttestation
  | Sig_ExecutionPayloadBid u64
  | Sig_ExecutionPayloadEnvelope u64
  | Sig_Deposit
  | Sig_AggregatePubkey
  | Sig_EmptyAggregatePubkeySet

section \<open>error/transition.rs\<close>

datatype (plugins only: code size) TransitionArithmetic =
    Arith_Slot
  | Arith_Epoch
  | Arith_Churn
  | Arith_Weight
  | Arith_WithdrawalIndex
  | Arith_BalanceSum
  | Arith_BoundedListLength

datatype (plugins only: code size) BoundedList =
    BL_Validators
  | BL_Balances
  | BL_PreviousEpochParticipation
  | BL_CurrentEpochParticipation
  | BL_InactivityScores
  | BL_HistoricalSummaries
  | BL_Builders
  | BL_IndexedAttestationIndices
  | BL_IndexedPayloadAttestationIndices
  | BL_PendingDeposits
  | BL_PendingPartialWithdrawals
  | BL_PendingConsolidations
  | BL_BuilderPendingWithdrawals
  | BL_PayloadExpectedWithdrawals

datatype (plugins only: code size) StateTransitionInvariant =
    Inv_MissingBalance u64
  | Inv_MissingPreviousEpochParticipation u64
  | Inv_MissingCurrentEpochParticipation u64
  | Inv_MissingInactivityScore u64
  | Inv_MissingBuilder u64

section \<open>error/block.rs\<close>

datatype (plugins only: code size) BlockError =
    Block_SlotNotAfterParent u64 u64
  | Block_BlockSlotMismatch u64 u64
  | Block_ParentRootMismatch bytes bytes
  | Block_ProposerIndexMismatch u64 u64
  | Block_ProposerSlashed u64
  | Block_ProposerLookaheadOutOfRange u64
  | Block_Eth1VotesFull
  | Block_CommitteeIndexOutOfRange u64
  | Block_EmptyActiveValidatorSet
  | Block_ParentPayloadRequestsMismatch
  | Block_ParentPayloadUnexpectedRequests
  | Block_EnvelopeBuilderMismatch
  | Block_EnvelopeRandaoMismatch
  | Block_EnvelopeGasLimitMismatch
  | Block_EnvelopePayloadHashMismatch
  | Block_EnvelopeRequestsRootMismatch
  | Block_EnvelopeSlotMismatch
  | Block_EnvelopeParentHashMismatch bytes bytes
  | Block_EnvelopeTimestampMismatch u64 u64
  | Block_EnvelopeTimestampOverflow
  | Block_EnvelopeBlockRootMismatch
  | Block_EnvelopeParentMismatch
  | Block_WithdrawalsRootMismatch

section \<open>error/operation.rs\<close>

datatype (plugins only: code size) OperationError =
    Op_ValidatorNotActive u64
  | Op_ValidatorAlreadyExiting u64
  | Op_ExitTooEarly u64 u64
  | Op_ValidatorTooYoung u64 u64 u64
  | Op_ValidatorHasPendingWithdrawal u64
  | Op_WithdrawalCredentialsNotBls u64
  | Op_BlsChangeCredentialMismatch u64
  | Op_AttestationSlotInvalid u64
  | Op_AttestationPayloadStatusInvalid
  | Op_AttestationSourceMismatch
  | Op_AttestationTargetEpochInvalid
  | Op_AttestationParticipantsEmpty
  | Op_AttestationAggregationBitsLength
  | Op_AttesterSlashingNotSlashable
  | Op_AttesterSlashingNoIntersection
  | Op_IndexedAttestationEmpty
  | Op_IndexedAttestationNotSorted
  | Op_ProposerSlashingHeadersMatch
  | Op_ProposerSlashingSlotMismatch
  | Op_ProposerSlashingProposerMismatch
  | Op_ProposerSlashingNotSlashable u64
  | Op_PayloadAttestationSlotMismatch
  | Op_PayloadAttestationBlockRootMismatch
  | Op_BuilderNotActive u64
  | Op_BuilderNotPayloadVersion u64
  | Op_BuilderInsufficientBalance u64
  | Op_BuilderBidSelfBuildNonZero
  | Op_BuilderBidSelfBuildSignature
  | Op_BuilderBidSlotMismatch
  | Op_BuilderBidParentMismatch
  | Op_BuilderBidRandaoMismatch
  | Op_BuilderBidBlobLimitExceeded usize usize
  | Op_BuilderPaymentIndexOutOfRange
  | Op_BuilderPendingWithdrawalsFull
  | Op_DepositsNotAllowed
  | Op_WithdrawableEpochOverflow u64

section \<open>error.rs\<close>

datatype (plugins only: code size) TransitionError =
    SlotErr SlotError
  | BlockErr BlockError
  | OperationErr OperationError
  | RegistryErr RegistryError
  | SignatureErr SignatureError
  | MerkleErr MerkleError
  | PrimitiveErr PrimitivesError
  | StateRootMismatch bytes bytes
  | BalanceOverflow
  | ArithmeticOverflow TransitionArithmetic
  | BoundedListFull BoundedList
  | InvariantErr StateTransitionInvariant

end
