(* ===== verification/Primitives.thy ===== *)
theory Primitives
  imports Ssz_Merkle Constants Errors
begin

text \<open>
  Primitive protocol values (\<open>moonglass-core/src/primitives\<close>). The numeric newtypes over \<open>u64\<close>
  (\<open>numeric.rs\<close>) are naturals, the byte-array newtypes (\<open>byte_arrays.rs\<close>) are byte strings; the
  descriptors \<open>X_ty\<close> are their SSZ impls (\<open>numeric_ssz.rs\<close>, \<open>byte_arrays.rs\<close>). Bitwise operations are
  those of 64-bit words.
\<close>

section \<open>Types\<close>

type_synonym Slot = u64
type_synonym Epoch = u64
type_synonym ValidatorIndex = u64
type_synonym BuilderIndex = u64
type_synonym CommitteeIndex = u64
type_synonym ColumnIndex = u64
type_synonym RowIndex = u64
type_synonym WithdrawalIndex = u64
type_synonym Gwei = u64
type_synonym ParticipationFlags = byte

type_synonym Root = bytes
type_synonym Hash32 = bytes
type_synonym Bytes32 = bytes
type_synonym ExecutionAddress = bytes
type_synonym Version = bytes
type_synonym Domain = bytes
type_synonym DomainType = bytes
type_synonym BLSPubkey = bytes
type_synonym BLSSignature = bytes
type_synonym KZGCommitment = bytes
type_synonym KZGProof = bytes
type_synonym Cell = bytes
type_synonym Uint256 = bytes

section \<open>SSZ descriptors\<close>

definition Slot_ty :: ssz_ty where
  "Slot_ty = TUint 8"

definition Epoch_ty :: ssz_ty where
  "Epoch_ty = TUint 8"

definition ValidatorIndex_ty :: ssz_ty where
  "ValidatorIndex_ty = TUint 8"

definition BuilderIndex_ty :: ssz_ty where
  "BuilderIndex_ty = TUint 8"

definition CommitteeIndex_ty :: ssz_ty where
  "CommitteeIndex_ty = TUint 8"

definition ColumnIndex_ty :: ssz_ty where
  "ColumnIndex_ty = TUint 8"

definition RowIndex_ty :: ssz_ty where
  "RowIndex_ty = TUint 8"

definition WithdrawalIndex_ty :: ssz_ty where
  "WithdrawalIndex_ty = TUint 8"

definition Gwei_ty :: ssz_ty where
  "Gwei_ty = TUint 8"

definition ParticipationFlags_ty :: ssz_ty where
  "ParticipationFlags_ty = TUint 1"

definition Root_ty :: ssz_ty where
  "Root_ty = TBytes 32"

definition Hash32_ty :: ssz_ty where
  "Hash32_ty = TBytes 32"

definition Bytes32_ty :: ssz_ty where
  "Bytes32_ty = TBytes 32"

definition ExecutionAddress_ty :: ssz_ty where
  "ExecutionAddress_ty = TBytes 20"

definition Version_ty :: ssz_ty where
  "Version_ty = TBytes 4"

definition Domain_ty :: ssz_ty where
  "Domain_ty = TBytes 32"

definition BLSPubkey_ty :: ssz_ty where
  "BLSPubkey_ty = TBytes 48"

definition BLSSignature_ty :: ssz_ty where
  "BLSSignature_ty = TBytes 96"

definition KZGCommitment_ty :: ssz_ty where
  "KZGCommitment_ty = TBytes 48"

definition KZGProof_ty :: ssz_ty where
  "KZGProof_ty = TBytes 48"

definition Cell_ty :: ssz_ty where
  "Cell_ty = TBytes BYTES_PER_CELL"

definition Uint256_ty :: ssz_ty where
  "Uint256_ty = TUint256"

lemmas primitive_ty_defs =
  Slot_ty_def Epoch_ty_def ValidatorIndex_ty_def BuilderIndex_ty_def CommitteeIndex_ty_def
  ColumnIndex_ty_def RowIndex_ty_def WithdrawalIndex_ty_def Gwei_ty_def ParticipationFlags_ty_def
  Root_ty_def Hash32_ty_def Bytes32_ty_def ExecutionAddress_ty_def Version_ty_def Domain_ty_def
  BLSPubkey_ty_def BLSSignature_ty_def KZGCommitment_ty_def KZGProof_ty_def Cell_ty_def Uint256_ty_def

definition Root_ZERO :: Root where
  "Root_ZERO = replicate 32 0"

section \<open>Slots and epochs (numeric.rs)\<close>

definition epoch_of :: "preset \<Rightarrow> Slot \<Rightarrow> Epoch" where
  "epoch_of p sl = sl div SLOTS_PER_EPOCH p"

definition start_slot :: "preset \<Rightarrow> Epoch \<Rightarrow> Slot" where
  "start_slot p e = saturating_mul e (SLOTS_PER_EPOCH p)"

lemma slots_per_epoch_pos [simp]: "0 < SLOTS_PER_EPOCH p"
  by (cases p) (simp_all add: SLOTS_PER_EPOCH_def)

lemma epoch_of_start_slot: "e * SLOTS_PER_EPOCH p \<le> u64_max \<Longrightarrow> epoch_of p (start_slot p e) = e"
  by (simp add: epoch_of_def start_slot_def saturating_mul_def)

lemma start_slot_epoch_of: "start_slot p (epoch_of p sl) \<le> sl"
  by (simp add: epoch_of_def start_slot_def saturating_mul_def min.coboundedI1)

lemma epoch_of_mono: "a \<le> b \<Longrightarrow> epoch_of p a \<le> epoch_of p b"
  by (simp add: epoch_of_def div_le_mono)

section \<open>Builder indices (numeric.rs)\<close>

unbundle bit_operations_syntax

abbreviation w64 :: "nat \<Rightarrow> 64 word" where
  "w64 n \<equiv> word_of_nat n"

definition is_builder_index :: "ValidatorIndex \<Rightarrow> bool" where
  "is_builder_index i \<longleftrightarrow> w64 i AND w64 BUILDER_INDEX_FLAG \<noteq> 0"

definition to_builder_index :: "ValidatorIndex \<Rightarrow> (PrimitivesError, BuilderIndex) res" where
  "to_builder_index i =
     (if \<not> is_builder_index i then Inl Prim_NotBuilderIndex
      else
        let v = unat (w64 i AND NOT (w64 BUILDER_INDEX_FLAG)) in
        if v \<ge> BUILDER_INDEX_FLAG then Inl Prim_BuilderIndexOutOfRange else Inr v)"

definition to_validator_index :: "BuilderIndex \<Rightarrow> (PrimitivesError, ValidatorIndex) res" where
  "to_validator_index b =
     (if b = u64_max then Inl Prim_SentinelBuilderIndex
      else if b \<ge> BUILDER_INDEX_FLAG then Inl Prim_BuilderIndexOutOfRange
      else Inr (unat (w64 b OR w64 BUILDER_INDEX_FLAG)))"

lemma bit_flag: "bit (w64 BUILDER_INDEX_FLAG) k \<longleftrightarrow> k = 40"
proof -
  have "w64 BUILDER_INDEX_FLAG = push_bit 40 1" by (simp add: BUILDER_INDEX_FLAG_def)
  moreover have "bit (push_bit 40 (1 :: 64 word)) k \<longleftrightarrow> k = 40"
    by (auto simp only: bit_push_bit_iff bit_1_iff possible_bit_word) auto
  ultimately show ?thesis by (simp only:)
qed

lemma is_builder_index_iff: "is_builder_index i \<longleftrightarrow> bit (w64 i) 40"
  unfolding is_builder_index_def by (auto simp: bit_eq_iff [of "w64 i AND w64 BUILDER_INDEX_FLAG" 0] bit_and_iff bit_flag)

lemma unat_w64: "n \<le> u64_max \<Longrightarrow> unat (w64 n) = n"
  by (simp add: unat_of_nat u64_max_def)

lemma high_bits_clear: "n < 2 ^ 40 \<Longrightarrow> 40 \<le> k \<Longrightarrow> \<not> bit (w64 n) k"
proof -
  assume n: "n < 2 ^ 40" and k: "40 \<le> k"
  have "n < 2 ^ k" using n k by (meson one_le_numeral order_less_le_trans power_increasing)
  then have "\<not> bit n k" by (simp add: bit_iff_odd)
  then show ?thesis by (simp add: bit_simps)
qed

text \<open>
  Builder indices and flagged validator indices convert back and forth without loss: a builder
  index is encoded as a validator index exactly when decoding that validator index gives it back.
\<close>

theorem builder_index_roundtrip:
  assumes "b \<le> u64_max" and "i \<le> u64_max"
  shows "to_validator_index b = Inr i \<longleftrightarrow> to_builder_index i = Inr b"
proof
  let ?F = "w64 BUILDER_INDEX_FLAG"
  assume "to_validator_index b = Inr i"
  then have b: "b < BUILDER_INDEX_FLAG" and i: "i = unat (w64 b OR ?F)"
    by (auto simp: to_validator_index_def split: if_splits)
  have hb: "\<not> bit (w64 b) 40" using high_bits_clear b by (simp add: BUILDER_INDEX_FLAG_def)
  have w: "w64 i = w64 b OR ?F" by (simp add: i)
  have "w64 i AND NOT ?F = w64 b"
    unfolding w
    by (rule bit_word_eqI) (use hb in \<open>auto simp: bit_and_iff bit_or_iff bit_not_iff bit_flag\<close>)
  moreover have "is_builder_index i" by (simp add: is_builder_index_iff w bit_or_iff bit_flag)
  ultimately show "to_builder_index i = Inr b"
    using b assms(1) by (simp add: to_builder_index_def Let_def unat_w64)
next
  let ?F = "w64 BUILDER_INDEX_FLAG"
  assume "to_builder_index i = Inr b"
  then have i: "bit (w64 i) 40" and b: "b = unat (w64 i AND NOT ?F)" "b < BUILDER_INDEX_FLAG"
    by (auto simp: to_builder_index_def is_builder_index_iff Let_def split: if_splits)
  have wb: "w64 b = w64 i AND NOT ?F" by (simp add: b(1))
  have "w64 b OR ?F = w64 i"
    unfolding wb
    by (rule bit_word_eqI) (use i in \<open>auto simp: bit_and_iff bit_or_iff bit_not_iff bit_flag\<close>)
  moreover have "b \<noteq> u64_max" using b(2) by (simp add: BUILDER_INDEX_FLAG_def u64_max_def)
  ultimately show "to_validator_index b = Inr i"
    using b(2) assms(2) by (simp add: to_validator_index_def unat_w64)
qed

theorem builder_index_roundtrip_witness: "to_builder_index (2 ^ 40 + 5) = Inr 5"
proof -
  have "to_validator_index 5 = Inr (2 ^ 40 + 5)"
    by (simp add: to_validator_index_def u64_max_def BUILDER_INDEX_FLAG_def)
  then show ?thesis using builder_index_roundtrip [of 5 "2 ^ 40 + 5"] by (simp add: u64_max_def)
qed

section \<open>Participation flags (numeric.rs)\<close>

definition ParticipationFlags_NONE :: ParticipationFlags where
  "ParticipationFlags_NONE = 0"

definition has_flag :: "ParticipationFlags \<Rightarrow> usize \<Rightarrow> (PrimitivesError, bool) res" where
  "has_flag flags flag_index =
     (if flag_index \<ge> 8 then Inl (Prim_FlagIndexOutOfRange flag_index)
      else Inr (flags AND push_bit flag_index 1 \<noteq> 0))"

definition with_flag :: "ParticipationFlags \<Rightarrow> usize \<Rightarrow> (PrimitivesError, ParticipationFlags) res" where
  "with_flag flags flag_index =
     (if flag_index \<ge> 8 then Inl (Prim_FlagIndexOutOfRange flag_index)
      else Inr (flags OR push_bit flag_index 1))"

lemma has_flag_bit: "i < 8 \<Longrightarrow> has_flag f i = Inr (bit f i)"
  by (simp add: has_flag_def bit_iff_and_push_bit_not_eq_0 del: push_bit_of_1)

lemma bit_with_flag: "with_flag f i = Inr f' \<Longrightarrow> bit f' k \<longleftrightarrow> bit f k \<or> k = i"
  by (auto simp: with_flag_def bit_simps split: if_splits)

lemma has_flag_NONE: "i < 8 \<Longrightarrow> has_flag ParticipationFlags_NONE i = Inr False"
  by (simp add: has_flag_bit ParticipationFlags_NONE_def)

end
