(* ===== verification/Containers.thy ===== *)
theory Containers
  imports Primitives
begin

text \<open>
  The consensus containers (\<open>moonglass-core/src/containers\<close>). Every struct is a record whose fields carry
  a short prefix of the struct's name (the fields of \<open>BeaconState\<close> keep theirs), \<open>X_ty\<close> is the SSZ
  descriptor of the struct's trait impls, which list the fields in declaration order, and \<open>X_val\<close>
  gives the SSZ value of a record, for the containers whose root or encoding the transition uses.
\<close>

section \<open>Checkpoint (containers/chain.rs)\<close>

record Checkpoint =
  cp_epoch :: Epoch
  cp_root :: Root

definition Checkpoint_ty :: ssz_ty where
  "Checkpoint_ty =
     TContainer [Epoch_ty, Root_ty]"

definition Checkpoint_val :: "Checkpoint \<Rightarrow> ssz_val" where
  "Checkpoint_val x =
     VContainer [VUint (cp_epoch x), VBytes (cp_root x)]"

section \<open>AttestationData (containers/attestation.rs)\<close>

record AttestationData =
  ad_slot :: Slot
  ad_index :: CommitteeIndex
  ad_beacon_block_root :: Root
  ad_source :: Checkpoint
  ad_target :: Checkpoint

definition AttestationData_ty :: ssz_ty where
  "AttestationData_ty =
     TContainer [Slot_ty, CommitteeIndex_ty, Root_ty, Checkpoint_ty, Checkpoint_ty]"

definition AttestationData_val :: "AttestationData \<Rightarrow> ssz_val" where
  "AttestationData_val x =
     VContainer [VUint (ad_slot x), VUint (ad_index x), VBytes (ad_beacon_block_root x),
       Checkpoint_val (ad_source x), Checkpoint_val (ad_target x)]"

section \<open>IndexedAttestation (containers/attestation.rs)\<close>

record IndexedAttestation =
  ia_attesting_indices :: "ValidatorIndex list"
  ia_data :: AttestationData
  ia_signature :: BLSSignature

definition IndexedAttestation_ty :: "preset \<Rightarrow> ssz_ty" where
  "IndexedAttestation_ty p =
     TContainer [TList ValidatorIndex_ty (MAX_ATTESTING_INDICES p), AttestationData_ty,
       BLSSignature_ty]"

definition IndexedAttestation_val :: "IndexedAttestation \<Rightarrow> ssz_val" where
  "IndexedAttestation_val x =
     VContainer [VSeq (map VUint (ia_attesting_indices x)), AttestationData_val (ia_data x),
       VBytes (ia_signature x)]"

section \<open>Attestation (containers/attestation.rs)\<close>

record Attestation =
  att_aggregation_bits :: "bool list"
  att_data :: AttestationData
  att_signature :: BLSSignature
  att_committee_bits :: "bool list"

definition Attestation_ty :: "preset \<Rightarrow> ssz_ty" where
  "Attestation_ty p =
     TContainer [TBitlist (MAX_ATTESTING_INDICES p), AttestationData_ty, BLSSignature_ty,
       TBitvector (MAX_COMMITTEES_PER_SLOT p)]"

definition Attestation_val :: "Attestation \<Rightarrow> ssz_val" where
  "Attestation_val x =
     VContainer [VBits (att_aggregation_bits x), AttestationData_val (att_data x),
       VBytes (att_signature x), VBits (att_committee_bits x)]"

section \<open>SingleAttestation (containers/attestation.rs)\<close>

record SingleAttestation =
  sa_committee_index :: CommitteeIndex
  sa_attester_index :: ValidatorIndex
  sa_data :: AttestationData
  sa_signature :: BLSSignature

definition SingleAttestation_ty :: ssz_ty where
  "SingleAttestation_ty =
     TContainer [CommitteeIndex_ty, ValidatorIndex_ty, AttestationData_ty, BLSSignature_ty]"

section \<open>AggregateAndProof (containers/attestation.rs)\<close>

record AggregateAndProof =
  aap_aggregator_index :: ValidatorIndex
  aap_aggregate :: Attestation
  aap_selection_proof :: BLSSignature

definition AggregateAndProof_ty :: "preset \<Rightarrow> ssz_ty" where
  "AggregateAndProof_ty p =
     TContainer [ValidatorIndex_ty, Attestation_ty p, BLSSignature_ty]"

section \<open>SignedAggregateAndProof (containers/attestation.rs)\<close>

record SignedAggregateAndProof =
  saap_message :: AggregateAndProof
  saap_signature :: BLSSignature

definition SignedAggregateAndProof_ty :: "preset \<Rightarrow> ssz_ty" where
  "SignedAggregateAndProof_ty p =
     TContainer [AggregateAndProof_ty p, BLSSignature_ty]"

section \<open>AttesterSlashing (containers/attestation.rs)\<close>

record AttesterSlashing =
  as_attestation_1 :: IndexedAttestation
  as_attestation_2 :: IndexedAttestation

definition AttesterSlashing_ty :: "preset \<Rightarrow> ssz_ty" where
  "AttesterSlashing_ty p =
     TContainer [IndexedAttestation_ty p, IndexedAttestation_ty p]"

definition AttesterSlashing_val :: "AttesterSlashing \<Rightarrow> ssz_val" where
  "AttesterSlashing_val x =
     VContainer [IndexedAttestation_val (as_attestation_1 x),
       IndexedAttestation_val (as_attestation_2 x)]"

section \<open>BeaconBlockHeader (containers/block.rs)\<close>

record BeaconBlockHeader =
  bbh_slot :: Slot
  bbh_proposer_index :: ValidatorIndex
  bbh_parent_root :: Root
  bbh_state_root :: Root
  bbh_body_root :: Root

definition BeaconBlockHeader_ty :: ssz_ty where
  "BeaconBlockHeader_ty =
     TContainer [Slot_ty, ValidatorIndex_ty, Root_ty, Root_ty, Root_ty]"

definition BeaconBlockHeader_val :: "BeaconBlockHeader \<Rightarrow> ssz_val" where
  "BeaconBlockHeader_val x =
     VContainer [VUint (bbh_slot x), VUint (bbh_proposer_index x), VBytes (bbh_parent_root x),
       VBytes (bbh_state_root x), VBytes (bbh_body_root x)]"

section \<open>SignedBeaconBlockHeader (containers/block.rs)\<close>

record SignedBeaconBlockHeader =
  sbbh_message :: BeaconBlockHeader
  sbbh_signature :: BLSSignature

definition SignedBeaconBlockHeader_ty :: ssz_ty where
  "SignedBeaconBlockHeader_ty =
     TContainer [BeaconBlockHeader_ty, BLSSignature_ty]"

definition SignedBeaconBlockHeader_val :: "SignedBeaconBlockHeader \<Rightarrow> ssz_val" where
  "SignedBeaconBlockHeader_val x =
     VContainer [BeaconBlockHeader_val (sbbh_message x), VBytes (sbbh_signature x)]"

section \<open>ProposerSlashing (containers/attestation.rs)\<close>

record ProposerSlashing =
  ps_signed_header_1 :: SignedBeaconBlockHeader
  ps_signed_header_2 :: SignedBeaconBlockHeader

definition ProposerSlashing_ty :: ssz_ty where
  "ProposerSlashing_ty =
     TContainer [SignedBeaconBlockHeader_ty, SignedBeaconBlockHeader_ty]"

definition ProposerSlashing_val :: "ProposerSlashing \<Rightarrow> ssz_val" where
  "ProposerSlashing_val x =
     VContainer [SignedBeaconBlockHeader_val (ps_signed_header_1 x),
       SignedBeaconBlockHeader_val (ps_signed_header_2 x)]"

section \<open>Eth1Data (containers/chain.rs)\<close>

record Eth1Data =
  eth1_deposit_root :: Root
  eth1_deposit_count :: u64
  eth1_block_hash :: Hash32

definition Eth1Data_ty :: ssz_ty where
  "Eth1Data_ty =
     TContainer [Root_ty, TUint 8, Hash32_ty]"

definition Eth1Data_val :: "Eth1Data \<Rightarrow> ssz_val" where
  "Eth1Data_val x =
     VContainer [VBytes (eth1_deposit_root x), VUint (eth1_deposit_count x),
       VBytes (eth1_block_hash x)]"

section \<open>DepositData (containers/withdrawal.rs)\<close>

record DepositData =
  dd_pubkey :: BLSPubkey
  dd_withdrawal_credentials :: Bytes32
  dd_amount :: Gwei
  dd_signature :: BLSSignature

definition DepositData_ty :: ssz_ty where
  "DepositData_ty =
     TContainer [BLSPubkey_ty, Bytes32_ty, Gwei_ty, BLSSignature_ty]"

definition DepositData_val :: "DepositData \<Rightarrow> ssz_val" where
  "DepositData_val x =
     VContainer [VBytes (dd_pubkey x), VBytes (dd_withdrawal_credentials x), VUint (dd_amount x),
       VBytes (dd_signature x)]"

section \<open>Deposit (containers/withdrawal.rs)\<close>

record Deposit =
  dep_proof :: "Bytes32 list"
  dep_data :: DepositData

definition Deposit_ty :: ssz_ty where
  "Deposit_ty =
     TContainer [TVector Bytes32_ty DEPOSIT_PROOF_LEN, DepositData_ty]"

definition Deposit_val :: "Deposit \<Rightarrow> ssz_val" where
  "Deposit_val x =
     VContainer [VSeq (map VBytes (dep_proof x)), DepositData_val (dep_data x)]"

section \<open>VoluntaryExit (containers/withdrawal.rs)\<close>

record VoluntaryExit =
  ve_epoch :: Epoch
  ve_validator_index :: ValidatorIndex

definition VoluntaryExit_ty :: ssz_ty where
  "VoluntaryExit_ty =
     TContainer [Epoch_ty, ValidatorIndex_ty]"

definition VoluntaryExit_val :: "VoluntaryExit \<Rightarrow> ssz_val" where
  "VoluntaryExit_val x =
     VContainer [VUint (ve_epoch x), VUint (ve_validator_index x)]"

section \<open>SignedVoluntaryExit (containers/withdrawal.rs)\<close>

record SignedVoluntaryExit =
  sve_message :: VoluntaryExit
  sve_signature :: BLSSignature

definition SignedVoluntaryExit_ty :: ssz_ty where
  "SignedVoluntaryExit_ty =
     TContainer [VoluntaryExit_ty, BLSSignature_ty]"

definition SignedVoluntaryExit_val :: "SignedVoluntaryExit \<Rightarrow> ssz_val" where
  "SignedVoluntaryExit_val x =
     VContainer [VoluntaryExit_val (sve_message x), VBytes (sve_signature x)]"

section \<open>SyncAggregate (containers/sync.rs)\<close>

record SyncAggregate =
  sag_sync_committee_bits :: "bool list"
  sag_sync_committee_signature :: BLSSignature

definition SyncAggregate_ty :: "preset \<Rightarrow> ssz_ty" where
  "SyncAggregate_ty p =
     TContainer [TBitvector (SYNC_COMMITTEE_SIZE p), BLSSignature_ty]"

definition SyncAggregate_val :: "SyncAggregate \<Rightarrow> ssz_val" where
  "SyncAggregate_val x =
     VContainer [VBits (sag_sync_committee_bits x), VBytes (sag_sync_committee_signature x)]"

section \<open>BLSToExecutionChange (containers/withdrawal.rs)\<close>

record BLSToExecutionChange =
  btec_validator_index :: ValidatorIndex
  btec_from_bls_pubkey :: BLSPubkey
  btec_to_execution_address :: ExecutionAddress

definition BLSToExecutionChange_ty :: ssz_ty where
  "BLSToExecutionChange_ty =
     TContainer [ValidatorIndex_ty, BLSPubkey_ty, ExecutionAddress_ty]"

definition BLSToExecutionChange_val :: "BLSToExecutionChange \<Rightarrow> ssz_val" where
  "BLSToExecutionChange_val x =
     VContainer [VUint (btec_validator_index x), VBytes (btec_from_bls_pubkey x),
       VBytes (btec_to_execution_address x)]"

section \<open>SignedBLSToExecutionChange (containers/withdrawal.rs)\<close>

record SignedBLSToExecutionChange =
  sbtec_message :: BLSToExecutionChange
  sbtec_signature :: BLSSignature

definition SignedBLSToExecutionChange_ty :: ssz_ty where
  "SignedBLSToExecutionChange_ty =
     TContainer [BLSToExecutionChange_ty, BLSSignature_ty]"

definition SignedBLSToExecutionChange_val :: "SignedBLSToExecutionChange \<Rightarrow> ssz_val" where
  "SignedBLSToExecutionChange_val x =
     VContainer [BLSToExecutionChange_val (sbtec_message x), VBytes (sbtec_signature x)]"

section \<open>ExecutionPayloadBid (containers/execution.rs)\<close>

record ExecutionPayloadBid =
  bid_parent_block_hash :: Hash32
  bid_parent_block_root :: Root
  bid_block_hash :: Hash32
  bid_prev_randao :: Bytes32
  bid_fee_recipient :: ExecutionAddress
  bid_gas_limit :: u64
  bid_builder_index :: BuilderIndex
  bid_slot :: Slot
  bid_value :: Gwei
  bid_execution_payment :: Gwei
  bid_blob_kzg_commitments :: "KZGCommitment list"
  bid_execution_requests_root :: Root

definition ExecutionPayloadBid_ty :: ssz_ty where
  "ExecutionPayloadBid_ty =
     TContainer [Hash32_ty, Root_ty, Hash32_ty, Bytes32_ty, ExecutionAddress_ty, TUint 8,
       BuilderIndex_ty, Slot_ty, Gwei_ty, Gwei_ty,
       TList KZGCommitment_ty MAX_BLOB_COMMITMENTS_PER_BLOCK, Root_ty]"

definition ExecutionPayloadBid_val :: "ExecutionPayloadBid \<Rightarrow> ssz_val" where
  "ExecutionPayloadBid_val x =
     VContainer [VBytes (bid_parent_block_hash x), VBytes (bid_parent_block_root x),
       VBytes (bid_block_hash x), VBytes (bid_prev_randao x), VBytes (bid_fee_recipient x),
       VUint (bid_gas_limit x), VUint (bid_builder_index x), VUint (bid_slot x),
       VUint (bid_value x), VUint (bid_execution_payment x),
       VSeq (map VBytes (bid_blob_kzg_commitments x)), VBytes (bid_execution_requests_root x)]"

section \<open>SignedExecutionPayloadBid (containers/execution.rs)\<close>

record SignedExecutionPayloadBid =
  sbid_message :: ExecutionPayloadBid
  sbid_signature :: BLSSignature

definition SignedExecutionPayloadBid_ty :: ssz_ty where
  "SignedExecutionPayloadBid_ty =
     TContainer [ExecutionPayloadBid_ty, BLSSignature_ty]"

definition SignedExecutionPayloadBid_val :: "SignedExecutionPayloadBid \<Rightarrow> ssz_val" where
  "SignedExecutionPayloadBid_val x =
     VContainer [ExecutionPayloadBid_val (sbid_message x), VBytes (sbid_signature x)]"

section \<open>PayloadAttestationData (containers/builder.rs)\<close>

record PayloadAttestationData =
  pad_beacon_block_root :: Root
  pad_slot :: Slot
  pad_payload_present :: bool
  pad_blob_data_available :: bool

definition PayloadAttestationData_ty :: ssz_ty where
  "PayloadAttestationData_ty =
     TContainer [Root_ty, Slot_ty, TBool, TBool]"

definition PayloadAttestationData_val :: "PayloadAttestationData \<Rightarrow> ssz_val" where
  "PayloadAttestationData_val x =
     VContainer [VBytes (pad_beacon_block_root x), VUint (pad_slot x),
       VBool (pad_payload_present x), VBool (pad_blob_data_available x)]"

section \<open>PayloadAttestation (containers/builder.rs)\<close>

record PayloadAttestation =
  pa_aggregation_bits :: "bool list"
  pa_data :: PayloadAttestationData
  pa_signature :: BLSSignature

definition PayloadAttestation_ty :: "preset \<Rightarrow> ssz_ty" where
  "PayloadAttestation_ty p =
     TContainer [TBitvector (PTC_SIZE p), PayloadAttestationData_ty, BLSSignature_ty]"

definition PayloadAttestation_val :: "PayloadAttestation \<Rightarrow> ssz_val" where
  "PayloadAttestation_val x =
     VContainer [VBits (pa_aggregation_bits x), PayloadAttestationData_val (pa_data x),
       VBytes (pa_signature x)]"

section \<open>DepositRequest (containers/withdrawal.rs)\<close>

record DepositRequest =
  dr_pubkey :: BLSPubkey
  dr_withdrawal_credentials :: Bytes32
  dr_amount :: Gwei
  dr_signature :: BLSSignature
  dr_index :: u64

definition DepositRequest_ty :: ssz_ty where
  "DepositRequest_ty =
     TContainer [BLSPubkey_ty, Bytes32_ty, Gwei_ty, BLSSignature_ty, TUint 8]"

definition DepositRequest_val :: "DepositRequest \<Rightarrow> ssz_val" where
  "DepositRequest_val x =
     VContainer [VBytes (dr_pubkey x), VBytes (dr_withdrawal_credentials x), VUint (dr_amount x),
       VBytes (dr_signature x), VUint (dr_index x)]"

section \<open>WithdrawalRequest (containers/withdrawal.rs)\<close>

record WithdrawalRequest =
  wr_source_address :: ExecutionAddress
  wr_validator_pubkey :: BLSPubkey
  wr_amount :: Gwei

definition WithdrawalRequest_ty :: ssz_ty where
  "WithdrawalRequest_ty =
     TContainer [ExecutionAddress_ty, BLSPubkey_ty, Gwei_ty]"

definition WithdrawalRequest_val :: "WithdrawalRequest \<Rightarrow> ssz_val" where
  "WithdrawalRequest_val x =
     VContainer [VBytes (wr_source_address x), VBytes (wr_validator_pubkey x), VUint (wr_amount x)]"

section \<open>ConsolidationRequest (containers/withdrawal.rs)\<close>

record ConsolidationRequest =
  cr_source_address :: ExecutionAddress
  cr_source_pubkey :: BLSPubkey
  cr_target_pubkey :: BLSPubkey

definition ConsolidationRequest_ty :: ssz_ty where
  "ConsolidationRequest_ty =
     TContainer [ExecutionAddress_ty, BLSPubkey_ty, BLSPubkey_ty]"

definition ConsolidationRequest_val :: "ConsolidationRequest \<Rightarrow> ssz_val" where
  "ConsolidationRequest_val x =
     VContainer [VBytes (cr_source_address x), VBytes (cr_source_pubkey x),
       VBytes (cr_target_pubkey x)]"

section \<open>BuilderDepositRequest (containers/withdrawal.rs)\<close>

record BuilderDepositRequest =
  bdr_pubkey :: BLSPubkey
  bdr_withdrawal_credentials :: Bytes32
  bdr_amount :: Gwei
  bdr_signature :: BLSSignature

definition BuilderDepositRequest_ty :: ssz_ty where
  "BuilderDepositRequest_ty =
     TContainer [BLSPubkey_ty, Bytes32_ty, Gwei_ty, BLSSignature_ty]"

definition BuilderDepositRequest_val :: "BuilderDepositRequest \<Rightarrow> ssz_val" where
  "BuilderDepositRequest_val x =
     VContainer [VBytes (bdr_pubkey x), VBytes (bdr_withdrawal_credentials x),
       VUint (bdr_amount x), VBytes (bdr_signature x)]"

section \<open>BuilderExitRequest (containers/withdrawal.rs)\<close>

record BuilderExitRequest =
  ber_source_address :: ExecutionAddress
  ber_pubkey :: BLSPubkey

definition BuilderExitRequest_ty :: ssz_ty where
  "BuilderExitRequest_ty =
     TContainer [ExecutionAddress_ty, BLSPubkey_ty]"

definition BuilderExitRequest_val :: "BuilderExitRequest \<Rightarrow> ssz_val" where
  "BuilderExitRequest_val x =
     VContainer [VBytes (ber_source_address x), VBytes (ber_pubkey x)]"

section \<open>ExecutionRequests (containers/withdrawal.rs)\<close>

record ExecutionRequests =
  er_deposits :: "DepositRequest list"
  er_withdrawals :: "WithdrawalRequest list"
  er_consolidations :: "ConsolidationRequest list"
  er_builder_deposits :: "BuilderDepositRequest list"
  er_builder_exits :: "BuilderExitRequest list"

definition ExecutionRequests_ty :: ssz_ty where
  "ExecutionRequests_ty =
     TContainer [TList DepositRequest_ty MAX_DEPOSIT_REQUESTS_PER_PAYLOAD,
       TList WithdrawalRequest_ty MAX_WITHDRAWAL_REQUESTS_PER_PAYLOAD,
       TList ConsolidationRequest_ty MAX_CONSOLIDATION_REQUESTS_PER_PAYLOAD,
       TList BuilderDepositRequest_ty MAX_BUILDER_DEPOSIT_REQUESTS_PER_PAYLOAD,
       TList BuilderExitRequest_ty MAX_BUILDER_EXIT_REQUESTS_PER_PAYLOAD]"

definition ExecutionRequests_val :: "ExecutionRequests \<Rightarrow> ssz_val" where
  "ExecutionRequests_val x =
     VContainer [VSeq (map DepositRequest_val (er_deposits x)),
       VSeq (map WithdrawalRequest_val (er_withdrawals x)),
       VSeq (map ConsolidationRequest_val (er_consolidations x)),
       VSeq (map BuilderDepositRequest_val (er_builder_deposits x)),
       VSeq (map BuilderExitRequest_val (er_builder_exits x))]"

section \<open>BeaconBlockBody (containers/block.rs)\<close>

record BeaconBlockBody =
  body_randao_reveal :: BLSSignature
  body_eth1_data :: Eth1Data
  body_graffiti :: Bytes32
  body_proposer_slashings :: "ProposerSlashing list"
  body_attester_slashings :: "AttesterSlashing list"
  body_attestations :: "Attestation list"
  body_deposits :: "Deposit list"
  body_voluntary_exits :: "SignedVoluntaryExit list"
  body_sync_aggregate :: SyncAggregate
  body_bls_to_execution_changes :: "SignedBLSToExecutionChange list"
  body_signed_execution_payload_bid :: SignedExecutionPayloadBid
  body_payload_attestations :: "PayloadAttestation list"
  body_parent_execution_requests :: ExecutionRequests

definition BeaconBlockBody_ty :: "preset \<Rightarrow> ssz_ty" where
  "BeaconBlockBody_ty p =
     TContainer [BLSSignature_ty, Eth1Data_ty, Bytes32_ty,
       TList ProposerSlashing_ty MAX_PROPOSER_SLASHINGS,
       TList (AttesterSlashing_ty p) MAX_ATTESTER_SLASHINGS,
       TList (Attestation_ty p) MAX_ATTESTATIONS, TList Deposit_ty MAX_DEPOSITS,
       TList SignedVoluntaryExit_ty MAX_VOLUNTARY_EXITS, SyncAggregate_ty p,
       TList SignedBLSToExecutionChange_ty MAX_BLS_TO_EXECUTION_CHANGES,
       SignedExecutionPayloadBid_ty, TList (PayloadAttestation_ty p) MAX_PAYLOAD_ATTESTATIONS,
       ExecutionRequests_ty]"

definition BeaconBlockBody_val :: "BeaconBlockBody \<Rightarrow> ssz_val" where
  "BeaconBlockBody_val x =
     VContainer [VBytes (body_randao_reveal x), Eth1Data_val (body_eth1_data x),
       VBytes (body_graffiti x), VSeq (map ProposerSlashing_val (body_proposer_slashings x)),
       VSeq (map AttesterSlashing_val (body_attester_slashings x)),
       VSeq (map Attestation_val (body_attestations x)),
       VSeq (map Deposit_val (body_deposits x)),
       VSeq (map SignedVoluntaryExit_val (body_voluntary_exits x)),
       SyncAggregate_val (body_sync_aggregate x),
       VSeq (map SignedBLSToExecutionChange_val (body_bls_to_execution_changes x)),
       SignedExecutionPayloadBid_val (body_signed_execution_payload_bid x),
       VSeq (map PayloadAttestation_val (body_payload_attestations x)),
       ExecutionRequests_val (body_parent_execution_requests x)]"

section \<open>BeaconBlock (containers/block.rs)\<close>

record BeaconBlock =
  blk_slot :: Slot
  blk_proposer_index :: ValidatorIndex
  blk_parent_root :: Root
  blk_state_root :: Root
  blk_body :: BeaconBlockBody

definition BeaconBlock_ty :: "preset \<Rightarrow> ssz_ty" where
  "BeaconBlock_ty p =
     TContainer [Slot_ty, ValidatorIndex_ty, Root_ty, Root_ty, BeaconBlockBody_ty p]"

definition BeaconBlock_val :: "BeaconBlock \<Rightarrow> ssz_val" where
  "BeaconBlock_val x =
     VContainer [VUint (blk_slot x), VUint (blk_proposer_index x), VBytes (blk_parent_root x),
       VBytes (blk_state_root x), BeaconBlockBody_val (blk_body x)]"

section \<open>SignedBeaconBlock (containers/block.rs)\<close>

record SignedBeaconBlock =
  sblk_message :: BeaconBlock
  sblk_signature :: BLSSignature

definition SignedBeaconBlock_ty :: "preset \<Rightarrow> ssz_ty" where
  "SignedBeaconBlock_ty p =
     TContainer [BeaconBlock_ty p, BLSSignature_ty]"

definition SignedBeaconBlock_val :: "SignedBeaconBlock \<Rightarrow> ssz_val" where
  "SignedBeaconBlock_val x =
     VContainer [BeaconBlock_val (sblk_message x), VBytes (sblk_signature x)]"

section \<open>Builder (containers/builder.rs)\<close>

record Builder =
  bld_pubkey :: BLSPubkey
  bld_version :: byte
  bld_execution_address :: ExecutionAddress
  bld_balance :: Gwei
  bld_deposit_epoch :: Epoch
  bld_withdrawable_epoch :: Epoch

definition Builder_ty :: ssz_ty where
  "Builder_ty =
     TContainer [BLSPubkey_ty, TUint 1, ExecutionAddress_ty, Gwei_ty, Epoch_ty, Epoch_ty]"

definition Builder_val :: "Builder \<Rightarrow> ssz_val" where
  "Builder_val x =
     VContainer [VBytes (bld_pubkey x), VUint (unat (bld_version x)),
       VBytes (bld_execution_address x), VUint (bld_balance x), VUint (bld_deposit_epoch x),
       VUint (bld_withdrawable_epoch x)]"

section \<open>BuilderPendingWithdrawal (containers/builder.rs)\<close>

record BuilderPendingWithdrawal =
  bpw_fee_recipient :: ExecutionAddress
  bpw_amount :: Gwei
  bpw_builder_index :: BuilderIndex

definition BuilderPendingWithdrawal_ty :: ssz_ty where
  "BuilderPendingWithdrawal_ty =
     TContainer [ExecutionAddress_ty, Gwei_ty, BuilderIndex_ty]"

definition BuilderPendingWithdrawal_val :: "BuilderPendingWithdrawal \<Rightarrow> ssz_val" where
  "BuilderPendingWithdrawal_val x =
     VContainer [VBytes (bpw_fee_recipient x), VUint (bpw_amount x), VUint (bpw_builder_index x)]"

section \<open>BuilderPendingPayment (containers/builder.rs)\<close>

record BuilderPendingPayment =
  bpp_weight :: Gwei
  bpp_withdrawal :: BuilderPendingWithdrawal
  bpp_proposer_index :: ValidatorIndex

definition BuilderPendingPayment_ty :: ssz_ty where
  "BuilderPendingPayment_ty =
     TContainer [Gwei_ty, BuilderPendingWithdrawal_ty, ValidatorIndex_ty]"

definition BuilderPendingPayment_val :: "BuilderPendingPayment \<Rightarrow> ssz_val" where
  "BuilderPendingPayment_val x =
     VContainer [VUint (bpp_weight x), BuilderPendingWithdrawal_val (bpp_withdrawal x),
       VUint (bpp_proposer_index x)]"

section \<open>PayloadAttestationMessage (containers/builder.rs)\<close>

record PayloadAttestationMessage =
  pam_validator_index :: ValidatorIndex
  pam_data :: PayloadAttestationData
  pam_signature :: BLSSignature

definition PayloadAttestationMessage_ty :: ssz_ty where
  "PayloadAttestationMessage_ty =
     TContainer [ValidatorIndex_ty, PayloadAttestationData_ty, BLSSignature_ty]"

section \<open>IndexedPayloadAttestation (containers/builder.rs)\<close>

record IndexedPayloadAttestation =
  ipa_attesting_indices :: "ValidatorIndex list"
  ipa_data :: PayloadAttestationData
  ipa_signature :: BLSSignature

definition IndexedPayloadAttestation_ty :: "preset \<Rightarrow> ssz_ty" where
  "IndexedPayloadAttestation_ty p =
     TContainer [TList ValidatorIndex_ty (PTC_SIZE p), PayloadAttestationData_ty, BLSSignature_ty]"

definition IndexedPayloadAttestation_val :: "IndexedPayloadAttestation \<Rightarrow> ssz_val" where
  "IndexedPayloadAttestation_val x =
     VContainer [VSeq (map VUint (ipa_attesting_indices x)),
       PayloadAttestationData_val (ipa_data x), VBytes (ipa_signature x)]"

section \<open>BlobParameters (containers/chain.rs)\<close>

record BlobParameters =
  bp_epoch :: Epoch
  bp_max_blobs_per_block :: u64

definition BlobParameters_ty :: ssz_ty where
  "BlobParameters_ty =
     TContainer [Epoch_ty, TUint 8]"

section \<open>Fork (containers/chain.rs)\<close>

record Fork =
  fork_previous_version :: Version
  fork_current_version :: Version
  fork_epoch :: Epoch

definition Fork_ty :: ssz_ty where
  "Fork_ty =
     TContainer [Version_ty, Version_ty, Epoch_ty]"

definition Fork_val :: "Fork \<Rightarrow> ssz_val" where
  "Fork_val x =
     VContainer [VBytes (fork_previous_version x), VBytes (fork_current_version x),
       VUint (fork_epoch x)]"

section \<open>ForkData (containers/chain.rs)\<close>

record ForkData =
  fd_current_version :: Version
  fd_genesis_validators_root :: Root

definition ForkData_ty :: ssz_ty where
  "ForkData_ty =
     TContainer [Version_ty, Root_ty]"

definition ForkData_val :: "ForkData \<Rightarrow> ssz_val" where
  "ForkData_val x =
     VContainer [VBytes (fd_current_version x), VBytes (fd_genesis_validators_root x)]"

section \<open>HistoricalSummary (containers/chain.rs)\<close>

record HistoricalSummary =
  hs_block_summary_root :: Root
  hs_state_summary_root :: Root

definition HistoricalSummary_ty :: ssz_ty where
  "HistoricalSummary_ty =
     TContainer [Root_ty, Root_ty]"

definition HistoricalSummary_val :: "HistoricalSummary \<Rightarrow> ssz_val" where
  "HistoricalSummary_val x =
     VContainer [VBytes (hs_block_summary_root x), VBytes (hs_state_summary_root x)]"

section \<open>SigningData (containers/chain.rs)\<close>

record SigningData =
  sd_object_root :: Root
  sd_domain :: Domain

definition SigningData_ty :: ssz_ty where
  "SigningData_ty =
     TContainer [Root_ty, Domain_ty]"

definition SigningData_val :: "SigningData \<Rightarrow> ssz_val" where
  "SigningData_val x =
     VContainer [VBytes (sd_object_root x), VBytes (sd_domain x)]"

section \<open>DataColumnSidecar (containers/data_availability.rs)\<close>

record DataColumnSidecar =
  dcs_index :: ColumnIndex
  dcs_column :: "Cell list"
  dcs_kzg_proofs :: "KZGProof list"
  dcs_slot :: Slot
  dcs_beacon_block_root :: Root

definition DataColumnSidecar_ty :: ssz_ty where
  "DataColumnSidecar_ty =
     TContainer [ColumnIndex_ty, TList Cell_ty MAX_BLOB_COMMITMENTS_PER_BLOCK,
       TList KZGProof_ty MAX_BLOB_COMMITMENTS_PER_BLOCK, Slot_ty, Root_ty]"

section \<open>DataColumnsByRootIdentifier (containers/data_availability.rs)\<close>

record DataColumnsByRootIdentifier =
  dcri_block_root :: Root
  dcri_columns :: "ColumnIndex list"

definition DataColumnsByRootIdentifier_ty :: ssz_ty where
  "DataColumnsByRootIdentifier_ty =
     TContainer [Root_ty, TList ColumnIndex_ty NUMBER_OF_COLUMNS]"

section \<open>MatrixEntry (containers/data_availability.rs)\<close>

record MatrixEntry =
  me_cell :: Cell
  me_kzg_proof :: KZGProof
  me_column_index :: ColumnIndex
  me_row_index :: RowIndex

definition MatrixEntry_ty :: ssz_ty where
  "MatrixEntry_ty =
     TContainer [Cell_ty, KZGProof_ty, ColumnIndex_ty, RowIndex_ty]"

section \<open>PartialDataColumnSidecar (containers/data_availability.rs)\<close>

record PartialDataColumnSidecar =
  pdcs_cells_present_bitmap :: "bool list"
  pdcs_partial_column :: "Cell list"
  pdcs_kzg_proofs :: "KZGProof list"

definition PartialDataColumnSidecar_ty :: ssz_ty where
  "PartialDataColumnSidecar_ty =
     TContainer [TBitlist MAX_BLOB_COMMITMENTS_PER_BLOCK,
       TList Cell_ty MAX_BLOB_COMMITMENTS_PER_BLOCK,
       TList KZGProof_ty MAX_BLOB_COMMITMENTS_PER_BLOCK]"

section \<open>PartialDataColumnGroupID (containers/data_availability.rs)\<close>

record PartialDataColumnGroupID =
  pdcg_slot :: Slot
  pdcg_beacon_block_root :: Root

definition PartialDataColumnGroupID_ty :: ssz_ty where
  "PartialDataColumnGroupID_ty =
     TContainer [Slot_ty, Root_ty]"

section \<open>PowBlock (containers/execution.rs)\<close>

record PowBlock =
  pow_block_hash :: Hash32
  pow_parent_hash :: Hash32
  pow_total_difficulty :: bytes

definition PowBlock_ty :: ssz_ty where
  "PowBlock_ty =
     TContainer [Hash32_ty, Hash32_ty, Uint256_ty]"

section \<open>Withdrawal (containers/withdrawal.rs)\<close>

record Withdrawal =
  wd_index :: WithdrawalIndex
  wd_validator_index :: ValidatorIndex
  wd_address :: ExecutionAddress
  wd_amount :: Gwei

definition Withdrawal_ty :: ssz_ty where
  "Withdrawal_ty =
     TContainer [WithdrawalIndex_ty, ValidatorIndex_ty, ExecutionAddress_ty, Gwei_ty]"

definition Withdrawal_val :: "Withdrawal \<Rightarrow> ssz_val" where
  "Withdrawal_val x =
     VContainer [VUint (wd_index x), VUint (wd_validator_index x), VBytes (wd_address x),
       VUint (wd_amount x)]"

section \<open>ExecutionPayload (containers/execution.rs)\<close>

record ExecutionPayload =
  ep_parent_hash :: Hash32
  ep_fee_recipient :: ExecutionAddress
  ep_state_root :: Bytes32
  ep_receipts_root :: Bytes32
  ep_logs_bloom :: "byte list"
  ep_prev_randao :: Bytes32
  ep_block_number :: u64
  ep_gas_limit :: u64
  ep_gas_used :: u64
  ep_timestamp :: u64
  ep_extra_data :: "byte list"
  ep_base_fee_per_gas :: bytes
  ep_block_hash :: Hash32
  ep_transactions :: "byte list list"
  ep_withdrawals :: "Withdrawal list"
  ep_blob_gas_used :: u64
  ep_excess_blob_gas :: u64
  ep_block_access_list :: "byte list"
  ep_slot_number :: u64

definition ExecutionPayload_ty :: "preset \<Rightarrow> ssz_ty" where
  "ExecutionPayload_ty p =
     TContainer [Hash32_ty, ExecutionAddress_ty, Bytes32_ty, Bytes32_ty,
       TVector (TUint 1) BYTES_PER_LOGS_BLOOM, Bytes32_ty, TUint 8, TUint 8, TUint 8, TUint 8,
       TList (TUint 1) MAX_EXTRA_DATA_BYTES, Uint256_ty, Hash32_ty,
       TList (TList (TUint 1) MAX_BYTES_PER_TRANSACTION) MAX_TRANSACTIONS_PER_PAYLOAD,
       TList Withdrawal_ty (MAX_WITHDRAWALS_PER_PAYLOAD p), TUint 8, TUint 8,
       TList (TUint 1) MAX_BYTES_PER_TRANSACTION, TUint 8]"

definition ExecutionPayload_val :: "ExecutionPayload \<Rightarrow> ssz_val" where
  "ExecutionPayload_val x =
     VContainer [VBytes (ep_parent_hash x), VBytes (ep_fee_recipient x), VBytes (ep_state_root x),
       VBytes (ep_receipts_root x), VSeq (map (\<lambda>b. VUint (unat b)) (ep_logs_bloom x)),
       VBytes (ep_prev_randao x), VUint (ep_block_number x), VUint (ep_gas_limit x),
       VUint (ep_gas_used x), VUint (ep_timestamp x),
       VSeq (map (\<lambda>b. VUint (unat b)) (ep_extra_data x)),
       VBytes (ep_base_fee_per_gas x), VBytes (ep_block_hash x),
       VSeq (map (\<lambda>xs. VSeq (map (\<lambda>b. VUint (unat b)) xs)) (ep_transactions x)),
       VSeq (map Withdrawal_val (ep_withdrawals x)), VUint (ep_blob_gas_used x),
       VUint (ep_excess_blob_gas x),
       VSeq (map (\<lambda>b. VUint (unat b)) (ep_block_access_list x)),
       VUint (ep_slot_number x)]"

section \<open>ExecutionPayloadEnvelope (containers/execution.rs)\<close>

record ExecutionPayloadEnvelope =
  env_payload :: ExecutionPayload
  env_execution_requests :: ExecutionRequests
  env_builder_index :: BuilderIndex
  env_beacon_block_root :: Root
  env_parent_beacon_block_root :: Root

definition ExecutionPayloadEnvelope_ty :: "preset \<Rightarrow> ssz_ty" where
  "ExecutionPayloadEnvelope_ty p =
     TContainer [ExecutionPayload_ty p, ExecutionRequests_ty, BuilderIndex_ty, Root_ty, Root_ty]"

definition ExecutionPayloadEnvelope_val :: "ExecutionPayloadEnvelope \<Rightarrow> ssz_val" where
  "ExecutionPayloadEnvelope_val x =
     VContainer [ExecutionPayload_val (env_payload x),
       ExecutionRequests_val (env_execution_requests x), VUint (env_builder_index x),
       VBytes (env_beacon_block_root x), VBytes (env_parent_beacon_block_root x)]"

section \<open>SignedExecutionPayloadEnvelope (containers/execution.rs)\<close>

record SignedExecutionPayloadEnvelope =
  senv_message :: ExecutionPayloadEnvelope
  senv_signature :: BLSSignature

definition SignedExecutionPayloadEnvelope_ty :: "preset \<Rightarrow> ssz_ty" where
  "SignedExecutionPayloadEnvelope_ty p =
     TContainer [ExecutionPayloadEnvelope_ty p, BLSSignature_ty]"

definition SignedExecutionPayloadEnvelope_val :: "SignedExecutionPayloadEnvelope \<Rightarrow> ssz_val" where
  "SignedExecutionPayloadEnvelope_val x =
     VContainer [ExecutionPayloadEnvelope_val (senv_message x), VBytes (senv_signature x)]"

section \<open>ProposerPreferences (containers/gossip.rs)\<close>

record ProposerPreferences =
  pp_dependent_root :: Root
  pp_proposal_slot :: Slot
  pp_validator_index :: ValidatorIndex
  pp_fee_recipient :: ExecutionAddress
  pp_target_gas_limit :: u64

definition ProposerPreferences_ty :: ssz_ty where
  "ProposerPreferences_ty =
     TContainer [Root_ty, Slot_ty, ValidatorIndex_ty, ExecutionAddress_ty, TUint 8]"

section \<open>SignedProposerPreferences (containers/gossip.rs)\<close>

record SignedProposerPreferences =
  spp_message :: ProposerPreferences
  spp_signature :: BLSSignature

definition SignedProposerPreferences_ty :: ssz_ty where
  "SignedProposerPreferences_ty =
     TContainer [ProposerPreferences_ty, BLSSignature_ty]"

section \<open>Validator (containers/validator.rs)\<close>

record Validator =
  v_pubkey :: BLSPubkey
  v_withdrawal_credentials :: Bytes32
  v_effective_balance :: Gwei
  v_slashed :: bool
  v_activation_eligibility_epoch :: Epoch
  v_activation_epoch :: Epoch
  v_exit_epoch :: Epoch
  v_withdrawable_epoch :: Epoch

definition Validator_ty :: ssz_ty where
  "Validator_ty =
     TContainer [BLSPubkey_ty, Bytes32_ty, Gwei_ty, TBool, Epoch_ty, Epoch_ty, Epoch_ty, Epoch_ty]"

definition Validator_val :: "Validator \<Rightarrow> ssz_val" where
  "Validator_val x =
     VContainer [VBytes (v_pubkey x), VBytes (v_withdrawal_credentials x),
       VUint (v_effective_balance x), VBool (v_slashed x),
       VUint (v_activation_eligibility_epoch x), VUint (v_activation_epoch x),
       VUint (v_exit_epoch x), VUint (v_withdrawable_epoch x)]"

section \<open>SyncCommittee (containers/sync.rs)\<close>

record SyncCommittee =
  sc_pubkeys :: "BLSPubkey list"
  sc_aggregate_pubkey :: BLSPubkey

definition SyncCommittee_ty :: "preset \<Rightarrow> ssz_ty" where
  "SyncCommittee_ty p =
     TContainer [TVector BLSPubkey_ty (SYNC_COMMITTEE_SIZE p), BLSPubkey_ty]"

definition SyncCommittee_val :: "SyncCommittee \<Rightarrow> ssz_val" where
  "SyncCommittee_val x =
     VContainer [VSeq (map VBytes (sc_pubkeys x)), VBytes (sc_aggregate_pubkey x)]"

section \<open>PendingDeposit (containers/validator.rs)\<close>

record PendingDeposit =
  pd_pubkey :: BLSPubkey
  pd_withdrawal_credentials :: Bytes32
  pd_amount :: Gwei
  pd_signature :: BLSSignature
  pd_slot :: Slot

definition PendingDeposit_ty :: ssz_ty where
  "PendingDeposit_ty =
     TContainer [BLSPubkey_ty, Bytes32_ty, Gwei_ty, BLSSignature_ty, Slot_ty]"

definition PendingDeposit_val :: "PendingDeposit \<Rightarrow> ssz_val" where
  "PendingDeposit_val x =
     VContainer [VBytes (pd_pubkey x), VBytes (pd_withdrawal_credentials x), VUint (pd_amount x),
       VBytes (pd_signature x), VUint (pd_slot x)]"

section \<open>PendingPartialWithdrawal (containers/validator.rs)\<close>

record PendingPartialWithdrawal =
  ppw_validator_index :: ValidatorIndex
  ppw_amount :: Gwei
  ppw_withdrawable_epoch :: Epoch

definition PendingPartialWithdrawal_ty :: ssz_ty where
  "PendingPartialWithdrawal_ty =
     TContainer [ValidatorIndex_ty, Gwei_ty, Epoch_ty]"

definition PendingPartialWithdrawal_val :: "PendingPartialWithdrawal \<Rightarrow> ssz_val" where
  "PendingPartialWithdrawal_val x =
     VContainer [VUint (ppw_validator_index x), VUint (ppw_amount x),
       VUint (ppw_withdrawable_epoch x)]"

section \<open>PendingConsolidation (containers/validator.rs)\<close>

record PendingConsolidation =
  pc_source_index :: ValidatorIndex
  pc_target_index :: ValidatorIndex

definition PendingConsolidation_ty :: ssz_ty where
  "PendingConsolidation_ty =
     TContainer [ValidatorIndex_ty, ValidatorIndex_ty]"

definition PendingConsolidation_val :: "PendingConsolidation \<Rightarrow> ssz_val" where
  "PendingConsolidation_val x =
     VContainer [VUint (pc_source_index x), VUint (pc_target_index x)]"

section \<open>SyncCommitteeMessage (containers/sync.rs)\<close>

record SyncCommitteeMessage =
  scm_slot :: Slot
  scm_beacon_block_root :: Root
  scm_validator_index :: ValidatorIndex
  scm_signature :: BLSSignature

definition SyncCommitteeMessage_ty :: ssz_ty where
  "SyncCommitteeMessage_ty =
     TContainer [Slot_ty, Root_ty, ValidatorIndex_ty, BLSSignature_ty]"

section \<open>SyncCommitteeContribution (containers/sync.rs)\<close>

record SyncCommitteeContribution =
  scc_slot :: Slot
  scc_beacon_block_root :: Root
  scc_subcommittee_index :: u64
  scc_aggregation_bits :: "bool list"
  scc_signature :: BLSSignature

definition SyncCommitteeContribution_ty :: "preset \<Rightarrow> ssz_ty" where
  "SyncCommitteeContribution_ty p =
     TContainer [Slot_ty, Root_ty, TUint 8,
       TBitvector (SYNC_COMMITTEE_SIZE p div SYNC_COMMITTEE_SUBNET_COUNT), BLSSignature_ty]"

section \<open>ContributionAndProof (containers/sync.rs)\<close>

record ContributionAndProof =
  cap_aggregator_index :: ValidatorIndex
  cap_contribution :: SyncCommitteeContribution
  cap_selection_proof :: BLSSignature

definition ContributionAndProof_ty :: "preset \<Rightarrow> ssz_ty" where
  "ContributionAndProof_ty p =
     TContainer [ValidatorIndex_ty, SyncCommitteeContribution_ty p, BLSSignature_ty]"

section \<open>SignedContributionAndProof (containers/sync.rs)\<close>

record SignedContributionAndProof =
  scap_message :: ContributionAndProof
  scap_signature :: BLSSignature

definition SignedContributionAndProof_ty :: "preset \<Rightarrow> ssz_ty" where
  "SignedContributionAndProof_ty p =
     TContainer [ContributionAndProof_ty p, BLSSignature_ty]"

section \<open>SyncAggregatorSelectionData (containers/sync.rs)\<close>

record SyncAggregatorSelectionData =
  sasd_slot :: Slot
  sasd_subcommittee_index :: u64

definition SyncAggregatorSelectionData_ty :: ssz_ty where
  "SyncAggregatorSelectionData_ty =
     TContainer [Slot_ty, TUint 8]"

section \<open>DepositMessage (containers/withdrawal.rs)\<close>

record DepositMessage =
  dm_pubkey :: BLSPubkey
  dm_withdrawal_credentials :: Bytes32
  dm_amount :: Gwei

definition DepositMessage_ty :: ssz_ty where
  "DepositMessage_ty =
     TContainer [BLSPubkey_ty, Bytes32_ty, Gwei_ty]"

definition DepositMessage_val :: "DepositMessage \<Rightarrow> ssz_val" where
  "DepositMessage_val x =
     VContainer [VBytes (dm_pubkey x), VBytes (dm_withdrawal_credentials x), VUint (dm_amount x)]"

section \<open>BeaconState (containers/state.rs)\<close>

record BeaconState =
  genesis_time :: u64
  genesis_validators_root :: Root
  slot :: Slot
  fork :: Fork
  latest_block_header :: BeaconBlockHeader
  block_roots :: "Root list"
  state_roots :: "Root list"
  historical_roots :: "Root list"
  eth1_data :: Eth1Data
  eth1_data_votes :: "Eth1Data list"
  eth1_deposit_index :: u64
  validators :: "Validator list"
  balances :: "Gwei list"
  randao_mixes :: "Bytes32 list"
  slashings :: "Gwei list"
  previous_epoch_participation :: "byte list"
  current_epoch_participation :: "byte list"
  justification_bits :: "bool list"
  previous_justified_checkpoint :: Checkpoint
  current_justified_checkpoint :: Checkpoint
  finalized_checkpoint :: Checkpoint
  inactivity_scores :: "u64 list"
  current_sync_committee :: SyncCommittee
  next_sync_committee :: SyncCommittee
  latest_block_hash :: Hash32
  next_withdrawal_index :: WithdrawalIndex
  next_withdrawal_validator_index :: ValidatorIndex
  historical_summaries :: "HistoricalSummary list"
  deposit_requests_start_index :: u64
  deposit_balance_to_consume :: Gwei
  exit_balance_to_consume :: Gwei
  earliest_exit_epoch :: Epoch
  consolidation_balance_to_consume :: Gwei
  earliest_consolidation_epoch :: Epoch
  pending_deposits :: "PendingDeposit list"
  pending_partial_withdrawals :: "PendingPartialWithdrawal list"
  pending_consolidations :: "PendingConsolidation list"
  proposer_lookahead :: "ValidatorIndex list"
  builders :: "Builder list"
  next_withdrawal_builder_index :: BuilderIndex
  execution_payload_availability :: "bool list"
  builder_pending_payments :: "BuilderPendingPayment list"
  builder_pending_withdrawals :: "BuilderPendingWithdrawal list"
  latest_execution_payload_bid :: ExecutionPayloadBid
  payload_expected_withdrawals :: "Withdrawal list"
  ptc_window :: "ValidatorIndex list list"

definition BeaconState_ty :: "preset \<Rightarrow> ssz_ty" where
  "BeaconState_ty p =
     TContainer [TUint 8, Root_ty, Slot_ty, Fork_ty, BeaconBlockHeader_ty,
       TVector Root_ty (SLOTS_PER_HISTORICAL_ROOT p),
       TVector Root_ty (SLOTS_PER_HISTORICAL_ROOT p), TList Root_ty HISTORICAL_ROOTS_LIMIT,
       Eth1Data_ty, TList Eth1Data_ty (ETH1_DATA_VOTES_LEN p), TUint 8,
       TList Validator_ty VALIDATOR_REGISTRY_LIMIT, TList Gwei_ty VALIDATOR_REGISTRY_LIMIT,
       TVector Bytes32_ty (EPOCHS_PER_HISTORICAL_VECTOR p),
       TVector Gwei_ty (EPOCHS_PER_SLASHINGS_VECTOR p),
       TList ParticipationFlags_ty VALIDATOR_REGISTRY_LIMIT,
       TList ParticipationFlags_ty VALIDATOR_REGISTRY_LIMIT,
       TBitvector JUSTIFICATION_BITS_LENGTH, Checkpoint_ty, Checkpoint_ty, Checkpoint_ty,
       TList (TUint 8) VALIDATOR_REGISTRY_LIMIT, SyncCommittee_ty p, SyncCommittee_ty p,
       Hash32_ty, WithdrawalIndex_ty, ValidatorIndex_ty,
       TList HistoricalSummary_ty HISTORICAL_ROOTS_LIMIT, TUint 8, Gwei_ty, Gwei_ty, Epoch_ty,
       Gwei_ty, Epoch_ty, TList PendingDeposit_ty PENDING_DEPOSITS_LIMIT,
       TList PendingPartialWithdrawal_ty (PENDING_PARTIAL_WITHDRAWALS_LIMIT p),
       TList PendingConsolidation_ty (PENDING_CONSOLIDATIONS_LIMIT p),
       TVector ValidatorIndex_ty (PROPOSER_LOOKAHEAD_LEN p),
       TList Builder_ty BUILDER_REGISTRY_LIMIT, BuilderIndex_ty,
       TBitvector (SLOTS_PER_HISTORICAL_ROOT p),
       TVector BuilderPendingPayment_ty (BUILDER_PAYMENT_WINDOW_LEN p),
       TList BuilderPendingWithdrawal_ty BUILDER_PENDING_WITHDRAWALS_LIMIT,
       ExecutionPayloadBid_ty, TList Withdrawal_ty (MAX_WITHDRAWALS_PER_PAYLOAD p),
       TVector (TVector ValidatorIndex_ty (PTC_SIZE p)) (PTC_WINDOW_LEN p)]"

definition BeaconState_val :: "BeaconState \<Rightarrow> ssz_val" where
  "BeaconState_val x =
     VContainer [VUint (genesis_time x), VBytes (genesis_validators_root x), VUint (slot x),
       Fork_val (fork x), BeaconBlockHeader_val (latest_block_header x),
       VSeq (map VBytes (block_roots x)), VSeq (map VBytes (state_roots x)),
       VSeq (map VBytes (historical_roots x)), Eth1Data_val (eth1_data x),
       VSeq (map Eth1Data_val (eth1_data_votes x)), VUint (eth1_deposit_index x),
       VSeq (map Validator_val (validators x)), VSeq (map VUint (balances x)),
       VSeq (map VBytes (randao_mixes x)), VSeq (map VUint (slashings x)),
       VSeq (map (\<lambda>b. VUint (unat b)) (previous_epoch_participation x)),
       VSeq (map (\<lambda>b. VUint (unat b)) (current_epoch_participation x)),
       VBits (justification_bits x), Checkpoint_val (previous_justified_checkpoint x),
       Checkpoint_val (current_justified_checkpoint x),
       Checkpoint_val (finalized_checkpoint x), VSeq (map VUint (inactivity_scores x)),
       SyncCommittee_val (current_sync_committee x),
       SyncCommittee_val (next_sync_committee x), VBytes (latest_block_hash x),
       VUint (next_withdrawal_index x), VUint (next_withdrawal_validator_index x),
       VSeq (map HistoricalSummary_val (historical_summaries x)),
       VUint (deposit_requests_start_index x), VUint (deposit_balance_to_consume x),
       VUint (exit_balance_to_consume x), VUint (earliest_exit_epoch x),
       VUint (consolidation_balance_to_consume x), VUint (earliest_consolidation_epoch x),
       VSeq (map PendingDeposit_val (pending_deposits x)),
       VSeq (map PendingPartialWithdrawal_val (pending_partial_withdrawals x)),
       VSeq (map PendingConsolidation_val (pending_consolidations x)),
       VSeq (map VUint (proposer_lookahead x)), VSeq (map Builder_val (builders x)),
       VUint (next_withdrawal_builder_index x), VBits (execution_payload_availability x),
       VSeq (map BuilderPendingPayment_val (builder_pending_payments x)),
       VSeq (map BuilderPendingWithdrawal_val (builder_pending_withdrawals x)),
       ExecutionPayloadBid_val (latest_execution_payload_bid x),
       VSeq (map Withdrawal_val (payload_expected_withdrawals x)),
       VSeq (map (\<lambda>xs. VSeq (map VUint xs)) (ptc_window x))]"

section \<open>All containers\<close>

definition container_types :: "preset \<Rightarrow> ssz_ty list" where
  "container_types p =
     [Checkpoint_ty, AttestationData_ty, IndexedAttestation_ty p, Attestation_ty p,
      SingleAttestation_ty, AggregateAndProof_ty p, SignedAggregateAndProof_ty p,
      AttesterSlashing_ty p, BeaconBlockHeader_ty, SignedBeaconBlockHeader_ty,
      ProposerSlashing_ty, Eth1Data_ty, DepositData_ty, Deposit_ty, VoluntaryExit_ty,
      SignedVoluntaryExit_ty, SyncAggregate_ty p, BLSToExecutionChange_ty,
      SignedBLSToExecutionChange_ty, ExecutionPayloadBid_ty, SignedExecutionPayloadBid_ty,
      PayloadAttestationData_ty, PayloadAttestation_ty p, DepositRequest_ty,
      WithdrawalRequest_ty, ConsolidationRequest_ty, BuilderDepositRequest_ty,
      BuilderExitRequest_ty, ExecutionRequests_ty, BeaconBlockBody_ty p, BeaconBlock_ty p,
      SignedBeaconBlock_ty p, Builder_ty, BuilderPendingWithdrawal_ty,
      BuilderPendingPayment_ty, PayloadAttestationMessage_ty, IndexedPayloadAttestation_ty p,
      BlobParameters_ty, Fork_ty, ForkData_ty, HistoricalSummary_ty, SigningData_ty,
      DataColumnSidecar_ty, DataColumnsByRootIdentifier_ty, MatrixEntry_ty,
      PartialDataColumnSidecar_ty, PartialDataColumnGroupID_ty, PowBlock_ty, Withdrawal_ty,
      ExecutionPayload_ty p, ExecutionPayloadEnvelope_ty p,
      SignedExecutionPayloadEnvelope_ty p, ProposerPreferences_ty,
      SignedProposerPreferences_ty, Validator_ty, SyncCommittee_ty p, PendingDeposit_ty,
      PendingPartialWithdrawal_ty, PendingConsolidation_ty, SyncCommitteeMessage_ty,
      SyncCommitteeContribution_ty p, ContributionAndProof_ty p,
      SignedContributionAndProof_ty p, SyncAggregatorSelectionData_ty, DepositMessage_ty,
      BeaconState_ty p]"

lemmas schema_defs =
  Checkpoint_ty_def AttestationData_ty_def IndexedAttestation_ty_def Attestation_ty_def
  SingleAttestation_ty_def AggregateAndProof_ty_def SignedAggregateAndProof_ty_def
  AttesterSlashing_ty_def BeaconBlockHeader_ty_def SignedBeaconBlockHeader_ty_def
  ProposerSlashing_ty_def Eth1Data_ty_def DepositData_ty_def Deposit_ty_def
  VoluntaryExit_ty_def SignedVoluntaryExit_ty_def SyncAggregate_ty_def
  BLSToExecutionChange_ty_def SignedBLSToExecutionChange_ty_def ExecutionPayloadBid_ty_def
  SignedExecutionPayloadBid_ty_def PayloadAttestationData_ty_def PayloadAttestation_ty_def
  DepositRequest_ty_def WithdrawalRequest_ty_def ConsolidationRequest_ty_def
  BuilderDepositRequest_ty_def BuilderExitRequest_ty_def ExecutionRequests_ty_def
  BeaconBlockBody_ty_def BeaconBlock_ty_def SignedBeaconBlock_ty_def Builder_ty_def
  BuilderPendingWithdrawal_ty_def BuilderPendingPayment_ty_def PayloadAttestationMessage_ty_def
  IndexedPayloadAttestation_ty_def BlobParameters_ty_def Fork_ty_def ForkData_ty_def
  HistoricalSummary_ty_def SigningData_ty_def DataColumnSidecar_ty_def
  DataColumnsByRootIdentifier_ty_def MatrixEntry_ty_def PartialDataColumnSidecar_ty_def
  PartialDataColumnGroupID_ty_def PowBlock_ty_def Withdrawal_ty_def ExecutionPayload_ty_def
  ExecutionPayloadEnvelope_ty_def SignedExecutionPayloadEnvelope_ty_def
  ProposerPreferences_ty_def SignedProposerPreferences_ty_def Validator_ty_def
  SyncCommittee_ty_def PendingDeposit_ty_def PendingPartialWithdrawal_ty_def
  PendingConsolidation_ty_def SyncCommitteeMessage_ty_def SyncCommitteeContribution_ty_def
  ContributionAndProof_ty_def SignedContributionAndProof_ty_def
  SyncAggregatorSelectionData_ty_def DepositMessage_ty_def BeaconState_ty_def

end
