(* ===== verification/Container_Laws.thy ===== *)
theory Container_Laws
  imports Containers
begin

text \<open>
  Every container of the protocol is a well-formed SSZ type within the bounds of merkleization, for
  both presets; hence the codec and root theorems apply to all of them.
\<close>

lemmas schema_eval = container_types_def schema_defs primitive_ty_defs const_defs
  container_size_hint_def field_layout_def bitfield_byte_len_def div_ceil_def u64_max_def
  BYTES_PER_LENGTH_OFFSET_def

lemma container_types_ok: "list_all (\<lambda>t. wf_ty t \<and> merkle_ok t) (container_types p)"
  by (cases p) (simp_all add: schema_eval)

lemma container_ty_ok: "t \<in> set (container_types p) \<Longrightarrow> wf_ty t \<and> merkle_ok t"
  using container_types_ok [of p] by (simp add: list_all_iff)

interpretation checkpoint_ssz: item_codec "is_variable_size Checkpoint_ty" "size_hint Checkpoint_ty"
    "serialize Checkpoint_ty" "deserialize Checkpoint_ty" "well_typed Checkpoint_ty"
  by (rule ssz_codec) (simp add: schema_defs primitive_ty_defs)



end
