(* ===== verification/Runtime.thy ===== *)
theory Runtime
  imports Container_Laws
begin

text \<open>
  How the state transition runs: a call returns its value, fails with a \<open>TransitionError\<close>, or panics
  (an index out of bounds, a division by zero, an overflow of an unchecked operator). Panics are
  values of the model, so that their absence can be stated and proved. The theory also holds the
  bounded-list operations of \<open>ssz/list.rs\<close>, the external functions as a record of parameters, and a
  weakest-precondition calculus: \<open>safe m Q\<close> says that \<open>m\<close> does not panic and that its value, if it
  returns one, satisfies \<open>Q\<close>.
\<close>

named_theorems safe_simps \<open>weakest preconditions of the primitive operations\<close>

section \<open>Outcomes\<close>

datatype failure = Err TransitionError | Panic

type_synonym 'a tres = "(failure, 'a) res"

text \<open>\<open>return Err(e)\<close>, \<open>if b { return Err(e) }\<close> and \<open>ok_or(e)?\<close>.\<close>

abbreviation fail :: "TransitionError \<Rightarrow> 'a tres" where
  "fail e \<equiv> Inl (Err e)"

definition reject :: "bool \<Rightarrow> TransitionError \<Rightarrow> unit tres" where
  "reject b e = failIf b (Err e)"

definition or_err :: "'a option \<Rightarrow> TransitionError \<Rightarrow> 'a tres" where
  "or_err x e = ok_or x (Err e)"

text \<open>Operations that panic: slice indexing, assignment to an element, unchecked arithmetic.\<close>

definition idx :: "'a list \<Rightarrow> usize \<Rightarrow> 'a tres" where
  "idx xs i = (if i < length xs then Inr (xs ! i) else Inl Panic)"

definition idx_set :: "'a list \<Rightarrow> usize \<Rightarrow> 'a \<Rightarrow> 'a list tres" where
  "idx_set xs i v = (if i < length xs then Inr (xs[i := v]) else Inl Panic)"

definition u_add :: "u64 \<Rightarrow> u64 \<Rightarrow> u64 tres" where
  "u_add a b = (if a + b \<le> u64_max then Inr (a + b) else Inl Panic)"

definition u_sub :: "u64 \<Rightarrow> u64 \<Rightarrow> u64 tres" where
  "u_sub a b = (if b \<le> a then Inr (a - b) else Inl Panic)"

definition u_mul :: "u64 \<Rightarrow> u64 \<Rightarrow> u64 tres" where
  "u_mul a b = (if a * b \<le> u64_max then Inr (a * b) else Inl Panic)"

definition u_div :: "u64 \<Rightarrow> u64 \<Rightarrow> u64 tres" where
  "u_div a b = (if b = 0 then Inl Panic else Inr (a div b))"

text \<open>\<open>slice.get(i)\<close>, \<open>iter().position(p)\<close>, \<open>List::push\<close>, \<open>List::try_from\<close>, \<open>Bitvector::set\<close>.\<close>

definition get_at :: "'a list \<Rightarrow> usize \<Rightarrow> 'a option" where
  "get_at xs i = (if i < length xs then Some (xs ! i) else None)"

fun position :: "('a \<Rightarrow> bool) \<Rightarrow> 'a list \<Rightarrow> usize option" where
  "position P [] = None"
| "position P (x # xs) = (if P x then Some 0 else map_option Suc (position P xs))"

definition list_push :: "usize \<Rightarrow> 'a list \<Rightarrow> 'a \<Rightarrow> 'a list option" where
  "list_push N values v = (if length values \<ge> N then None else Some (values @ [v]))"

definition list_try_from :: "usize \<Rightarrow> 'a list \<Rightarrow> 'a list option" where
  "list_try_from N values = (if length values > N then None else Some values)"

definition bits_set :: "bool list \<Rightarrow> usize \<Rightarrow> bool \<Rightarrow> bool list" where
  "bits_set bits i v = (if i < length bits then bits[i := v] else bits)"

text \<open>\<open>iter().enumerate()\<close>.\<close>

abbreviation enumerated :: "'a list \<Rightarrow> (nat \<times> 'a) list" where
  "enumerated xs \<equiv> List.enumerate 0 xs"

section \<open>External code\<close>

text \<open>
  The functions of the crates \<open>sha2\<close> and \<open>ark-bls12-381\<close> that the transition calls. The domain
  separation tag of hash-to-curve is part of \<open>ext_hash_to_g2\<close>.
\<close>

record ('g1, 'g2, 'gt) ext =
  ext_sha256 :: "bytes \<Rightarrow> bytes"
  ext_g1_deserialize :: "bytes \<Rightarrow> 'g1 option"
  ext_g1_serialize :: "'g1 \<Rightarrow> bytes option"
  ext_g1_zero :: 'g1
  ext_g1_add :: "'g1 \<Rightarrow> 'g1 \<Rightarrow> 'g1"
  ext_g1_generator :: 'g1
  ext_g2_deserialize :: "bytes \<Rightarrow> 'g2 option"
  ext_hash_to_g2 :: "bytes \<Rightarrow> 'g2 option"
  ext_pairing :: "'g1 \<Rightarrow> 'g2 \<Rightarrow> 'gt"

text \<open>What the program relies on: digests have 32 bytes, compressed G1 points 48 bytes.\<close>

definition ext_ok :: "('g1, 'g2, 'gt) ext \<Rightarrow> bool" where
  "ext_ok X \<longleftrightarrow> (\<forall>bs. length (ext_sha256 X bs) = 32)
     \<and> (\<forall>g bs. ext_g1_serialize X g = Some bs \<longrightarrow> length bs = 48)"

text \<open>\<open>TreeRootExt::tree_root\<close> (\<open>state_transition.rs\<close>).\<close>

definition tree_root_of ::
    "('g1, 'g2, 'gt) ext \<Rightarrow> ssz_ty \<Rightarrow> ssz_val \<Rightarrow> MerkleError \<Rightarrow> Root tres" where
  "tree_root_of X t v on_fail = map_err (\<lambda>_. Err (MerkleErr on_fail)) (hash_tree_root (ext_sha256 X) t v)"

section \<open>Weakest preconditions\<close>

definition safe :: "'a tres \<Rightarrow> ('a \<Rightarrow> bool) \<Rightarrow> bool" where
  "safe m Q = (case m of Inl e \<Rightarrow> e \<noteq> Panic | Inr x \<Rightarrow> Q x)"

lemma safe_results [simp]: "safe (Inl e) Q = (e \<noteq> Panic)" "safe (Inr x) Q = Q x"
  by (simp_all add: safe_def)

lemma safe_bind [safe_simps]: "safe (bindR m f) Q = safe m (\<lambda>x. safe (f x) Q)"
  by (cases m) simp_all

lemma safe_reject [safe_simps]: "safe (reject b e) Q = (\<not> b \<longrightarrow> Q ())"
  by (simp add: reject_def failIf_def)

lemma safe_or_err [safe_simps]: "safe (or_err x e) Q = (\<forall>a. x = Some a \<longrightarrow> Q a)"
  by (cases x) (simp_all add: or_err_def)

lemma safe_if [safe_simps]: "safe (if b then m else n) Q = ((b \<longrightarrow> safe m Q) \<and> (\<not> b \<longrightarrow> safe n Q))"
  by simp

lemma safe_map_err [safe_simps]: "safe (map_err (\<lambda>e. Err (f e)) m) Q = (\<forall>x. m = Inr x \<longrightarrow> Q x)"
  by (cases m) simp_all

lemma safe_idx [safe_simps]: "safe (idx xs i) Q = (i < length xs \<and> Q (xs ! i))"
  by (simp add: idx_def)

lemma safe_idx_set [safe_simps]: "safe (idx_set xs i v) Q = (i < length xs \<and> Q (xs[i := v]))"
  by (simp add: idx_set_def)

lemma safe_u_add [safe_simps]: "safe (u_add a b) Q = (a + b \<le> u64_max \<and> Q (a + b))"
  by (simp add: u_add_def)

lemma safe_u_sub [safe_simps]: "safe (u_sub a b) Q = (b \<le> a \<and> Q (a - b))"
  by (simp add: u_sub_def)

lemma safe_u_mul [safe_simps]: "safe (u_mul a b) Q = (a * b \<le> u64_max \<and> Q (a * b))"
  by (simp add: u_mul_def)

lemma safe_u_div [safe_simps]: "safe (u_div a b) Q = (b \<noteq> 0 \<and> Q (a div b))"
  by (simp add: u_div_def)

lemma safe_mono: "safe m P \<Longrightarrow> (\<And>x. m = Inr x \<Longrightarrow> P x \<Longrightarrow> Q x) \<Longrightarrow> safe m Q"
  by (cases m) simp_all

lemma safe_conj: "safe m P \<Longrightarrow> safe m Q \<Longrightarrow> safe m (\<lambda>x. P x \<and> Q x)"
  by (cases m) simp_all

lemma safeD: "safe m Q \<Longrightarrow> m = Inr x \<Longrightarrow> Q x"
  by simp

lemma safe_no_panic: "safe m Q \<Longrightarrow> m \<noteq> Inl Panic"
  by auto

lemma safe_foldR:
  assumes "I s" and "\<And>s x. x \<in> set xs \<Longrightarrow> I s \<Longrightarrow> safe (f s x) I"
  shows "safe (foldR f s xs) I"
  using assms
proof (induction xs arbitrary: s)
  case Nil
  then show ?case by simp
next
  case (Cons x xs)
  have "safe (f s x) I" using Cons.prems by simp
  then show ?case using Cons.IH Cons.prems(2) by (cases "f s x") simp_all
qed

lemma safe_mapR:
  assumes "\<And>x. x \<in> set xs \<Longrightarrow> safe (f x) Q"
  shows "safe (mapR f xs) (\<lambda>ys. list_all Q ys \<and> length ys = length xs)"
  using assms
proof (induction xs)
  case Nil
  then show ?case by simp
next
  case (Cons x xs)
  have "safe (f x) Q" and "safe (mapR f xs) (\<lambda>ys. list_all Q ys \<and> length ys = length xs)"
    using Cons by simp_all
  then show ?case by (cases "f x"; cases "mapR f xs") simp_all
qed

section \<open>Inversion of results\<close>

lemma reject_eq_Inr [res_simps]: "reject b e = Inr u \<longleftrightarrow> \<not> b"
  by (simp add: reject_def failIf_eq_Inr)

lemma reject_simps [simp]: "reject True e = fail e" "reject False e = Inr ()"
  by (simp_all add: reject_def)

lemma or_err_eq_Inr [res_simps]: "or_err x e = Inr y \<longleftrightarrow> x = Some y"
  by (simp add: or_err_def ok_or_eq_Inr)

lemma or_err_simps [simp]: "or_err None e = fail e" "or_err (Some x) e = Inr x"
  by (simp_all add: or_err_def)

lemma idx_eq_Inr [res_simps]: "idx xs i = Inr y \<longleftrightarrow> i < length xs \<and> y = xs ! i"
  by (auto simp: idx_def)

lemma idx_set_eq_Inr [res_simps]: "idx_set xs i v = Inr ys \<longleftrightarrow> i < length xs \<and> ys = xs[i := v]"
  by (auto simp: idx_set_def)

lemma u_ops_eq_Inr [res_simps]:
  "u_add a b = Inr c \<longleftrightarrow> a + b \<le> u64_max \<and> c = a + b"
  "u_sub a b = Inr c \<longleftrightarrow> b \<le> a \<and> c = a - b"
  "u_mul a b = Inr c \<longleftrightarrow> a * b \<le> u64_max \<and> c = a * b"
  "u_div a b = Inr c \<longleftrightarrow> b \<noteq> 0 \<and> c = a div b"
  by (auto simp: u_add_def u_sub_def u_mul_def u_div_def)

lemma get_at_eq_Some [res_simps]: "get_at xs i = Some y \<longleftrightarrow> i < length xs \<and> y = xs ! i"
  by (auto simp: get_at_def)

lemma list_push_eq_Some [res_simps]: "list_push N xs v = Some ys \<longleftrightarrow> length xs < N \<and> ys = xs @ [v]"
  by (auto simp: list_push_def)

lemma list_try_from_eq_Some [res_simps]: "list_try_from N xs = Some ys \<longleftrightarrow> length xs \<le> N \<and> ys = xs"
  by (auto simp: list_try_from_def)

lemma length_bits_set [simp]: "length (bits_set bits i v) = length bits"
  by (simp add: bits_set_def)

lemma position_eq_Some:
  "position P xs = Some i \<longleftrightarrow> i < length xs \<and> P (xs ! i) \<and> (\<forall>j < i. \<not> P (xs ! j))"
proof (induction xs arbitrary: i)
  case Nil
  then show ?case by simp
next
  case (Cons x xs)
  then show ?case by (cases i) (auto simp: less_Suc_eq_0_disj split: if_splits)
qed

lemma position_eq_None: "position P xs = None \<longleftrightarrow> (\<forall>x \<in> set xs. \<not> P x)"
  by (induction xs) auto

section \<open>Tree roots of well-typed values\<close>

lemma tree_root_of_total:
  assumes "ext_ok X" and "wf_ty t" and "merkle_ok t" and "well_typed t v"
  shows "\<exists>r. tree_root_of X t v e = Inr r \<and> length r = 32"
proof -
  have "\<forall>bs. length (ext_sha256 X bs) = 32" using assms(1) by (simp add: ext_ok_def)
  from hash_tree_root_node [OF this assms(2-4)] show ?thesis by (auto simp: tree_root_of_def)
qed

lemma safe_tree_root_of:
  assumes "ext_ok X" and "wf_ty t" and "merkle_ok t" and "well_typed t v"
  shows "safe (tree_root_of X t v e) (\<lambda>r. length r = 32)"
  using tree_root_of_total [OF assms, of e] by auto

end
