(* ===== verification/Typing.thy ===== *)
theory Typing
  imports Runtime
begin

text \<open>
  The type invariant of every container the transition handles: \<open>X_ok x\<close> says that the record \<open>x\<close> is a
  value of the Rust struct \<open>X\<close>, that is, its SSZ value is well typed. The lemmas \<open>X_ok_iff\<close> spell it out
  field by field: integers fit 64 bits, byte arrays and vectors have their length, lists respect their
  limit.
\<close>

lemma u64_bound: "n < 18446744073709551616 \<longleftrightarrow> n \<le> u64_max"
  by (auto simp: u64_max_def)

lemma u8_bound: "unat (b :: byte) < 256"
  by (rule unat_byte_lt)

lemmas typing_simps = primitive_ty_defs u64_bound u8_bound list_all_iff

section \<open>Checkpoint\<close>

definition Checkpoint_ok :: "Checkpoint \<Rightarrow> bool" where
  "Checkpoint_ok x \<longleftrightarrow> well_typed Checkpoint_ty (Checkpoint_val x)"

lemma Checkpoint_ok_iff:
  "Checkpoint_ok x \<longleftrightarrow>
     cp_epoch x \<le> u64_max \<and> length (cp_root x) = 32"
  by (simp add: Checkpoint_ok_def Checkpoint_ty_def Checkpoint_val_def typing_simps conj_ac)

section \<open>AttestationData\<close>

definition AttestationData_ok :: "AttestationData \<Rightarrow> bool" where
  "AttestationData_ok x \<longleftrightarrow> well_typed AttestationData_ty (AttestationData_val x)"

lemma AttestationData_ok_iff:
  "AttestationData_ok x \<longleftrightarrow>
     ad_slot x \<le> u64_max \<and> ad_index x \<le> u64_max \<and> length (ad_beacon_block_root x) = 32
     \<and> Checkpoint_ok (ad_source x) \<and> Checkpoint_ok (ad_target x)"
  by (simp add: AttestationData_ok_def AttestationData_ty_def AttestationData_val_def Checkpoint_ok_def typing_simps conj_ac)

section \<open>IndexedAttestation\<close>

definition IndexedAttestation_ok :: "preset \<Rightarrow> IndexedAttestation \<Rightarrow> bool" where
  "IndexedAttestation_ok p x \<longleftrightarrow> well_typed (IndexedAttestation_ty p) (IndexedAttestation_val x)"

lemma IndexedAttestation_ok_iff:
  "IndexedAttestation_ok p x \<longleftrightarrow>
     length (ia_attesting_indices x) \<le> MAX_ATTESTING_INDICES p
     \<and> (\<forall>y \<in> set (ia_attesting_indices x). y \<le> u64_max) \<and> AttestationData_ok (ia_data x)
     \<and> length (ia_signature x) = 96"
  by (simp add: IndexedAttestation_ok_def IndexedAttestation_ty_def IndexedAttestation_val_def AttestationData_ok_def typing_simps conj_ac)

section \<open>Attestation\<close>

definition Attestation_ok :: "preset \<Rightarrow> Attestation \<Rightarrow> bool" where
  "Attestation_ok p x \<longleftrightarrow> well_typed (Attestation_ty p) (Attestation_val x)"

lemma Attestation_ok_iff:
  "Attestation_ok p x \<longleftrightarrow>
     length (att_aggregation_bits x) \<le> MAX_ATTESTING_INDICES p \<and> AttestationData_ok (att_data x)
     \<and> length (att_signature x) = 96 \<and> length (att_committee_bits x) = MAX_COMMITTEES_PER_SLOT p"
  by (simp add: Attestation_ok_def Attestation_ty_def Attestation_val_def AttestationData_ok_def typing_simps conj_ac)

section \<open>AttesterSlashing\<close>

definition AttesterSlashing_ok :: "preset \<Rightarrow> AttesterSlashing \<Rightarrow> bool" where
  "AttesterSlashing_ok p x \<longleftrightarrow> well_typed (AttesterSlashing_ty p) (AttesterSlashing_val x)"

lemma AttesterSlashing_ok_iff:
  "AttesterSlashing_ok p x \<longleftrightarrow>
     IndexedAttestation_ok p (as_attestation_1 x) \<and> IndexedAttestation_ok p (as_attestation_2 x)"
  by (simp add: AttesterSlashing_ok_def AttesterSlashing_ty_def AttesterSlashing_val_def IndexedAttestation_ok_def typing_simps conj_ac)

section \<open>BeaconBlockHeader\<close>

definition BeaconBlockHeader_ok :: "BeaconBlockHeader \<Rightarrow> bool" where
  "BeaconBlockHeader_ok x \<longleftrightarrow> well_typed BeaconBlockHeader_ty (BeaconBlockHeader_val x)"

lemma BeaconBlockHeader_ok_iff:
  "BeaconBlockHeader_ok x \<longleftrightarrow>
     bbh_slot x \<le> u64_max \<and> bbh_proposer_index x \<le> u64_max \<and> length (bbh_parent_root x) = 32
     \<and> length (bbh_state_root x) = 32 \<and> length (bbh_body_root x) = 32"
  by (simp add: BeaconBlockHeader_ok_def BeaconBlockHeader_ty_def BeaconBlockHeader_val_def typing_simps conj_ac)

section \<open>SignedBeaconBlockHeader\<close>

definition SignedBeaconBlockHeader_ok :: "SignedBeaconBlockHeader \<Rightarrow> bool" where
  "SignedBeaconBlockHeader_ok x \<longleftrightarrow> well_typed SignedBeaconBlockHeader_ty (SignedBeaconBlockHeader_val x)"

lemma SignedBeaconBlockHeader_ok_iff:
  "SignedBeaconBlockHeader_ok x \<longleftrightarrow>
     BeaconBlockHeader_ok (sbbh_message x) \<and> length (sbbh_signature x) = 96"
  by (simp add: SignedBeaconBlockHeader_ok_def SignedBeaconBlockHeader_ty_def SignedBeaconBlockHeader_val_def BeaconBlockHeader_ok_def typing_simps conj_ac)

section \<open>ProposerSlashing\<close>

definition ProposerSlashing_ok :: "ProposerSlashing \<Rightarrow> bool" where
  "ProposerSlashing_ok x \<longleftrightarrow> well_typed ProposerSlashing_ty (ProposerSlashing_val x)"

lemma ProposerSlashing_ok_iff:
  "ProposerSlashing_ok x \<longleftrightarrow>
     SignedBeaconBlockHeader_ok (ps_signed_header_1 x) \<and> SignedBeaconBlockHeader_ok (ps_signed_header_2 x)"
  by (simp add: ProposerSlashing_ok_def ProposerSlashing_ty_def ProposerSlashing_val_def SignedBeaconBlockHeader_ok_def typing_simps conj_ac)

section \<open>Eth1Data\<close>

definition Eth1Data_ok :: "Eth1Data \<Rightarrow> bool" where
  "Eth1Data_ok x \<longleftrightarrow> well_typed Eth1Data_ty (Eth1Data_val x)"

lemma Eth1Data_ok_iff:
  "Eth1Data_ok x \<longleftrightarrow>
     length (eth1_deposit_root x) = 32 \<and> eth1_deposit_count x \<le> u64_max
     \<and> length (eth1_block_hash x) = 32"
  by (simp add: Eth1Data_ok_def Eth1Data_ty_def Eth1Data_val_def typing_simps conj_ac)

section \<open>DepositData\<close>

definition DepositData_ok :: "DepositData \<Rightarrow> bool" where
  "DepositData_ok x \<longleftrightarrow> well_typed DepositData_ty (DepositData_val x)"

lemma DepositData_ok_iff:
  "DepositData_ok x \<longleftrightarrow>
     length (dd_pubkey x) = 48 \<and> length (dd_withdrawal_credentials x) = 32 \<and> dd_amount x \<le> u64_max
     \<and> length (dd_signature x) = 96"
  by (simp add: DepositData_ok_def DepositData_ty_def DepositData_val_def typing_simps conj_ac)

section \<open>Deposit\<close>

definition Deposit_ok :: "Deposit \<Rightarrow> bool" where
  "Deposit_ok x \<longleftrightarrow> well_typed Deposit_ty (Deposit_val x)"

lemma Deposit_ok_iff:
  "Deposit_ok x \<longleftrightarrow>
     length (dep_proof x) = DEPOSIT_PROOF_LEN \<and> (\<forall>y \<in> set (dep_proof x). length y = 32)
     \<and> DepositData_ok (dep_data x)"
  by (simp add: Deposit_ok_def Deposit_ty_def Deposit_val_def DepositData_ok_def typing_simps conj_ac)

section \<open>VoluntaryExit\<close>

definition VoluntaryExit_ok :: "VoluntaryExit \<Rightarrow> bool" where
  "VoluntaryExit_ok x \<longleftrightarrow> well_typed VoluntaryExit_ty (VoluntaryExit_val x)"

lemma VoluntaryExit_ok_iff:
  "VoluntaryExit_ok x \<longleftrightarrow>
     ve_epoch x \<le> u64_max \<and> ve_validator_index x \<le> u64_max"
  by (simp add: VoluntaryExit_ok_def VoluntaryExit_ty_def VoluntaryExit_val_def typing_simps conj_ac)

section \<open>SignedVoluntaryExit\<close>

definition SignedVoluntaryExit_ok :: "SignedVoluntaryExit \<Rightarrow> bool" where
  "SignedVoluntaryExit_ok x \<longleftrightarrow> well_typed SignedVoluntaryExit_ty (SignedVoluntaryExit_val x)"

lemma SignedVoluntaryExit_ok_iff:
  "SignedVoluntaryExit_ok x \<longleftrightarrow>
     VoluntaryExit_ok (sve_message x) \<and> length (sve_signature x) = 96"
  by (simp add: SignedVoluntaryExit_ok_def SignedVoluntaryExit_ty_def SignedVoluntaryExit_val_def VoluntaryExit_ok_def typing_simps conj_ac)

section \<open>SyncAggregate\<close>

definition SyncAggregate_ok :: "preset \<Rightarrow> SyncAggregate \<Rightarrow> bool" where
  "SyncAggregate_ok p x \<longleftrightarrow> well_typed (SyncAggregate_ty p) (SyncAggregate_val x)"

lemma SyncAggregate_ok_iff:
  "SyncAggregate_ok p x \<longleftrightarrow>
     length (sag_sync_committee_bits x) = SYNC_COMMITTEE_SIZE p
     \<and> length (sag_sync_committee_signature x) = 96"
  by (simp add: SyncAggregate_ok_def SyncAggregate_ty_def SyncAggregate_val_def typing_simps conj_ac)

section \<open>BLSToExecutionChange\<close>

definition BLSToExecutionChange_ok :: "BLSToExecutionChange \<Rightarrow> bool" where
  "BLSToExecutionChange_ok x \<longleftrightarrow> well_typed BLSToExecutionChange_ty (BLSToExecutionChange_val x)"

lemma BLSToExecutionChange_ok_iff:
  "BLSToExecutionChange_ok x \<longleftrightarrow>
     btec_validator_index x \<le> u64_max \<and> length (btec_from_bls_pubkey x) = 48
     \<and> length (btec_to_execution_address x) = 20"
  by (simp add: BLSToExecutionChange_ok_def BLSToExecutionChange_ty_def BLSToExecutionChange_val_def typing_simps conj_ac)

section \<open>SignedBLSToExecutionChange\<close>

definition SignedBLSToExecutionChange_ok :: "SignedBLSToExecutionChange \<Rightarrow> bool" where
  "SignedBLSToExecutionChange_ok x \<longleftrightarrow> well_typed SignedBLSToExecutionChange_ty (SignedBLSToExecutionChange_val x)"

lemma SignedBLSToExecutionChange_ok_iff:
  "SignedBLSToExecutionChange_ok x \<longleftrightarrow>
     BLSToExecutionChange_ok (sbtec_message x) \<and> length (sbtec_signature x) = 96"
  by (simp add: SignedBLSToExecutionChange_ok_def SignedBLSToExecutionChange_ty_def SignedBLSToExecutionChange_val_def BLSToExecutionChange_ok_def typing_simps conj_ac)

section \<open>ExecutionPayloadBid\<close>

definition ExecutionPayloadBid_ok :: "ExecutionPayloadBid \<Rightarrow> bool" where
  "ExecutionPayloadBid_ok x \<longleftrightarrow> well_typed ExecutionPayloadBid_ty (ExecutionPayloadBid_val x)"

lemma ExecutionPayloadBid_ok_iff:
  "ExecutionPayloadBid_ok x \<longleftrightarrow>
     length (bid_parent_block_hash x) = 32 \<and> length (bid_parent_block_root x) = 32
     \<and> length (bid_block_hash x) = 32 \<and> length (bid_prev_randao x) = 32
     \<and> length (bid_fee_recipient x) = 20 \<and> bid_gas_limit x \<le> u64_max
     \<and> bid_builder_index x \<le> u64_max \<and> bid_slot x \<le> u64_max \<and> bid_value x \<le> u64_max
     \<and> bid_execution_payment x \<le> u64_max
     \<and> length (bid_blob_kzg_commitments x) \<le> MAX_BLOB_COMMITMENTS_PER_BLOCK
     \<and> (\<forall>y \<in> set (bid_blob_kzg_commitments x). length y = 48)
     \<and> length (bid_execution_requests_root x) = 32"
  by (simp add: ExecutionPayloadBid_ok_def ExecutionPayloadBid_ty_def ExecutionPayloadBid_val_def typing_simps conj_ac)

section \<open>SignedExecutionPayloadBid\<close>

definition SignedExecutionPayloadBid_ok :: "SignedExecutionPayloadBid \<Rightarrow> bool" where
  "SignedExecutionPayloadBid_ok x \<longleftrightarrow> well_typed SignedExecutionPayloadBid_ty (SignedExecutionPayloadBid_val x)"

lemma SignedExecutionPayloadBid_ok_iff:
  "SignedExecutionPayloadBid_ok x \<longleftrightarrow>
     ExecutionPayloadBid_ok (sbid_message x) \<and> length (sbid_signature x) = 96"
  by (simp add: SignedExecutionPayloadBid_ok_def SignedExecutionPayloadBid_ty_def SignedExecutionPayloadBid_val_def ExecutionPayloadBid_ok_def typing_simps conj_ac)

section \<open>PayloadAttestationData\<close>

definition PayloadAttestationData_ok :: "PayloadAttestationData \<Rightarrow> bool" where
  "PayloadAttestationData_ok x \<longleftrightarrow> well_typed PayloadAttestationData_ty (PayloadAttestationData_val x)"

lemma PayloadAttestationData_ok_iff:
  "PayloadAttestationData_ok x \<longleftrightarrow>
     length (pad_beacon_block_root x) = 32 \<and> pad_slot x \<le> u64_max"
  by (simp add: PayloadAttestationData_ok_def PayloadAttestationData_ty_def PayloadAttestationData_val_def typing_simps conj_ac)

section \<open>PayloadAttestation\<close>

definition PayloadAttestation_ok :: "preset \<Rightarrow> PayloadAttestation \<Rightarrow> bool" where
  "PayloadAttestation_ok p x \<longleftrightarrow> well_typed (PayloadAttestation_ty p) (PayloadAttestation_val x)"

lemma PayloadAttestation_ok_iff:
  "PayloadAttestation_ok p x \<longleftrightarrow>
     length (pa_aggregation_bits x) = PTC_SIZE p \<and> PayloadAttestationData_ok (pa_data x)
     \<and> length (pa_signature x) = 96"
  by (simp add: PayloadAttestation_ok_def PayloadAttestation_ty_def PayloadAttestation_val_def PayloadAttestationData_ok_def typing_simps conj_ac)

section \<open>DepositRequest\<close>

definition DepositRequest_ok :: "DepositRequest \<Rightarrow> bool" where
  "DepositRequest_ok x \<longleftrightarrow> well_typed DepositRequest_ty (DepositRequest_val x)"

lemma DepositRequest_ok_iff:
  "DepositRequest_ok x \<longleftrightarrow>
     length (dr_pubkey x) = 48 \<and> length (dr_withdrawal_credentials x) = 32 \<and> dr_amount x \<le> u64_max
     \<and> length (dr_signature x) = 96 \<and> dr_index x \<le> u64_max"
  by (simp add: DepositRequest_ok_def DepositRequest_ty_def DepositRequest_val_def typing_simps conj_ac)

section \<open>WithdrawalRequest\<close>

definition WithdrawalRequest_ok :: "WithdrawalRequest \<Rightarrow> bool" where
  "WithdrawalRequest_ok x \<longleftrightarrow> well_typed WithdrawalRequest_ty (WithdrawalRequest_val x)"

lemma WithdrawalRequest_ok_iff:
  "WithdrawalRequest_ok x \<longleftrightarrow>
     length (wr_source_address x) = 20 \<and> length (wr_validator_pubkey x) = 48 \<and> wr_amount x \<le> u64_max"
  by (simp add: WithdrawalRequest_ok_def WithdrawalRequest_ty_def WithdrawalRequest_val_def typing_simps conj_ac)

section \<open>ConsolidationRequest\<close>

definition ConsolidationRequest_ok :: "ConsolidationRequest \<Rightarrow> bool" where
  "ConsolidationRequest_ok x \<longleftrightarrow> well_typed ConsolidationRequest_ty (ConsolidationRequest_val x)"

lemma ConsolidationRequest_ok_iff:
  "ConsolidationRequest_ok x \<longleftrightarrow>
     length (cr_source_address x) = 20 \<and> length (cr_source_pubkey x) = 48
     \<and> length (cr_target_pubkey x) = 48"
  by (simp add: ConsolidationRequest_ok_def ConsolidationRequest_ty_def ConsolidationRequest_val_def typing_simps conj_ac)

section \<open>BuilderDepositRequest\<close>

definition BuilderDepositRequest_ok :: "BuilderDepositRequest \<Rightarrow> bool" where
  "BuilderDepositRequest_ok x \<longleftrightarrow> well_typed BuilderDepositRequest_ty (BuilderDepositRequest_val x)"

lemma BuilderDepositRequest_ok_iff:
  "BuilderDepositRequest_ok x \<longleftrightarrow>
     length (bdr_pubkey x) = 48 \<and> length (bdr_withdrawal_credentials x) = 32
     \<and> bdr_amount x \<le> u64_max \<and> length (bdr_signature x) = 96"
  by (simp add: BuilderDepositRequest_ok_def BuilderDepositRequest_ty_def BuilderDepositRequest_val_def typing_simps conj_ac)

section \<open>BuilderExitRequest\<close>

definition BuilderExitRequest_ok :: "BuilderExitRequest \<Rightarrow> bool" where
  "BuilderExitRequest_ok x \<longleftrightarrow> well_typed BuilderExitRequest_ty (BuilderExitRequest_val x)"

lemma BuilderExitRequest_ok_iff:
  "BuilderExitRequest_ok x \<longleftrightarrow>
     length (ber_source_address x) = 20 \<and> length (ber_pubkey x) = 48"
  by (simp add: BuilderExitRequest_ok_def BuilderExitRequest_ty_def BuilderExitRequest_val_def typing_simps conj_ac)

section \<open>ExecutionRequests\<close>

definition ExecutionRequests_ok :: "ExecutionRequests \<Rightarrow> bool" where
  "ExecutionRequests_ok x \<longleftrightarrow> well_typed ExecutionRequests_ty (ExecutionRequests_val x)"

lemma ExecutionRequests_ok_iff:
  "ExecutionRequests_ok x \<longleftrightarrow>
     length (er_deposits x) \<le> MAX_DEPOSIT_REQUESTS_PER_PAYLOAD
     \<and> (\<forall>y \<in> set (er_deposits x). DepositRequest_ok y)
     \<and> length (er_withdrawals x) \<le> MAX_WITHDRAWAL_REQUESTS_PER_PAYLOAD
     \<and> (\<forall>y \<in> set (er_withdrawals x). WithdrawalRequest_ok y)
     \<and> length (er_consolidations x) \<le> MAX_CONSOLIDATION_REQUESTS_PER_PAYLOAD
     \<and> (\<forall>y \<in> set (er_consolidations x). ConsolidationRequest_ok y)
     \<and> length (er_builder_deposits x) \<le> MAX_BUILDER_DEPOSIT_REQUESTS_PER_PAYLOAD
     \<and> (\<forall>y \<in> set (er_builder_deposits x). BuilderDepositRequest_ok y)
     \<and> length (er_builder_exits x) \<le> MAX_BUILDER_EXIT_REQUESTS_PER_PAYLOAD
     \<and> (\<forall>y \<in> set (er_builder_exits x). BuilderExitRequest_ok y)"
  by (simp add: ExecutionRequests_ok_def ExecutionRequests_ty_def ExecutionRequests_val_def BuilderDepositRequest_ok_def BuilderExitRequest_ok_def ConsolidationRequest_ok_def DepositRequest_ok_def WithdrawalRequest_ok_def typing_simps conj_ac)

section \<open>BeaconBlockBody\<close>

definition BeaconBlockBody_ok :: "preset \<Rightarrow> BeaconBlockBody \<Rightarrow> bool" where
  "BeaconBlockBody_ok p x \<longleftrightarrow> well_typed (BeaconBlockBody_ty p) (BeaconBlockBody_val x)"

lemma BeaconBlockBody_ok_iff:
  "BeaconBlockBody_ok p x \<longleftrightarrow>
     length (body_randao_reveal x) = 96 \<and> Eth1Data_ok (body_eth1_data x) \<and> length (body_graffiti x) = 32
     \<and> length (body_proposer_slashings x) \<le> MAX_PROPOSER_SLASHINGS
     \<and> (\<forall>y \<in> set (body_proposer_slashings x). ProposerSlashing_ok y)
     \<and> length (body_attester_slashings x) \<le> MAX_ATTESTER_SLASHINGS
     \<and> (\<forall>y \<in> set (body_attester_slashings x). AttesterSlashing_ok p y)
     \<and> length (body_attestations x) \<le> MAX_ATTESTATIONS
     \<and> (\<forall>y \<in> set (body_attestations x). Attestation_ok p y)
     \<and> length (body_deposits x) \<le> MAX_DEPOSITS
     \<and> (\<forall>y \<in> set (body_deposits x). Deposit_ok y)
     \<and> length (body_voluntary_exits x) \<le> MAX_VOLUNTARY_EXITS
     \<and> (\<forall>y \<in> set (body_voluntary_exits x). SignedVoluntaryExit_ok y)
     \<and> SyncAggregate_ok p (body_sync_aggregate x)
     \<and> length (body_bls_to_execution_changes x) \<le> MAX_BLS_TO_EXECUTION_CHANGES
     \<and> (\<forall>y \<in> set (body_bls_to_execution_changes x). SignedBLSToExecutionChange_ok y)
     \<and> SignedExecutionPayloadBid_ok (body_signed_execution_payload_bid x)
     \<and> length (body_payload_attestations x) \<le> MAX_PAYLOAD_ATTESTATIONS
     \<and> (\<forall>y \<in> set (body_payload_attestations x). PayloadAttestation_ok p y)
     \<and> ExecutionRequests_ok (body_parent_execution_requests x)"
  by (simp add: BeaconBlockBody_ok_def BeaconBlockBody_ty_def BeaconBlockBody_val_def Attestation_ok_def AttesterSlashing_ok_def Deposit_ok_def Eth1Data_ok_def ExecutionRequests_ok_def PayloadAttestation_ok_def ProposerSlashing_ok_def SignedBLSToExecutionChange_ok_def SignedExecutionPayloadBid_ok_def SignedVoluntaryExit_ok_def SyncAggregate_ok_def typing_simps conj_ac)

section \<open>BeaconBlock\<close>

definition BeaconBlock_ok :: "preset \<Rightarrow> BeaconBlock \<Rightarrow> bool" where
  "BeaconBlock_ok p x \<longleftrightarrow> well_typed (BeaconBlock_ty p) (BeaconBlock_val x)"

lemma BeaconBlock_ok_iff:
  "BeaconBlock_ok p x \<longleftrightarrow>
     blk_slot x \<le> u64_max \<and> blk_proposer_index x \<le> u64_max \<and> length (blk_parent_root x) = 32
     \<and> length (blk_state_root x) = 32 \<and> BeaconBlockBody_ok p (blk_body x)"
  by (simp add: BeaconBlock_ok_def BeaconBlock_ty_def BeaconBlock_val_def BeaconBlockBody_ok_def typing_simps conj_ac)

section \<open>SignedBeaconBlock\<close>

definition SignedBeaconBlock_ok :: "preset \<Rightarrow> SignedBeaconBlock \<Rightarrow> bool" where
  "SignedBeaconBlock_ok p x \<longleftrightarrow> well_typed (SignedBeaconBlock_ty p) (SignedBeaconBlock_val x)"

lemma SignedBeaconBlock_ok_iff:
  "SignedBeaconBlock_ok p x \<longleftrightarrow>
     BeaconBlock_ok p (sblk_message x) \<and> length (sblk_signature x) = 96"
  by (simp add: SignedBeaconBlock_ok_def SignedBeaconBlock_ty_def SignedBeaconBlock_val_def BeaconBlock_ok_def typing_simps conj_ac)

section \<open>Builder\<close>

definition Builder_ok :: "Builder \<Rightarrow> bool" where
  "Builder_ok x \<longleftrightarrow> well_typed Builder_ty (Builder_val x)"

lemma Builder_ok_iff:
  "Builder_ok x \<longleftrightarrow>
     length (bld_pubkey x) = 48 \<and> length (bld_execution_address x) = 20 \<and> bld_balance x \<le> u64_max
     \<and> bld_deposit_epoch x \<le> u64_max \<and> bld_withdrawable_epoch x \<le> u64_max"
  by (simp add: Builder_ok_def Builder_ty_def Builder_val_def typing_simps conj_ac)

section \<open>BuilderPendingWithdrawal\<close>

definition BuilderPendingWithdrawal_ok :: "BuilderPendingWithdrawal \<Rightarrow> bool" where
  "BuilderPendingWithdrawal_ok x \<longleftrightarrow> well_typed BuilderPendingWithdrawal_ty (BuilderPendingWithdrawal_val x)"

lemma BuilderPendingWithdrawal_ok_iff:
  "BuilderPendingWithdrawal_ok x \<longleftrightarrow>
     length (bpw_fee_recipient x) = 20 \<and> bpw_amount x \<le> u64_max \<and> bpw_builder_index x \<le> u64_max"
  by (simp add: BuilderPendingWithdrawal_ok_def BuilderPendingWithdrawal_ty_def BuilderPendingWithdrawal_val_def typing_simps conj_ac)

section \<open>BuilderPendingPayment\<close>

definition BuilderPendingPayment_ok :: "BuilderPendingPayment \<Rightarrow> bool" where
  "BuilderPendingPayment_ok x \<longleftrightarrow> well_typed BuilderPendingPayment_ty (BuilderPendingPayment_val x)"

lemma BuilderPendingPayment_ok_iff:
  "BuilderPendingPayment_ok x \<longleftrightarrow>
     bpp_weight x \<le> u64_max \<and> BuilderPendingWithdrawal_ok (bpp_withdrawal x)
     \<and> bpp_proposer_index x \<le> u64_max"
  by (simp add: BuilderPendingPayment_ok_def BuilderPendingPayment_ty_def BuilderPendingPayment_val_def BuilderPendingWithdrawal_ok_def typing_simps conj_ac)

section \<open>IndexedPayloadAttestation\<close>

definition IndexedPayloadAttestation_ok :: "preset \<Rightarrow> IndexedPayloadAttestation \<Rightarrow> bool" where
  "IndexedPayloadAttestation_ok p x \<longleftrightarrow> well_typed (IndexedPayloadAttestation_ty p) (IndexedPayloadAttestation_val x)"

lemma IndexedPayloadAttestation_ok_iff:
  "IndexedPayloadAttestation_ok p x \<longleftrightarrow>
     length (ipa_attesting_indices x) \<le> PTC_SIZE p
     \<and> (\<forall>y \<in> set (ipa_attesting_indices x). y \<le> u64_max)
     \<and> PayloadAttestationData_ok (ipa_data x) \<and> length (ipa_signature x) = 96"
  by (simp add: IndexedPayloadAttestation_ok_def IndexedPayloadAttestation_ty_def IndexedPayloadAttestation_val_def PayloadAttestationData_ok_def typing_simps conj_ac)

section \<open>Fork\<close>

definition Fork_ok :: "Fork \<Rightarrow> bool" where
  "Fork_ok x \<longleftrightarrow> well_typed Fork_ty (Fork_val x)"

lemma Fork_ok_iff:
  "Fork_ok x \<longleftrightarrow>
     length (fork_previous_version x) = 4 \<and> length (fork_current_version x) = 4
     \<and> fork_epoch x \<le> u64_max"
  by (simp add: Fork_ok_def Fork_ty_def Fork_val_def typing_simps conj_ac)

section \<open>ForkData\<close>

definition ForkData_ok :: "ForkData \<Rightarrow> bool" where
  "ForkData_ok x \<longleftrightarrow> well_typed ForkData_ty (ForkData_val x)"

lemma ForkData_ok_iff:
  "ForkData_ok x \<longleftrightarrow>
     length (fd_current_version x) = 4 \<and> length (fd_genesis_validators_root x) = 32"
  by (simp add: ForkData_ok_def ForkData_ty_def ForkData_val_def typing_simps conj_ac)

section \<open>HistoricalSummary\<close>

definition HistoricalSummary_ok :: "HistoricalSummary \<Rightarrow> bool" where
  "HistoricalSummary_ok x \<longleftrightarrow> well_typed HistoricalSummary_ty (HistoricalSummary_val x)"

lemma HistoricalSummary_ok_iff:
  "HistoricalSummary_ok x \<longleftrightarrow>
     length (hs_block_summary_root x) = 32 \<and> length (hs_state_summary_root x) = 32"
  by (simp add: HistoricalSummary_ok_def HistoricalSummary_ty_def HistoricalSummary_val_def typing_simps conj_ac)

section \<open>SigningData\<close>

definition SigningData_ok :: "SigningData \<Rightarrow> bool" where
  "SigningData_ok x \<longleftrightarrow> well_typed SigningData_ty (SigningData_val x)"

lemma SigningData_ok_iff:
  "SigningData_ok x \<longleftrightarrow>
     length (sd_object_root x) = 32 \<and> length (sd_domain x) = 32"
  by (simp add: SigningData_ok_def SigningData_ty_def SigningData_val_def typing_simps conj_ac)

section \<open>Withdrawal\<close>

definition Withdrawal_ok :: "Withdrawal \<Rightarrow> bool" where
  "Withdrawal_ok x \<longleftrightarrow> well_typed Withdrawal_ty (Withdrawal_val x)"

lemma Withdrawal_ok_iff:
  "Withdrawal_ok x \<longleftrightarrow>
     wd_index x \<le> u64_max \<and> wd_validator_index x \<le> u64_max \<and> length (wd_address x) = 20
     \<and> wd_amount x \<le> u64_max"
  by (simp add: Withdrawal_ok_def Withdrawal_ty_def Withdrawal_val_def typing_simps conj_ac)

section \<open>ExecutionPayload\<close>

definition ExecutionPayload_ok :: "preset \<Rightarrow> ExecutionPayload \<Rightarrow> bool" where
  "ExecutionPayload_ok p x \<longleftrightarrow> well_typed (ExecutionPayload_ty p) (ExecutionPayload_val x)"

lemma ExecutionPayload_ok_iff:
  "ExecutionPayload_ok p x \<longleftrightarrow>
     length (ep_parent_hash x) = 32 \<and> length (ep_fee_recipient x) = 20 \<and> length (ep_state_root x) = 32
     \<and> length (ep_receipts_root x) = 32 \<and> length (ep_logs_bloom x) = BYTES_PER_LOGS_BLOOM
     \<and> length (ep_prev_randao x) = 32 \<and> ep_block_number x \<le> u64_max
     \<and> ep_gas_limit x \<le> u64_max \<and> ep_gas_used x \<le> u64_max \<and> ep_timestamp x \<le> u64_max
     \<and> length (ep_extra_data x) \<le> MAX_EXTRA_DATA_BYTES \<and> length (ep_base_fee_per_gas x) = 32
     \<and> length (ep_block_hash x) = 32 \<and> length (ep_transactions x) \<le> MAX_TRANSACTIONS_PER_PAYLOAD
     \<and> (\<forall>y \<in> set (ep_transactions x). length y \<le> MAX_BYTES_PER_TRANSACTION)
     \<and> length (ep_withdrawals x) \<le> MAX_WITHDRAWALS_PER_PAYLOAD p
     \<and> (\<forall>y \<in> set (ep_withdrawals x). Withdrawal_ok y) \<and> ep_blob_gas_used x \<le> u64_max
     \<and> ep_excess_blob_gas x \<le> u64_max
     \<and> length (ep_block_access_list x) \<le> MAX_BYTES_PER_TRANSACTION \<and> ep_slot_number x \<le> u64_max"
  by (simp add: ExecutionPayload_ok_def ExecutionPayload_ty_def ExecutionPayload_val_def Withdrawal_ok_def typing_simps conj_ac)

section \<open>ExecutionPayloadEnvelope\<close>

definition ExecutionPayloadEnvelope_ok :: "preset \<Rightarrow> ExecutionPayloadEnvelope \<Rightarrow> bool" where
  "ExecutionPayloadEnvelope_ok p x \<longleftrightarrow> well_typed (ExecutionPayloadEnvelope_ty p) (ExecutionPayloadEnvelope_val x)"

lemma ExecutionPayloadEnvelope_ok_iff:
  "ExecutionPayloadEnvelope_ok p x \<longleftrightarrow>
     ExecutionPayload_ok p (env_payload x) \<and> ExecutionRequests_ok (env_execution_requests x)
     \<and> env_builder_index x \<le> u64_max \<and> length (env_beacon_block_root x) = 32
     \<and> length (env_parent_beacon_block_root x) = 32"
  by (simp add: ExecutionPayloadEnvelope_ok_def ExecutionPayloadEnvelope_ty_def ExecutionPayloadEnvelope_val_def ExecutionPayload_ok_def ExecutionRequests_ok_def typing_simps conj_ac)

section \<open>SignedExecutionPayloadEnvelope\<close>

definition SignedExecutionPayloadEnvelope_ok :: "preset \<Rightarrow> SignedExecutionPayloadEnvelope \<Rightarrow> bool" where
  "SignedExecutionPayloadEnvelope_ok p x \<longleftrightarrow> well_typed (SignedExecutionPayloadEnvelope_ty p) (SignedExecutionPayloadEnvelope_val x)"

lemma SignedExecutionPayloadEnvelope_ok_iff:
  "SignedExecutionPayloadEnvelope_ok p x \<longleftrightarrow>
     ExecutionPayloadEnvelope_ok p (senv_message x) \<and> length (senv_signature x) = 96"
  by (simp add: SignedExecutionPayloadEnvelope_ok_def SignedExecutionPayloadEnvelope_ty_def SignedExecutionPayloadEnvelope_val_def ExecutionPayloadEnvelope_ok_def typing_simps conj_ac)

section \<open>Validator\<close>

definition Validator_ok :: "Validator \<Rightarrow> bool" where
  "Validator_ok x \<longleftrightarrow> well_typed Validator_ty (Validator_val x)"

lemma Validator_ok_iff:
  "Validator_ok x \<longleftrightarrow>
     length (v_pubkey x) = 48 \<and> length (v_withdrawal_credentials x) = 32
     \<and> v_effective_balance x \<le> u64_max \<and> v_activation_eligibility_epoch x \<le> u64_max
     \<and> v_activation_epoch x \<le> u64_max \<and> v_exit_epoch x \<le> u64_max
     \<and> v_withdrawable_epoch x \<le> u64_max"
  by (simp add: Validator_ok_def Validator_ty_def Validator_val_def typing_simps conj_ac)

section \<open>SyncCommittee\<close>

definition SyncCommittee_ok :: "preset \<Rightarrow> SyncCommittee \<Rightarrow> bool" where
  "SyncCommittee_ok p x \<longleftrightarrow> well_typed (SyncCommittee_ty p) (SyncCommittee_val x)"

lemma SyncCommittee_ok_iff:
  "SyncCommittee_ok p x \<longleftrightarrow>
     length (sc_pubkeys x) = SYNC_COMMITTEE_SIZE p \<and> (\<forall>y \<in> set (sc_pubkeys x). length y = 48)
     \<and> length (sc_aggregate_pubkey x) = 48"
  by (simp add: SyncCommittee_ok_def SyncCommittee_ty_def SyncCommittee_val_def typing_simps conj_ac)

section \<open>PendingDeposit\<close>

definition PendingDeposit_ok :: "PendingDeposit \<Rightarrow> bool" where
  "PendingDeposit_ok x \<longleftrightarrow> well_typed PendingDeposit_ty (PendingDeposit_val x)"

lemma PendingDeposit_ok_iff:
  "PendingDeposit_ok x \<longleftrightarrow>
     length (pd_pubkey x) = 48 \<and> length (pd_withdrawal_credentials x) = 32 \<and> pd_amount x \<le> u64_max
     \<and> length (pd_signature x) = 96 \<and> pd_slot x \<le> u64_max"
  by (simp add: PendingDeposit_ok_def PendingDeposit_ty_def PendingDeposit_val_def typing_simps conj_ac)

section \<open>PendingPartialWithdrawal\<close>

definition PendingPartialWithdrawal_ok :: "PendingPartialWithdrawal \<Rightarrow> bool" where
  "PendingPartialWithdrawal_ok x \<longleftrightarrow> well_typed PendingPartialWithdrawal_ty (PendingPartialWithdrawal_val x)"

lemma PendingPartialWithdrawal_ok_iff:
  "PendingPartialWithdrawal_ok x \<longleftrightarrow>
     ppw_validator_index x \<le> u64_max \<and> ppw_amount x \<le> u64_max
     \<and> ppw_withdrawable_epoch x \<le> u64_max"
  by (simp add: PendingPartialWithdrawal_ok_def PendingPartialWithdrawal_ty_def PendingPartialWithdrawal_val_def typing_simps conj_ac)

section \<open>PendingConsolidation\<close>

definition PendingConsolidation_ok :: "PendingConsolidation \<Rightarrow> bool" where
  "PendingConsolidation_ok x \<longleftrightarrow> well_typed PendingConsolidation_ty (PendingConsolidation_val x)"

lemma PendingConsolidation_ok_iff:
  "PendingConsolidation_ok x \<longleftrightarrow>
     pc_source_index x \<le> u64_max \<and> pc_target_index x \<le> u64_max"
  by (simp add: PendingConsolidation_ok_def PendingConsolidation_ty_def PendingConsolidation_val_def typing_simps conj_ac)

section \<open>DepositMessage\<close>

definition DepositMessage_ok :: "DepositMessage \<Rightarrow> bool" where
  "DepositMessage_ok x \<longleftrightarrow> well_typed DepositMessage_ty (DepositMessage_val x)"

lemma DepositMessage_ok_iff:
  "DepositMessage_ok x \<longleftrightarrow>
     length (dm_pubkey x) = 48 \<and> length (dm_withdrawal_credentials x) = 32 \<and> dm_amount x \<le> u64_max"
  by (simp add: DepositMessage_ok_def DepositMessage_ty_def DepositMessage_val_def typing_simps conj_ac)

section \<open>BeaconState\<close>

definition BeaconState_ok :: "preset \<Rightarrow> BeaconState \<Rightarrow> bool" where
  "BeaconState_ok p x \<longleftrightarrow> well_typed (BeaconState_ty p) (BeaconState_val x)"

lemma BeaconState_ok_iff:
  "BeaconState_ok p x \<longleftrightarrow>
     genesis_time x \<le> u64_max \<and> length (genesis_validators_root x) = 32 \<and> slot x \<le> u64_max
     \<and> Fork_ok (fork x) \<and> BeaconBlockHeader_ok (latest_block_header x)
     \<and> length (block_roots x) = SLOTS_PER_HISTORICAL_ROOT p
     \<and> (\<forall>y \<in> set (block_roots x). length y = 32)
     \<and> length (state_roots x) = SLOTS_PER_HISTORICAL_ROOT p
     \<and> (\<forall>y \<in> set (state_roots x). length y = 32)
     \<and> length (historical_roots x) \<le> HISTORICAL_ROOTS_LIMIT
     \<and> (\<forall>y \<in> set (historical_roots x). length y = 32) \<and> Eth1Data_ok (eth1_data x)
     \<and> length (eth1_data_votes x) \<le> ETH1_DATA_VOTES_LEN p
     \<and> (\<forall>y \<in> set (eth1_data_votes x). Eth1Data_ok y) \<and> eth1_deposit_index x \<le> u64_max
     \<and> length (validators x) \<le> VALIDATOR_REGISTRY_LIMIT
     \<and> (\<forall>y \<in> set (validators x). Validator_ok y)
     \<and> length (balances x) \<le> VALIDATOR_REGISTRY_LIMIT
     \<and> (\<forall>y \<in> set (balances x). y \<le> u64_max)
     \<and> length (randao_mixes x) = EPOCHS_PER_HISTORICAL_VECTOR p
     \<and> (\<forall>y \<in> set (randao_mixes x). length y = 32)
     \<and> length (slashings x) = EPOCHS_PER_SLASHINGS_VECTOR p
     \<and> (\<forall>y \<in> set (slashings x). y \<le> u64_max)
     \<and> length (previous_epoch_participation x) \<le> VALIDATOR_REGISTRY_LIMIT
     \<and> length (current_epoch_participation x) \<le> VALIDATOR_REGISTRY_LIMIT
     \<and> length (justification_bits x) = JUSTIFICATION_BITS_LENGTH
     \<and> Checkpoint_ok (previous_justified_checkpoint x) \<and> Checkpoint_ok (current_justified_checkpoint x)
     \<and> Checkpoint_ok (finalized_checkpoint x)
     \<and> length (inactivity_scores x) \<le> VALIDATOR_REGISTRY_LIMIT
     \<and> (\<forall>y \<in> set (inactivity_scores x). y \<le> u64_max)
     \<and> SyncCommittee_ok p (current_sync_committee x) \<and> SyncCommittee_ok p (next_sync_committee x)
     \<and> length (latest_block_hash x) = 32 \<and> next_withdrawal_index x \<le> u64_max
     \<and> next_withdrawal_validator_index x \<le> u64_max
     \<and> length (historical_summaries x) \<le> HISTORICAL_ROOTS_LIMIT
     \<and> (\<forall>y \<in> set (historical_summaries x). HistoricalSummary_ok y)
     \<and> deposit_requests_start_index x \<le> u64_max \<and> deposit_balance_to_consume x \<le> u64_max
     \<and> exit_balance_to_consume x \<le> u64_max \<and> earliest_exit_epoch x \<le> u64_max
     \<and> consolidation_balance_to_consume x \<le> u64_max \<and> earliest_consolidation_epoch x \<le> u64_max
     \<and> length (pending_deposits x) \<le> PENDING_DEPOSITS_LIMIT
     \<and> (\<forall>y \<in> set (pending_deposits x). PendingDeposit_ok y)
     \<and> length (pending_partial_withdrawals x) \<le> PENDING_PARTIAL_WITHDRAWALS_LIMIT p
     \<and> (\<forall>y \<in> set (pending_partial_withdrawals x). PendingPartialWithdrawal_ok y)
     \<and> length (pending_consolidations x) \<le> PENDING_CONSOLIDATIONS_LIMIT p
     \<and> (\<forall>y \<in> set (pending_consolidations x). PendingConsolidation_ok y)
     \<and> length (proposer_lookahead x) = PROPOSER_LOOKAHEAD_LEN p
     \<and> (\<forall>y \<in> set (proposer_lookahead x). y \<le> u64_max)
     \<and> length (builders x) \<le> BUILDER_REGISTRY_LIMIT
     \<and> (\<forall>y \<in> set (builders x). Builder_ok y) \<and> next_withdrawal_builder_index x \<le> u64_max
     \<and> length (execution_payload_availability x) = SLOTS_PER_HISTORICAL_ROOT p
     \<and> length (builder_pending_payments x) = BUILDER_PAYMENT_WINDOW_LEN p
     \<and> (\<forall>y \<in> set (builder_pending_payments x). BuilderPendingPayment_ok y)
     \<and> length (builder_pending_withdrawals x) \<le> BUILDER_PENDING_WITHDRAWALS_LIMIT
     \<and> (\<forall>y \<in> set (builder_pending_withdrawals x). BuilderPendingWithdrawal_ok y)
     \<and> ExecutionPayloadBid_ok (latest_execution_payload_bid x)
     \<and> length (payload_expected_withdrawals x) \<le> MAX_WITHDRAWALS_PER_PAYLOAD p
     \<and> (\<forall>y \<in> set (payload_expected_withdrawals x). Withdrawal_ok y)
     \<and> length (ptc_window x) = PTC_WINDOW_LEN p
     \<and> (\<forall>y \<in> set (ptc_window x). length y = PTC_SIZE p \<and> (\<forall>y \<in> set y. y \<le> u64_max))"
  by (simp add: BeaconState_ok_def BeaconState_ty_def BeaconState_val_def BeaconBlockHeader_ok_def Builder_ok_def BuilderPendingPayment_ok_def BuilderPendingWithdrawal_ok_def Checkpoint_ok_def Eth1Data_ok_def ExecutionPayloadBid_ok_def Fork_ok_def HistoricalSummary_ok_def PendingConsolidation_ok_def PendingDeposit_ok_def PendingPartialWithdrawal_ok_def SyncCommittee_ok_def Validator_ok_def Withdrawal_ok_def typing_simps conj_ac)

end
