(* ===== verification/State_Invariant.thy ===== *)
theory State_Invariant
  imports Typing
begin

text \<open>
  The invariant of the beacon state: every field holds a value of its type, and the lists with one
  entry per validator have the length of the registry. For each field that the transition writes, a
  rule says which new values keep the invariant (collection \<open>state_upd\<close>).
\<close>

named_theorems state_upd \<open>field updates that keep the state invariant\<close>

definition registry_aligned :: "BeaconState \<Rightarrow> bool" where
  "registry_aligned st \<longleftrightarrow> length (balances st) = length (validators st)
     \<and> length (previous_epoch_participation st) = length (validators st)
     \<and> length (current_epoch_participation st) = length (validators st)
     \<and> length (inactivity_scores st) = length (validators st)"

definition state_ok :: "preset \<Rightarrow> BeaconState \<Rightarrow> bool" where
  "state_ok p st \<longleftrightarrow> BeaconState_ok p st \<and> registry_aligned st"

lemmas state_ok_iff = state_ok_def BeaconState_ok_iff registry_aligned_def

section \<open>What the invariant gives\<close>

lemma state_ok_aligned:
  assumes "state_ok p st"
  shows "length (balances st) = length (validators st)"
    and "length (previous_epoch_participation st) = length (validators st)"
    and "length (current_epoch_participation st) = length (validators st)"
    and "length (inactivity_scores st) = length (validators st)"
  using assms by (simp_all add: state_ok_def registry_aligned_def)

lemma state_ok_genesis_time:
  assumes "state_ok p st"
  shows "genesis_time st \<le> u64_max"
  using assms by (simp_all add: state_ok_def BeaconState_ok_iff)

lemma state_ok_genesis_validators_root:
  assumes "state_ok p st"
  shows "length (genesis_validators_root st) = 32"
  using assms by (simp_all add: state_ok_def BeaconState_ok_iff)

lemma state_ok_slot:
  assumes "state_ok p st"
  shows "slot st \<le> u64_max"
  using assms by (simp_all add: state_ok_def BeaconState_ok_iff)

lemma state_ok_fork:
  assumes "state_ok p st"
  shows "Fork_ok (fork st)"
  using assms by (simp_all add: state_ok_def BeaconState_ok_iff)

lemma state_ok_latest_block_header:
  assumes "state_ok p st"
  shows "BeaconBlockHeader_ok (latest_block_header st)"
  using assms by (simp_all add: state_ok_def BeaconState_ok_iff)

lemma state_ok_block_roots:
  assumes "state_ok p st"
  shows "length (block_roots st) = SLOTS_PER_HISTORICAL_ROOT p"
    and "(\<forall>y \<in> set (block_roots st). length y = 32)"
  using assms by (simp_all add: state_ok_def BeaconState_ok_iff)

lemma state_ok_state_roots:
  assumes "state_ok p st"
  shows "length (state_roots st) = SLOTS_PER_HISTORICAL_ROOT p"
    and "(\<forall>y \<in> set (state_roots st). length y = 32)"
  using assms by (simp_all add: state_ok_def BeaconState_ok_iff)

lemma state_ok_historical_roots:
  assumes "state_ok p st"
  shows "length (historical_roots st) \<le> HISTORICAL_ROOTS_LIMIT"
    and "(\<forall>y \<in> set (historical_roots st). length y = 32)"
  using assms by (simp_all add: state_ok_def BeaconState_ok_iff)

lemma state_ok_eth1_data:
  assumes "state_ok p st"
  shows "Eth1Data_ok (eth1_data st)"
  using assms by (simp_all add: state_ok_def BeaconState_ok_iff)

lemma state_ok_eth1_data_votes:
  assumes "state_ok p st"
  shows "length (eth1_data_votes st) \<le> ETH1_DATA_VOTES_LEN p"
    and "(\<forall>y \<in> set (eth1_data_votes st). Eth1Data_ok y)"
  using assms by (simp_all add: state_ok_def BeaconState_ok_iff)

lemma state_ok_eth1_deposit_index:
  assumes "state_ok p st"
  shows "eth1_deposit_index st \<le> u64_max"
  using assms by (simp_all add: state_ok_def BeaconState_ok_iff)

lemma state_ok_validators:
  assumes "state_ok p st"
  shows "length (validators st) \<le> VALIDATOR_REGISTRY_LIMIT"
    and "(\<forall>y \<in> set (validators st). Validator_ok y)"
  using assms by (simp_all add: state_ok_def BeaconState_ok_iff)

lemma state_ok_balances:
  assumes "state_ok p st"
  shows "length (balances st) \<le> VALIDATOR_REGISTRY_LIMIT"
    and "(\<forall>y \<in> set (balances st). y \<le> u64_max)"
  using assms by (simp_all add: state_ok_def BeaconState_ok_iff)

lemma state_ok_randao_mixes:
  assumes "state_ok p st"
  shows "length (randao_mixes st) = EPOCHS_PER_HISTORICAL_VECTOR p"
    and "(\<forall>y \<in> set (randao_mixes st). length y = 32)"
  using assms by (simp_all add: state_ok_def BeaconState_ok_iff)

lemma state_ok_slashings:
  assumes "state_ok p st"
  shows "length (slashings st) = EPOCHS_PER_SLASHINGS_VECTOR p"
    and "(\<forall>y \<in> set (slashings st). y \<le> u64_max)"
  using assms by (simp_all add: state_ok_def BeaconState_ok_iff)

lemma state_ok_previous_epoch_participation:
  assumes "state_ok p st"
  shows "length (previous_epoch_participation st) \<le> VALIDATOR_REGISTRY_LIMIT"
  using assms by (simp_all add: state_ok_def BeaconState_ok_iff)

lemma state_ok_current_epoch_participation:
  assumes "state_ok p st"
  shows "length (current_epoch_participation st) \<le> VALIDATOR_REGISTRY_LIMIT"
  using assms by (simp_all add: state_ok_def BeaconState_ok_iff)

lemma state_ok_justification_bits:
  assumes "state_ok p st"
  shows "length (justification_bits st) = JUSTIFICATION_BITS_LENGTH"
  using assms by (simp_all add: state_ok_def BeaconState_ok_iff)

lemma state_ok_previous_justified_checkpoint:
  assumes "state_ok p st"
  shows "Checkpoint_ok (previous_justified_checkpoint st)"
  using assms by (simp_all add: state_ok_def BeaconState_ok_iff)

lemma state_ok_current_justified_checkpoint:
  assumes "state_ok p st"
  shows "Checkpoint_ok (current_justified_checkpoint st)"
  using assms by (simp_all add: state_ok_def BeaconState_ok_iff)

lemma state_ok_finalized_checkpoint:
  assumes "state_ok p st"
  shows "Checkpoint_ok (finalized_checkpoint st)"
  using assms by (simp_all add: state_ok_def BeaconState_ok_iff)

lemma state_ok_inactivity_scores:
  assumes "state_ok p st"
  shows "length (inactivity_scores st) \<le> VALIDATOR_REGISTRY_LIMIT"
    and "(\<forall>y \<in> set (inactivity_scores st). y \<le> u64_max)"
  using assms by (simp_all add: state_ok_def BeaconState_ok_iff)

lemma state_ok_current_sync_committee:
  assumes "state_ok p st"
  shows "SyncCommittee_ok p (current_sync_committee st)"
  using assms by (simp_all add: state_ok_def BeaconState_ok_iff)

lemma state_ok_next_sync_committee:
  assumes "state_ok p st"
  shows "SyncCommittee_ok p (next_sync_committee st)"
  using assms by (simp_all add: state_ok_def BeaconState_ok_iff)

lemma state_ok_latest_block_hash:
  assumes "state_ok p st"
  shows "length (latest_block_hash st) = 32"
  using assms by (simp_all add: state_ok_def BeaconState_ok_iff)

lemma state_ok_next_withdrawal_index:
  assumes "state_ok p st"
  shows "next_withdrawal_index st \<le> u64_max"
  using assms by (simp_all add: state_ok_def BeaconState_ok_iff)

lemma state_ok_next_withdrawal_validator_index:
  assumes "state_ok p st"
  shows "next_withdrawal_validator_index st \<le> u64_max"
  using assms by (simp_all add: state_ok_def BeaconState_ok_iff)

lemma state_ok_historical_summaries:
  assumes "state_ok p st"
  shows "length (historical_summaries st) \<le> HISTORICAL_ROOTS_LIMIT"
    and "(\<forall>y \<in> set (historical_summaries st). HistoricalSummary_ok y)"
  using assms by (simp_all add: state_ok_def BeaconState_ok_iff)

lemma state_ok_deposit_requests_start_index:
  assumes "state_ok p st"
  shows "deposit_requests_start_index st \<le> u64_max"
  using assms by (simp_all add: state_ok_def BeaconState_ok_iff)

lemma state_ok_deposit_balance_to_consume:
  assumes "state_ok p st"
  shows "deposit_balance_to_consume st \<le> u64_max"
  using assms by (simp_all add: state_ok_def BeaconState_ok_iff)

lemma state_ok_exit_balance_to_consume:
  assumes "state_ok p st"
  shows "exit_balance_to_consume st \<le> u64_max"
  using assms by (simp_all add: state_ok_def BeaconState_ok_iff)

lemma state_ok_earliest_exit_epoch:
  assumes "state_ok p st"
  shows "earliest_exit_epoch st \<le> u64_max"
  using assms by (simp_all add: state_ok_def BeaconState_ok_iff)

lemma state_ok_consolidation_balance_to_consume:
  assumes "state_ok p st"
  shows "consolidation_balance_to_consume st \<le> u64_max"
  using assms by (simp_all add: state_ok_def BeaconState_ok_iff)

lemma state_ok_earliest_consolidation_epoch:
  assumes "state_ok p st"
  shows "earliest_consolidation_epoch st \<le> u64_max"
  using assms by (simp_all add: state_ok_def BeaconState_ok_iff)

lemma state_ok_pending_deposits:
  assumes "state_ok p st"
  shows "length (pending_deposits st) \<le> PENDING_DEPOSITS_LIMIT"
    and "(\<forall>y \<in> set (pending_deposits st). PendingDeposit_ok y)"
  using assms by (simp_all add: state_ok_def BeaconState_ok_iff)

lemma state_ok_pending_partial_withdrawals:
  assumes "state_ok p st"
  shows "length (pending_partial_withdrawals st) \<le> PENDING_PARTIAL_WITHDRAWALS_LIMIT p"
    and "(\<forall>y \<in> set (pending_partial_withdrawals st). PendingPartialWithdrawal_ok y)"
  using assms by (simp_all add: state_ok_def BeaconState_ok_iff)

lemma state_ok_pending_consolidations:
  assumes "state_ok p st"
  shows "length (pending_consolidations st) \<le> PENDING_CONSOLIDATIONS_LIMIT p"
    and "(\<forall>y \<in> set (pending_consolidations st). PendingConsolidation_ok y)"
  using assms by (simp_all add: state_ok_def BeaconState_ok_iff)

lemma state_ok_proposer_lookahead:
  assumes "state_ok p st"
  shows "length (proposer_lookahead st) = PROPOSER_LOOKAHEAD_LEN p"
    and "(\<forall>y \<in> set (proposer_lookahead st). y \<le> u64_max)"
  using assms by (simp_all add: state_ok_def BeaconState_ok_iff)

lemma state_ok_builders:
  assumes "state_ok p st"
  shows "length (builders st) \<le> BUILDER_REGISTRY_LIMIT"
    and "(\<forall>y \<in> set (builders st). Builder_ok y)"
  using assms by (simp_all add: state_ok_def BeaconState_ok_iff)

lemma state_ok_next_withdrawal_builder_index:
  assumes "state_ok p st"
  shows "next_withdrawal_builder_index st \<le> u64_max"
  using assms by (simp_all add: state_ok_def BeaconState_ok_iff)

lemma state_ok_execution_payload_availability:
  assumes "state_ok p st"
  shows "length (execution_payload_availability st) = SLOTS_PER_HISTORICAL_ROOT p"
  using assms by (simp_all add: state_ok_def BeaconState_ok_iff)

lemma state_ok_builder_pending_payments:
  assumes "state_ok p st"
  shows "length (builder_pending_payments st) = BUILDER_PAYMENT_WINDOW_LEN p"
    and "(\<forall>y \<in> set (builder_pending_payments st). BuilderPendingPayment_ok y)"
  using assms by (simp_all add: state_ok_def BeaconState_ok_iff)

lemma state_ok_builder_pending_withdrawals:
  assumes "state_ok p st"
  shows "length (builder_pending_withdrawals st) \<le> BUILDER_PENDING_WITHDRAWALS_LIMIT"
    and "(\<forall>y \<in> set (builder_pending_withdrawals st). BuilderPendingWithdrawal_ok y)"
  using assms by (simp_all add: state_ok_def BeaconState_ok_iff)

lemma state_ok_latest_execution_payload_bid:
  assumes "state_ok p st"
  shows "ExecutionPayloadBid_ok (latest_execution_payload_bid st)"
  using assms by (simp_all add: state_ok_def BeaconState_ok_iff)

lemma state_ok_payload_expected_withdrawals:
  assumes "state_ok p st"
  shows "length (payload_expected_withdrawals st) \<le> MAX_WITHDRAWALS_PER_PAYLOAD p"
    and "(\<forall>y \<in> set (payload_expected_withdrawals st). Withdrawal_ok y)"
  using assms by (simp_all add: state_ok_def BeaconState_ok_iff)

lemma state_ok_ptc_window:
  assumes "state_ok p st"
  shows "length (ptc_window st) = PTC_WINDOW_LEN p"
    and "(\<forall>y \<in> set (ptc_window st). length y = PTC_SIZE p \<and> (\<forall>y \<in> set y. y \<le> u64_max))"
  using assms by (simp_all add: state_ok_def BeaconState_ok_iff)

section \<open>Updates that keep it\<close>

lemma state_ok_upd_slot [state_upd]:
  "state_ok p st \<Longrightarrow> v \<le> u64_max
     \<Longrightarrow> state_ok p (st\<lparr>slot := v\<rparr>)"
  by (simp add: state_ok_iff)

lemma state_ok_upd_latest_block_header [state_upd]:
  "state_ok p st \<Longrightarrow> BeaconBlockHeader_ok v
     \<Longrightarrow> state_ok p (st\<lparr>latest_block_header := v\<rparr>)"
  by (simp add: state_ok_iff)

lemma state_ok_upd_block_roots [state_upd]:
  "state_ok p st \<Longrightarrow> length v = SLOTS_PER_HISTORICAL_ROOT p \<Longrightarrow> (\<forall>y \<in> set v. length y = 32)
     \<Longrightarrow> state_ok p (st\<lparr>block_roots := v\<rparr>)"
  by (simp add: state_ok_iff)

lemma state_ok_upd_state_roots [state_upd]:
  "state_ok p st \<Longrightarrow> length v = SLOTS_PER_HISTORICAL_ROOT p \<Longrightarrow> (\<forall>y \<in> set v. length y = 32)
     \<Longrightarrow> state_ok p (st\<lparr>state_roots := v\<rparr>)"
  by (simp add: state_ok_iff)

lemma state_ok_upd_eth1_data [state_upd]:
  "state_ok p st \<Longrightarrow> Eth1Data_ok v
     \<Longrightarrow> state_ok p (st\<lparr>eth1_data := v\<rparr>)"
  by (simp add: state_ok_iff)

lemma state_ok_upd_eth1_data_votes [state_upd]:
  "state_ok p st \<Longrightarrow> length v \<le> ETH1_DATA_VOTES_LEN p \<Longrightarrow> (\<forall>y \<in> set v. Eth1Data_ok y)
     \<Longrightarrow> state_ok p (st\<lparr>eth1_data_votes := v\<rparr>)"
  by (simp add: state_ok_iff)

lemma state_ok_upd_validators [state_upd]:
  "state_ok p st \<Longrightarrow> length v = length (validators st) \<Longrightarrow> (\<forall>y \<in> set v. Validator_ok y)
     \<Longrightarrow> state_ok p (st\<lparr>validators := v\<rparr>)"
  by (simp add: state_ok_iff)

lemma state_ok_upd_balances [state_upd]:
  "state_ok p st \<Longrightarrow> length v = length (balances st) \<Longrightarrow> (\<forall>y \<in> set v. y \<le> u64_max)
     \<Longrightarrow> state_ok p (st\<lparr>balances := v\<rparr>)"
  by (simp add: state_ok_iff)

lemma state_ok_upd_randao_mixes [state_upd]:
  "state_ok p st \<Longrightarrow> length v = EPOCHS_PER_HISTORICAL_VECTOR p \<Longrightarrow> (\<forall>y \<in> set v. length y = 32)
     \<Longrightarrow> state_ok p (st\<lparr>randao_mixes := v\<rparr>)"
  by (simp add: state_ok_iff)

lemma state_ok_upd_slashings [state_upd]:
  "state_ok p st \<Longrightarrow> length v = EPOCHS_PER_SLASHINGS_VECTOR p \<Longrightarrow> (\<forall>y \<in> set v. y \<le> u64_max)
     \<Longrightarrow> state_ok p (st\<lparr>slashings := v\<rparr>)"
  by (simp add: state_ok_iff)

lemma state_ok_upd_previous_epoch_participation [state_upd]:
  "state_ok p st \<Longrightarrow> length v = length (previous_epoch_participation st)
     \<Longrightarrow> state_ok p (st\<lparr>previous_epoch_participation := v\<rparr>)"
  by (simp add: state_ok_iff)

lemma state_ok_upd_current_epoch_participation [state_upd]:
  "state_ok p st \<Longrightarrow> length v = length (current_epoch_participation st)
     \<Longrightarrow> state_ok p (st\<lparr>current_epoch_participation := v\<rparr>)"
  by (simp add: state_ok_iff)

lemma state_ok_upd_justification_bits [state_upd]:
  "state_ok p st \<Longrightarrow> length v = JUSTIFICATION_BITS_LENGTH
     \<Longrightarrow> state_ok p (st\<lparr>justification_bits := v\<rparr>)"
  by (simp add: state_ok_iff)

lemma state_ok_upd_previous_justified_checkpoint [state_upd]:
  "state_ok p st \<Longrightarrow> Checkpoint_ok v
     \<Longrightarrow> state_ok p (st\<lparr>previous_justified_checkpoint := v\<rparr>)"
  by (simp add: state_ok_iff)

lemma state_ok_upd_current_justified_checkpoint [state_upd]:
  "state_ok p st \<Longrightarrow> Checkpoint_ok v
     \<Longrightarrow> state_ok p (st\<lparr>current_justified_checkpoint := v\<rparr>)"
  by (simp add: state_ok_iff)

lemma state_ok_upd_finalized_checkpoint [state_upd]:
  "state_ok p st \<Longrightarrow> Checkpoint_ok v
     \<Longrightarrow> state_ok p (st\<lparr>finalized_checkpoint := v\<rparr>)"
  by (simp add: state_ok_iff)

lemma state_ok_upd_inactivity_scores [state_upd]:
  "state_ok p st \<Longrightarrow> length v = length (inactivity_scores st) \<Longrightarrow> (\<forall>y \<in> set v. y \<le> u64_max)
     \<Longrightarrow> state_ok p (st\<lparr>inactivity_scores := v\<rparr>)"
  by (simp add: state_ok_iff)

lemma state_ok_upd_current_sync_committee [state_upd]:
  "state_ok p st \<Longrightarrow> SyncCommittee_ok p v
     \<Longrightarrow> state_ok p (st\<lparr>current_sync_committee := v\<rparr>)"
  by (simp add: state_ok_iff)

lemma state_ok_upd_next_sync_committee [state_upd]:
  "state_ok p st \<Longrightarrow> SyncCommittee_ok p v
     \<Longrightarrow> state_ok p (st\<lparr>next_sync_committee := v\<rparr>)"
  by (simp add: state_ok_iff)

lemma state_ok_upd_latest_block_hash [state_upd]:
  "state_ok p st \<Longrightarrow> length v = 32
     \<Longrightarrow> state_ok p (st\<lparr>latest_block_hash := v\<rparr>)"
  by (simp add: state_ok_iff)

lemma state_ok_upd_next_withdrawal_index [state_upd]:
  "state_ok p st \<Longrightarrow> v \<le> u64_max
     \<Longrightarrow> state_ok p (st\<lparr>next_withdrawal_index := v\<rparr>)"
  by (simp add: state_ok_iff)

lemma state_ok_upd_next_withdrawal_validator_index [state_upd]:
  "state_ok p st \<Longrightarrow> v \<le> u64_max
     \<Longrightarrow> state_ok p (st\<lparr>next_withdrawal_validator_index := v\<rparr>)"
  by (simp add: state_ok_iff)

lemma state_ok_upd_historical_summaries [state_upd]:
  "state_ok p st \<Longrightarrow> length v \<le> HISTORICAL_ROOTS_LIMIT \<Longrightarrow> (\<forall>y \<in> set v. HistoricalSummary_ok y)
     \<Longrightarrow> state_ok p (st\<lparr>historical_summaries := v\<rparr>)"
  by (simp add: state_ok_iff)

lemma state_ok_upd_deposit_requests_start_index [state_upd]:
  "state_ok p st \<Longrightarrow> v \<le> u64_max
     \<Longrightarrow> state_ok p (st\<lparr>deposit_requests_start_index := v\<rparr>)"
  by (simp add: state_ok_iff)

lemma state_ok_upd_deposit_balance_to_consume [state_upd]:
  "state_ok p st \<Longrightarrow> v \<le> u64_max
     \<Longrightarrow> state_ok p (st\<lparr>deposit_balance_to_consume := v\<rparr>)"
  by (simp add: state_ok_iff)

lemma state_ok_upd_exit_balance_to_consume [state_upd]:
  "state_ok p st \<Longrightarrow> v \<le> u64_max
     \<Longrightarrow> state_ok p (st\<lparr>exit_balance_to_consume := v\<rparr>)"
  by (simp add: state_ok_iff)

lemma state_ok_upd_earliest_exit_epoch [state_upd]:
  "state_ok p st \<Longrightarrow> v \<le> u64_max
     \<Longrightarrow> state_ok p (st\<lparr>earliest_exit_epoch := v\<rparr>)"
  by (simp add: state_ok_iff)

lemma state_ok_upd_consolidation_balance_to_consume [state_upd]:
  "state_ok p st \<Longrightarrow> v \<le> u64_max
     \<Longrightarrow> state_ok p (st\<lparr>consolidation_balance_to_consume := v\<rparr>)"
  by (simp add: state_ok_iff)

lemma state_ok_upd_earliest_consolidation_epoch [state_upd]:
  "state_ok p st \<Longrightarrow> v \<le> u64_max
     \<Longrightarrow> state_ok p (st\<lparr>earliest_consolidation_epoch := v\<rparr>)"
  by (simp add: state_ok_iff)

lemma state_ok_upd_pending_deposits [state_upd]:
  "state_ok p st \<Longrightarrow> length v \<le> PENDING_DEPOSITS_LIMIT \<Longrightarrow> (\<forall>y \<in> set v. PendingDeposit_ok y)
     \<Longrightarrow> state_ok p (st\<lparr>pending_deposits := v\<rparr>)"
  by (simp add: state_ok_iff)

lemma state_ok_upd_pending_partial_withdrawals [state_upd]:
  "state_ok p st \<Longrightarrow> length v \<le> PENDING_PARTIAL_WITHDRAWALS_LIMIT p \<Longrightarrow> (\<forall>y \<in> set v. PendingPartialWithdrawal_ok y)
     \<Longrightarrow> state_ok p (st\<lparr>pending_partial_withdrawals := v\<rparr>)"
  by (simp add: state_ok_iff)

lemma state_ok_upd_pending_consolidations [state_upd]:
  "state_ok p st \<Longrightarrow> length v \<le> PENDING_CONSOLIDATIONS_LIMIT p \<Longrightarrow> (\<forall>y \<in> set v. PendingConsolidation_ok y)
     \<Longrightarrow> state_ok p (st\<lparr>pending_consolidations := v\<rparr>)"
  by (simp add: state_ok_iff)

lemma state_ok_upd_proposer_lookahead [state_upd]:
  "state_ok p st \<Longrightarrow> length v = PROPOSER_LOOKAHEAD_LEN p \<Longrightarrow> (\<forall>y \<in> set v. y \<le> u64_max)
     \<Longrightarrow> state_ok p (st\<lparr>proposer_lookahead := v\<rparr>)"
  by (simp add: state_ok_iff)

lemma state_ok_upd_builders [state_upd]:
  "state_ok p st \<Longrightarrow> length v \<le> BUILDER_REGISTRY_LIMIT \<Longrightarrow> (\<forall>y \<in> set v. Builder_ok y)
     \<Longrightarrow> state_ok p (st\<lparr>builders := v\<rparr>)"
  by (simp add: state_ok_iff)

lemma state_ok_upd_next_withdrawal_builder_index [state_upd]:
  "state_ok p st \<Longrightarrow> v \<le> u64_max
     \<Longrightarrow> state_ok p (st\<lparr>next_withdrawal_builder_index := v\<rparr>)"
  by (simp add: state_ok_iff)

lemma state_ok_upd_execution_payload_availability [state_upd]:
  "state_ok p st \<Longrightarrow> length v = SLOTS_PER_HISTORICAL_ROOT p
     \<Longrightarrow> state_ok p (st\<lparr>execution_payload_availability := v\<rparr>)"
  by (simp add: state_ok_iff)

lemma state_ok_upd_builder_pending_payments [state_upd]:
  "state_ok p st \<Longrightarrow> length v = BUILDER_PAYMENT_WINDOW_LEN p \<Longrightarrow> (\<forall>y \<in> set v. BuilderPendingPayment_ok y)
     \<Longrightarrow> state_ok p (st\<lparr>builder_pending_payments := v\<rparr>)"
  by (simp add: state_ok_iff)

lemma state_ok_upd_builder_pending_withdrawals [state_upd]:
  "state_ok p st \<Longrightarrow> length v \<le> BUILDER_PENDING_WITHDRAWALS_LIMIT \<Longrightarrow> (\<forall>y \<in> set v. BuilderPendingWithdrawal_ok y)
     \<Longrightarrow> state_ok p (st\<lparr>builder_pending_withdrawals := v\<rparr>)"
  by (simp add: state_ok_iff)

lemma state_ok_upd_latest_execution_payload_bid [state_upd]:
  "state_ok p st \<Longrightarrow> ExecutionPayloadBid_ok v
     \<Longrightarrow> state_ok p (st\<lparr>latest_execution_payload_bid := v\<rparr>)"
  by (simp add: state_ok_iff)

lemma state_ok_upd_payload_expected_withdrawals [state_upd]:
  "state_ok p st \<Longrightarrow> length v \<le> MAX_WITHDRAWALS_PER_PAYLOAD p \<Longrightarrow> (\<forall>y \<in> set v. Withdrawal_ok y)
     \<Longrightarrow> state_ok p (st\<lparr>payload_expected_withdrawals := v\<rparr>)"
  by (simp add: state_ok_iff)

lemma state_ok_upd_ptc_window [state_upd]:
  "state_ok p st \<Longrightarrow> length v = PTC_WINDOW_LEN p \<Longrightarrow> (\<forall>y \<in> set v. length y = PTC_SIZE p \<and> (\<forall>y \<in> set y. y \<le> u64_max))
     \<Longrightarrow> state_ok p (st\<lparr>ptc_window := v\<rparr>)"
  by (simp add: state_ok_iff)

end
