(* ===== verification/Example_State.thy ===== *)
theory Example_State
  imports State_Invariant
begin

text \<open>
  A small concrete beacon state, used to instantiate theorems about the transition: four validators
  with 32 ETH, the last one slashed, at the last slot of epoch 5 of the minimal preset, with epoch 3
  finalized and epoch 4 justified.
\<close>

definition ex_pubkey :: "nat \<Rightarrow> bytes" where
  "ex_pubkey k = word_of_nat k # replicate 47 0"

definition ex_validator :: "nat \<Rightarrow> Validator" where
  "ex_validator k =
     \<lparr>v_pubkey = ex_pubkey k, v_withdrawal_credentials = 1 # replicate 31 0,
      v_effective_balance = 32000000000, v_slashed = (k = 3), v_activation_eligibility_epoch = 0,
      v_activation_epoch = 0, v_exit_epoch = FAR_FUTURE_EPOCH, v_withdrawable_epoch = FAR_FUTURE_EPOCH\<rparr>"

definition ex_checkpoint :: "nat \<Rightarrow> Checkpoint" where
  "ex_checkpoint e = \<lparr>cp_epoch = e, cp_root = replicate 32 0\<rparr>"

definition ex_header :: BeaconBlockHeader where
  "ex_header = \<lparr>bbh_slot = 46, bbh_proposer_index = 0, bbh_parent_root = replicate 32 0,
     bbh_state_root = replicate 32 0, bbh_body_root = replicate 32 0\<rparr>"

definition ex_payment :: BuilderPendingPayment where
  "ex_payment = \<lparr>bpp_weight = 0,
     bpp_withdrawal = \<lparr>bpw_fee_recipient = replicate 20 0, bpw_amount = 0, bpw_builder_index = 0\<rparr>,
     bpp_proposer_index = 0\<rparr>"

definition ex_bid :: ExecutionPayloadBid where
  "ex_bid = \<lparr>bid_parent_block_hash = replicate 32 0, bid_parent_block_root = replicate 32 0,
     bid_block_hash = replicate 32 5, bid_prev_randao = replicate 32 0, bid_fee_recipient = replicate 20 0,
     bid_gas_limit = 0, bid_builder_index = 0, bid_slot = 46, bid_value = 0, bid_execution_payment = 0,
     bid_blob_kzg_commitments = [], bid_execution_requests_root = replicate 32 0\<rparr>"

definition ex_sync_committee :: "preset \<Rightarrow> SyncCommittee" where
  "ex_sync_committee p =
     \<lparr>sc_pubkeys = replicate (SYNC_COMMITTEE_SIZE p) (ex_pubkey 0), sc_aggregate_pubkey = ex_pubkey 0\<rparr>"

definition ex_state :: "preset \<Rightarrow> BeaconState" where
  "ex_state p =
     \<lparr>genesis_time = 0, genesis_validators_root = replicate 32 0, slot = 47,
      fork = \<lparr>fork_previous_version = replicate 4 0, fork_current_version = replicate 4 0, fork_epoch = 0\<rparr>,
      latest_block_header = ex_header,
      block_roots = replicate (SLOTS_PER_HISTORICAL_ROOT p) (replicate 32 0),
      state_roots = replicate (SLOTS_PER_HISTORICAL_ROOT p) (replicate 32 0), historical_roots = [],
      eth1_data = \<lparr>eth1_deposit_root = replicate 32 0, eth1_deposit_count = 4, eth1_block_hash = replicate 32 0\<rparr>,
      eth1_data_votes = [], eth1_deposit_index = 4,
      validators = map ex_validator [0, 1, 2, 3],
      balances = [32000000000, 33000000000, 31000000000, 32000000000],
      randao_mixes = replicate (EPOCHS_PER_HISTORICAL_VECTOR p) (replicate 32 0),
      slashings = replicate (EPOCHS_PER_SLASHINGS_VECTOR p) 0,
      previous_epoch_participation = [7, 7, 0, 7], current_epoch_participation = [7, 7, 7, 7],
      justification_bits = [True, True, True, False],
      previous_justified_checkpoint = ex_checkpoint 3, current_justified_checkpoint = ex_checkpoint 4,
      finalized_checkpoint = ex_checkpoint 3, inactivity_scores = [0, 0, 5, 0],
      current_sync_committee = ex_sync_committee p, next_sync_committee = ex_sync_committee p,
      latest_block_hash = replicate 32 4, next_withdrawal_index = 0, next_withdrawal_validator_index = 0,
      historical_summaries = [], deposit_requests_start_index = 0, deposit_balance_to_consume = 0,
      exit_balance_to_consume = 0, earliest_exit_epoch = 0, consolidation_balance_to_consume = 0,
      earliest_consolidation_epoch = 0, pending_deposits = [], pending_partial_withdrawals = [],
      pending_consolidations = [], proposer_lookahead = replicate (PROPOSER_LOOKAHEAD_LEN p) 0,
      builders = [], next_withdrawal_builder_index = 0,
      execution_payload_availability = replicate (SLOTS_PER_HISTORICAL_ROOT p) True,
      builder_pending_payments = replicate (BUILDER_PAYMENT_WINDOW_LEN p) ex_payment,
      builder_pending_withdrawals = [], latest_execution_payload_bid = ex_bid,
      payload_expected_withdrawals = [],
      ptc_window = replicate (PTC_WINDOW_LEN p) (replicate (PTC_SIZE p) 0)\<rparr>"

lemmas ex_defs = ex_state_def ex_pubkey_def ex_validator_def ex_checkpoint_def ex_header_def ex_payment_def
  ex_bid_def ex_sync_committee_def

lemma ex_state_typed: "BeaconState_ok p (ex_state p)"
  unfolding BeaconState_ok_iff
  by (simp add: ex_defs BeaconBlockHeader_ok_iff Fork_ok_iff Eth1Data_ok_iff Validator_ok_iff Checkpoint_ok_iff
      SyncCommittee_ok_iff ExecutionPayloadBid_ok_iff BuilderPendingPayment_ok_iff
      BuilderPendingWithdrawal_ok_iff u64_max_def FAR_FUTURE_EPOCH_def VALIDATOR_REGISTRY_LIMIT_def
      JUSTIFICATION_BITS_LENGTH_def)

lemma ex_state_ok: "state_ok p (ex_state p)"
  unfolding state_ok_def by (rule conjI [OF ex_state_typed]) (simp add: registry_aligned_def ex_defs)

lemma ex_state_sel [simp]:
  "genesis_time (ex_state p) = 0"
  "genesis_validators_root (ex_state p) = replicate 32 0"
  "slot (ex_state p) = 47"
  "fork (ex_state p) = \<lparr>fork_previous_version = replicate 4 0, fork_current_version = replicate 4 0, fork_epoch = 0\<rparr>"
  "latest_block_header (ex_state p) = ex_header"
  "block_roots (ex_state p) = replicate (SLOTS_PER_HISTORICAL_ROOT p) (replicate 32 0)"
  "state_roots (ex_state p) = replicate (SLOTS_PER_HISTORICAL_ROOT p) (replicate 32 0)"
  "historical_roots (ex_state p) = []"
  "eth1_data (ex_state p) = \<lparr>eth1_deposit_root = replicate 32 0, eth1_deposit_count = 4, eth1_block_hash = replicate 32 0\<rparr>"
  "eth1_data_votes (ex_state p) = []"
  "eth1_deposit_index (ex_state p) = 4"
  "validators (ex_state p) = map ex_validator [0, 1, 2, 3]"
  "balances (ex_state p) = [32000000000, 33000000000, 31000000000, 32000000000]"
  "randao_mixes (ex_state p) = replicate (EPOCHS_PER_HISTORICAL_VECTOR p) (replicate 32 0)"
  "slashings (ex_state p) = replicate (EPOCHS_PER_SLASHINGS_VECTOR p) 0"
  "previous_epoch_participation (ex_state p) = [7, 7, 0, 7]"
  "current_epoch_participation (ex_state p) = [7, 7, 7, 7]"
  "justification_bits (ex_state p) = [True, True, True, False]"
  "previous_justified_checkpoint (ex_state p) = ex_checkpoint 3"
  "current_justified_checkpoint (ex_state p) = ex_checkpoint 4"
  "finalized_checkpoint (ex_state p) = ex_checkpoint 3"
  "inactivity_scores (ex_state p) = [0, 0, 5, 0]"
  "current_sync_committee (ex_state p) = ex_sync_committee p"
  "next_sync_committee (ex_state p) = ex_sync_committee p"
  "latest_block_hash (ex_state p) = replicate 32 4"
  "next_withdrawal_index (ex_state p) = 0"
  "next_withdrawal_validator_index (ex_state p) = 0"
  "historical_summaries (ex_state p) = []"
  "deposit_requests_start_index (ex_state p) = 0"
  "deposit_balance_to_consume (ex_state p) = 0"
  "exit_balance_to_consume (ex_state p) = 0"
  "earliest_exit_epoch (ex_state p) = 0"
  "consolidation_balance_to_consume (ex_state p) = 0"
  "earliest_consolidation_epoch (ex_state p) = 0"
  "pending_deposits (ex_state p) = []"
  "pending_partial_withdrawals (ex_state p) = []"
  "pending_consolidations (ex_state p) = []"
  "proposer_lookahead (ex_state p) = replicate (PROPOSER_LOOKAHEAD_LEN p) 0"
  "builders (ex_state p) = []"
  "next_withdrawal_builder_index (ex_state p) = 0"
  "execution_payload_availability (ex_state p) = replicate (SLOTS_PER_HISTORICAL_ROOT p) True"
  "builder_pending_payments (ex_state p) = replicate (BUILDER_PAYMENT_WINDOW_LEN p) ex_payment"
  "builder_pending_withdrawals (ex_state p) = []"
  "latest_execution_payload_bid (ex_state p) = ex_bid"
  "payload_expected_withdrawals (ex_state p) = []"
  "ptc_window (ex_state p) = replicate (PTC_WINDOW_LEN p) (replicate (PTC_SIZE p) 0)"
  by (simp_all only: ex_state_def BeaconState.select_convs)

lemma ex_validator_sel [simp]:
  "v_pubkey (ex_validator k) = ex_pubkey k"
  "v_withdrawal_credentials (ex_validator k) = 1 # replicate 31 0"
  "v_effective_balance (ex_validator k) = 32000000000"
  "v_slashed (ex_validator k) \<longleftrightarrow> k = 3"
  "v_activation_eligibility_epoch (ex_validator k) = 0"
  "v_activation_epoch (ex_validator k) = 0"
  "v_exit_epoch (ex_validator k) = FAR_FUTURE_EPOCH"
  "v_withdrawable_epoch (ex_validator k) = FAR_FUTURE_EPOCH"
  by (simp_all add: ex_validator_def)

lemma ex_checkpoint_sel [simp]: "cp_epoch (ex_checkpoint e) = e" "cp_root (ex_checkpoint e) = replicate 32 0"
  by (simp_all add: ex_checkpoint_def)

end
