(* ===== verification/Validators.thy ===== *)
theory Validators
  imports Example_State
begin

text \<open>
  Validator predicates and registry lookups (\<open>state_transition/validator.rs\<close>), the active set
  (\<open>state_transition/committee.rs\<close>), and balances: mutation, totals, base rewards, participation and the
  reward and penalty deltas (\<open>state_transition/balance.rs\<close>). The lemmas show what each operation
  computes and that it keeps the state invariant without panicking.
\<close>

section \<open>Validator predicates (validator.rs)\<close>

definition is_active_validator :: "Validator \<Rightarrow> Epoch \<Rightarrow> bool" where
  "is_active_validator v epoch \<longleftrightarrow> v_activation_epoch v \<le> epoch \<and> epoch < v_exit_epoch v"

definition is_slashable_validator :: "Validator \<Rightarrow> Epoch \<Rightarrow> bool" where
  "is_slashable_validator v epoch \<longleftrightarrow>
     \<not> v_slashed v \<and> v_activation_epoch v \<le> epoch \<and> epoch < v_withdrawable_epoch v"

definition has_eth1_withdrawal_credential :: "Validator \<Rightarrow> bool" where
  "has_eth1_withdrawal_credential v \<longleftrightarrow> v_withdrawal_credentials v ! 0 = ETH1_ADDRESS_WITHDRAWAL_PREFIX"

definition has_compounding_withdrawal_credential :: "Validator \<Rightarrow> bool" where
  "has_compounding_withdrawal_credential v \<longleftrightarrow>
     v_withdrawal_credentials v ! 0 = COMPOUNDING_WITHDRAWAL_PREFIX"

definition has_execution_withdrawal_credential :: "Validator \<Rightarrow> bool" where
  "has_execution_withdrawal_credential v \<longleftrightarrow>
     has_eth1_withdrawal_credential v \<or> has_compounding_withdrawal_credential v"

definition is_fully_withdrawable_validator :: "Validator \<Rightarrow> Gwei \<Rightarrow> Epoch \<Rightarrow> bool" where
  "is_fully_withdrawable_validator v balance epoch \<longleftrightarrow>
     has_execution_withdrawal_credential v \<and> v_withdrawable_epoch v \<le> epoch \<and> balance > 0"

definition get_max_effective_balance :: "Validator \<Rightarrow> Gwei" where
  "get_max_effective_balance v =
     (if has_compounding_withdrawal_credential v then MAX_EFFECTIVE_BALANCE else MIN_ACTIVATION_BALANCE)"

definition is_partially_withdrawable_validator :: "Validator \<Rightarrow> Gwei \<Rightarrow> bool" where
  "is_partially_withdrawable_validator v balance \<longleftrightarrow>
     (let max = get_max_effective_balance v;
          has_max_effective_balance = (v_effective_balance v = max);
          has_excess_balance = (balance > max)
      in has_execution_withdrawal_credential v \<and> has_max_effective_balance \<and> has_excess_balance)"

section \<open>Registry lookups (validator.rs)\<close>

definition validator :: "BeaconState \<Rightarrow> ValidatorIndex \<Rightarrow> Validator tres" where
  "validator st index = or_err (get_at (validators st) index) (RegistryErr (Reg_ValidatorIndexOutOfRange index))"

definition builder :: "BeaconState \<Rightarrow> BuilderIndex \<Rightarrow> Builder tres" where
  "builder st index = or_err (get_at (builders st) index) (RegistryErr (Reg_BuilderIndexOutOfRange index))"

definition validator_index :: "BeaconState \<Rightarrow> BLSPubkey \<Rightarrow> ValidatorIndex option" where
  "validator_index st pubkey = position (\<lambda>v. v_pubkey v = pubkey) (validators st)"

definition builder_index :: "BeaconState \<Rightarrow> BLSPubkey \<Rightarrow> BuilderIndex option" where
  "builder_index st pubkey = position (\<lambda>b. bld_pubkey b = pubkey) (builders st)"

section \<open>The active set (committee.rs)\<close>

definition get_active_validator_indices :: "BeaconState \<Rightarrow> Epoch \<Rightarrow> ValidatorIndex list" where
  "get_active_validator_indices st epoch =
     map fst (filter (\<lambda>(i, v). is_active_validator v epoch) (enumerated (validators st)))"

definition active_unslashed_validator_indices :: "BeaconState \<Rightarrow> Epoch \<Rightarrow> ValidatorIndex list tres" where
  "active_unslashed_validator_indices st epoch =
     bindR (mapR (\<lambda>index. bindR (idx (validators st) index) (\<lambda>v. Inr (index, \<not> v_slashed v)))
              (get_active_validator_indices st epoch)) (\<lambda>flags.
     Inr (map fst (filter snd flags)))"

section \<open>Balance mutation (balance.rs)\<close>

definition balance_mut :: "BeaconState \<Rightarrow> ValidatorIndex \<Rightarrow> Gwei tres" where
  "balance_mut st index =
     bindR (validator st index) (\<lambda>_.
     bindR (reject (index \<ge> length (balances st)) (InvariantErr (Inv_MissingBalance index))) (\<lambda>_.
     idx (balances st) index))"

definition increase_balance :: "BeaconState \<Rightarrow> ValidatorIndex \<Rightarrow> Gwei \<Rightarrow> BeaconState tres" where
  "increase_balance st index delta =
     bindR (balance_mut st index) (\<lambda>cell.
     bindR (or_err (checked_add cell delta) BalanceOverflow) (\<lambda>cell'.
     Inr (st\<lparr>balances := (balances st)[index := cell']\<rparr>)))"

definition decrease_balance :: "BeaconState \<Rightarrow> ValidatorIndex \<Rightarrow> Gwei \<Rightarrow> BeaconState tres" where
  "decrease_balance st index delta =
     bindR (balance_mut st index) (\<lambda>cell.
     Inr (st\<lparr>balances := (balances st)[index := saturating_sub cell delta]\<rparr>))"

record BalanceDeltas =
  bd_rewards :: "Gwei list"
  bd_penalties :: "Gwei list"

definition zeroed :: "usize \<Rightarrow> BalanceDeltas" where
  "zeroed validator_count =
     \<lparr>bd_rewards = replicate validator_count 0, bd_penalties = replicate validator_count 0\<rparr>"

definition apply_to :: "BalanceDeltas \<Rightarrow> Gwei list \<Rightarrow> Gwei list tres" where
  "apply_to deltas bals =
     bindR (foldR (\<lambda>bs (i, reward).
              bindR (reject (i \<ge> length bs) (InvariantErr (Inv_MissingBalance i))) (\<lambda>_.
              bindR (idx bs i) (\<lambda>b.
              bindR (or_err (checked_add b reward) BalanceOverflow) (\<lambda>b'.
              idx_set bs i b')))) bals (enumerated (bd_rewards deltas))) (\<lambda>bals1.
     foldR (\<lambda>bs (i, penalty).
              bindR (reject (i \<ge> length bs) (InvariantErr (Inv_MissingBalance i))) (\<lambda>_.
              bindR (idx bs i) (\<lambda>b.
              idx_set bs i (saturating_sub b penalty)))) bals1 (enumerated (bd_penalties deltas)))"

definition add_delta :: "BalanceDeltas \<Rightarrow> ValidatorIndex \<Rightarrow> Gwei \<Rightarrow> bool \<Rightarrow> BalanceDeltas tres" where
  "add_delta d index delta reward =
     (let deltas = (if reward then bd_rewards d else bd_penalties d) in
      bindR (or_err (get_at deltas index) (InvariantErr (Inv_MissingBalance index))) (\<lambda>cell.
      bindR (or_err (checked_add cell delta) BalanceOverflow) (\<lambda>cell'.
      Inr (if reward then d\<lparr>bd_rewards := deltas[index := cell']\<rparr>
           else d\<lparr>bd_penalties := deltas[index := cell']\<rparr>))))"

definition add_reward :: "BalanceDeltas \<Rightarrow> ValidatorIndex \<Rightarrow> Gwei \<Rightarrow> BalanceDeltas tres" where
  "add_reward d index delta = add_delta d index delta True"

definition add_penalty :: "BalanceDeltas \<Rightarrow> ValidatorIndex \<Rightarrow> Gwei \<Rightarrow> BalanceDeltas tres" where
  "add_penalty d index delta = add_delta d index delta False"

section \<open>Totals and base rewards (balance.rs)\<close>

text \<open>The Newton iteration of \<open>integer_squareroot\<close>; \<open>midpoint\<close> rounds down and does not overflow.\<close>

function isqrt_loop :: "u64 \<Rightarrow> u64 \<Rightarrow> u64 \<Rightarrow> u64" where
  "isqrt_loop n x y = (if y < x then isqrt_loop n y ((y + n div y) div 2) else x)"
  by pat_completeness auto
termination by (relation "measure (\<lambda>(n, x, y). x)") auto

declare isqrt_loop.simps [simp del]

definition integer_squareroot :: "u64 \<Rightarrow> u64" where
  "integer_squareroot n = (if n = u64_max then u32_max else isqrt_loop n n (div_ceil n 2))"

definition get_current_epoch :: "preset \<Rightarrow> BeaconState \<Rightarrow> Epoch" where
  "get_current_epoch p st = epoch_of p (slot st)"

definition get_total_balance :: "BeaconState \<Rightarrow> ValidatorIndex list \<Rightarrow> Gwei tres" where
  "get_total_balance st indices =
     bindR (foldR (\<lambda>total index.
              bindR (validator st index) (\<lambda>v.
              or_err (checked_add total (v_effective_balance v)) (ArithmeticOverflow Arith_BalanceSum)))
            0 indices) (\<lambda>total.
     Inr (max total EFFECTIVE_BALANCE_INCREMENT))"

definition get_total_active_balance :: "preset \<Rightarrow> BeaconState \<Rightarrow> Gwei tres" where
  "get_total_active_balance p st =
     get_total_balance st (get_active_validator_indices st (get_current_epoch p st))"

definition get_base_reward_per_increment :: "preset \<Rightarrow> BeaconState \<Rightarrow> Gwei tres" where
  "get_base_reward_per_increment p st =
     bindR (get_total_active_balance p st) (\<lambda>total.
     bindR (or_err (checked_mul EFFECTIVE_BALANCE_INCREMENT BASE_REWARD_FACTOR)
              (ArithmeticOverflow Arith_Weight)) (\<lambda>numerator.
     u_div numerator (integer_squareroot total)))"

definition get_base_reward :: "preset \<Rightarrow> BeaconState \<Rightarrow> ValidatorIndex \<Rightarrow> Gwei tres" where
  "get_base_reward p st index =
     bindR (validator st index) (\<lambda>v.
     let increments = v_effective_balance v div EFFECTIVE_BALANCE_INCREMENT in
     bindR (get_base_reward_per_increment p st) (\<lambda>per_increment.
     or_err (checked_mul increments per_increment) (ArithmeticOverflow Arith_Weight)))"

definition active_increments :: "preset \<Rightarrow> BeaconState \<Rightarrow> u64 tres" where
  "active_increments p st =
     bindR (get_total_active_balance p st) (\<lambda>total. Inr (total div EFFECTIVE_BALANCE_INCREMENT))"

definition get_previous_epoch :: "preset \<Rightarrow> BeaconState \<Rightarrow> Epoch" where
  "get_previous_epoch p st =
     (let current = get_current_epoch p st in
      if current = GENESIS_EPOCH then GENESIS_EPOCH else current - 1)"

definition get_finality_delay :: "preset \<Rightarrow> BeaconState \<Rightarrow> u64 tres" where
  "get_finality_delay p st =
     or_err (checked_sub (get_previous_epoch p st) (cp_epoch (finalized_checkpoint st)))
       (ArithmeticOverflow Arith_Epoch)"

definition is_in_inactivity_leak :: "preset \<Rightarrow> BeaconState \<Rightarrow> bool tres" where
  "is_in_inactivity_leak p st =
     bindR (get_finality_delay p st) (\<lambda>delay. Inr (delay > MIN_EPOCHS_TO_INACTIVITY_PENALTY))"

section \<open>Participation and deltas (balance.rs)\<close>

definition get_eligible_validator_indices :: "preset \<Rightarrow> BeaconState \<Rightarrow> ValidatorIndex list tres" where
  "get_eligible_validator_indices p st =
     (let previous = get_previous_epoch p st in
      bindR (or_err (checked_add previous 1) (ArithmeticOverflow Arith_Epoch)) (\<lambda>next.
      Inr (map fst (filter (\<lambda>(i, v).
             let active = is_active_validator v previous;
                 post_slash = (v_slashed v \<and> next < v_withdrawable_epoch v)
             in active \<or> post_slash) (enumerated (validators st))))))"

definition participation_flag_weight :: "usize \<Rightarrow> u64 tres" where
  "participation_flag_weight flag_index =
     or_err (get_at PARTICIPATION_FLAG_WEIGHTS flag_index)
       (PrimitiveErr (Prim_FlagIndexOutOfRange flag_index))"

definition get_unslashed_participating_indices ::
    "preset \<Rightarrow> BeaconState \<Rightarrow> usize \<Rightarrow> Epoch \<Rightarrow> ValidatorIndex list tres" where
  "get_unslashed_participating_indices p st flag_index epoch =
     bindR (participation_flag_weight flag_index) (\<lambda>_.
     let current = get_current_epoch p st; previous = get_previous_epoch p st in
     bindR (if epoch = current then Inr (current_epoch_participation st, True)
            else if epoch = previous then Inr (previous_epoch_participation st, False)
            else fail (OperationErr Op_AttestationTargetEpochInvalid)) (\<lambda>(participation, current_participation).
     foldR (\<lambda>out (i, v).
       if \<not> is_active_validator v epoch then Inr out
       else
         bindR (or_err (get_at participation i) (InvariantErr
                  (if current_participation then Inv_MissingCurrentEpochParticipation i
                   else Inv_MissingPreviousEpochParticipation i))) (\<lambda>flags.
         bindR (map_err (\<lambda>e. Err (PrimitiveErr e)) (has_flag flags flag_index)) (\<lambda>has.
         Inr (if has \<and> \<not> v_slashed v then out @ [i] else out))))
       [] (enumerated (validators st))))"

definition get_flag_index_deltas :: "preset \<Rightarrow> BeaconState \<Rightarrow> usize \<Rightarrow> BalanceDeltas tres" where
  "get_flag_index_deltas p st flag_index =
     (let deltas = zeroed (length (validators st)); previous = get_previous_epoch p st in
      bindR (get_unslashed_participating_indices p st flag_index previous) (\<lambda>participating.
      bindR (participation_flag_weight flag_index) (\<lambda>weight.
      bindR (get_total_balance st participating) (\<lambda>participating_balance.
      let participating_increments = participating_balance div EFFECTIVE_BALANCE_INCREMENT in
      bindR (get_total_active_balance p st) (\<lambda>active_balance.
      let active_increments = active_balance div EFFECTIVE_BALANCE_INCREMENT in
      bindR (get_finality_delay p st) (\<lambda>delay.
      let in_leak = (delay > MIN_EPOCHS_TO_INACTIVITY_PENALTY) in
      bindR (get_eligible_validator_indices p st) (\<lambda>eligible.
      foldR (\<lambda>d index.
        bindR (get_base_reward p st index) (\<lambda>base.
        if index \<in> set participating then
          if \<not> in_leak then
            bindR (or_err (Option.bind (checked_mul base weight) (\<lambda>v. checked_mul v participating_increments))
                     (ArithmeticOverflow Arith_Weight)) (\<lambda>numerator.
            bindR (or_err (checked_mul active_increments WEIGHT_DENOMINATOR)
                     (ArithmeticOverflow Arith_Weight)) (\<lambda>denominator.
            bindR (u_div numerator denominator) (\<lambda>reward.
            add_reward d index reward)))
          else Inr d
        else if flag_index \<noteq> TIMELY_HEAD_FLAG_INDEX then
          bindR (or_err (checked_mul base weight) (ArithmeticOverflow Arith_Weight)) (\<lambda>product.
          add_penalty d index (product div WEIGHT_DENOMINATOR))
        else Inr d))
        deltas eligible)))))))"

definition get_inactivity_penalty_deltas :: "preset \<Rightarrow> BeaconState \<Rightarrow> BalanceDeltas tres" where
  "get_inactivity_penalty_deltas p st =
     (let deltas = zeroed (length (validators st)); previous = get_previous_epoch p st in
      bindR (get_unslashed_participating_indices p st TIMELY_TARGET_FLAG_INDEX previous) (\<lambda>matching.
      bindR (or_err (checked_mul INACTIVITY_SCORE_BIAS INACTIVITY_PENALTY_QUOTIENT)
               (ArithmeticOverflow Arith_Weight)) (\<lambda>denominator.
      bindR (get_eligible_validator_indices p st) (\<lambda>eligible.
      foldR (\<lambda>d index.
        if index \<in> set matching then Inr d
        else
          bindR (validator st index) (\<lambda>v.
          bindR (or_err (get_at (inactivity_scores st) index)
                   (InvariantErr (Inv_MissingInactivityScore index))) (\<lambda>score.
          bindR (or_err (checked_mul (v_effective_balance v) score) (ArithmeticOverflow Arith_Weight)) (\<lambda>numerator.
          bindR (u_div numerator denominator) (\<lambda>penalty.
          add_penalty d index penalty)))))
        deltas eligible))))"

section \<open>Integer square root\<close>

lemma four_mult_le_square: "4 * (a * b) \<le> (a + b) ^ 2" for a b :: nat
proof (cases "a \<le> b")
  case True
  then obtain k where "b = a + k" using le_Suc_ex by blast
  then show ?thesis by (simp add: power2_eq_square algebra_simps)
next
  case False
  then obtain k where "a = b + k" using le_Suc_ex by (meson nat_le_linear)
  then show ?thesis by (simp add: power2_eq_square algebra_simps)
qed

lemma newton_step_above: "0 < x \<Longrightarrow> n < ((x + n div x) div 2 + 1) ^ 2" for n x :: nat
proof -
  assume x: "0 < x"
  let ?q = "n div x" and ?y = "(x + n div x) div 2"
  have "n < x * (?q + 1)" using x by (metis Suc_eq_plus1 dividend_less_times_div mult_Suc_right)
  moreover have "4 * (x * (?q + 1)) \<le> (x + (?q + 1)) ^ 2"
    by (rule four_mult_le_square)
  moreover have "x + (?q + 1) \<le> 2 * (?y + 1)" by simp
  then have "(x + (?q + 1)) ^ 2 \<le> (2 * (?y + 1)) ^ 2" by (rule power_mono) simp
  ultimately have "4 * n < (2 * (?y + 1)) ^ 2" by linarith
  then show ?thesis by (simp add: power2_eq_square)
qed

lemma isqrt_loop_correct:
  assumes "n < (x + 1) ^ 2" and "0 < x" and "y = (x + n div x) div 2" and "0 < n"
  shows "isqrt_loop n x y ^ 2 \<le> n \<and> n < (isqrt_loop n x y + 1) ^ 2"
  using assms
proof (induction n x y rule: isqrt_loop.induct)
  case (1 n x y)
  show ?case
  proof (cases "y < x")
    case True
    have "0 < y"
    proof (rule ccontr)
      assume "\<not> 0 < y"
      then have "x + n div x < 2" using "1.prems"(3) by simp
      then have "x = 1" and "n div x = 0" using "1.prems"(2) True by auto
      then show False using "1.prems"(4) by simp
    qed
    moreover have "n < (y + 1) ^ 2" using newton_step_above [OF "1.prems"(2)] "1.prems"(3) by simp
    ultimately show ?thesis using "1.IH" [OF True] True "1.prems"(4) by (simp add: isqrt_loop.simps [of n x y])
  next
    case False
    then have "x \<le> n div x" using "1.prems"(3) by simp
    then have "x * x \<le> n" by (meson le_trans mult_le_mono2 times_div_less_eq_dividend)
    then show ?thesis using False "1.prems"(1) by (simp add: isqrt_loop.simps [of n x y] power2_eq_square)
  qed
qed

lemma integer_squareroot_bounds:
  assumes "n \<le> u64_max"
  shows "integer_squareroot n ^ 2 \<le> n \<and> n < (integer_squareroot n + 1) ^ 2"
proof -
  consider "n = u64_max" | "n = 0" | "n \<noteq> u64_max" "0 < n" by blast
  then show ?thesis
  proof cases
    case 1
    then show ?thesis by (simp add: integer_squareroot_def u64_max_def u32_max_def)
  next
    case 2
    then show ?thesis by (simp add: integer_squareroot_def div_ceil_def isqrt_loop.simps u64_max_def)
  next
    case 3
    have "n \<le> n ^ 2" by (simp add: power2_eq_square)
    then have "n < (n + 1) ^ 2" by (simp add: power2_eq_square)
    moreover have "div_ceil n 2 = (n + n div n) div 2" using 3 by (simp add: div_ceil_def)
    ultimately show ?thesis
      using isqrt_loop_correct [of n n "div_ceil n 2"] 3 by (simp add: integer_squareroot_def)
  qed
qed

text \<open>
  C5: the Newton iteration terminates with the integer square root: the largest integer whose square
  is at most the argument, for every 64-bit argument, the special-cased maximum included.
\<close>

theorem integer_squareroot_correct:
  assumes "n \<le> u64_max"
  shows "integer_squareroot n * integer_squareroot n \<le> n
    \<and> (\<forall>k. k * k \<le> n \<longrightarrow> k \<le> integer_squareroot n)"
proof -
  let ?r = "integer_squareroot n"
  have r: "?r ^ 2 \<le> n" "n < (?r + 1) ^ 2" using integer_squareroot_bounds [OF assms] by auto
  have "k \<le> ?r" if "k * k \<le> n" for k
  proof (rule ccontr)
    assume "\<not> k \<le> ?r"
    then have "(?r + 1) ^ 2 \<le> k ^ 2" by (intro power_mono) auto
    then show False using r(2) that by (simp add: power2_eq_square)
  qed
  with r(1) show ?thesis by (simp add: power2_eq_square)
qed

theorem integer_squareroot_correct_witness: "integer_squareroot u64_max * integer_squareroot u64_max \<le> u64_max"
  using integer_squareroot_correct [of u64_max] by simp

lemma integer_squareroot_pos: "0 < n \<Longrightarrow> n \<le> u64_max \<Longrightarrow> 0 < integer_squareroot n"
  using integer_squareroot_bounds [of n] by (cases "integer_squareroot n") auto

section \<open>Lookups and the active set\<close>

lemma validator_eq_Inr [res_simps]:
  "validator st i = Inr v \<longleftrightarrow> i < length (validators st) \<and> v = validators st ! i"
  by (simp add: validator_def res_simps)

lemma builder_eq_Inr [res_simps]:
  "builder st i = Inr b \<longleftrightarrow> i < length (builders st) \<and> b = builders st ! i"
  by (simp add: builder_def res_simps)

lemma safe_validator [safe_simps]:
  "safe (validator st i) Q = (i < length (validators st) \<longrightarrow> Q (validators st ! i))"
  by (simp add: validator_def safe_simps get_at_def)

lemma safe_builder [safe_simps]:
  "safe (builder st i) Q = (i < length (builders st) \<longrightarrow> Q (builders st ! i))"
  by (simp add: builder_def safe_simps get_at_def)

lemma validator_index_eq_Some:
  "validator_index st pk = Some i \<Longrightarrow> i < length (validators st) \<and> v_pubkey (validators st ! i) = pk"
  by (simp add: validator_index_def position_eq_Some)

lemma builder_index_eq_Some:
  "builder_index st pk = Some i \<Longrightarrow> i < length (builders st) \<and> bld_pubkey (builders st ! i) = pk"
  by (simp add: builder_index_def position_eq_Some)

text \<open>Filtering an enumeration selects indices in increasing order.\<close>

lemma map_fst_filter_enumerate:
  "map fst (filter (\<lambda>(i, x). P i x) (enumerated xs)) = filter (\<lambda>i. P i (xs ! i)) [0..<length xs]"
proof (induction xs rule: rev_induct)
  case Nil
  then show ?case by simp
next
  case (snoc x xs)
  have "filter (\<lambda>i. P i ((xs @ [x]) ! i)) [0..<length xs] = filter (\<lambda>i. P i (xs ! i)) [0..<length xs]"
    by (rule filter_cong) (simp_all add: nth_append)
  with snoc show ?case by (simp add: enumerate_append_eq)
qed

lemma active_indices_eq:
  "get_active_validator_indices st e =
     filter (\<lambda>i. is_active_validator (validators st ! i) e) [0..<length (validators st)]"
  unfolding get_active_validator_indices_def by (rule map_fst_filter_enumerate)

lemma active_index_iff:
  "i \<in> set (get_active_validator_indices st e) \<longleftrightarrow>
     i < length (validators st) \<and> is_active_validator (validators st ! i) e"
  by (auto simp: active_indices_eq)

lemma active_indices_distinct: "distinct (get_active_validator_indices st e)"
  by (simp add: active_indices_eq)

lemma active_indices_length: "length (get_active_validator_indices st e) \<le> length (validators st)"
  unfolding active_indices_eq by (metis diff_zero length_filter_le length_upt)

lemma active_unslashed_safe:
  "safe (active_unslashed_validator_indices st e) (\<lambda>is. set is \<subseteq> {..<length (validators st)})"
proof -
  have "safe (mapR (\<lambda>index. bindR (idx (validators st) index) (\<lambda>v. Inr (index, \<not> v_slashed v)))
      (get_active_validator_indices st e))
    (\<lambda>ys. list_all (\<lambda>(i, _). i < length (validators st)) ys
        \<and> length ys = length (get_active_validator_indices st e))"
    by (rule safe_mapR) (simp add: safe_simps active_index_iff)
  then show ?thesis unfolding active_unslashed_validator_indices_def safe_bind
    by (rule safe_mono) (auto simp: list_all_iff)
qed

section \<open>Balance mutation\<close>

lemma safe_balance_mut [safe_simps]:
  "safe (balance_mut st i) Q =
     (i < length (validators st) \<longrightarrow> i < length (balances st) \<longrightarrow> Q (balances st ! i))"
  by (auto simp: balance_mut_def safe_simps)

lemma balance_mut_eq_Inr [res_simps]:
  "balance_mut st i = Inr b \<longleftrightarrow>
     i < length (validators st) \<and> i < length (balances st) \<and> b = balances st ! i"
  by (auto simp: balance_mut_def res_simps)

lemma increase_balance_eq_Inr [res_simps]:
  "increase_balance st i d = Inr st' \<longleftrightarrow>
     i < length (validators st) \<and> i < length (balances st) \<and> balances st ! i + d \<le> u64_max
     \<and> st' = st\<lparr>balances := (balances st)[i := balances st ! i + d]\<rparr>"
  by (auto simp: increase_balance_def res_simps)

lemma decrease_balance_eq_Inr [res_simps]:
  "decrease_balance st i d = Inr st' \<longleftrightarrow>
     i < length (validators st) \<and> i < length (balances st)
     \<and> st' = st\<lparr>balances := (balances st)[i := balances st ! i - d]\<rparr>"
  by (auto simp: decrease_balance_def res_simps saturating_sub_def)

lemma increase_balance_ok:
  assumes "state_ok p st"
  shows "safe (increase_balance st i d)
    (\<lambda>st'. state_ok p st' \<and> st' = st\<lparr>balances := (balances st)[i := balances st ! i + d]\<rparr>)"
  unfolding increase_balance_def
  using assms
  by (auto simp: safe_simps res_simps intro!: state_upd dest: state_ok_balances(2)
      set_update_subset_insert [THEN subsetD])

lemma decrease_balance_ok:
  assumes "state_ok p st"
  shows "safe (decrease_balance st i d)
    (\<lambda>st'. state_ok p st' \<and> st' = st\<lparr>balances := (balances st)[i := balances st ! i - d]\<rparr>)"
proof -
  have "balances st ! i - d \<le> u64_max" if "i < length (balances st)"
    using state_ok_balances(2) [OF assms] nth_mem [OF that] by (meson diff_le_self le_trans)
  then show ?thesis
    unfolding decrease_balance_def
    using assms
    by (auto simp: safe_simps res_simps saturating_sub_def intro!: state_upd dest: state_ok_balances(2)
        set_update_subset_insert [THEN subsetD])
qed

section \<open>Totals\<close>

abbreviation effective_sum :: "BeaconState \<Rightarrow> ValidatorIndex list \<Rightarrow> nat" where
  "effective_sum st is \<equiv> sum_list (map (\<lambda>i. v_effective_balance (validators st ! i)) is)"

lemma total_balance_loop:
  "foldR (\<lambda>total index. bindR (validator st index) (\<lambda>v.
      or_err (checked_add total (v_effective_balance v)) e)) t is = Inr s \<longleftrightarrow>
   (\<forall>i \<in> set is. i < length (validators st)) \<and> s = t + effective_sum st is
     \<and> (is = [] \<or> t + effective_sum st is \<le> u64_max)"
proof (induction "is" arbitrary: t)
  case Nil
  then show ?case by auto
next
  case (Cons i "is")
  show ?case by (auto simp: res_simps Cons.IH)
qed

lemma get_total_balance_eq_Inr:
  "get_total_balance st is = Inr t \<longleftrightarrow>
     (\<forall>i \<in> set is. i < length (validators st)) \<and> effective_sum st is \<le> u64_max
     \<and> t = max (effective_sum st is) EFFECTIVE_BALANCE_INCREMENT"
  unfolding get_total_balance_def bindR_eq_Inr total_balance_loop by auto

lemma get_total_balance_safe:
  "safe (get_total_balance st is) (\<lambda>t. EFFECTIVE_BALANCE_INCREMENT \<le> t \<and> t \<le> u64_max)"
proof -
  have "safe (foldR (\<lambda>total index. bindR (validator st index) (\<lambda>v.
      or_err (checked_add total (v_effective_balance v)) (ArithmeticOverflow Arith_BalanceSum)))
      0 is) (\<lambda>t. t \<le> u64_max)"
    by (rule safe_foldR) (auto simp: safe_simps res_simps)
  then show ?thesis unfolding get_total_balance_def safe_bind
    by (rule safe_mono) (auto simp: EFFECTIVE_BALANCE_INCREMENT_def u64_max_def)
qed

lemma get_total_active_balance_safe:
  "safe (get_total_active_balance p st) (\<lambda>t. EFFECTIVE_BALANCE_INCREMENT \<le> t \<and> t \<le> u64_max)"
  unfolding get_total_active_balance_def by (rule get_total_balance_safe)

text \<open>
  The total active balance is the exact sum of the effective balances of the validators active in
  the current epoch, floored at one increment; it is an error exactly when that sum exceeds 64 bits.
\<close>

theorem total_active_balance_correct:
  "get_total_active_balance p st =
     (let total = (\<Sum>i | i < length (validators st)
                      \<and> is_active_validator (validators st ! i) (get_current_epoch p st).
                    v_effective_balance (validators st ! i))
      in if total \<le> u64_max then Inr (max total EFFECTIVE_BALANCE_INCREMENT)
         else fail (ArithmeticOverflow Arith_BalanceSum))"
proof -
  let ?is = "get_active_validator_indices st (get_current_epoch p st)"
  let ?A = "{i. i < length (validators st)
      \<and> is_active_validator (validators st ! i) (get_current_epoch p st)}"
  have range: "\<forall>i \<in> set ?is. i < length (validators st)" by (simp add: active_index_iff)
  have "set ?is = ?A" by (auto simp: active_index_iff)
  then have sum: "effective_sum st ?is = (\<Sum>i \<in> ?A. v_effective_balance (validators st ! i))"
    by (simp add: sum_list_distinct_conv_sum_set active_indices_distinct)
  have err: "get_total_balance st js = fail (ArithmeticOverflow Arith_BalanceSum)"
    if "\<forall>i \<in> set js. i < length (validators st)" "u64_max < effective_sum st js" for js
  proof -
    have "foldR (\<lambda>total index. bindR (validator st index) (\<lambda>v.
        or_err (checked_add total (v_effective_balance v)) (ArithmeticOverflow Arith_BalanceSum))) t js
      = fail (ArithmeticOverflow Arith_BalanceSum)" if "u64_max < t + effective_sum st js" "t \<le> u64_max" for t
      using \<open>\<forall>i \<in> set js. i < length (validators st)\<close> that
      by (induction js arbitrary: t)
        (auto simp: validator_def get_at_def checked_add_def add.assoc)
    from this [of 0] that(2) show ?thesis by (simp add: get_total_balance_def)
  qed
  show ?thesis
    unfolding get_total_active_balance_def Let_def
    using range err [OF range] by (auto simp: get_total_balance_eq_Inr sum not_le)
qed

section \<open>Applying deltas\<close>

lemma enumerate_loop:
  assumes step: "\<And>bs i x. i < length bs \<Longrightarrow> f bs (i, x) = bindR (g (bs ! i) x) (\<lambda>b. Inr (bs[i := b]))"
    and "length xs = length bals"
  shows "foldR f (pre @ bals) (List.enumerate (length pre) xs) =
    bindR (mapR (\<lambda>(b, x). g b x) (zip bals xs)) (\<lambda>ys. Inr (pre @ ys))"
  using assms(2)
proof (induction xs arbitrary: pre bals)
  case Nil
  then show ?case by simp
next
  case (Cons x xs)
  then obtain b bs where bals: "bals = b # bs" "length xs = length bs" by (cases bals) auto
  have step: "f (pre @ b # bs) (length pre, x) = bindR (g b x) (\<lambda>b'. Inr (pre @ b' # bs))"
    by (simp add: step nth_append list_update_append)
  show ?case
  proof (cases "g b x")
    case (Inl e)
    then show ?thesis by (simp add: bals step)
  next
    case (Inr y)
    have "foldR f ((pre @ [y]) @ bs) (List.enumerate (length (pre @ [y])) xs) =
        bindR (mapR (\<lambda>(b, x). g b x) (zip bs xs)) (\<lambda>ys. Inr ((pre @ [y]) @ ys))"
      by (rule Cons.IH) (rule bals(2))
    then show ?thesis by (simp add: bals step Inr bindR_assoc)
  qed
qed

lemma enumerate_loop_all:
  assumes "\<And>bs i x. i < length bs \<Longrightarrow> f bs (i, x) = bindR (g (bs ! i) x) (\<lambda>b. Inr (bs[i := b]))"
    and "length xs = length bals"
  shows "foldR f bals (enumerated xs) = mapR (\<lambda>(b, x). g b x) (zip bals xs)"
  using enumerate_loop [OF assms, of "[]"] by (cases "mapR (\<lambda>(b, x). g b x) (zip bals xs)") simp_all

lemma mapR_guarded:
  "mapR (\<lambda>x. if P x then Inr (h x) else Inl e) xs = (if \<forall>x \<in> set xs. P x then Inr (map h xs) else Inl e)"
  by (induction xs) auto

lemma reward_loop:
  assumes "length rs = length bals"
  shows "foldR (\<lambda>bs (i, reward).
      bindR (reject (i \<ge> length bs) (InvariantErr (Inv_MissingBalance i))) (\<lambda>_.
      bindR (idx bs i) (\<lambda>b.
      bindR (or_err (checked_add b reward) BalanceOverflow) (\<lambda>b'.
      idx_set bs i b')))) bals (enumerated rs) =
    (if \<forall>(b, r) \<in> set (zip bals rs). b + r \<le> u64_max then Inr (map2 (+) bals rs) else fail BalanceOverflow)"
proof -
  let ?g = "\<lambda>b r. if b + r \<le> u64_max then Inr (b + r) else fail BalanceOverflow"
  have "(\<lambda>(b, r). ?g b r) = (\<lambda>x. if fst x + snd x \<le> u64_max then Inr (fst x + snd x) else fail BalanceOverflow)"
    by auto
  moreover have "(\<lambda>x. fst x + snd x) = (\<lambda>(b, r :: nat). b + r)" by auto
  ultimately have "mapR (\<lambda>(b, r). ?g b r) (zip bals rs) =
      (if \<forall>(b, r) \<in> set (zip bals rs). b + r \<le> u64_max then Inr (map2 (+) bals rs) else fail BalanceOverflow)"
    by (simp add: mapR_guarded case_prod_beta)
  then show ?thesis
    by (subst enumerate_loop_all [where g = ?g])
      (auto simp: idx_def idx_set_def checked_add_def assms not_le)
qed

lemma penalty_loop:
  assumes "length ps = length bals"
  shows "foldR (\<lambda>bs (i, penalty).
      bindR (reject (i \<ge> length bs) (InvariantErr (Inv_MissingBalance i))) (\<lambda>_.
      bindR (idx bs i) (\<lambda>b.
      idx_set bs i (saturating_sub b penalty)))) bals (enumerated ps) = Inr (map2 (-) bals ps)"
proof -
  let ?g = "\<lambda>b q. Inr (b - q) :: Gwei tres"
  have "mapR (\<lambda>(b, q). ?g b q) (zip bals ps) = Inr (map2 (-) bals ps)" by (rule mapR_Inr_map) auto
  then show ?thesis
    by (subst enumerate_loop_all [where g = ?g])
      (auto simp: idx_def idx_set_def saturating_sub_def assms not_le)
qed

text \<open>
  Applying a phase's deltas adds each reward and then subtracts each penalty, entry by entry,
  with penalties saturating at zero; it fails, with \<open>BalanceOverflow\<close>, exactly when some reward
  addition exceeds 64 bits.
\<close>

theorem apply_to_correct:
  assumes "length (bd_rewards d) = length bals" and "length (bd_penalties d) = length bals"
  shows "apply_to d bals =
    (if \<forall>i < length bals. bals ! i + bd_rewards d ! i \<le> u64_max
     then Inr (map (\<lambda>i. bals ! i + bd_rewards d ! i - bd_penalties d ! i) [0..<length bals])
     else fail BalanceOverflow)"
proof -
  have "(\<forall>(b, r) \<in> set (zip bals (bd_rewards d)). b + r \<le> u64_max) \<longleftrightarrow>
      (\<forall>i < length bals. bals ! i + bd_rewards d ! i \<le> u64_max)"
    using assms(1) by (auto simp: set_zip)
  moreover have "map2 (-) (map2 (+) bals (bd_rewards d)) (bd_penalties d) =
      map (\<lambda>i. bals ! i + bd_rewards d ! i - bd_penalties d ! i) [0..<length bals]"
    using assms by (intro nth_equalityI) simp_all
  ultimately show ?thesis
    unfolding apply_to_def reward_loop [OF assms(1)] by (simp add: penalty_loop assms)
qed

theorem apply_to_correct_witness:
  "apply_to \<lparr>bd_rewards = [5, 0], bd_penalties = [1, 9]\<rparr> [10, 4] = Inr [14, 0]"
proof -
  have "\<forall>i < length [10, 4 :: nat]. [10, 4] ! i + [5, 0 :: nat] ! i \<le> u64_max"
    by (auto simp: less_Suc_eq u64_max_def)
  then show ?thesis
    using apply_to_correct [of "\<lparr>bd_rewards = [5, 0], bd_penalties = [1, 9]\<rparr>" "[10, 4]"] by simp
qed

section \<open>Base rewards and participation\<close>

lemma base_reward_per_increment_eq_Inr:
  "get_base_reward_per_increment p st = Inr r \<longleftrightarrow>
     (\<exists>total. get_total_active_balance p st = Inr total \<and> integer_squareroot total \<noteq> 0
        \<and> r = EFFECTIVE_BALANCE_INCREMENT * BASE_REWARD_FACTOR div integer_squareroot total)"
  by (auto simp: get_base_reward_per_increment_def res_simps EFFECTIVE_BALANCE_INCREMENT_def
      BASE_REWARD_FACTOR_def u64_max_def)

lemma base_reward_per_increment_safe:
  "safe (get_base_reward_per_increment p st) (\<lambda>r. r \<le> u64_max)"
proof -
  have "integer_squareroot t \<noteq> 0 \<and> EFFECTIVE_BALANCE_INCREMENT * BASE_REWARD_FACTOR div integer_squareroot t \<le> u64_max"
    if "EFFECTIVE_BALANCE_INCREMENT \<le> t" "t \<le> u64_max" for t
  proof -
    have "0 < t" using that(1) by (simp add: EFFECTIVE_BALANCE_INCREMENT_def)
    moreover have "EFFECTIVE_BALANCE_INCREMENT * BASE_REWARD_FACTOR \<le> u64_max"
      by (simp add: EFFECTIVE_BALANCE_INCREMENT_def BASE_REWARD_FACTOR_def u64_max_def)
    ultimately show ?thesis using integer_squareroot_pos [of t] that(2) by (auto intro: le_trans [OF div_le_dividend])
  qed
  then show ?thesis
    unfolding get_base_reward_per_increment_def safe_bind
    by (intro safe_mono [OF get_total_active_balance_safe]) (auto simp: safe_simps res_simps)
qed

lemma get_base_reward_safe: "safe (get_base_reward p st i) (\<lambda>r. r \<le> u64_max)"
  unfolding get_base_reward_def Let_def safe_bind
  by (auto simp: safe_simps res_simps intro!: safe_mono [OF base_reward_per_increment_safe])

lemma participation_flag_weight_safe [safe_simps]:
  "safe (participation_flag_weight f) Q = (f < 3 \<longrightarrow> Q (PARTICIPATION_FLAG_WEIGHTS ! f))"
  by (simp add: participation_flag_weight_def safe_simps get_at_def PARTICIPATION_FLAG_WEIGHTS_def)

lemma participation_flag_weight_eq_Inr [res_simps]:
  "participation_flag_weight f = Inr w \<longleftrightarrow> f < 3 \<and> w = PARTICIPATION_FLAG_WEIGHTS ! f"
  by (auto simp: participation_flag_weight_def res_simps PARTICIPATION_FLAG_WEIGHTS_def)

text \<open>The participation list that \<open>get_unslashed_participating_indices\<close> reads for an epoch.\<close>

definition participation_at :: "preset \<Rightarrow> BeaconState \<Rightarrow> Epoch \<Rightarrow> byte list" where
  "participation_at p st epoch =
     (if epoch = get_current_epoch p st then current_epoch_participation st
      else previous_epoch_participation st)"

definition participates :: "preset \<Rightarrow> BeaconState \<Rightarrow> usize \<Rightarrow> Epoch \<Rightarrow> nat \<Rightarrow> bool" where
  "participates p st f epoch i \<longleftrightarrow> is_active_validator (validators st ! i) epoch
     \<and> \<not> v_slashed (validators st ! i) \<and> bit (participation_at p st epoch ! i) f"

lemma filter_loop:
  assumes "\<And>out i x. i < n + length xs \<Longrightarrow> f out (i, x) = Inr (if P i x then out @ [i] else out)"
  shows "foldR f out (List.enumerate n xs) =
    Inr (out @ map fst (filter (\<lambda>(i, x). P i x) (List.enumerate n xs)))"
  using assms
proof (induction xs arbitrary: n out)
  case Nil
  then show ?case by simp
next
  case (Cons x xs)
  have "f out (n, x) = Inr (if P n x then out @ [n] else out)" using Cons.prems by simp
  moreover have "foldR f out' (List.enumerate (Suc n) xs) =
      Inr (out' @ map fst (filter (\<lambda>(i, x). P i x) (List.enumerate (Suc n) xs)))" for out'
    by (rule Cons.IH) (use Cons.prems in simp)
  ultimately show ?case by simp
qed

lemma participating_eq:
  assumes "state_ok p st" and "f < 3" and "epoch = get_current_epoch p st \<or> epoch = get_previous_epoch p st"
  shows "get_unslashed_participating_indices p st f epoch =
    Inr (filter (participates p st f epoch) [0..<length (validators st)])"
proof -
  let ?part = "participation_at p st epoch" and ?cur = "epoch = get_current_epoch p st"
  have len: "length ?part = length (validators st)"
    using state_ok_aligned [OF assms(1)] by (simp add: participation_at_def)
  have sel: "(if ?cur then Inr (current_epoch_participation st, True)
      else if epoch = get_previous_epoch p st then Inr (previous_epoch_participation st, False)
      else fail (OperationErr Op_AttestationTargetEpochInvalid)) = Inr (?part, ?cur)"
    using assms(3) by (auto simp: participation_at_def)
  have "foldR (\<lambda>out (i, v).
       if \<not> is_active_validator v epoch then Inr out
       else
         bindR (or_err (get_at ?part i) (InvariantErr
                  (if ?cur then Inv_MissingCurrentEpochParticipation i
                   else Inv_MissingPreviousEpochParticipation i))) (\<lambda>flags.
         bindR (map_err (\<lambda>e. Err (PrimitiveErr e)) (has_flag flags f)) (\<lambda>has.
         Inr (if has \<and> \<not> v_slashed v then out @ [i] else out))))
       [] (enumerated (validators st)) =
     Inr ([] @ map fst (filter (\<lambda>(i, v). is_active_validator v epoch \<and> \<not> v_slashed v \<and> bit (?part ! i) f)
       (enumerated (validators st))))"
    by (rule filter_loop) (use len assms(2) in \<open>auto simp: get_at_def has_flag_bit\<close>)
  then show ?thesis
    unfolding get_unslashed_participating_indices_def Let_def sel
    using assms(2)
    by (simp add: participation_flag_weight_def get_at_def PARTICIPATION_FLAG_WEIGHTS_def
        map_fst_filter_enumerate participates_def [abs_def])
qed

lemma participating_safe:
  assumes "state_ok p st"
  shows "safe (get_unslashed_participating_indices p st f epoch) (\<lambda>is. set is \<subseteq> {..<length (validators st)})"
proof (cases "f < 3 \<and> (epoch = get_current_epoch p st \<or> epoch = get_previous_epoch p st)")
  case True
  then show ?thesis using participating_eq [OF assms] by auto
next
  case False
  then show ?thesis by (auto simp: get_unslashed_participating_indices_def Let_def safe_simps)
qed

section \<open>Reward and penalty deltas\<close>

definition eligible :: "preset \<Rightarrow> BeaconState \<Rightarrow> nat \<Rightarrow> bool" where
  "eligible p st i \<longleftrightarrow> is_active_validator (validators st ! i) (get_previous_epoch p st)
     \<or> v_slashed (validators st ! i) \<and> get_previous_epoch p st + 1 < v_withdrawable_epoch (validators st ! i)"

lemma eligible_eq_Inr:
  "get_eligible_validator_indices p st = Inr is \<Longrightarrow>
     is = filter (eligible p st) [0..<length (validators st)]"
  by (auto simp: get_eligible_validator_indices_def Let_def res_simps eligible_def [abs_def]
      map_fst_filter_enumerate)

lemma eligible_safe:
  "safe (get_eligible_validator_indices p st) (\<lambda>is. set is \<subseteq> {..<length (validators st)})"
  by (auto simp: get_eligible_validator_indices_def Let_def safe_simps map_fst_filter_enumerate)

lemma add_delta_eq_Inr:
  "add_reward d i x = Inr d' \<longleftrightarrow> i < length (bd_rewards d) \<and> bd_rewards d ! i + x \<le> u64_max
     \<and> d' = d\<lparr>bd_rewards := (bd_rewards d)[i := bd_rewards d ! i + x]\<rparr>"
  "add_penalty d i x = Inr d' \<longleftrightarrow> i < length (bd_penalties d) \<and> bd_penalties d ! i + x \<le> u64_max
     \<and> d' = d\<lparr>bd_penalties := (bd_penalties d)[i := bd_penalties d ! i + x]\<rparr>"
  by (auto simp: add_reward_def add_penalty_def add_delta_def Let_def res_simps)

lemma add_delta_safe:
  "length (bd_rewards d) = n \<and> length (bd_penalties d) = n \<Longrightarrow>
     safe (add_reward d i x) (\<lambda>d'. length (bd_rewards d') = n \<and> length (bd_penalties d') = n)"
  "length (bd_rewards d) = n \<and> length (bd_penalties d) = n \<Longrightarrow>
     safe (add_penalty d i x) (\<lambda>d'. length (bd_rewards d') = n \<and> length (bd_penalties d') = n)"
  by (auto simp: add_reward_def add_penalty_def add_delta_def Let_def safe_simps)

lemma delta_loop:
  assumes "foldR f d is = Inr d'" and "distinct is"
    and step: "\<And>d i d'. i \<in> set is \<Longrightarrow> f d i = Inr d' \<Longrightarrow>
      bd_rewards d' = (bd_rewards d)[i := bd_rewards d ! i + R i]
      \<and> bd_penalties d' = (bd_penalties d)[i := bd_penalties d ! i + Q i]"
  shows "length (bd_rewards d') = length (bd_rewards d) \<and> length (bd_penalties d') = length (bd_penalties d)
    \<and> (\<forall>j < length (bd_rewards d). bd_rewards d' ! j = bd_rewards d ! j + (if j \<in> set is then R j else 0))
    \<and> (\<forall>j < length (bd_penalties d). bd_penalties d' ! j = bd_penalties d ! j + (if j \<in> set is then Q j else 0))"
  using assms
proof (induction "is" arbitrary: d)
  case Nil
  then show ?case by simp
next
  case (Cons i "is")
  from Cons.prems(1) obtain d1 where d1: "f d i = Inr d1" "foldR f d1 is = Inr d'"
    by (auto simp: bindR_eq_Inr)
  have upd: "bd_rewards d1 = (bd_rewards d)[i := bd_rewards d ! i + R i]"
    "bd_penalties d1 = (bd_penalties d)[i := bd_penalties d ! i + Q i]"
    using Cons.prems(3) [of i d d1] d1(1) by simp_all
  have "i \<notin> set is" using Cons.prems(2) by simp
  then have "j \<in> set is \<Longrightarrow> xs[i := x] ! j = xs ! j" for j x and xs :: "nat list"
    by (metis nth_list_update_neq)
  then show ?case
    using Cons.IH [OF d1(2)] Cons.prems(2,3) by (auto simp: upd nth_list_update)
qed

text \<open>The base reward of a validator, as a function of the total active balance.\<close>

definition base_reward_of :: "BeaconState \<Rightarrow> nat \<Rightarrow> nat \<Rightarrow> nat" where
  "base_reward_of st tab i = v_effective_balance (validators st ! i) div EFFECTIVE_BALANCE_INCREMENT
     * (EFFECTIVE_BALANCE_INCREMENT * BASE_REWARD_FACTOR div integer_squareroot tab)"

lemma get_base_reward_eq_Inr:
  "get_total_active_balance p st = Inr tab \<Longrightarrow> get_base_reward p st i = Inr r \<Longrightarrow>
     r = base_reward_of st tab i \<and> i < length (validators st)"
  by (auto simp: get_base_reward_def Let_def res_simps base_reward_per_increment_eq_Inr base_reward_of_def)

lemma flag_index_deltas_loop_safe:
  assumes "length (bd_rewards d) = n \<and> length (bd_penalties d) = n" and "ainc * WEIGHT_DENOMINATOR \<noteq> 0"
  shows "safe (bindR (get_base_reward p st index) (\<lambda>base.
        if index \<in> set participating then
          if \<not> in_leak then
            bindR (or_err (Option.bind (checked_mul base weight) (\<lambda>v. checked_mul v participating_increments)) e) (\<lambda>numerator.
            bindR (or_err (checked_mul ainc WEIGHT_DENOMINATOR) e) (\<lambda>denominator.
            bindR (u_div numerator denominator) (\<lambda>reward.
            add_reward d index reward)))
          else Inr d
        else if flag_index \<noteq> TIMELY_HEAD_FLAG_INDEX then
          bindR (or_err (checked_mul base weight) e) (\<lambda>product.
          add_penalty d index (product div WEIGHT_DENOMINATOR))
        else Inr d)) (\<lambda>d'. length (bd_rewards d') = n \<and> length (bd_penalties d') = n)"
  unfolding safe_bind
  using assms
  by (intro safe_mono [OF get_base_reward_safe])
    (auto simp: safe_simps res_simps intro: add_delta_safe)

lemma increments_pos: "EFFECTIVE_BALANCE_INCREMENT \<le> t \<Longrightarrow> 0 < t div EFFECTIVE_BALANCE_INCREMENT"
  by (simp add: div_greater_zero_iff EFFECTIVE_BALANCE_INCREMENT_def)

lemma flag_index_deltas_safe:
  assumes "state_ok p st"
  shows "safe (get_flag_index_deltas p st f)
    (\<lambda>d. length (bd_rewards d) = length (validators st) \<and> length (bd_penalties d) = length (validators st))"
  unfolding get_flag_index_deltas_def Let_def safe_bind
  apply (rule safe_mono [OF participating_safe [OF assms]])
  apply (simp add: safe_simps, intro impI)
  apply (rule safe_mono [OF get_total_balance_safe])
  apply (rule safe_mono [OF get_total_active_balance_safe])
  apply (simp add: get_finality_delay_def safe_or_err, intro allI impI)
  apply (rule safe_mono [OF eligible_safe])
  apply (rule safe_foldR)
   apply (simp add: zeroed_def)
  apply (rule flag_index_deltas_loop_safe, assumption)
  using increments_pos by (simp add: WEIGHT_DENOMINATOR_def)

lemma inactivity_penalty_deltas_safe:
  assumes "state_ok p st"
  shows "safe (get_inactivity_penalty_deltas p st)
    (\<lambda>d. length (bd_rewards d) = length (validators st) \<and> length (bd_penalties d) = length (validators st))"
  unfolding get_inactivity_penalty_deltas_def Let_def safe_bind
  apply (rule safe_mono [OF participating_safe [OF assms]])
  apply (simp add: safe_or_err res_simps, intro impI)
  apply (rule safe_mono [OF eligible_safe])
  apply (rule safe_foldR)
   apply (simp add: zeroed_def)
  by (auto simp: safe_simps res_simps INACTIVITY_SCORE_BIAS_def INACTIVITY_PENALTY_QUOTIENT_def
      intro: add_delta_safe)

lemma flag_step:
  assumes act: "get_total_active_balance p st = Inr tab" and step: "bindR (get_base_reward p st i) (\<lambda>base.
        if i \<in> set participating then
          if \<not> in_leak then
            bindR (or_err (Option.bind (checked_mul base w) (\<lambda>v. checked_mul v pinc)) e) (\<lambda>numerator.
            bindR (or_err (checked_mul ainc WEIGHT_DENOMINATOR) e) (\<lambda>denominator.
            bindR (u_div numerator denominator) (\<lambda>reward.
            add_reward d1 i reward)))
          else Inr d1
        else if f \<noteq> TIMELY_HEAD_FLAG_INDEX then
          bindR (or_err (checked_mul base w) e) (\<lambda>product.
          add_penalty d1 i (product div WEIGHT_DENOMINATOR))
        else Inr d1) = Inr d2"
  shows "bd_rewards d2 = (bd_rewards d1)[i := bd_rewards d1 ! i +
        (if i \<in> set participating \<and> \<not> in_leak then base_reward_of st tab i * w * pinc div (ainc * WEIGHT_DENOMINATOR) else 0)]
    \<and> bd_penalties d2 = (bd_penalties d1)[i := bd_penalties d1 ! i +
        (if i \<notin> set participating \<and> f \<noteq> TIMELY_HEAD_FLAG_INDEX then base_reward_of st tab i * w div WEIGHT_DENOMINATOR else 0)]"
proof -
  obtain base where base: "get_base_reward p st i = Inr base" using step by (auto simp: bindR_eq_Inr)
  have b: "base = base_reward_of st tab i" using get_base_reward_eq_Inr [OF act base] by simp
  consider "i \<in> set participating" "in_leak" | "i \<in> set participating" "\<not> in_leak"
    | "i \<notin> set participating" "f \<noteq> TIMELY_HEAD_FLAG_INDEX" | "i \<notin> set participating" "f = TIMELY_HEAD_FLAG_INDEX"
    by blast
  then show ?thesis
    by cases (use step in \<open>auto simp: base b res_simps add_delta_eq_Inr bind_eq_Some_conv\<close>)
qed

text \<open>
  C6: the participation deltas of a flag, validator by validator. A reward goes exactly to the
  eligible, unslashed validators that carry the flag, outside an inactivity leak, and is the base
  reward scaled by the flag's weight and by the participating share of the stake; a penalty goes
  exactly to the eligible validators that missed the flag, never for the head flag. All other entries
  are zero.
\<close>

theorem flag_index_deltas_correct:
  assumes ok: "state_ok p st" and run: "get_flag_index_deltas p st f = Inr d"
    and act: "get_total_active_balance p st = Inr tab"
    and prt: "get_total_balance st (filter (participates p st f (get_previous_epoch p st)) [0..<length (validators st)]) = Inr part"
  shows "length (bd_rewards d) = length (validators st) \<and> length (bd_penalties d) = length (validators st)
    \<and> (\<forall>i < length (validators st).
        bd_rewards d ! i =
          (if eligible p st i \<and> participates p st f (get_previous_epoch p st) i
              \<and> get_previous_epoch p st - cp_epoch (finalized_checkpoint st) \<le> MIN_EPOCHS_TO_INACTIVITY_PENALTY
           then base_reward_of st tab i * PARTICIPATION_FLAG_WEIGHTS ! f * (part div EFFECTIVE_BALANCE_INCREMENT)
                  div (tab div EFFECTIVE_BALANCE_INCREMENT * WEIGHT_DENOMINATOR)
           else 0)
      \<and> bd_penalties d ! i =
          (if eligible p st i \<and> \<not> participates p st f (get_previous_epoch p st) i \<and> f \<noteq> TIMELY_HEAD_FLAG_INDEX
           then base_reward_of st tab i * PARTICIPATION_FLAG_WEIGHTS ! f div WEIGHT_DENOMINATOR else 0))"
proof -
  let ?prev = "get_previous_epoch p st" and ?n = "length (validators st)"
  let ?P = "participates p st f ?prev" and ?w = "PARTICIPATION_FLAG_WEIGHTS ! f"
  let ?leak = "\<not> ?prev - cp_epoch (finalized_checkpoint st) \<le> MIN_EPOCHS_TO_INACTIVITY_PENALTY"
  let ?R = "\<lambda>i. if ?P i \<and> \<not> ?leak then base_reward_of st tab i * ?w * (part div EFFECTIVE_BALANCE_INCREMENT)
      div (tab div EFFECTIVE_BALANCE_INCREMENT * WEIGHT_DENOMINATOR) else 0"
  let ?Q = "\<lambda>i. if \<not> ?P i \<and> f \<noteq> TIMELY_HEAD_FLAG_INDEX then base_reward_of st tab i * ?w div WEIGHT_DENOMINATOR else 0"
  let ?el = "filter (eligible p st) [0..<?n]"
  have f: "f < 3" using run
    by (auto simp: get_flag_index_deltas_def Let_def get_unslashed_participating_indices_def res_simps)
  have part_eq: "get_unslashed_participating_indices p st f ?prev = Inr (filter ?P [0..<?n])"
    by (rule participating_eq [OF ok f]) simp
  obtain el delay where el: "get_eligible_validator_indices p st = Inr el"
      and delay: "get_finality_delay p st = Inr delay"
    using run by (auto simp: get_flag_index_deltas_def Let_def bindR_eq_Inr)
  have leak: "(delay > MIN_EPOCHS_TO_INACTIVITY_PENALTY) = ?leak"
    using delay by (auto simp: get_finality_delay_def res_simps)
  have mem: "i \<in> set (filter ?P [0..<?n]) \<longleftrightarrow> ?P i" if "i \<in> set ?el" for i using that by simp
  let ?body = "\<lambda>d1 i. bindR (get_base_reward p st i) (\<lambda>base.
        if i \<in> set (filter ?P [0..<?n]) then
          if \<not> ?leak then
            bindR (or_err (Option.bind (checked_mul base ?w) (\<lambda>v. checked_mul v (part div EFFECTIVE_BALANCE_INCREMENT)))
                     (ArithmeticOverflow Arith_Weight)) (\<lambda>numerator.
            bindR (or_err (checked_mul (tab div EFFECTIVE_BALANCE_INCREMENT) WEIGHT_DENOMINATOR)
                     (ArithmeticOverflow Arith_Weight)) (\<lambda>denominator.
            bindR (u_div numerator denominator) (\<lambda>reward.
            add_reward d1 i reward)))
          else Inr d1
        else if f \<noteq> TIMELY_HEAD_FLAG_INDEX then
          bindR (or_err (checked_mul base ?w) (ArithmeticOverflow Arith_Weight)) (\<lambda>product.
          add_penalty d1 i (product div WEIGHT_DENOMINATOR))
        else Inr d1)"
  have wt: "participation_flag_weight f = Inr ?w" using f by (simp add: res_simps)
  have loop: "foldR ?body (zeroed ?n) ?el = Inr d"
    using run unfolding get_flag_index_deltas_def Let_def part_eq prt act el delay leak wt bindR_simps
      eligible_eq_Inr [OF el] .
  have step: "bd_rewards d2 = (bd_rewards d1)[i := bd_rewards d1 ! i + ?R i]
      \<and> bd_penalties d2 = (bd_penalties d1)[i := bd_penalties d1 ! i + ?Q i]"
    if "i \<in> set ?el" and "?body d1 i = Inr d2" for i d1 d2
    using flag_step [OF act that(2)] unfolding mem [OF that(1)] .
  have "length (bd_rewards d) = length (bd_rewards (zeroed ?n)) \<and> length (bd_penalties d) = length (bd_penalties (zeroed ?n))
    \<and> (\<forall>j < length (bd_rewards (zeroed ?n)). bd_rewards d ! j = bd_rewards (zeroed ?n) ! j + (if j \<in> set ?el then ?R j else 0))
    \<and> (\<forall>j < length (bd_penalties (zeroed ?n)). bd_penalties d ! j = bd_penalties (zeroed ?n) ! j + (if j \<in> set ?el then ?Q j else 0))"
    by (rule delta_loop [OF loop _ step]) simp_all
  then show ?thesis by (auto simp: zeroed_def)
qed

lemma ex_epochs: "get_current_epoch Minimal (ex_state Minimal) = 5" "get_previous_epoch Minimal (ex_state Minimal) = 4"
  by (simp_all add: get_previous_epoch_def get_current_epoch_def epoch_of_def ex_state_def SLOTS_PER_EPOCH_def
      GENESIS_EPOCH_def)

lemma ex_active: "is_active_validator (ex_validator k) e \<longleftrightarrow> e < u64_max"
  by (simp add: is_active_validator_def ex_validator_def FAR_FUTURE_EPOCH_def u64_max_def)

lemma ex_total: "get_total_active_balance Minimal (ex_state Minimal) = Inr 128000000000"
  unfolding get_total_active_balance_def active_indices_eq ex_epochs
  by (simp add: get_total_balance_eq_Inr ex_active EFFECTIVE_BALANCE_INCREMENT_def u64_max_def)

lemma ex_isqrt: "integer_squareroot 128000000000 = 357770"
  by (simp add: integer_squareroot_def div_ceil_def isqrt_loop.simps u64_max_def)

lemma ex_base_reward:
  "i < 4 \<Longrightarrow> get_base_reward Minimal (ex_state Minimal) i = Inr 5724320"
proof -
  assume "i < 4"
  then have "i = 0 \<or> i = 1 \<or> i = 2 \<or> i = 3" by linarith
  then have "v_effective_balance (validators (ex_state Minimal) ! i) = 32000000000" by auto
  with \<open>i < 4\<close> show ?thesis
    by (simp add: get_base_reward_def get_base_reward_per_increment_def ex_total ex_isqrt validator_def get_at_def
        checked_mul_def u_div_def EFFECTIVE_BALANCE_INCREMENT_def BASE_REWARD_FACTOR_def u64_max_def)
qed

lemma upt_4: "[0..<4] = [0, 1, 2, 3 :: nat]"
  by (simp add: upt_conv_Cons)

lemma ex_length: "length (validators (ex_state p)) = 4"
  by simp

lemma ex_participates:
  "filter (participates Minimal (ex_state Minimal) 1 4) [0..<4] = [0, 1]"
  by (simp add: participates_def participation_at_def ex_epochs ex_active u64_max_def upt_4)

lemma ex_eligible: "eligible Minimal (ex_state Minimal) i \<longleftrightarrow> True" if "i < 4"
proof -
  have "i = 0 \<or> i = 1 \<or> i = 2 \<or> i = 3" using that by linarith
  then show ?thesis by (auto simp: eligible_def ex_epochs ex_active u64_max_def)
qed

lemma ex_flag_deltas:
  "get_flag_index_deltas Minimal (ex_state Minimal) 1 =
     Inr \<lparr>bd_rewards = [1162752, 1162752, 0, 0], bd_penalties = [0, 0, 2325505, 2325505]\<rparr>"
proof -
  have "get_unslashed_participating_indices Minimal (ex_state Minimal) 1 4 = Inr [0, 1]"
    using participating_eq [OF ex_state_ok, of 1 4 Minimal] unfolding ex_length ex_epochs ex_participates by simp
  moreover have "get_total_balance (ex_state Minimal) [0, 1] = Inr 64000000000"
    by (simp add: get_total_balance_eq_Inr EFFECTIVE_BALANCE_INCREMENT_def u64_max_def)
  moreover have "get_eligible_validator_indices Minimal (ex_state Minimal) = Inr [0, 1, 2, 3]"
    by (simp add: get_eligible_validator_indices_def ex_epochs ex_active u64_max_def checked_add_def)
  ultimately show ?thesis
    by (simp add: get_flag_index_deltas_def ex_epochs ex_total ex_base_reward get_finality_delay_def
        participation_flag_weight_def get_at_def PARTICIPATION_FLAG_WEIGHTS_def const_defs
        u64_defs u_div_def u64_max_def add_reward_def add_penalty_def add_delta_def zeroed_def)
qed

theorem flag_index_deltas_correct_witness:
  "state_ok Minimal (ex_state Minimal)
   \<and> [1162752, 1162752, 0, 0 :: nat] ! 0 = base_reward_of (ex_state Minimal) 128000000000 0 * 26 * 64 div (128 * 64)"
proof -
  have "get_total_balance (ex_state Minimal) (filter (participates Minimal (ex_state Minimal) 1
      (get_previous_epoch Minimal (ex_state Minimal))) [0..<length (validators (ex_state Minimal))]) = Inr 64000000000"
    unfolding ex_length ex_epochs ex_participates
    by (simp add: get_total_balance_eq_Inr EFFECTIVE_BALANCE_INCREMENT_def u64_max_def)
  moreover have "participates Minimal (ex_state Minimal) (Suc 0) 4 0"
    by (simp add: participates_def participation_at_def ex_epochs ex_active u64_max_def)
  ultimately
  have "bd_rewards \<lparr>bd_rewards = [1162752, 1162752, 0, 0], bd_penalties = [0, 0, 2325505, 2325505]\<rparr> ! 0 =
      base_reward_of (ex_state Minimal) 128000000000 0 * 26 * 64 div (128 * 64)"
    using flag_index_deltas_correct [OF ex_state_ok ex_flag_deltas ex_total, THEN conjunct2, THEN conjunct2, THEN spec [of _ 0]]
    by (simp add: ex_eligible ex_epochs const_defs)
  then show ?thesis using ex_state_ok by simp
qed

end
