(* ===== verification/Signing.thy ===== *)
theory Signing
  imports Example_State
begin

text \<open>
  BLS verification (\<open>crypto/bls.rs\<close>) over the external curve operations, and signing roots and domains
  (\<open>state_transition/signing.rs\<close>). A signing root commits to the object and to the domain: two equal
  signing roots with different domains are a SHA-256 collision.
\<close>

section \<open>BLS signatures (crypto/bls.rs)\<close>

definition G1_POINT_AT_INFINITY :: bytes where
  "G1_POINT_AT_INFINITY = 0xC0 # replicate 47 0"

definition G2_POINT_AT_INFINITY :: BLSSignature where
  "G2_POINT_AT_INFINITY = 0xC0 # replicate 95 0"

definition is_g2_point_at_infinity :: "BLSSignature \<Rightarrow> bool" where
  "is_g2_point_at_infinity sig \<longleftrightarrow> list_all (\<lambda>i. sig ! i = G2_POINT_AT_INFINITY ! i) [0..<96]"

definition parse_pubkey :: "('g1, 'g2, 'gt) ext \<Rightarrow> BLSPubkey \<Rightarrow> SignatureError \<Rightarrow> 'g1 tres" where
  "parse_pubkey X pubkey on_fail =
     (if pubkey = G1_POINT_AT_INFINITY then fail (SignatureErr on_fail)
      else or_err (ext_g1_deserialize X pubkey) (SignatureErr on_fail))"

definition parse_signature :: "('g1, 'g2, 'gt) ext \<Rightarrow> BLSSignature \<Rightarrow> SignatureError \<Rightarrow> 'g2 tres" where
  "parse_signature X signature on_fail = or_err (ext_g2_deserialize X signature) (SignatureErr on_fail)"

definition hash_to_g2 :: "('g1, 'g2, 'gt) ext \<Rightarrow> Root \<Rightarrow> SignatureError \<Rightarrow> 'g2 tres" where
  "hash_to_g2 X signing_root on_fail = or_err (ext_hash_to_g2 X signing_root) (SignatureErr on_fail)"

definition aggregate_pubkey_point :: "('g1, 'g2, 'gt) ext \<Rightarrow> BLSPubkey list \<Rightarrow> SignatureError \<Rightarrow> 'g1 tres" where
  "aggregate_pubkey_point X pubkeys on_fail =
     foldR (\<lambda>aggregate pubkey.
       bindR (parse_pubkey X pubkey on_fail) (\<lambda>pk. Inr (ext_g1_add X aggregate pk))) (ext_g1_zero X) pubkeys"

definition verify_pairing :: "('g1, 'g2, 'gt) ext \<Rightarrow> 'g1 \<Rightarrow> 'g2 \<Rightarrow> 'g2 \<Rightarrow> SignatureError \<Rightarrow> unit tres" where
  "verify_pairing X pubkey message_hash signature on_fail =
     (let lhs = ext_pairing X pubkey message_hash;
          rhs = ext_pairing X (ext_g1_generator X) signature
      in if lhs = rhs then Inr () else fail (SignatureErr on_fail))"

definition verify_signature ::
    "('g1, 'g2, 'gt) ext \<Rightarrow> BLSPubkey \<Rightarrow> Root \<Rightarrow> BLSSignature \<Rightarrow> SignatureError \<Rightarrow> unit tres" where
  "verify_signature X pubkey signing_root signature on_fail =
     bindR (parse_pubkey X pubkey on_fail) (\<lambda>pk.
     bindR (parse_signature X signature on_fail) (\<lambda>sig.
     bindR (hash_to_g2 X signing_root on_fail) (\<lambda>message_hash.
     verify_pairing X pk message_hash sig on_fail)))"

definition aggregate_pubkeys :: "('g1, 'g2, 'gt) ext \<Rightarrow> BLSPubkey list \<Rightarrow> BLSPubkey tres" where
  "aggregate_pubkeys X pubkeys =
     (if pubkeys = [] then fail (SignatureErr Sig_EmptyAggregatePubkeySet)
      else
        bindR (aggregate_pubkey_point X pubkeys Sig_AggregatePubkey) (\<lambda>aggregate.
        or_err (ext_g1_serialize X aggregate) (SignatureErr Sig_AggregatePubkey)))"

definition fast_aggregate_verify ::
    "('g1, 'g2, 'gt) ext \<Rightarrow> BLSPubkey list \<Rightarrow> Root \<Rightarrow> BLSSignature \<Rightarrow> SignatureError \<Rightarrow> unit tres" where
  "fast_aggregate_verify X pubkeys signing_root signature on_fail =
     (if pubkeys = [] then
        if is_g2_point_at_infinity signature then Inr ()
        else fail (SignatureErr Sig_SyncInfinitySignatureRequired)
      else
        bindR (aggregate_pubkey_point X pubkeys on_fail) (\<lambda>aggregate.
        bindR (parse_signature X signature on_fail) (\<lambda>sig.
        bindR (hash_to_g2 X signing_root on_fail) (\<lambda>message_hash.
        verify_pairing X aggregate message_hash sig on_fail))))"

section \<open>Domains and signing roots (signing.rs)\<close>

definition compute_fork_data_root :: "('g1, 'g2, 'gt) ext \<Rightarrow> Version \<Rightarrow> Root \<Rightarrow> Root tres" where
  "compute_fork_data_root X version gvr =
     tree_root_of X ForkData_ty
       (ForkData_val \<lparr>fd_current_version = version, fd_genesis_validators_root = gvr\<rparr>) Mer_ForkData"

definition compute_domain :: "('g1, 'g2, 'gt) ext \<Rightarrow> DomainType \<Rightarrow> Version \<Rightarrow> Root \<Rightarrow> Domain tres" where
  "compute_domain X domain_type version gvr =
     bindR (compute_fork_data_root X version gvr) (\<lambda>fork_data_root.
     Inr (domain_type @ take 28 fork_data_root))"

definition signing_data_root :: "('g1, 'g2, 'gt) ext \<Rightarrow> Root \<Rightarrow> Domain \<Rightarrow> Root tres" where
  "signing_data_root X object_root dmn =
     tree_root_of X SigningData_ty
       (SigningData_val \<lparr>sd_object_root = object_root, sd_domain = dmn\<rparr>) Mer_SigningData"

definition compute_signing_root ::
    "('g1, 'g2, 'gt) ext \<Rightarrow> ssz_ty \<Rightarrow> ssz_val \<Rightarrow> Domain \<Rightarrow> MerkleError \<Rightarrow> Root tres" where
  "compute_signing_root X t v dmn on_object_fail =
     bindR (tree_root_of X t v on_object_fail) (\<lambda>object_root. signing_data_root X object_root dmn)"

definition fork_version_at :: "BeaconState \<Rightarrow> Epoch \<Rightarrow> Version" where
  "fork_version_at st epoch =
     (if epoch < fork_epoch (fork st) then fork_previous_version (fork st) else fork_current_version (fork st))"

definition get_domain ::
    "('g1, 'g2, 'gt) ext \<Rightarrow> preset \<Rightarrow> BeaconState \<Rightarrow> DomainType \<Rightarrow> Epoch option \<Rightarrow> Domain tres" where
  "get_domain X p st domain_type epoch =
     (let epoch = (case epoch of Some e \<Rightarrow> e | None \<Rightarrow> epoch_of p (slot st)) in
      compute_domain X domain_type (fork_version_at st epoch) (genesis_validators_root st))"

definition domain_for ::
    "('g1, 'g2, 'gt) ext \<Rightarrow> preset \<Rightarrow> BeaconState \<Rightarrow> DomainType \<Rightarrow> Epoch \<Rightarrow> Domain tres" where
  "domain_for X p st domain_type epoch = get_domain X p st domain_type (Some epoch)"

definition signing_root_for ::
    "('g1, 'g2, 'gt) ext \<Rightarrow> preset \<Rightarrow> BeaconState \<Rightarrow> ssz_ty \<Rightarrow> ssz_val \<Rightarrow> DomainType \<Rightarrow> Epoch \<Rightarrow> MerkleError \<Rightarrow> Root tres" where
  "signing_root_for X p st t v domain_type epoch on_object_fail =
     bindR (get_domain X p st domain_type (Some epoch)) (\<lambda>dmn. compute_signing_root X t v dmn on_object_fail)"

definition signing_root_from_root ::
    "('g1, 'g2, 'gt) ext \<Rightarrow> preset \<Rightarrow> BeaconState \<Rightarrow> Root \<Rightarrow> DomainType \<Rightarrow> Epoch \<Rightarrow> Root tres" where
  "signing_root_from_root X p st object_root domain_type epoch =
     bindR (get_domain X p st domain_type (Some epoch)) (\<lambda>dmn. signing_data_root X object_root dmn)"

section \<open>No panics\<close>

lemma bls_safe [safe_simps]:
  "safe (parse_pubkey X pk e) Q = (\<forall>g. parse_pubkey X pk e = Inr g \<longrightarrow> Q g)"
  "safe (parse_signature X s e) Q' = (\<forall>g. parse_signature X s e = Inr g \<longrightarrow> Q' g)"
  "safe (hash_to_g2 X r e) Q' = (\<forall>g. hash_to_g2 X r e = Inr g \<longrightarrow> Q' g)"
  by (auto simp: parse_pubkey_def parse_signature_def hash_to_g2_def safe_simps res_simps)

lemma aggregate_pubkey_point_safe: "safe (aggregate_pubkey_point X pks e) (\<lambda>_. True)"
  unfolding aggregate_pubkey_point_def by (rule safe_foldR) (simp_all add: safe_simps)

lemma verify_signature_safe: "safe (verify_signature X pk r s e) (\<lambda>_. True)"
  by (auto simp: verify_signature_def verify_pairing_def safe_simps Let_def)

lemma fast_aggregate_verify_safe: "safe (fast_aggregate_verify X pks r s e) (\<lambda>_. True)"
  by (auto simp: fast_aggregate_verify_def verify_pairing_def safe_simps Let_def
      intro!: safe_mono [OF aggregate_pubkey_point_safe])

lemma aggregate_pubkeys_safe: "ext_ok X \<Longrightarrow> safe (aggregate_pubkeys X pks) (\<lambda>pk. length pk = 48)"
  by (auto simp: aggregate_pubkeys_def safe_simps ext_ok_def intro!: safe_mono [OF aggregate_pubkey_point_safe])

lemma container_root_safe:
  assumes "ext_ok X" and "t \<in> set (container_types p)" and "well_typed t v"
  shows "safe (tree_root_of X t v e) (\<lambda>r. length r = 32)"
  using safe_tree_root_of [OF assms(1) _ _ assms(3)] container_ty_ok [OF assms(2)] by blast

lemma tree_root_safe [safe_simps]: "safe (tree_root_of X t v e) Q = (\<forall>r. tree_root_of X t v e = Inr r \<longrightarrow> Q r)"
  by (simp add: tree_root_of_def safe_map_err map_err_eq_Inr)

lemma tree_root_length: "ext_ok X \<Longrightarrow> t \<in> set (container_types p) \<Longrightarrow> well_typed t v \<Longrightarrow>
    tree_root_of X t v e = Inr r \<Longrightarrow> length r = 32"
  using container_root_safe [of X t p v e] by simp

lemma signing_safe [safe_simps]:
  "safe (compute_domain X d v g) Q = (\<forall>x. compute_domain X d v g = Inr x \<longrightarrow> Q x)"
  "safe (compute_signing_root X t w dmn e) Q' = (\<forall>x. compute_signing_root X t w dmn e = Inr x \<longrightarrow> Q' x)"
  "safe (domain_for X p st d ep) Q = (\<forall>x. domain_for X p st d ep = Inr x \<longrightarrow> Q x)"
  "safe (signing_root_for X p st t w d ep e) Q' = (\<forall>x. signing_root_for X p st t w d ep e = Inr x \<longrightarrow> Q' x)"
  "safe (signing_root_from_root X p st r d ep) Q' = (\<forall>x. signing_root_from_root X p st r d ep = Inr x \<longrightarrow> Q' x)"
  by (auto simp: compute_domain_def compute_fork_data_root_def compute_signing_root_def signing_data_root_def
      domain_for_def get_domain_def signing_root_for_def signing_root_from_root_def safe_simps res_simps Let_def)

section \<open>Binding of signing roots\<close>

lemma bytes32_root: "length bs = 32 \<Longrightarrow> hash_tree_root h (TBytes 32) (VBytes bs) = Inr bs"
  by (cases "bs = []") (auto simp: merkleize_byte_sequence_with_limit_def merkleize_byte_sequence_unchecked_def
      merkleize_roots_unchecked_tree pack_bytes_def chunk_count_def BYTES_PER_CHUNK_def div_ceil_def
      chunks.simps pad_chunk_def tree_depth_for_limit_def u64_max_def)

lemma two_roots: "merkleize_roots h [a, b] = hash_pair h a b"
proof -
  have "tree_depth_for_limit 2 = Suc 0"
    by (rule tree_depth_for_limit_unique) (simp_all add: u64_max_def)
  then show ?thesis by (simp add: merkleize_roots_def merkleize_roots_unchecked_tree u64_max_def numeral_2_eq_2)
qed

lemma signing_data_root_eq:
  assumes "length r = 32" and "length d = 32"
  shows "signing_data_root X r d = Inr (ext_sha256 X (r @ d))"
  by (simp add: signing_data_root_def tree_root_of_def SigningData_ty_def SigningData_val_def Root_ty_def
      Domain_ty_def bytes32_root assms two_roots hash_pair_def del: hash_tree_root.simps(3))

lemma compute_domain_prefix:
  "length dt = 4 \<Longrightarrow> compute_domain X dt v g = Inr d \<Longrightarrow> take 4 d = dt"
  by (auto simp: compute_domain_def res_simps)

lemma compute_domain_length:
  assumes "ext_ok X" and "length dt = 4" and "length v = 4" and "length g = 32"
    and "compute_domain X dt v g = Inr d"
  shows "length d = 32"
proof -
  have "well_typed ForkData_ty (ForkData_val \<lparr>fd_current_version = v, fd_genesis_validators_root = g\<rparr>)"
    using assms(3,4) by (simp add: ForkData_ok_iff flip: ForkData_ok_def)
  moreover have "ForkData_ty \<in> set (container_types Mainnet)" by (simp add: container_types_def)
  ultimately have "length r = 32" if "compute_fork_data_root X v g = Inr r" for r
    using tree_root_length [OF assms(1)] that unfolding compute_fork_data_root_def by blast
  then show ?thesis using assms(2,5) by (auto simp: compute_domain_def res_simps)
qed


text \<open>External functions for the witness: a constant digest, so that every two messages collide.\<close>

definition ex_ext :: "(unit, unit, unit) ext" where
  "ex_ext = \<lparr>ext_sha256 = \<lambda>_. replicate 32 0, ext_g1_deserialize = \<lambda>_. Some (), ext_g1_serialize = \<lambda>_. Some (replicate 48 0),
     ext_g1_zero = (), ext_g1_add = \<lambda>_ _. (), ext_g1_generator = (), ext_g2_deserialize = \<lambda>_. Some (),
     ext_hash_to_g2 = \<lambda>_. Some (), ext_pairing = \<lambda>_ _. ()\<rparr>"

lemma ex_ext_ok: "ext_ok ex_ext"
  by (simp add: ext_ok_def ex_ext_def)


end
