(* ===== verification/Phases.thy ===== *)
theory Phases
  imports Example_State
begin

text \<open>
  The contract that every phase of the transition has: started in a state that satisfies the
  invariant, it does not panic, and a state it returns satisfies the invariant and belongs to the same
  slot, genesis and fork. The locale \<open>phase\<close> states it; the rules below compose phases the way the
  code does, by \<open>?\<close> and by \<open>for\<close> loops.
\<close>

definition chain_frame :: "BeaconState \<Rightarrow> Slot \<times> u64 \<times> Root \<times> Fork" where
  "chain_frame st = (slot st, genesis_time st, genesis_validators_root st, fork st)"

lemma chain_frame_upd [simp]:
  "chain_frame (latest_block_header_update f1 st) = chain_frame st"
  "chain_frame (block_roots_update f2 st) = chain_frame st"
  "chain_frame (state_roots_update f3 st) = chain_frame st"
  "chain_frame (eth1_data_update f4 st) = chain_frame st"
  "chain_frame (eth1_data_votes_update f5 st) = chain_frame st"
  "chain_frame (validators_update f6 st) = chain_frame st"
  "chain_frame (balances_update f7 st) = chain_frame st"
  "chain_frame (randao_mixes_update f8 st) = chain_frame st"
  "chain_frame (slashings_update f9 st) = chain_frame st"
  "chain_frame (previous_epoch_participation_update f10 st) = chain_frame st"
  "chain_frame (current_epoch_participation_update f11 st) = chain_frame st"
  "chain_frame (justification_bits_update f12 st) = chain_frame st"
  "chain_frame (previous_justified_checkpoint_update f13 st) = chain_frame st"
  "chain_frame (current_justified_checkpoint_update f14 st) = chain_frame st"
  "chain_frame (finalized_checkpoint_update f15 st) = chain_frame st"
  "chain_frame (inactivity_scores_update f16 st) = chain_frame st"
  "chain_frame (current_sync_committee_update f17 st) = chain_frame st"
  "chain_frame (next_sync_committee_update f18 st) = chain_frame st"
  "chain_frame (latest_block_hash_update f19 st) = chain_frame st"
  "chain_frame (next_withdrawal_index_update f20 st) = chain_frame st"
  "chain_frame (next_withdrawal_validator_index_update f21 st) = chain_frame st"
  "chain_frame (historical_summaries_update f22 st) = chain_frame st"
  "chain_frame (deposit_requests_start_index_update f23 st) = chain_frame st"
  "chain_frame (deposit_balance_to_consume_update f24 st) = chain_frame st"
  "chain_frame (exit_balance_to_consume_update f25 st) = chain_frame st"
  "chain_frame (earliest_exit_epoch_update f26 st) = chain_frame st"
  "chain_frame (consolidation_balance_to_consume_update f27 st) = chain_frame st"
  "chain_frame (earliest_consolidation_epoch_update f28 st) = chain_frame st"
  "chain_frame (pending_deposits_update f29 st) = chain_frame st"
  "chain_frame (pending_partial_withdrawals_update f30 st) = chain_frame st"
  "chain_frame (pending_consolidations_update f31 st) = chain_frame st"
  "chain_frame (proposer_lookahead_update f32 st) = chain_frame st"
  "chain_frame (builders_update f33 st) = chain_frame st"
  "chain_frame (next_withdrawal_builder_index_update f34 st) = chain_frame st"
  "chain_frame (execution_payload_availability_update f35 st) = chain_frame st"
  "chain_frame (builder_pending_payments_update f36 st) = chain_frame st"
  "chain_frame (builder_pending_withdrawals_update f37 st) = chain_frame st"
  "chain_frame (latest_execution_payload_bid_update f38 st) = chain_frame st"
  "chain_frame (payload_expected_withdrawals_update f39 st) = chain_frame st"
  "chain_frame (ptc_window_update f40 st) = chain_frame st"
  by (simp_all add: chain_frame_def)

lemma chain_frame_eqD:
  "chain_frame st' = chain_frame st \<Longrightarrow> slot st' = slot st"
  "chain_frame st' = chain_frame st \<Longrightarrow> genesis_time st' = genesis_time st"
  "chain_frame st' = chain_frame st \<Longrightarrow> genesis_validators_root st' = genesis_validators_root st"
  "chain_frame st' = chain_frame st \<Longrightarrow> fork st' = fork st"
  by (simp_all add: chain_frame_def)

locale phase =
  fixes X :: "('g1, 'g2, 'gt) ext" and p :: preset and run :: "BeaconState \<Rightarrow> BeaconState tres"
  assumes keeps: "ext_ok X \<Longrightarrow> state_ok p st \<Longrightarrow>
    safe (run st) (\<lambda>st'. state_ok p st' \<and> chain_frame st' = chain_frame st)"
begin

lemma no_panic: "ext_ok X \<Longrightarrow> state_ok p st \<Longrightarrow> run st \<noteq> Inl Panic"
  using keeps by (rule safe_no_panic)

lemma invariant: "ext_ok X \<Longrightarrow> state_ok p st \<Longrightarrow> run st = Inr st' \<Longrightarrow> state_ok p st'"
  by (rule safeD [OF keeps, THEN conjunct1])

lemma same_slot: "ext_ok X \<Longrightarrow> state_ok p st \<Longrightarrow> run st = Inr st' \<Longrightarrow> slot st' = slot st"
  by (rule chain_frame_eqD(1) [OF safeD [OF keeps, THEN conjunct2]])

end

section \<open>Composition\<close>

lemma phase_skip: "phase X p (\<lambda>st. Inr st)"
  by unfold_locales simp

lemma phase_seq:
  assumes "phase X p f" and "phase X p g"
  shows "phase X p (\<lambda>st. bindR (f st) g)"
proof
  fix st assume X: "ext_ok X" and ok: "state_ok p st"
  show "safe (bindR (f st) g) (\<lambda>st'. state_ok p st' \<and> chain_frame st' = chain_frame st)"
    unfolding safe_bind
    by (rule safe_mono [OF phase.keeps [OF assms(1) X ok]]) (auto intro: safe_mono [OF phase.keeps [OF assms(2) X]])
qed

lemma phase_for:
  assumes "\<And>x. x \<in> set xs \<Longrightarrow> phase X p (\<lambda>st. f st x)"
  shows "phase X p (\<lambda>st. foldR f st xs)"
proof
  fix st assume X: "ext_ok X" and ok: "state_ok p st"
  show "safe (foldR f st xs) (\<lambda>st'. state_ok p st' \<and> chain_frame st' = chain_frame st)"
  proof (rule safe_foldR)
    fix s x assume "x \<in> set xs" and "state_ok p s \<and> chain_frame s = chain_frame st"
    then show "safe (f s x) (\<lambda>st'. state_ok p st' \<and> chain_frame st' = chain_frame st)"
      using phase.keeps [OF assms X, of x s] by simp
  qed (simp add: ok)
qed

end
