(* ===== verification/Churn.thy ===== *)
theory Churn
  imports Validators Signing Phases
begin

text \<open>
  Lifecycle scheduling (\<open>state_transition/validator.rs\<close>): churn limits, the churn cursor that spreads
  exits and consolidations over epochs, validator exits, and the switch to compounding credentials.
\<close>

section \<open>Pending withdrawals and churn limits\<close>

definition get_pending_balance_to_withdraw :: "BeaconState \<Rightarrow> ValidatorIndex \<Rightarrow> Gwei tres" where
  "get_pending_balance_to_withdraw st index =
     foldR (\<lambda>total w. or_err (checked_add total (ppw_amount w)) (ArithmeticOverflow Arith_BalanceSum))
       0 (filter (\<lambda>w. ppw_validator_index w = index) (pending_partial_withdrawals st))"

definition get_balance_churn_limit :: "preset \<Rightarrow> BeaconState \<Rightarrow> Gwei tres" where
  "get_balance_churn_limit p st =
     bindR (get_total_active_balance p st) (\<lambda>total.
     let stake_scaled = total div CHURN_LIMIT_QUOTIENT p;
         churn = max (MIN_PER_EPOCH_CHURN_LIMIT p) stake_scaled;
         remainder = churn mod EFFECTIVE_BALANCE_INCREMENT
     in u_sub churn remainder)"

definition get_activation_churn_limit :: "preset \<Rightarrow> BeaconState \<Rightarrow> Gwei tres" where
  "get_activation_churn_limit p st =
     bindR (get_balance_churn_limit p st) (\<lambda>limit. Inr (min (MAX_PER_EPOCH_ACTIVATION_CHURN_LIMIT p) limit))"

definition get_exit_churn_limit :: "preset \<Rightarrow> BeaconState \<Rightarrow> Gwei tres" where
  "get_exit_churn_limit p st = get_balance_churn_limit p st"

definition get_consolidation_churn_limit :: "preset \<Rightarrow> BeaconState \<Rightarrow> Gwei tres" where
  "get_consolidation_churn_limit p st =
     bindR (get_total_active_balance p st) (\<lambda>total.
     let raw = total div CONSOLIDATION_CHURN_LIMIT_QUOTIENT p;
         remainder = raw mod EFFECTIVE_BALANCE_INCREMENT
     in u_sub raw remainder)"

section \<open>The churn cursor\<close>

definition compute_activation_exit_epoch :: "Epoch \<Rightarrow> Epoch tres" where
  "compute_activation_exit_epoch epoch =
     or_err (Option.bind (checked_add epoch 1) (\<lambda>e. checked_add e MAX_SEED_LOOKAHEAD))
       (ArithmeticOverflow Arith_Epoch)"

definition consume_churn_budget ::
    "Epoch \<Rightarrow> Epoch \<Rightarrow> Gwei \<Rightarrow> Gwei \<Rightarrow> Gwei \<Rightarrow> (Epoch \<times> Gwei) tres" where
  "consume_churn_budget current_epoch cursor_epoch cursor_balance requested_balance per_epoch_churn =
     bindR (compute_activation_exit_epoch current_epoch) (\<lambda>activation.
     let earliest = max cursor_epoch activation;
         available = (if cursor_epoch < earliest then per_epoch_churn else cursor_balance)
     in
     bindR (if requested_balance > available then
              bindR (reject (per_epoch_churn = 0) (ArithmeticOverflow Arith_Churn)) (\<lambda>_.
              bindR (or_err (checked_sub requested_balance available) (ArithmeticOverflow Arith_Churn)) (\<lambda>balance_to_process.
              bindR (u_sub balance_to_process 1) (\<lambda>b.
              bindR (u_add (b div per_epoch_churn) 1) (\<lambda>additional_epochs.
              bindR (or_err (checked_add earliest additional_epochs) (ArithmeticOverflow Arith_Churn)) (\<lambda>epoch.
              bindR (or_err (checked_mul additional_epochs per_epoch_churn) (ArithmeticOverflow Arith_Churn)) (\<lambda>added_budget.
              bindR (or_err (checked_add available added_budget) (ArithmeticOverflow Arith_Churn)) (\<lambda>available'.
              Inr (epoch, available'))))))))
            else Inr (earliest, available)) (\<lambda>(epoch, available).
     bindR (or_err (checked_sub available requested_balance) (ArithmeticOverflow Arith_Churn)) (\<lambda>remaining.
     Inr (epoch, remaining))))"

definition compute_exit_epoch_and_update_churn ::
    "preset \<Rightarrow> BeaconState \<Rightarrow> Gwei \<Rightarrow> (Epoch \<times> BeaconState) tres" where
  "compute_exit_epoch_and_update_churn p st exit_balance =
     (let current = epoch_of p (slot st) in
      bindR (get_exit_churn_limit p st) (\<lambda>per_epoch_churn.
      bindR (consume_churn_budget current (earliest_exit_epoch st) (exit_balance_to_consume st)
               exit_balance per_epoch_churn) (\<lambda>(exit_epoch, remaining).
      Inr (exit_epoch, st\<lparr>exit_balance_to_consume := remaining, earliest_exit_epoch := exit_epoch\<rparr>))))"

definition compute_consolidation_epoch_and_update_churn ::
    "preset \<Rightarrow> BeaconState \<Rightarrow> Gwei \<Rightarrow> (Epoch \<times> BeaconState) tres" where
  "compute_consolidation_epoch_and_update_churn p st consolidation_balance =
     (let current = epoch_of p (slot st) in
      bindR (get_consolidation_churn_limit p st) (\<lambda>per_epoch_churn.
      bindR (consume_churn_budget current (earliest_consolidation_epoch st) (consolidation_balance_to_consume st)
               consolidation_balance per_epoch_churn) (\<lambda>(consolidation_epoch, remaining).
      Inr (consolidation_epoch,
           st\<lparr>consolidation_balance_to_consume := remaining, earliest_consolidation_epoch := consolidation_epoch\<rparr>))))"

section \<open>Exits and credentials\<close>

definition initiate_validator_exit :: "preset \<Rightarrow> BeaconState \<Rightarrow> ValidatorIndex \<Rightarrow> BeaconState tres" where
  "initiate_validator_exit p st index =
     bindR (validator st index) (\<lambda>v.
     if v_exit_epoch v \<noteq> FAR_FUTURE_EPOCH then Inr st
     else
       bindR (compute_exit_epoch_and_update_churn p st (v_effective_balance v)) (\<lambda>(exit_epoch, st1).
       bindR (or_err (checked_add exit_epoch MIN_VALIDATOR_WITHDRAWABILITY_DELAY)
                (OperationErr (Op_WithdrawableEpochOverflow index))) (\<lambda>withdrawable.
       bindR (idx (validators st1) index) (\<lambda>v1.
       bindR (idx_set (validators st1) index
                (v1\<lparr>v_exit_epoch := exit_epoch, v_withdrawable_epoch := withdrawable\<rparr>)) (\<lambda>vs.
       Inr (st1\<lparr>validators := vs\<rparr>))))))"

definition queue_excess_active_balance :: "BeaconState \<Rightarrow> ValidatorIndex \<Rightarrow> BeaconState tres" where
  "queue_excess_active_balance st index =
     bindR (validator st index) (\<lambda>v.
     bindR (or_err (get_at (balances st) index) (InvariantErr (Inv_MissingBalance index))) (\<lambda>balance.
     if balance \<le> MIN_ACTIVATION_BALANCE then Inr st
     else
       bindR (reject (length (pending_deposits st) \<ge> PENDING_DEPOSITS_LIMIT)
                (BoundedListFull BL_PendingDeposits)) (\<lambda>_.
       bindR (or_err (checked_sub balance MIN_ACTIVATION_BALANCE) (ArithmeticOverflow Arith_Churn)) (\<lambda>excess_balance.
       bindR (idx_set (balances st) index MIN_ACTIVATION_BALANCE) (\<lambda>bals.
       bindR (or_err (list_push PENDING_DEPOSITS_LIMIT (pending_deposits st)
                \<lparr>pd_pubkey = v_pubkey v, pd_withdrawal_credentials = v_withdrawal_credentials v,
                 pd_amount = excess_balance, pd_signature = G2_POINT_AT_INFINITY, pd_slot = GENESIS_SLOT\<rparr>)
                (BoundedListFull BL_PendingDeposits)) (\<lambda>deposits.
       Inr (st\<lparr>balances := bals, pending_deposits := deposits\<rparr>)))))))"

definition switch_to_compounding_validator :: "BeaconState \<Rightarrow> ValidatorIndex \<Rightarrow> BeaconState tres" where
  "switch_to_compounding_validator st index =
     bindR (validator st index) (\<lambda>_.
     bindR (idx (validators st) index) (\<lambda>v.
     bindR (idx_set (validators st) index
              (v\<lparr>v_withdrawal_credentials := (v_withdrawal_credentials v)[0 := COMPOUNDING_WITHDRAWAL_PREFIX]\<rparr>)) (\<lambda>vs.
     queue_excess_active_balance (st\<lparr>validators := vs\<rparr>) index)))"

section \<open>Churn limits\<close>

lemma get_pending_balance_safe [safe_simps]:
  "safe (get_pending_balance_to_withdraw st i) Q =
     (\<forall>t. get_pending_balance_to_withdraw st i = Inr t \<longrightarrow> Q t)"
proof -
  have "safe (get_pending_balance_to_withdraw st i) (\<lambda>_. True)"
    unfolding get_pending_balance_to_withdraw_def by (rule safe_foldR) (simp_all add: safe_simps)
  then show ?thesis by (cases "get_pending_balance_to_withdraw st i") auto
qed

lemma mult_round_down: "x - x mod m = m * (x div m)" for x m :: nat
  by (metis minus_mod_eq_mult_div)

lemma balance_churn_limit_safe:
  "safe (get_balance_churn_limit p st) (\<lambda>c. 0 < c \<and> c \<le> u64_max \<and> EFFECTIVE_BALANCE_INCREMENT dvd c)"
  unfolding get_balance_churn_limit_def Let_def safe_bind
proof (rule safe_mono [OF get_total_active_balance_safe])
  fix t assume t: "EFFECTIVE_BALANCE_INCREMENT \<le> t \<and> t \<le> u64_max"
  let ?c = "max (MIN_PER_EPOCH_CHURN_LIMIT p) (t div CHURN_LIMIT_QUOTIENT p)"
  have "EFFECTIVE_BALANCE_INCREMENT \<le> ?c"
    by (cases p) (simp_all add: MIN_PER_EPOCH_CHURN_LIMIT_def EFFECTIVE_BALANCE_INCREMENT_def)
  then have "0 < ?c div EFFECTIVE_BALANCE_INCREMENT" by (rule increments_pos)
  moreover have "MIN_PER_EPOCH_CHURN_LIMIT p \<le> u64_max"
    by (cases p) (simp_all add: MIN_PER_EPOCH_CHURN_LIMIT_def u64_max_def)
  then have "?c \<le> u64_max" using t by (auto intro: le_trans [OF div_le_dividend])
  ultimately show "safe (u_sub ?c (?c mod EFFECTIVE_BALANCE_INCREMENT))
      (\<lambda>c. 0 < c \<and> c \<le> u64_max \<and> EFFECTIVE_BALANCE_INCREMENT dvd c)"
    unfolding safe_u_sub by (auto intro: mod_less_eq_dividend dvd_minus_mod le_trans [OF diff_le_self]
        simp: mult_round_down EFFECTIVE_BALANCE_INCREMENT_def)
qed

lemma exit_churn_limit_safe:
  "safe (get_exit_churn_limit p st) (\<lambda>c. 0 < c \<and> c \<le> u64_max \<and> EFFECTIVE_BALANCE_INCREMENT dvd c)"
  unfolding get_exit_churn_limit_def by (rule balance_churn_limit_safe)

lemma consolidation_churn_limit_safe:
  "safe (get_consolidation_churn_limit p st) (\<lambda>c. c \<le> u64_max \<and> EFFECTIVE_BALANCE_INCREMENT dvd c)"
  unfolding get_consolidation_churn_limit_def Let_def safe_bind
proof (rule safe_mono [OF get_total_active_balance_safe])
  fix t assume t: "EFFECTIVE_BALANCE_INCREMENT \<le> t \<and> t \<le> u64_max"
  let ?c = "t div CONSOLIDATION_CHURN_LIMIT_QUOTIENT p"
  have "?c \<le> u64_max" using t by (auto intro: le_trans [OF div_le_dividend])
  then show "safe (u_sub ?c (?c mod EFFECTIVE_BALANCE_INCREMENT))
      (\<lambda>c. c \<le> u64_max \<and> EFFECTIVE_BALANCE_INCREMENT dvd c)"
    unfolding safe_u_sub by (auto intro: mod_less_eq_dividend dvd_minus_mod)
qed

section \<open>The churn cursor accounts exactly\<close>

lemma activation_exit_epoch_eq_Inr [res_simps]:
  "compute_activation_exit_epoch e = Inr a \<longleftrightarrow> a = e + 1 + MAX_SEED_LOOKAHEAD \<and> a \<le> u64_max"
  by (auto simp: compute_activation_exit_epoch_def res_simps bind_eq_Some_conv MAX_SEED_LOOKAHEAD_def)

lemma activation_exit_epoch_safe [safe_simps]:
  "safe (compute_activation_exit_epoch e) Q =
     (e + 1 + MAX_SEED_LOOKAHEAD \<le> u64_max \<longrightarrow> Q (e + 1 + MAX_SEED_LOOKAHEAD))"
  by (auto simp: compute_activation_exit_epoch_def safe_simps res_simps bind_eq_Some_conv MAX_SEED_LOOKAHEAD_def)

lemma ceiling_bounds:
  fixes b m :: nat
  assumes "0 < b" and "0 < m"
  shows "b \<le> ((b - 1) div m + 1) * m" and "(b - 1) div m * m < b"
proof -
  have "b - 1 < ((b - 1) div m + 1) * m" using assms(2) by (metis Suc_eq_plus1 dividend_less_div_times mult.commute mult_Suc)
  then show "b \<le> ((b - 1) div m + 1) * m" by simp
  show "(b - 1) div m * m < b" using assms(1) by (meson diff_less div_times_less_eq_dividend le_less_trans zero_less_one)
qed

text \<open>The accounting of one request, in terms of the first usable epoch and the budget left in it.\<close>

definition churn_accounted :: "nat \<Rightarrow> nat \<Rightarrow> nat \<Rightarrow> nat \<Rightarrow> nat \<Rightarrow> nat \<Rightarrow> bool" where
  "churn_accounted earliest start per_epoch requested e r \<longleftrightarrow>
     earliest \<le> e \<and> start + (e - earliest) * per_epoch = requested + r
     \<and> (earliest < e \<longrightarrow> r < per_epoch \<and> start + (e - 1 - earliest) * per_epoch < requested)"

lemma churn_spend:
  assumes "bindR (if A < req then
        bindR (reject (per = 0) (ArithmeticOverflow Arith_Churn)) (\<lambda>_.
        bindR (or_err (checked_sub req A) (ArithmeticOverflow Arith_Churn)) (\<lambda>balance_to_process.
        bindR (u_sub balance_to_process 1) (\<lambda>b.
        bindR (u_add (b div per) 1) (\<lambda>additional_epochs.
        bindR (or_err (checked_add E additional_epochs) (ArithmeticOverflow Arith_Churn)) (\<lambda>epoch.
        bindR (or_err (checked_mul additional_epochs per) (ArithmeticOverflow Arith_Churn)) (\<lambda>added_budget.
        bindR (or_err (checked_add A added_budget) (ArithmeticOverflow Arith_Churn)) (\<lambda>available'.
        Inr (epoch, available'))))))))
      else Inr (E, A)) (\<lambda>(epoch, available).
    bindR (or_err (checked_sub available req) (ArithmeticOverflow Arith_Churn)) (\<lambda>remaining.
    Inr (epoch, remaining))) = Inr (e, r)"
  shows "churn_accounted E A per req e r \<and> e \<le> max u64_max E \<and> r \<le> max u64_max A"
proof (cases "A < req")
  case False
  then show ?thesis using assms by (auto simp: res_simps churn_accounted_def)
next
  case True
  define q where "q = (req - A - 1) div per"
  have "e = E + (q + 1) \<and> r = A + (q + 1) * per - req \<and> req \<le> A + (q + 1) * per \<and> 0 < per
      \<and> E + (q + 1) \<le> u64_max \<and> A + (q + 1) * per \<le> u64_max"
    using assms True by (auto simp: res_simps q_def)
  then have e: "e - E = q + 1" "e - 1 - E = q" "E \<le> e" "E < e" "e \<le> u64_max"
    and r: "r = A + (q + 1) * per - req"
    and cov: "req \<le> A + (q + 1) * per" and per: "0 < per" and le: "A + (q + 1) * per \<le> u64_max"
    by auto
  have "q * per < req - A" using ceiling_bounds(2) [of "req - A" per] True per by (simp add: q_def)
  then have lt: "A + q * per < req" by linarith
  moreover have "(q + 1) * per = q * per + per" by simp
  ultimately have "r < per" using r cov by linarith
  moreover have "A + (q + 1) * per = req + r" using r cov by linarith
  ultimately show ?thesis
    unfolding churn_accounted_def e(1,2) using lt le r e(3,4,5) by auto
qed

lemma churn_budget_inv:
  assumes "consume_churn_budget cur ce cb req per = Inr (e, r)"
  shows "churn_accounted (max ce (cur + 1 + MAX_SEED_LOOKAHEAD))
      (if ce < max ce (cur + 1 + MAX_SEED_LOOKAHEAD) then per else cb) per req e r
    \<and> e \<le> max u64_max ce \<and> r \<le> max u64_max (max per cb)"
proof -
  obtain act where act: "compute_activation_exit_epoch cur = Inr act"
    using assms by (auto simp: consume_churn_budget_def bindR_eq_Inr)
  then have a: "act = cur + 1 + MAX_SEED_LOOKAHEAD" "act \<le> u64_max" by (simp_all add: res_simps)
  have "churn_accounted (max ce act) (if ce < max ce act then per else cb) per req e r
      \<and> e \<le> max u64_max (max ce act) \<and> r \<le> max u64_max (if ce < max ce act then per else cb)"
    by (rule churn_spend) (use assms in \<open>simp only: consume_churn_budget_def act bindR_simps Let_def\<close>)
  then show ?thesis using a by (auto split: if_splits)
qed

text \<open>
  C8: a churn request is accounted exactly. The epoch it gets is the earliest one whose cumulative
  budget (what is left at the cursor, plus one full budget for each further epoch) covers the request,
  never before the activation-exit delay, and the remainder is what is left of that budget.
\<close>

theorem consume_churn_budget_correct:
  assumes "consume_churn_budget cur ce cb req per = Inr (e, r)"
  shows "let earliest = max ce (cur + 1 + MAX_SEED_LOOKAHEAD);
             start = (if ce < earliest then per else cb)
         in earliest \<le> e \<and> start + (e - earliest) * per = req + r
            \<and> (\<forall>e'. earliest \<le> e' \<and> e' < e \<longrightarrow> start + (e' - earliest) * per < req)"
proof -
  let ?E = "max ce (cur + 1 + MAX_SEED_LOOKAHEAD)"
  let ?A = "if ce < ?E then per else cb"
  note inv = churn_budget_inv [OF assms, THEN conjunct1, unfolded churn_accounted_def]
  have "?A + (e' - ?E) * per < req" if "?E \<le> e'" "e' < e" for e'
  proof -
    have "(e' - ?E) * per \<le> (e - 1 - ?E) * per" using that by (intro mult_le_mono1) linarith
    then show ?thesis using inv that by linarith
  qed
  then show ?thesis using inv by (simp add: Let_def)
qed

theorem consume_churn_budget_correct_witness:
  "consume_churn_budget 10 15 100 250 64 = Inr (18, 42) \<and> (100 :: nat) + (18 - 15) * 64 = 250 + 42"
proof -
  have run: "consume_churn_budget 10 15 100 250 64 = Inr (18, 42)"
    by (simp add: consume_churn_budget_def compute_activation_exit_epoch_def u64_defs u_sub_def u_add_def u64_max_def
        MAX_SEED_LOOKAHEAD_def)
  show ?thesis using run consume_churn_budget_correct [OF run] by (simp add: MAX_SEED_LOOKAHEAD_def)
qed

lemma churn_budget_safe:
  assumes "req \<le> u64_max" and "ce \<le> u64_max" and "per \<le> u64_max" and "cb \<le> u64_max"
  shows "safe (consume_churn_budget cur ce cb req per) (\<lambda>(e, r). e \<le> u64_max \<and> r \<le> u64_max \<and> cur + 1 + MAX_SEED_LOOKAHEAD \<le> e)"
proof -
  have "safe (consume_churn_budget cur ce cb req per) (\<lambda>_. True)"
    unfolding consume_churn_budget_def Let_def
    using assms by (auto simp: safe_simps res_simps intro!: le_trans [OF Suc_leI [OF le_less_trans [OF div_le_dividend]]])
  then show ?thesis
    by (rule safe_mono) (use assms in \<open>auto simp: churn_accounted_def dest!: churn_budget_inv\<close>)
qed

section \<open>Exits\<close>

lemma set_update_all:
  "\<forall>y \<in> set xs. P y \<Longrightarrow> P v \<Longrightarrow> \<forall>y \<in> set (xs[i := v]). P y"
  using set_update_subset_insert by fastforce

lemma exit_epoch_update_safe:
  assumes "state_ok p st" and "b \<le> u64_max"
  shows "safe (compute_exit_epoch_and_update_churn p st b)
    (\<lambda>(e, st'). state_ok p st' \<and> e \<le> u64_max \<and> epoch_of p (slot st) + 1 + MAX_SEED_LOOKAHEAD \<le> e
       \<and> (\<exists>r. st' = st\<lparr>exit_balance_to_consume := r, earliest_exit_epoch := e\<rparr>))"
  unfolding compute_exit_epoch_and_update_churn_def Let_def safe_bind
proof (rule safe_mono [OF exit_churn_limit_safe])
  fix c assume "0 < c \<and> c \<le> u64_max \<and> EFFECTIVE_BALANCE_INCREMENT dvd c"
  then have "safe (consume_churn_budget (epoch_of p (slot st)) (earliest_exit_epoch st) (exit_balance_to_consume st) b c)
      (\<lambda>(e, r). e \<le> u64_max \<and> r \<le> u64_max \<and> epoch_of p (slot st) + 1 + MAX_SEED_LOOKAHEAD \<le> e)"
    using assms state_ok_earliest_exit_epoch state_ok_exit_balance_to_consume by (intro churn_budget_safe) auto
  then show "safe (consume_churn_budget (epoch_of p (slot st)) (earliest_exit_epoch st) (exit_balance_to_consume st) b c)
      (\<lambda>x. safe (case x of (exit_epoch, remaining) \<Rightarrow>
          Inr (exit_epoch, st\<lparr>exit_balance_to_consume := remaining, earliest_exit_epoch := exit_epoch\<rparr>))
        (\<lambda>(e, st'). state_ok p st' \<and> e \<le> u64_max \<and> epoch_of p (slot st) + 1 + MAX_SEED_LOOKAHEAD \<le> e
          \<and> (\<exists>r. st' = st\<lparr>exit_balance_to_consume := r, earliest_exit_epoch := e\<rparr>)))"
    by (rule safe_mono) (auto intro!: state_upd assms)
qed

lemma consolidation_epoch_update_safe:
  assumes "state_ok p st" and "b \<le> u64_max"
  shows "safe (compute_consolidation_epoch_and_update_churn p st b)
    (\<lambda>(e, st'). state_ok p st' \<and> e \<le> u64_max \<and> epoch_of p (slot st) + 1 + MAX_SEED_LOOKAHEAD \<le> e
       \<and> (\<exists>r. st' = st\<lparr>consolidation_balance_to_consume := r, earliest_consolidation_epoch := e\<rparr>))"
  unfolding compute_consolidation_epoch_and_update_churn_def Let_def safe_bind
proof (rule safe_mono [OF consolidation_churn_limit_safe])
  fix c assume "c \<le> u64_max \<and> EFFECTIVE_BALANCE_INCREMENT dvd c"
  then have "safe (consume_churn_budget (epoch_of p (slot st)) (earliest_consolidation_epoch st)
      (consolidation_balance_to_consume st) b c)
      (\<lambda>(e, r). e \<le> u64_max \<and> r \<le> u64_max \<and> epoch_of p (slot st) + 1 + MAX_SEED_LOOKAHEAD \<le> e)"
    using assms state_ok_earliest_consolidation_epoch state_ok_consolidation_balance_to_consume
    by (intro churn_budget_safe) auto
  then show "safe (consume_churn_budget (epoch_of p (slot st)) (earliest_consolidation_epoch st)
      (consolidation_balance_to_consume st) b c)
      (\<lambda>x. safe (case x of (consolidation_epoch, remaining) \<Rightarrow>
          Inr (consolidation_epoch, st\<lparr>consolidation_balance_to_consume := remaining,
            earliest_consolidation_epoch := consolidation_epoch\<rparr>))
        (\<lambda>(e, st'). state_ok p st' \<and> e \<le> u64_max \<and> epoch_of p (slot st) + 1 + MAX_SEED_LOOKAHEAD \<le> e
          \<and> (\<exists>r. st' = st\<lparr>consolidation_balance_to_consume := r, earliest_consolidation_epoch := e\<rparr>)))"
    by (rule safe_mono) (auto intro!: state_upd assms)
qed

text \<open>What an exit does to the registry, besides the churn cursor.\<close>

definition exit_scheduled :: "preset \<Rightarrow> BeaconState \<Rightarrow> nat \<Rightarrow> BeaconState \<Rightarrow> bool" where
  "exit_scheduled p st i st' \<longleftrightarrow>
     (\<exists>e r. epoch_of p (slot st) + 1 + MAX_SEED_LOOKAHEAD \<le> e \<and> e + MIN_VALIDATOR_WITHDRAWABILITY_DELAY \<le> u64_max
        \<and> st' = st\<lparr>exit_balance_to_consume := r, earliest_exit_epoch := e,
            validators := (validators st)[i := (validators st ! i)\<lparr>v_exit_epoch := e,
              v_withdrawable_epoch := e + MIN_VALIDATOR_WITHDRAWABILITY_DELAY\<rparr>]\<rparr>)"

lemma Validator_ok_exit:
  "Validator_ok v \<Longrightarrow> e \<le> u64_max \<Longrightarrow> w \<le> u64_max \<Longrightarrow>
     Validator_ok (v\<lparr>v_exit_epoch := e, v_withdrawable_epoch := w\<rparr>)"
  by (simp add: Validator_ok_iff)

lemma validator_nth_ok: "state_ok p st \<Longrightarrow> i < length (validators st) \<Longrightarrow> Validator_ok (validators st ! i)"
  using state_ok_validators(2) nth_mem by blast

lemma initiate_validator_exit_safe:
  assumes ok: "state_ok p st"
  shows "safe (initiate_validator_exit p st i)
    (\<lambda>st'. state_ok p st' \<and> i < length (validators st)
       \<and> (if v_exit_epoch (validators st ! i) \<noteq> FAR_FUTURE_EPOCH then st' = st else exit_scheduled p st i st'))"
proof (cases "i < length (validators st) \<and> v_exit_epoch (validators st ! i) = FAR_FUTURE_EPOCH")
  case False
  then show ?thesis using ok by (auto simp: initiate_validator_exit_def safe_simps)
next
  case True
  let ?v = "validators st ! i"
  have vok: "Validator_ok ?v" using validator_nth_ok [OF ok] True by blast
  then have "v_effective_balance ?v \<le> u64_max" by (simp add: Validator_ok_iff)
  note upd = exit_epoch_update_safe [OF ok this]
  let ?vs = "\<lambda>e. (validators st)[i := ?v\<lparr>v_exit_epoch := e,
      v_withdrawable_epoch := e + MIN_VALIDATOR_WITHDRAWABILITY_DELAY\<rparr>]"
  have keep: "state_ok p (s\<lparr>validators := ?vs e\<rparr>)"
    if "state_ok p s" "validators s = validators st" "e + MIN_VALIDATOR_WITHDRAWABILITY_DELAY \<le> u64_max" for s e
  proof (rule state_ok_upd_validators [OF that(1)])
    show "\<forall>y \<in> set (?vs e). Validator_ok y"
      by (rule set_update_all [OF state_ok_validators(2) [OF ok]]) (rule Validator_ok_exit [OF vok], use that(3) in simp_all)
  qed (simp add: that(2))
  show ?thesis
    unfolding initiate_validator_exit_def safe_bind safe_validator
    using True
    by (auto simp: safe_simps res_simps keep intro!: safe_mono [OF upd]) (auto simp: exit_scheduled_def)
qed


lemma ex_balance_churn: "get_balance_churn_limit Minimal (ex_state Minimal) = Inr 64000000000"
  by (simp add: get_balance_churn_limit_def ex_total u_sub_def const_defs)


section \<open>Switching to compounding\<close>

lemma G2_point_length [simp]: "length G2_POINT_AT_INFINITY = 96"
  by (simp add: G2_POINT_AT_INFINITY_def)

lemma PendingDeposit_ok_push:
  assumes "state_ok p st" and "PendingDeposit_ok d" and "length (pending_deposits st) < PENDING_DEPOSITS_LIMIT"
  shows "state_ok p (st\<lparr>pending_deposits := pending_deposits st @ [d]\<rparr>)"
  using assms state_ok_pending_deposits [OF assms(1)] by (intro state_upd) auto

lemma queue_excess_safe:
  assumes ok: "state_ok p st"
  shows "safe (queue_excess_active_balance st i)
    (\<lambda>st'. state_ok p st' \<and> validators st' = validators st \<and> chain_frame st' = chain_frame st)"
proof (cases "i < length (validators st)")
  case False
  then show ?thesis by (simp add: queue_excess_active_balance_def safe_simps)
next
  case True
  then have i: "i < length (balances st)" using state_ok_aligned(1) [OF ok] by simp
  let ?v = "validators st ! i" and ?b = "balances st ! i"
  let ?d = "\<lparr>pd_pubkey = v_pubkey ?v, pd_withdrawal_credentials = v_withdrawal_credentials ?v,
      pd_amount = ?b - MIN_ACTIVATION_BALANCE, pd_signature = G2_POINT_AT_INFINITY, pd_slot = GENESIS_SLOT\<rparr>"
  have "Validator_ok ?v" using validator_nth_ok [OF ok True] .
  moreover have "?b - MIN_ACTIVATION_BALANCE \<le> u64_max"
    using state_ok_balances(2) [OF ok] nth_mem [OF i] by (meson diff_le_self le_trans)
  ultimately have d: "PendingDeposit_ok ?d" by (simp add: PendingDeposit_ok_iff Validator_ok_iff GENESIS_SLOT_def)
  have b: "state_ok p (st\<lparr>balances := (balances st)[i := MIN_ACTIVATION_BALANCE]\<rparr>)"
    by (rule state_ok_upd_balances [OF ok]) (simp, rule set_update_all [OF state_ok_balances(2) [OF ok]],
        simp add: MIN_ACTIVATION_BALANCE_def u64_max_def)
  show ?thesis
    unfolding queue_excess_active_balance_def
    using True i ok PendingDeposit_ok_push [OF b d]
    by (auto simp: safe_simps res_simps)
qed

lemma queue_excess_eq_Inr:
  assumes "queue_excess_active_balance st i = Inr st'"
  shows "sum_list (balances st') + sum_list (map pd_amount (pending_deposits st'))
      = sum_list (balances st) + sum_list (map pd_amount (pending_deposits st))
    \<and> balances st' ! i = min (balances st ! i) MIN_ACTIVATION_BALANCE"
proof (cases "balances st ! i \<le> MIN_ACTIVATION_BALANCE")
  case True
  then show ?thesis using assms by (auto simp: queue_excess_active_balance_def res_simps)
next
  case False
  have "i < length (balances st)" using assms by (auto simp: queue_excess_active_balance_def res_simps)
  then show ?thesis using assms False elem_le_sum_list [of i "balances st"]
    by (auto simp: queue_excess_active_balance_def res_simps sum_list_update)
qed

lemma switch_to_compounding_safe:
  assumes ok: "state_ok p st"
  shows "safe (switch_to_compounding_validator st i) (\<lambda>st'. state_ok p st' \<and> chain_frame st' = chain_frame st)"
proof -
  have keep: "state_ok p (st\<lparr>validators := (validators st)[i := (validators st ! i)\<lparr>v_withdrawal_credentials :=
      (v_withdrawal_credentials (validators st ! i))[0 := COMPOUNDING_WITHDRAWAL_PREFIX]\<rparr>]\<rparr>)"
    if "i < length (validators st)"
  proof (rule state_ok_upd_validators [OF ok])
    have "Validator_ok (validators st ! i)" using validator_nth_ok [OF ok that] .
    then have "Validator_ok ((validators st ! i)\<lparr>v_withdrawal_credentials :=
      (v_withdrawal_credentials (validators st ! i))[0 := COMPOUNDING_WITHDRAWAL_PREFIX]\<rparr>)"
      by (simp add: Validator_ok_iff)
    then show "\<forall>y \<in> set ((validators st)[i := (validators st ! i)\<lparr>v_withdrawal_credentials :=
      (v_withdrawal_credentials (validators st ! i))[0 := COMPOUNDING_WITHDRAWAL_PREFIX]\<rparr>]). Validator_ok y"
      by (rule set_update_all [OF state_ok_validators(2) [OF ok]])
  qed simp
  show ?thesis
    unfolding switch_to_compounding_validator_def
    by (auto simp: safe_simps intro!: safe_mono [OF queue_excess_safe [OF keep]])
qed

text \<open>
  Switching a validator to compounding credentials moves stake but creates and destroys none: the
  sum of all balances and all pending deposits is unchanged, and what exceeds the activation balance
  has left the validator's balance for the deposit queue.
\<close>

theorem switch_to_compounding_conserves:
  assumes "switch_to_compounding_validator st i = Inr st'"
  shows "sum_list (balances st') + sum_list (map pd_amount (pending_deposits st'))
      = sum_list (balances st) + sum_list (map pd_amount (pending_deposits st))
    \<and> balances st' ! i = min (balances st ! i) MIN_ACTIVATION_BALANCE
    \<and> length (validators st') = length (validators st)"
proof -
  obtain vs where q: "queue_excess_active_balance (st\<lparr>validators := vs\<rparr>) i = Inr st'"
    and len: "length vs = length (validators st)"
    using assms by (auto simp: switch_to_compounding_validator_def res_simps)
  have "length (validators st') = length vs"
    using q by (auto simp: queue_excess_active_balance_def res_simps split: if_splits)
  then show ?thesis using queue_excess_eq_Inr [OF q] len by simp
qed

theorem switch_to_compounding_conserves_witness:
  "\<exists>st'. switch_to_compounding_validator (ex_state Minimal) 1 = Inr st' \<and> balances st' ! 1 = 32000000000
     \<and> sum_list (balances st') + sum_list (map pd_amount (pending_deposits st')) = 128000000000"
proof -
  have "\<exists>st'. switch_to_compounding_validator (ex_state Minimal) 1 = Inr st'"
    by (simp add: switch_to_compounding_validator_def queue_excess_active_balance_def validator_def get_at_def idx_def
        idx_set_def checked_sub_def list_push_def MIN_ACTIVATION_BALANCE_def PENDING_DEPOSITS_LIMIT_def)
  then obtain st' where run: "switch_to_compounding_validator (ex_state Minimal) 1 = Inr st'" ..
  then show ?thesis using switch_to_compounding_conserves [OF run] by (simp add: MIN_ACTIVATION_BALANCE_def)
qed

end
