(* ===== verification/Committees.thy ===== *)
theory Committees
  imports Churn "HOL-Library.Multiset"
begin

text \<open>
  Committees and proposer assignment (\<open>state_transition/committee.rs\<close>): RANDAO seeds, the swap-or-not
  shuffle, beacon committees, balance-weighted sampling, and the payload-timeliness committee. The
  shuffle is shown to be a permutation, and the committees of an epoch to partition the active set.
\<close>

section \<open>Seeds\<close>

definition MAX_RANDOM_VALUE :: u64 where
  "MAX_RANDOM_VALUE = 65535"

definition seed_from_parts :: "('g1, 'g2, 'gt) ext \<Rightarrow> DomainType \<Rightarrow> Epoch \<Rightarrow> Bytes32 \<Rightarrow> Bytes32" where
  "seed_from_parts X domain_type epoch mix = ext_sha256 X (domain_type @ to_le_bytes 8 epoch @ mix)"

definition get_beacon_proposer_index :: "preset \<Rightarrow> BeaconState \<Rightarrow> ValidatorIndex tres" where
  "get_beacon_proposer_index p st =
     (let offset = slot st mod SLOTS_PER_EPOCH p in
      or_err (get_at (proposer_lookahead st) offset) (BlockErr (Block_ProposerLookaheadOutOfRange (slot st))))"

definition get_randao_mix :: "preset \<Rightarrow> BeaconState \<Rightarrow> Epoch \<Rightarrow> Bytes32 tres" where
  "get_randao_mix p st epoch = idx (randao_mixes st) (epoch mod EPOCHS_PER_HISTORICAL_VECTOR p)"

definition get_seed :: "('g1, 'g2, 'gt) ext \<Rightarrow> preset \<Rightarrow> BeaconState \<Rightarrow> Epoch \<Rightarrow> DomainType \<Rightarrow> Bytes32 tres" where
  "get_seed X p st epoch domain_type =
     (let lookback = EPOCHS_PER_HISTORICAL_VECTOR p - MIN_SEED_LOOKAHEAD - 1 in
      bindR (or_err (checked_add epoch lookback) (ArithmeticOverflow Arith_Epoch)) (\<lambda>mix_epoch.
      bindR (get_randao_mix p st mix_epoch) (\<lambda>mix.
      Inr (seed_from_parts X domain_type epoch mix))))"

text \<open>The saturating variant \<open>seed\<close>.\<close>

definition seed_at :: "('g1, 'g2, 'gt) ext \<Rightarrow> preset \<Rightarrow> BeaconState \<Rightarrow> Epoch \<Rightarrow> DomainType \<Rightarrow> Bytes32 tres" where
  "seed_at X p st epoch domain_type =
     (let lookback = EPOCHS_PER_HISTORICAL_VECTOR p - MIN_SEED_LOOKAHEAD - 1 in
      bindR (get_randao_mix p st (saturating_add epoch lookback)) (\<lambda>mix.
      Inr (seed_from_parts X domain_type epoch mix)))"

section \<open>The shuffle\<close>

definition pivot_for_round :: "('g1, 'g2, 'gt) ext \<Rightarrow> Bytes32 \<Rightarrow> byte \<Rightarrow> u64 \<Rightarrow> u64" where
  "pivot_for_round X seed round_byte index_count =
     (let digest = ext_sha256 X (seed @ [round_byte]) in from_le_bytes (take 8 digest) mod index_count)"

definition source_bit :: "('g1, 'g2, 'gt) ext \<Rightarrow> Bytes32 \<Rightarrow> byte \<Rightarrow> u64 \<Rightarrow> byte tres" where
  "source_bit X seed round_byte pos =
     bindR (reject (pos div 256 > u32_max) (ArithmeticOverflow Arith_BoundedListLength)) (\<lambda>_.
     let position_chunk = pos div 256;
         source = ext_sha256 X (seed @ [round_byte] @ to_le_bytes 4 position_chunk);
         byte_index = (pos mod 256) div 8;
         bit_index = pos mod 8
     in bindR (idx source byte_index) (\<lambda>b. Inr (drop_bit bit_index b AND 1)))"

definition compute_shuffled_index_checked ::
    "('g1, 'g2, 'gt) ext \<Rightarrow> preset \<Rightarrow> u64 \<Rightarrow> u64 \<Rightarrow> Bytes32 \<Rightarrow> u64 tres" where
  "compute_shuffled_index_checked X p index index_count seed =
     bindR (reject (index_count = 0) (BlockErr Block_EmptyActiveValidatorSet)) (\<lambda>_.
     bindR (reject (index \<ge> index_count) (ArithmeticOverflow Arith_BoundedListLength)) (\<lambda>_.
     foldR (\<lambda>current round.
       bindR (reject (round > 255) (ArithmeticOverflow Arith_BoundedListLength)) (\<lambda>_.
       let round_byte = word_of_nat round;
           pivot = pivot_for_round X seed round_byte index_count
       in
       bindR (if pivot \<ge> current then Inr (pivot - current) else u_sub index_count (current - pivot)) (\<lambda>flip.
       let pos = max current flip in
       bindR (source_bit X seed round_byte pos) (\<lambda>bit.
       Inr (if bit = 1 then flip else current)))))
       index [0..<SHUFFLE_ROUND_COUNT p]))"

section \<open>Committees\<close>

definition get_committee_count_per_slot :: "preset \<Rightarrow> BeaconState \<Rightarrow> Epoch \<Rightarrow> u64" where
  "get_committee_count_per_slot p st epoch =
     (let active = length (get_active_validator_indices st epoch);
          raw = active div SLOTS_PER_EPOCH p div TARGET_COMMITTEE_SIZE p
      in max (min raw (MAX_COMMITTEES_PER_SLOT p)) 1)"

definition compute_committee ::
    "('g1, 'g2, 'gt) ext \<Rightarrow> preset \<Rightarrow> ValidatorIndex list \<Rightarrow> Bytes32 \<Rightarrow> u64 \<Rightarrow> u64 \<Rightarrow> ValidatorIndex list tres" where
  "compute_committee X p indices seed index cnt =
     bindR (reject (cnt = 0) (ArithmeticOverflow Arith_BoundedListLength)) (\<lambda>_.
     bindR (reject (index \<ge> cnt) (BlockErr (Block_CommitteeIndexOutOfRange index))) (\<lambda>_.
     let total = length indices in
     bindR (or_err (checked_mul total index) (ArithmeticOverflow Arith_BoundedListLength)) (\<lambda>s.
     let start = s div cnt in
     bindR (or_err (checked_add index 1) (ArithmeticOverflow Arith_BoundedListLength)) (\<lambda>end_index.
     bindR (or_err (checked_mul total end_index) (ArithmeticOverflow Arith_BoundedListLength)) (\<lambda>e.
     let last = e div cnt in
     foldR (\<lambda>committee i.
       bindR (compute_shuffled_index_checked X p i total seed) (\<lambda>shuffled.
       bindR (or_err (get_at indices shuffled) (ArithmeticOverflow Arith_BoundedListLength)) (\<lambda>v.
       Inr (committee @ [v])))) [] [start..<last])))))"

definition get_beacon_committee ::
    "('g1, 'g2, 'gt) ext \<Rightarrow> preset \<Rightarrow> BeaconState \<Rightarrow> Slot \<Rightarrow> CommitteeIndex \<Rightarrow> ValidatorIndex list tres" where
  "get_beacon_committee X p st sl committee_index =
     (let epoch = epoch_of p sl;
          committees_per_slot = get_committee_count_per_slot p st epoch
      in
      bindR (reject (committee_index \<ge> committees_per_slot)
               (BlockErr (Block_CommitteeIndexOutOfRange committee_index))) (\<lambda>_.
      let indices = get_active_validator_indices st epoch in
      bindR (get_seed X p st epoch DOMAIN_BEACON_ATTESTER) (\<lambda>seed.
      bindR (or_err (checked_mul committees_per_slot (SLOTS_PER_EPOCH p))
               (ArithmeticOverflow Arith_BoundedListLength)) (\<lambda>cnt.
      bindR (or_err (checked_mul (sl mod SLOTS_PER_EPOCH p) committees_per_slot)
               (ArithmeticOverflow Arith_BoundedListLength)) (\<lambda>slot_committee_base.
      bindR (or_err (checked_add slot_committee_base committee_index)
               (ArithmeticOverflow Arith_BoundedListLength)) (\<lambda>index.
      compute_committee X p indices seed index cnt))))))"

definition get_committee_indices :: "bool list \<Rightarrow> CommitteeIndex list" where
  "get_committee_indices committee_bits = map fst (filter snd (enumerated committee_bits))"

section \<open>Balance-weighted sampling\<close>

text \<open>
  The loop of \<open>compute_proposer_index\<close>. The counter grows by one in every round and stops with an error
  at the end of its range.
\<close>

function proposer_loop ::
    "('g1, 'g2, 'gt) ext \<Rightarrow> preset \<Rightarrow> BeaconState \<Rightarrow> ValidatorIndex list \<Rightarrow> Bytes32 \<Rightarrow> u64 \<Rightarrow> ValidatorIndex tres" where
  "proposer_loop X p st indices seed i =
     (let total = length indices in
      bindR (compute_shuffled_index_checked X p (i mod total) total seed) (\<lambda>candidate_index.
      bindR (idx indices candidate_index) (\<lambda>candidate.
      let random_bytes = ext_sha256 X (seed @ to_le_bytes 8 (i div 16));
          offset = (i mod 16) * 2
      in
      bindR (idx random_bytes offset) (\<lambda>b0.
      bindR (idx random_bytes (offset + 1)) (\<lambda>b1.
      let random_value = from_le_bytes [b0, b1] in
      bindR (validator st candidate) (\<lambda>v.
      bindR (or_err (checked_mul (v_effective_balance v) MAX_RANDOM_VALUE)
               (ArithmeticOverflow Arith_Weight)) (\<lambda>weight.
      bindR (or_err (checked_mul MAX_EFFECTIVE_BALANCE random_value)
               (ArithmeticOverflow Arith_Weight)) (\<lambda>threshold.
      if weight \<ge> threshold then Inr candidate
      else
        bindR (or_err (checked_add i 1) (ArithmeticOverflow Arith_BoundedListLength)) (\<lambda>i'.
        proposer_loop X p st indices seed i')))))))))"
  by pat_completeness auto
termination
  by (relation "measure (\<lambda>(X, p, st, indices, seed, i). u64_max - i)") (auto simp: res_simps intro!: diff_less_mono2)

declare proposer_loop.simps [simp del]

definition compute_proposer_index ::
    "('g1, 'g2, 'gt) ext \<Rightarrow> preset \<Rightarrow> BeaconState \<Rightarrow> ValidatorIndex list \<Rightarrow> Bytes32 \<Rightarrow> ValidatorIndex tres" where
  "compute_proposer_index X p st indices seed =
     (if indices = [] then fail (BlockErr Block_EmptyActiveValidatorSet)
      else proposer_loop X p st indices seed 0)"

text \<open>The loop of \<open>compute_balance_weighted_selection\<close>.\<close>

function selection_loop ::
    "('g1, 'g2, 'gt) ext \<Rightarrow> preset \<Rightarrow> ValidatorIndex list \<Rightarrow> u64 list \<Rightarrow> Bytes32 \<Rightarrow> usize \<Rightarrow> bool
     \<Rightarrow> u64 \<Rightarrow> bytes \<Rightarrow> ValidatorIndex list \<Rightarrow> ValidatorIndex list tres" where
  "selection_loop X p candidates effective_balances seed sz shuffle_indices i random_bytes selected =
     (if length selected < sz then
        let total = length candidates;
            offset = (i mod 16) * 2;
            random_bytes' = (if offset = 0 then ext_sha256 X (seed @ to_le_bytes 8 (i div 16)) else random_bytes)
        in
        bindR (if shuffle_indices then compute_shuffled_index_checked X p (i mod total) total seed
               else Inr (i mod total)) (\<lambda>next_index.
        bindR (idx effective_balances next_index) (\<lambda>eb.
        bindR (or_err (checked_mul eb MAX_RANDOM_VALUE) (ArithmeticOverflow Arith_Weight)) (\<lambda>weight.
        bindR (idx random_bytes' offset) (\<lambda>b0.
        bindR (idx random_bytes' (offset + 1)) (\<lambda>b1.
        let random_value = from_le_bytes [b0, b1] in
        bindR (or_err (checked_mul MAX_EFFECTIVE_BALANCE random_value) (ArithmeticOverflow Arith_Weight)) (\<lambda>threshold.
        bindR (if weight \<ge> threshold then bindR (idx candidates next_index) (\<lambda>c. Inr (selected @ [c]))
               else Inr selected) (\<lambda>selected'.
        bindR (or_err (checked_add i 1) (ArithmeticOverflow Arith_BoundedListLength)) (\<lambda>i'.
        selection_loop X p candidates effective_balances seed sz shuffle_indices i' random_bytes' selected'))))))))
      else Inr selected)"
  by pat_completeness auto
termination
  by (relation "measure (\<lambda>(X, p, candidates, effective_balances, seed, sz, shuffle_indices, i, random_bytes, selected).
        u64_max - i)") (auto simp: res_simps intro!: diff_less_mono2)

declare selection_loop.simps [simp del]

definition compute_balance_weighted_selection ::
    "('g1, 'g2, 'gt) ext \<Rightarrow> preset \<Rightarrow> BeaconState \<Rightarrow> ValidatorIndex list \<Rightarrow> Bytes32 \<Rightarrow> usize \<Rightarrow> bool \<Rightarrow> ValidatorIndex list tres" where
  "compute_balance_weighted_selection X p st candidates seed sz shuffle_indices =
     (if candidates = [] then fail (BlockErr Block_EmptyActiveValidatorSet)
      else
        bindR (mapR (\<lambda>i. bindR (validator st i) (\<lambda>v. Inr (v_effective_balance v))) candidates) (\<lambda>effective_balances.
        selection_loop X p candidates effective_balances seed sz shuffle_indices 0 (replicate 32 0) []))"

definition compute_ptc ::
    "('g1, 'g2, 'gt) ext \<Rightarrow> preset \<Rightarrow> BeaconState \<Rightarrow> Slot \<Rightarrow> ValidatorIndex list tres" where
  "compute_ptc X p st sl =
     (let epoch = epoch_of p sl in
      bindR (get_seed X p st epoch DOMAIN_PTC_ATTESTER) (\<lambda>base_seed.
      let seed = ext_sha256 X (base_seed @ to_le_bytes 8 sl);
          committees_per_slot = get_committee_count_per_slot p st epoch
      in
      bindR (foldR (\<lambda>indices ci.
               bindR (get_beacon_committee X p st sl ci) (\<lambda>committee. Inr (indices @ committee)))
             [] [0..<committees_per_slot]) (\<lambda>indices.
      compute_balance_weighted_selection X p st indices seed (PTC_SIZE p) False)))"

definition get_ptc :: "preset \<Rightarrow> BeaconState \<Rightarrow> Slot \<Rightarrow> ValidatorIndex list tres" where
  "get_ptc p st sl =
     (let epoch = epoch_of p sl; state_epoch = epoch_of p (slot st) in
      bindR (if epoch < state_epoch then
               bindR (or_err (checked_add epoch 1) (ArithmeticOverflow Arith_Epoch)) (\<lambda>next_epoch.
               bindR (reject (next_epoch \<noteq> state_epoch) (OperationErr Op_PayloadAttestationSlotMismatch)) (\<lambda>_.
               Inr (sl mod SLOTS_PER_EPOCH p)))
             else
               bindR (or_err (checked_add state_epoch MIN_SEED_LOOKAHEAD) (ArithmeticOverflow Arith_Epoch)) (\<lambda>max_epoch.
               bindR (reject (epoch > max_epoch) (OperationErr Op_PayloadAttestationSlotMismatch)) (\<lambda>_.
               bindR (or_err (checked_sub epoch state_epoch) (ArithmeticOverflow Arith_Epoch)) (\<lambda>d.
               bindR (or_err (checked_add d 1) (ArithmeticOverflow Arith_Epoch)) (\<lambda>epoch_offset.
               bindR (or_err (checked_mul epoch_offset (SLOTS_PER_EPOCH p))
                        (ArithmeticOverflow Arith_BoundedListLength)) (\<lambda>bucket_offset.
               or_err (checked_add bucket_offset (sl mod SLOTS_PER_EPOCH p))
                 (ArithmeticOverflow Arith_BoundedListLength))))))) (\<lambda>offset.
      or_err (get_at (ptc_window st) offset) (OperationErr Op_PayloadAttestationSlotMismatch)))"

section \<open>The shuffle is a permutation\<close>

text \<open>One round, without its error cases: reflect at the pivot, and keep or take the reflection.\<close>

definition flip_index :: "nat \<Rightarrow> nat \<Rightarrow> nat \<Rightarrow> nat" where
  "flip_index n pivot c = (if c \<le> pivot then pivot - c else n - (c - pivot))"

definition shuffle_round :: "('g1, 'g2, 'gt) ext \<Rightarrow> nat \<Rightarrow> Bytes32 \<Rightarrow> nat \<Rightarrow> nat \<Rightarrow> nat" where
  "shuffle_round X n seed round c =
     (let flip = flip_index n (pivot_for_round X seed (word_of_nat round) n) c in
      if source_bit X seed (word_of_nat round) (max c flip) = Inr 1 then flip else c)"

lemma flip_index_lt: "c < n \<Longrightarrow> pivot < n \<Longrightarrow> flip_index n pivot c < n"
  by (auto simp: flip_index_def)

lemma flip_index_flip: "c < n \<Longrightarrow> pivot < n \<Longrightarrow> flip_index n pivot (flip_index n pivot c) = c"
  by (auto simp: flip_index_def)

lemma pivot_lt: "0 < n \<Longrightarrow> pivot_for_round X seed r n < n"
  by (simp add: pivot_for_round_def Let_def)

lemma shuffle_round_lt: "c < n \<Longrightarrow> shuffle_round X n seed r c < n"
  by (simp add: shuffle_round_def Let_def flip_index_lt pivot_lt)

lemma shuffle_round_involution: "c < n \<Longrightarrow> shuffle_round X n seed r (shuffle_round X n seed r c) = c"
  by (simp add: shuffle_round_def Let_def flip_index_flip pivot_lt max.commute)

lemma shuffle_round_bij: "bij_betw (shuffle_round X n seed r) {..<n} {..<n}"
  by (rule bij_betw_byWitness [where f' = "shuffle_round X n seed r"])
    (auto simp: shuffle_round_involution shuffle_round_lt)

lemma fold_bij: "(\<And>r. bij_betw (g r) A A) \<Longrightarrow> bij_betw (fold g rs) A A"
proof (induction rs)
  case Nil
  then show ?case by (simp add: bij_betw_def)
next
  case (Cons r rs)
  have "bij_betw (fold g rs \<circ> g r) A A" using Cons bij_betw_trans by blast
  then show ?case by (simp add: comp_def)
qed

lemma source_bit_total:
  assumes "ext_ok X" and "pos < 2 ^ 40"
  shows "\<exists>b. source_bit X seed r pos = Inr b"
proof -
  have "pos div 256 \<le> u32_max" using assms(2) by (simp add: u32_max_def)
  moreover have "pos mod 256 div 8 < 32" by simp
  ultimately show ?thesis using assms(1) by (simp add: source_bit_def Let_def idx_def ext_ok_def)
qed

lemma shuffled_index_fold:
  assumes "ext_ok X" and "0 < n" and "n \<le> 2 ^ 40" and "c < n" and "\<forall>r \<in> set rs. r \<le> 255"
  shows "foldR (\<lambda>current round.
       bindR (reject (round > 255) (ArithmeticOverflow Arith_BoundedListLength)) (\<lambda>_.
       let round_byte = word_of_nat round; pivot = pivot_for_round X seed round_byte n in
       bindR (if pivot \<ge> current then Inr (pivot - current) else u_sub n (current - pivot)) (\<lambda>flip.
       let pos = max current flip in
       bindR (source_bit X seed round_byte pos) (\<lambda>bit.
       Inr (if bit = 1 then flip else current))))) c rs = Inr (fold (shuffle_round X n seed) rs c)"
  using assms(4,5)
proof (induction rs arbitrary: c)
  case Nil
  then show ?case by simp
next
  case (Cons r rs)
  let ?pv = "pivot_for_round X seed (word_of_nat r) n"
  let ?f = "flip_index n ?pv c"
  have flip: "(if ?pv \<ge> c then Inr (?pv - c) else u_sub n (c - ?pv)) = Inr ?f"
    using Cons.prems(1) by (auto simp: flip_index_def u_sub_def)
  have "max c ?f < 2 ^ 40" using Cons.prems(1) flip_index_lt pivot_lt assms(2,3)
    by (metis (no_types) max_less_iff_conj order_less_le_trans)
  then obtain b where b: "source_bit X seed (word_of_nat r) (max c ?f) = Inr b"
    using source_bit_total [OF assms(1)] by blast
  have "foldR (\<lambda>current round.
       bindR (reject (round > 255) (ArithmeticOverflow Arith_BoundedListLength)) (\<lambda>_.
       let round_byte = word_of_nat round; pivot = pivot_for_round X seed round_byte n in
       bindR (if pivot \<ge> current then Inr (pivot - current) else u_sub n (current - pivot)) (\<lambda>flip.
       let pos = max current flip in
       bindR (source_bit X seed round_byte pos) (\<lambda>bit.
       Inr (if bit = 1 then flip else current))))) (shuffle_round X n seed r c) rs =
     Inr (fold (shuffle_round X n seed) rs (shuffle_round X n seed r c))"
    using Cons.prems shuffle_round_lt by (intro Cons.IH) auto
  moreover have "(if b = 1 then ?f else c) = shuffle_round X n seed r c"
    by (simp add: shuffle_round_def Let_def b)
  ultimately show ?case using Cons.prems(2) by (simp add: Let_def flip b)
qed

definition shuffled :: "('g1, 'g2, 'gt) ext \<Rightarrow> preset \<Rightarrow> nat \<Rightarrow> Bytes32 \<Rightarrow> nat \<Rightarrow> nat" where
  "shuffled X p n seed = fold (shuffle_round X n seed) [0..<SHUFFLE_ROUND_COUNT p]"

lemma shuffled_index_eq:
  assumes "ext_ok X" and "n \<le> 2 ^ 40" and "i < n"
  shows "compute_shuffled_index_checked X p i n seed = Inr (shuffled X p n seed i)"
proof -
  have "\<forall>r \<in> set [0..<SHUFFLE_ROUND_COUNT p]. r \<le> 255"
    by (cases p) (auto simp: SHUFFLE_ROUND_COUNT_def)
  from shuffled_index_fold [OF assms(1) _ assms(2,3) this] show ?thesis
    using assms(3) by (simp add: compute_shuffled_index_checked_def shuffled_def)
qed

lemma shuffled_bij: "bij_betw (shuffled X p n seed) {..<n} {..<n}"
  unfolding shuffled_def by (rule fold_bij) (rule shuffle_round_bij)

text \<open>
  C10: the swap-or-not shuffle is a permutation of the index range: for every seed and every size up
  to the registry limit, each in-range index is shuffled without error to an in-range index, and every
  index is hit exactly once.
\<close>

theorem shuffle_is_permutation:
  assumes "ext_ok X" and "n \<le> VALIDATOR_REGISTRY_LIMIT"
  shows "\<exists>\<sigma>. bij_betw \<sigma> {..<n} {..<n} \<and> (\<forall>i < n. compute_shuffled_index_checked X p i n seed = Inr (\<sigma> i))"
  using shuffled_bij [of X p n seed] shuffled_index_eq [OF assms(1), of n _ p seed] assms(2)
  by (auto simp: VALIDATOR_REGISTRY_LIMIT_def)

theorem shuffle_is_permutation_witness:
  "\<exists>\<sigma>. bij_betw \<sigma> {..<5} {..<5} \<and> (\<forall>i < 5. compute_shuffled_index_checked ex_ext Minimal i 5 [] = Inr (\<sigma> i))"
  using shuffle_is_permutation [OF ex_ext_ok, of 5 Minimal "[]"] by (simp add: VALIDATOR_REGISTRY_LIMIT_def)

section \<open>Committees partition the active set\<close>

lemma foldR_push:
  "foldR (\<lambda>acc i. bindR (f i) (\<lambda>v. Inr (acc @ [v]))) acc xs = bindR (mapR f xs) (\<lambda>ys. Inr (acc @ ys))"
  by (induction xs arbitrary: acc) (auto simp: bindR_assoc)

lemma compute_committee_eq:
  assumes X: "ext_ok X" and n: "length is \<le> 2 ^ 40" and k: "k < c" and fit: "length is * c \<le> u64_max" and c: "c \<le> u64_max"
  shows "compute_committee X p is seed k c =
    Inr (map (\<lambda>i. is ! shuffled X p (length is) seed i) [length is * k div c..<length is * (k + 1) div c])"
proof -
  let ?n = "length is"
  have le: "?n * (k + 1) \<le> ?n * c" "?n * k \<le> ?n * c" using k by (intro mult_le_mono2; simp)+
  have "?n * (k + 1) div c \<le> ?n * c div c" using le by (intro div_le_mono)
  then have range: "i < ?n" if "i \<in> set [?n * k div c..<?n * (k + 1) div c]" for i using that k by simp
  have "mapR (\<lambda>i. bindR (compute_shuffled_index_checked X p i ?n seed) (\<lambda>shuffled.
      or_err (get_at is shuffled) (ArithmeticOverflow Arith_BoundedListLength))) [?n * k div c..<?n * (k + 1) div c]
    = Inr (map (\<lambda>i. is ! shuffled X p ?n seed i) [?n * k div c..<?n * (k + 1) div c])"
  proof (rule mapR_Inr_map)
    fix i assume "i \<in> set [?n * k div c..<?n * (k + 1) div c]"
    then have i: "i < ?n" by (rule range)
    then have "shuffled X p ?n seed i < ?n" using shuffled_bij [of X p ?n seed] by (auto simp: bij_betw_def)
    then show "bindR (compute_shuffled_index_checked X p i ?n seed) (\<lambda>shuffled.
        or_err (get_at is shuffled) (ArithmeticOverflow Arith_BoundedListLength)) = Inr (is ! shuffled X p ?n seed i)"
      by (simp add: shuffled_index_eq [OF X n i] get_at_def)
  qed
  then have loop: "foldR (\<lambda>committee i.
       bindR (compute_shuffled_index_checked X p i ?n seed) (\<lambda>shuffled.
       bindR (or_err (get_at is shuffled) (ArithmeticOverflow Arith_BoundedListLength)) (\<lambda>v.
       Inr (committee @ [v])))) [] [?n * k div c..<?n * (k + 1) div c]
     = Inr (map (\<lambda>i. is ! shuffled X p ?n seed i) [?n * k div c..<?n * (k + 1) div c])"
    by (simp add: foldR_push flip: bindR_assoc)
  have "checked_mul ?n k = Some (?n * k)" and "checked_mul ?n (k + 1) = Some (?n * (k + 1))"
    and "checked_add k 1 = Some (k + 1)"
    using le fit k c by (simp_all add: checked_mul_def checked_add_def)
  then show ?thesis
    unfolding compute_committee_def Let_def using k loop by simp
qed

lemma concat_ranges: "concat (map (\<lambda>k. [n * k div c..<n * (k + 1) div c]) [0..<m]) = [0..<n * m div c]" for n c :: nat
proof (induction m)
  case 0
  then show ?case by simp
next
  case (Suc m)
  have "n * m div c \<le> n * (m + 1) div c" by (intro div_le_mono) simp
  then have "[0..<n * m div c] @ [n * m div c..<n * (m + 1) div c] = [0..<n * (m + 1) div c]"
    by (metis le_add_diff_inverse upt_add_eq_append zero_le)
  with Suc show ?case by simp
qed

lemma committees_partition_list:
  assumes "ext_ok X" and "length is \<le> 2 ^ 40" and "0 < c" and "length is * c \<le> u64_max" and "c \<le> u64_max"
  shows "\<exists>cs. mapR (\<lambda>k. compute_committee X p is seed k c) [0..<c] = Inr cs \<and> mset (concat cs) = mset is"
proof -
  let ?n = "length is" and ?\<sigma> = "shuffled X p (length is) seed"
  let ?cs = "map (\<lambda>k. map (\<lambda>i. is ! ?\<sigma> i) [?n * k div c..<?n * (k + 1) div c]) [0..<c]"
  have run: "mapR (\<lambda>k. compute_committee X p is seed k c) [0..<c] = Inr ?cs"
    by (rule mapR_Inr_map) (use compute_committee_eq [OF assms(1,2) _ assms(4,5)] in simp)
  have "concat ?cs = map (\<lambda>i. is ! ?\<sigma> i) (concat (map (\<lambda>k. [?n * k div c..<?n * (k + 1) div c]) [0..<c]))"
    by (simp add: map_concat comp_def)
  then have "concat ?cs = map (\<lambda>i. is ! ?\<sigma> i) [0..<?n]" using assms(3) unfolding concat_ranges by simp
  then have "mset (concat ?cs) = image_mset (\<lambda>i. is ! i) (image_mset ?\<sigma> (mset_set {..<?n}))"
    by (simp add: image_mset.compositionality comp_def lessThan_atLeast0 flip: mset_upt mset_map)
  also have "image_mset ?\<sigma> (mset_set {..<?n}) = mset_set {..<?n}"
    using shuffled_bij [of X p ?n seed] by (metis bij_betw_def image_mset_mset_set)
  also have "image_mset (\<lambda>i. is ! i) (mset_set {..<?n}) = mset is"
    by (metis lessThan_atLeast0 map_nth mset_map mset_upt)
  finally show ?thesis using run by blast
qed

lemma map_product_upt: "map (\<lambda>(s, k). s * b + k) (List.product [0..<a] [0..<b]) = [0..<a * b]" for a b :: nat
proof (induction a)
  case 0
  then show ?case by simp
next
  case (Suc a)
  have "map (\<lambda>k. a * b + k) [0..<b] = [a * b..<a * b + b]" by (simp add: map_add_upt add.commute)
  moreover have "[0..<a * b] @ [a * b..<a * b + b] = [0..<Suc a * b]"
    by (metis add.commute mult_Suc upt_add_eq_append zero_le)
  ultimately show ?case using Suc by (simp add: product_concat_map comp_def)
qed

lemma committee_count_bounds:
  "0 < get_committee_count_per_slot p st e" "get_committee_count_per_slot p st e \<le> 64"
  by (cases p; simp add: get_committee_count_per_slot_def Let_def MAX_COMMITTEES_PER_SLOT_def)+

lemma slots_per_epoch_le: "SLOTS_PER_EPOCH p \<le> 32"
  by (cases p) (simp_all add: SLOTS_PER_EPOCH_def)

lemma epoch_of_offset: "s < SLOTS_PER_EPOCH p \<Longrightarrow> epoch_of p (e * SLOTS_PER_EPOCH p + s) = e"
  by (simp add: epoch_of_def)

lemma active_length_le: "state_ok p st \<Longrightarrow> length (get_active_validator_indices st e) \<le> 2 ^ 40"
  using active_indices_length [of st e] state_ok_validators(1) [of p st] by (simp add: VALIDATOR_REGISTRY_LIMIT_def)

lemma get_beacon_committee_eq:
  assumes "s < SLOTS_PER_EPOCH p" and "ci < get_committee_count_per_slot p st e"
    and "get_seed X p st e DOMAIN_BEACON_ATTESTER = Inr seed"
  shows "get_beacon_committee X p st (e * SLOTS_PER_EPOCH p + s) ci =
    compute_committee X p (get_active_validator_indices st e) seed (s * get_committee_count_per_slot p st e + ci)
      (SLOTS_PER_EPOCH p * get_committee_count_per_slot p st e)"
proof -
  let ?c = "get_committee_count_per_slot p st e" and ?S = "SLOTS_PER_EPOCH p"
  have c: "?c \<le> 64" by (rule committee_count_bounds)
  have S: "?S \<le> 32" by (rule slots_per_epoch_le)
  have "?c * ?S \<le> 64 * 32" using c S by (intro mult_le_mono)
  moreover have "s * ?c \<le> 32 * 64" using c S assms(1) by (intro mult_le_mono) auto
  ultimately show ?thesis
    using assms c by (simp add: get_beacon_committee_def Let_def epoch_of_offset checked_mul_def checked_add_def
        u64_max_def mult.commute)
qed

text \<open>
  C11: the beacon committees of an epoch partition its active set. Over all slots of the epoch and all
  committee indices of a slot, every committee is computed without error, and together the committees
  list each active validator exactly once.
\<close>

theorem epoch_committees_partition:
  assumes X: "ext_ok X" and ok: "state_ok p st" and e: "e + EPOCHS_PER_HISTORICAL_VECTOR p \<le> u64_max"
  shows "\<exists>cs. mapR (\<lambda>(s, ci). get_beacon_committee X p st (e * SLOTS_PER_EPOCH p + s) ci)
      (List.product [0..<SLOTS_PER_EPOCH p] [0..<get_committee_count_per_slot p st e]) = Inr cs
    \<and> mset (concat cs) = mset (get_active_validator_indices st e)"
proof -
  let ?is = "get_active_validator_indices st e" and ?c = "get_committee_count_per_slot p st e"
  let ?S = "SLOTS_PER_EPOCH p"
  obtain seed where seed: "get_seed X p st e DOMAIN_BEACON_ATTESTER = Inr seed"
    using e state_ok_randao_mixes(1) [OF ok]
    by (cases p) (auto simp: get_seed_def Let_def checked_add_def get_randao_mix_def idx_def EPOCHS_PER_HISTORICAL_VECTOR_def
      MIN_SEED_LOOKAHEAD_def or_err_def split: if_splits)
  have le: "?S * ?c \<le> 32 * 64" using slots_per_epoch_le committee_count_bounds(2) by (intro mult_le_mono)
  have "length ?is * (?S * ?c) \<le> 2 ^ 40 * (32 * 64)" by (rule mult_le_mono [OF active_length_le [OF ok] le])
  then obtain cs where cs: "mapR (\<lambda>k. compute_committee X p ?is seed k (?S * ?c)) [0..<?S * ?c] = Inr cs"
      "mset (concat cs) = mset ?is"
    using committees_partition_list [OF X active_length_le [OF ok], of "?S * ?c" e p seed] le committee_count_bounds(1) [of p st e]
    by (auto simp: u64_max_def)
  have "mapR (\<lambda>(s, ci). get_beacon_committee X p st (e * ?S + s) ci) (List.product [0..<?S] [0..<?c]) =
      mapR (\<lambda>(s, ci). compute_committee X p ?is seed (s * ?c + ci) (?S * ?c)) (List.product [0..<?S] [0..<?c])"
    by (rule mapR_cong) (auto simp: get_beacon_committee_eq seed)
  also have "\<dots> = mapR (\<lambda>k. compute_committee X p ?is seed k (?S * ?c)) [0..<?S * ?c]"
    by (simp add: mapR_map case_prod_unfold flip: map_product_upt)
  finally show ?thesis using cs by auto
qed

theorem epoch_committees_partition_witness:
  "\<exists>cs. mapR (\<lambda>(s, ci). get_beacon_committee ex_ext Minimal (ex_state Minimal) (5 * SLOTS_PER_EPOCH Minimal + s) ci)
      (List.product [0..<SLOTS_PER_EPOCH Minimal] [0..<get_committee_count_per_slot Minimal (ex_state Minimal) 5]) = Inr cs
    \<and> mset (concat cs) = mset [0, 1, 2, 3]"
proof -
  have "5 + EPOCHS_PER_HISTORICAL_VECTOR Minimal \<le> u64_max"
    by (simp add: EPOCHS_PER_HISTORICAL_VECTOR_def u64_max_def)
  moreover have "get_active_validator_indices (ex_state Minimal) 5 = [0, 1, 2, 3]"
    by (simp add: active_indices_eq ex_active u64_max_def)
  ultimately show ?thesis using epoch_committees_partition [OF ex_ext_ok ex_state_ok, of 5 Minimal] by metis
qed

section \<open>No panics\<close>

lemma randao_mix_safe: "state_ok p st \<Longrightarrow> safe (get_randao_mix p st e) (\<lambda>m. length m = 32)"
  using state_ok_randao_mixes [of p st]
  by (cases p) (auto simp: get_randao_mix_def safe_simps EPOCHS_PER_HISTORICAL_VECTOR_def)

lemma get_seed_safe: "state_ok p st \<Longrightarrow> ext_ok X \<Longrightarrow> safe (get_seed X p st e d) (\<lambda>s. length s = 32)"
  by (auto simp: get_seed_def Let_def safe_simps seed_from_parts_def ext_ok_def intro!: safe_mono [OF randao_mix_safe])

lemma seed_at_safe: "state_ok p st \<Longrightarrow> ext_ok X \<Longrightarrow> safe (seed_at X p st e d) (\<lambda>s. length s = 32)"
  by (auto simp: seed_at_def Let_def safe_simps seed_from_parts_def ext_ok_def intro!: safe_mono [OF randao_mix_safe])

lemma beacon_proposer_index_safe [safe_simps]:
  "safe (get_beacon_proposer_index p st) Q = (\<forall>i. get_beacon_proposer_index p st = Inr i \<longrightarrow> Q i)"
  by (auto simp: get_beacon_proposer_index_def Let_def safe_simps res_simps)

lemma shuffled_index_safe:
  assumes "ext_ok X"
  shows "safe (compute_shuffled_index_checked X p i n seed) (\<lambda>j. j < n)"
proof -
  have sb: "safe (source_bit X seed r pos) (\<lambda>_. True)" for r pos
    using assms by (auto simp: source_bit_def Let_def safe_simps ext_ok_def)
  have "safe (foldR (\<lambda>current round.
       bindR (reject (round > 255) (ArithmeticOverflow Arith_BoundedListLength)) (\<lambda>_.
       let round_byte = word_of_nat round; pivot = pivot_for_round X seed round_byte n in
       bindR (if pivot \<ge> current then Inr (pivot - current) else u_sub n (current - pivot)) (\<lambda>flip.
       let pos = max current flip in
       bindR (source_bit X seed round_byte pos) (\<lambda>bit.
       Inr (if bit = 1 then flip else current))))) i rs) (\<lambda>c. c < n)" if "i < n" for rs
  proof (rule safe_foldR)
    show "i < n" by (rule that)
    fix c r assume "c < n"
    then show "safe (bindR (reject (r > 255) (ArithmeticOverflow Arith_BoundedListLength)) (\<lambda>_.
       let round_byte = word_of_nat r; pivot = pivot_for_round X seed round_byte n in
       bindR (if pivot \<ge> c then Inr (pivot - c) else u_sub n (c - pivot)) (\<lambda>flip.
       let pos = max c flip in
       bindR (source_bit X seed round_byte pos) (\<lambda>bit.
       Inr (if bit = 1 then flip else c))))) (\<lambda>c. c < n)"
      using pivot_lt [of n X seed "word_of_nat r"]
      by (auto simp: Let_def safe_simps intro!: safe_mono [OF sb])
  qed
  then show ?thesis by (simp add: compute_shuffled_index_checked_def safe_simps)
qed

lemma random_bytes_lt: "(i mod 16) * 2 + 1 < 32" "(i mod 16) * 2 < 32" for i :: nat
proof -
  have "i mod 16 < 16" by simp
  then show "(i mod 16) * 2 + 1 < 32" "(i mod 16) * 2 < 32" by linarith+
qed

lemma proposer_loop_safe:
  assumes "ext_ok X" and "is \<noteq> []"
  shows "safe (proposer_loop X p st is seed i) (\<lambda>j. j \<in> set is)"
proof (induction "u64_max - i" arbitrary: i rule: less_induct)
  case less
  have IH: "safe (proposer_loop X p st is seed (i + 1)) (\<lambda>j. j \<in> set is)" if "i + 1 \<le> u64_max"
    by (rule less.hyps) (use that in linarith)
  have sha: "length (ext_sha256 X bs) = 32" for bs using assms(1) by (simp add: ext_ok_def)
  show ?case
    unfolding proposer_loop.simps [of X p st "is" seed i] Let_def safe_bind
    by (rule safe_mono [OF shuffled_index_safe [OF assms(1)]])
      (auto simp: safe_bind safe_idx safe_validator safe_or_err sha random_bytes_lt checked_add_eq_Some intro: IH [simplified])
qed

lemma compute_proposer_index_safe:
  "ext_ok X \<Longrightarrow> safe (compute_proposer_index X p st is seed) (\<lambda>j. j \<in> set is)"
  by (auto simp: compute_proposer_index_def intro: proposer_loop_safe)

lemma selection_loop_safe:
  assumes "ext_ok X" and "cs \<noteq> []" and len: "length ebs = length cs"
    and "set sel \<subseteq> set cs" and "length sel \<le> n" and "(i mod 16) * 2 \<noteq> 0 \<longrightarrow> length rb = 32"
  shows "safe (selection_loop X p cs ebs seed n sh i rb sel) (\<lambda>js. set js \<subseteq> set cs \<and> length js = n)"
  using assms(4-6)
proof (induction "u64_max - i" arbitrary: i rb sel rule: less_induct)
  case less
  let ?rb = "if (i mod 16) * 2 = 0 then ext_sha256 X (seed @ to_le_bytes 8 (i div 16)) else rb"
  have rb: "length ?rb = 32" using assms(1) less.prems(3) by (simp add: ext_ok_def)
  have IH: "safe (selection_loop X p cs ebs seed n sh (i + 1) ?rb sel') (\<lambda>js. set js \<subseteq> set cs \<and> length js = n)"
    if "i + 1 \<le> u64_max" "set sel' \<subseteq> set cs" "length sel' \<le> n" for sel'
    by (rule less.hyps) (use that rb in \<open>linarith | simp\<close>)+
  have pick: "safe (if sh then compute_shuffled_index_checked X p (i mod length cs) (length cs) seed else Inr (i mod length cs))
      (\<lambda>j. j < length cs)"
    using shuffled_index_safe [OF assms(1)] assms(2) by simp
  show ?case
  proof (cases "length sel < n")
    case True
    show ?thesis
      unfolding selection_loop.simps [of X p cs ebs seed n sh i rb sel] Let_def safe_bind if_P [OF True]
      by (rule safe_mono [OF pick])
        (use True less.prems rb in \<open>auto simp: safe_bind safe_idx safe_or_err safe_if safe_results len random_bytes_lt
            checked_add_eq_Some simp del: One_nat_def split del: if_split intro!: IH [simplified]\<close>)
  next
    case False
    then show ?thesis using less.prems by (subst selection_loop.simps) simp
  qed
qed

lemma weighted_selection_safe:
  assumes "ext_ok X"
  shows "safe (compute_balance_weighted_selection X p st cs seed n sh) (\<lambda>js. set js \<subseteq> set cs \<and> length js = n)"
proof (cases "cs = []")
  case False
  have "safe (mapR (\<lambda>i. bindR (validator st i) (\<lambda>v. Inr (v_effective_balance v))) cs)
      (\<lambda>ebs. list_all (\<lambda>_. True) ebs \<and> length ebs = length cs)"
    by (rule safe_mapR) (simp add: safe_simps)
  then show ?thesis
    unfolding compute_balance_weighted_selection_def if_not_P [OF False] safe_bind
    by (rule safe_mono) (simp add: selection_loop_safe [OF assms False])
qed (simp add: compute_balance_weighted_selection_def)

lemma compute_committee_safe:
  assumes "ext_ok X"
  shows "safe (compute_committee X p is seed k c) (\<lambda>js. set js \<subseteq> set is)"
proof -
  have "safe (foldR (\<lambda>committee i.
       bindR (compute_shuffled_index_checked X p i (length is) seed) (\<lambda>shuffled.
       bindR (or_err (get_at is shuffled) (ArithmeticOverflow Arith_BoundedListLength)) (\<lambda>v.
       Inr (committee @ [v])))) [] ks) (\<lambda>js. set js \<subseteq> set is)" for ks
  proof (rule safe_foldR)
    fix js i assume js: "set js \<subseteq> set is"
    show "safe (bindR (compute_shuffled_index_checked X p i (length is) seed) (\<lambda>shuffled.
       bindR (or_err (get_at is shuffled) (ArithmeticOverflow Arith_BoundedListLength)) (\<lambda>v.
       Inr (js @ [v])))) (\<lambda>js. set js \<subseteq> set is)"
      unfolding safe_bind
      by (rule safe_mono [OF shuffled_index_safe [OF assms]]) (use js in \<open>simp add: safe_or_err get_at_eq_Some\<close>)
  qed simp
  then show ?thesis
    by (simp add: compute_committee_def Let_def safe_bind safe_reject safe_or_err)
qed

lemma beacon_committee_safe:
  assumes "ext_ok X" and "state_ok p st"
  shows "safe (get_beacon_committee X p st sl ci) (\<lambda>js. set js \<subseteq> {..<length (validators st)})"
proof -
  have "safe (compute_committee X p (get_active_validator_indices st e) seed k c) (\<lambda>js. set js \<subseteq> {..<length (validators st)})"
    for e seed k c
    by (rule safe_mono [OF compute_committee_safe [OF assms(1)]]) (auto simp: active_index_iff)
  then show ?thesis
    unfolding get_beacon_committee_def Let_def safe_bind safe_reject safe_or_err
    by (intro impI allI safe_mono [OF get_seed_safe [OF assms(2,1)]]) simp
qed

lemma compute_ptc_safe:
  assumes "ext_ok X" and "state_ok p st"
  shows "safe (compute_ptc X p st sl) (\<lambda>js. set js \<subseteq> {..<length (validators st)} \<and> length js = PTC_SIZE p)"
proof -
  have members: "safe (foldR (\<lambda>indices ci. bindR (get_beacon_committee X p st sl ci) (\<lambda>committee. Inr (indices @ committee))) [] cs)
      (\<lambda>js. set js \<subseteq> {..<length (validators st)})" for cs
    by (rule safe_foldR) (auto simp: safe_bind intro!: safe_mono [OF beacon_committee_safe [OF assms]])
  show ?thesis
    unfolding compute_ptc_def Let_def safe_bind
    by (intro safe_mono [OF get_seed_safe [OF assms(2,1)]] safe_mono [OF members] safe_mono [OF weighted_selection_safe [OF assms(1)]]) auto
qed

lemma get_ptc_safe:
  assumes "state_ok p st"
  shows "safe (get_ptc p st sl) (\<lambda>js. length js = PTC_SIZE p \<and> (\<forall>j \<in> set js. j \<le> u64_max))"
  using state_ok_ptc_window(2) [OF assms] nth_mem
  by (auto simp: get_ptc_def Let_def safe_simps res_simps)

end
