(* ===== verification/Finality.thy ===== *)
theory Finality
  imports Committees
begin

text \<open>
  Justification and finalization (\<open>state_transition/epoch/finality.rs\<close>). The checkpoints stay ordered,
  finality never moves back, a checkpoint is justified only with two thirds of the active stake, and
  two justified epochs in a row finalize.
\<close>

section \<open>Definitions\<close>

definition block_root_at_slot :: "preset \<Rightarrow> BeaconState \<Rightarrow> Slot \<Rightarrow> Root tres" where
  "block_root_at_slot p st sl = idx (block_roots st) (sl mod SLOTS_PER_HISTORICAL_ROOT p)"

record FinalityUpdate =
  fu_old_previous :: Checkpoint
  fu_old_current :: Checkpoint
  fu_current_epoch :: Epoch
  fu_bits :: "bool list"

definition checkpoint_is :: "FinalityUpdate \<Rightarrow> Epoch \<Rightarrow> u64 \<Rightarrow> bool tres" where
  "checkpoint_is u checkpoint_epoch delta =
     bindR (or_err (checked_add checkpoint_epoch delta) (ArithmeticOverflow Arith_Epoch)) (\<lambda>expected.
     Inr (expected = fu_current_epoch u))"

definition old_previous_is :: "FinalityUpdate \<Rightarrow> u64 \<Rightarrow> bool tres" where
  "old_previous_is u delta = checkpoint_is u (cp_epoch (fu_old_previous u)) delta"

definition old_current_is :: "FinalityUpdate \<Rightarrow> u64 \<Rightarrow> bool tres" where
  "old_current_is u delta = checkpoint_is u (cp_epoch (fu_old_current u)) delta"

text \<open>The range \<open>a..b\<close> of the bits, all set; \<open>get(range)\<close> is \<open>None\<close> when it ends past the bits.\<close>

definition bits_are_set :: "FinalityUpdate \<Rightarrow> nat \<Rightarrow> nat \<Rightarrow> bool" where
  "bits_are_set u a b = (a \<le> b \<and> b \<le> length (fu_bits u) \<and> list_all id (slice_of (fu_bits u) a b))"

definition previous_checkpoint_has_three_supporting_epochs :: "FinalityUpdate \<Rightarrow> bool tres" where
  "previous_checkpoint_has_three_supporting_epochs u =
     (if bits_are_set u 1 4 then old_previous_is u 3 else Inr False)"

definition previous_checkpoint_has_two_supporting_epochs :: "FinalityUpdate \<Rightarrow> bool tres" where
  "previous_checkpoint_has_two_supporting_epochs u =
     (if bits_are_set u 1 3 then old_previous_is u 2 else Inr False)"

definition current_checkpoint_has_two_supporting_epochs :: "FinalityUpdate \<Rightarrow> bool tres" where
  "current_checkpoint_has_two_supporting_epochs u =
     (if bits_are_set u 0 3 then old_current_is u 2 else Inr False)"

definition current_checkpoint_has_one_supporting_epoch :: "FinalityUpdate \<Rightarrow> bool tres" where
  "current_checkpoint_has_one_supporting_epoch u =
     (if bits_are_set u 0 2 then old_current_is u 1 else Inr False)"

text \<open>\<open>FinalityUpdate::finalized_checkpoint\<close>.\<close>

definition rule_finalized_checkpoint :: "FinalityUpdate \<Rightarrow> Checkpoint option tres" where
  "rule_finalized_checkpoint u =
     bindR (previous_checkpoint_has_three_supporting_epochs u) (\<lambda>b.
     let finalized = (if b then Some (fu_old_previous u) else None) in
     bindR (previous_checkpoint_has_two_supporting_epochs u) (\<lambda>b.
     let finalized = (if b then Some (fu_old_previous u) else finalized) in
     bindR (current_checkpoint_has_two_supporting_epochs u) (\<lambda>b.
     let finalized = (if b then Some (fu_old_current u) else finalized) in
     bindR (current_checkpoint_has_one_supporting_epoch u) (\<lambda>b.
     Inr (if b then Some (fu_old_current u) else finalized)))))"

definition has_two_thirds_support :: "Gwei \<Rightarrow> Gwei \<Rightarrow> bool tres" where
  "has_two_thirds_support target total_balance =
     bindR (or_err (checked_mul target 3) (ArithmeticOverflow Arith_Weight)) (\<lambda>lhs.
     bindR (or_err (checked_mul total_balance 2) (ArithmeticOverflow Arith_Weight)) (\<lambda>rhs.
     Inr (lhs \<ge> rhs)))"

text \<open>The loop that moves every justification bit one place up, and the reset of bit 0.\<close>

definition shift_justification_bits :: "bool list \<Rightarrow> bool list" where
  "shift_justification_bits bits =
     bits_set (fold (\<lambda>i bits. bits_set bits i (case get_at bits (i - 1) of Some b \<Rightarrow> b | None \<Rightarrow> False))
       (rev [1..<length bits]) bits) 0 False"

definition process_justification_and_finalization :: "preset \<Rightarrow> BeaconState \<Rightarrow> BeaconState tres" where
  "process_justification_and_finalization p st =
     (let current_epoch = epoch_of p (slot st) in
      if current_epoch \<le> GENESIS_EPOCH + 1 then Inr st
      else
      let previous_epoch = get_previous_epoch p st in
      bindR (get_total_active_balance p st) (\<lambda>total_balance.
      bindR (get_unslashed_participating_indices p st TIMELY_TARGET_FLAG_INDEX previous_epoch) (\<lambda>previous.
      bindR (get_unslashed_participating_indices p st TIMELY_TARGET_FLAG_INDEX current_epoch) (\<lambda>current.
      bindR (get_total_balance st previous) (\<lambda>previous_target.
      bindR (get_total_balance st current) (\<lambda>current_target.
      let old_previous = previous_justified_checkpoint st;
          old_current = current_justified_checkpoint st;
          st = st\<lparr>previous_justified_checkpoint := current_justified_checkpoint st\<rparr>;
          st = st\<lparr>justification_bits := shift_justification_bits (justification_bits st)\<rparr>
      in
      bindR (has_two_thirds_support previous_target total_balance) (\<lambda>supported.
      bindR (if supported then
               bindR (block_root_at_slot p st (start_slot p previous_epoch)) (\<lambda>root.
               Inr (st\<lparr>current_justified_checkpoint := \<lparr>cp_epoch = previous_epoch, cp_root = root\<rparr>,
                       justification_bits := bits_set (justification_bits st) 1 True\<rparr>))
             else Inr st) (\<lambda>st.
      bindR (has_two_thirds_support current_target total_balance) (\<lambda>supported.
      bindR (if supported then
               bindR (block_root_at_slot p st (start_slot p current_epoch)) (\<lambda>root.
               Inr (st\<lparr>current_justified_checkpoint := \<lparr>cp_epoch = current_epoch, cp_root = root\<rparr>,
                       justification_bits := bits_set (justification_bits st) 0 True\<rparr>))
             else Inr st) (\<lambda>st.
      bindR (rule_finalized_checkpoint
               \<lparr>fu_old_previous = old_previous, fu_old_current = old_current,
                fu_current_epoch = current_epoch, fu_bits = justification_bits st\<rparr>) (\<lambda>finalized.
      Inr (case finalized of Some c \<Rightarrow> st\<lparr>finalized_checkpoint := c\<rparr> | None \<Rightarrow> st))))))))))))"

section \<open>Results of the rules\<close>

lemma shift_justification_bits_eq: "shift_justification_bits [a, b, c, d] = [False, a, b, c]"
  by (simp add: shift_justification_bits_def bits_set_def get_at_def upt_rec numeral_2_eq_2 numeral_3_eq_3)

lemma length_shift_bits [simp]: "length (shift_justification_bits bits) = length bits"
proof -
  have "length (fold (\<lambda>i bits. bits_set bits i (g i bits)) is bits) = length bits" for g and "is" :: "nat list"
    by (induction "is" arbitrary: bits) simp_all
  then show ?thesis by (simp add: shift_justification_bits_def)
qed

lemma checkpoint_is_eq_Inr [res_simps]:
  "checkpoint_is u e d = Inr b \<longleftrightarrow> e + d \<le> u64_max \<and> b = (e + d = fu_current_epoch u)"
  by (auto simp: checkpoint_is_def res_simps)

lemma checkpoint_is_safe [safe_simps]:
  "safe (checkpoint_is u e d) Q = (e + d \<le> u64_max \<longrightarrow> Q (e + d = fu_current_epoch u))"
  by (auto simp: checkpoint_is_def safe_simps res_simps)

lemma two_thirds_eq_Inr [res_simps]:
  "has_two_thirds_support t tot = Inr b \<longleftrightarrow> t * 3 \<le> u64_max \<and> tot * 2 \<le> u64_max \<and> b = (2 * tot \<le> 3 * t)"
  by (auto simp: has_two_thirds_support_def res_simps)

lemma two_thirds_safe [safe_simps]:
  "safe (has_two_thirds_support t tot) Q = (t * 3 \<le> u64_max \<longrightarrow> tot * 2 \<le> u64_max \<longrightarrow> Q (2 * tot \<le> 3 * t))"
  by (auto simp: has_two_thirds_support_def safe_simps res_simps mult.commute)

lemmas finality_rules = previous_checkpoint_has_three_supporting_epochs_def
  previous_checkpoint_has_two_supporting_epochs_def current_checkpoint_has_two_supporting_epochs_def
  current_checkpoint_has_one_supporting_epoch_def old_previous_is_def old_current_is_def

lemma rule_finalized_cases:
  "rule_finalized_checkpoint u = Inr f \<Longrightarrow> f = None \<or> f = Some (fu_old_previous u) \<or> f = Some (fu_old_current u)"
  by (auto simp: rule_finalized_checkpoint_def Let_def res_simps split: if_splits)

lemma rule_finalized_safe:
  "safe (rule_finalized_checkpoint u) (\<lambda>f. f = None \<or> f = Some (fu_old_previous u) \<or> f = Some (fu_old_current u))"
  by (simp add: rule_finalized_checkpoint_def finality_rules Let_def safe_simps)

lemma rule_finalized_consecutive:
  assumes "rule_finalized_checkpoint u = Inr f" and "bits_are_set u 0 2"
    and "cp_epoch (fu_old_current u) + 1 = fu_current_epoch u"
  shows "f = Some (fu_old_current u)"
  using assms
  by (auto simp: rule_finalized_checkpoint_def Let_def res_simps current_checkpoint_has_one_supporting_epoch_def
      old_current_is_def)

lemma block_root_safe:
  "state_ok p st \<Longrightarrow> safe (block_root_at_slot p st sl) (\<lambda>r. length r = 32)"
  using state_ok_block_roots [of p st]
  by (cases p) (auto simp: block_root_at_slot_def safe_simps SLOTS_PER_HISTORICAL_ROOT_def)

section \<open>The phase keeps the invariant\<close>

lemma epoch_of_le: "epoch_of p sl \<le> sl"
  by (simp add: epoch_of_def)

lemma state_epoch_le: "state_ok p st \<Longrightarrow> epoch_of p (slot st) \<le> u64_max"
  using state_ok_slot epoch_of_le le_trans by blast

lemma previous_epoch_le: "get_previous_epoch p st \<le> epoch_of p (slot st)"
  by (simp add: get_previous_epoch_def get_current_epoch_def Let_def)

lemma justify_safe:
  assumes ok: "state_ok p st" and e: "e \<le> u64_max"
  shows "safe (if b then bindR (block_root_at_slot p st sl) (\<lambda>root.
        Inr (st\<lparr>current_justified_checkpoint := \<lparr>cp_epoch = e, cp_root = root\<rparr>,
                justification_bits := bits_set (justification_bits st) i True\<rparr>)) else Inr st)
    (\<lambda>st'. state_ok p st' \<and> chain_frame st' = chain_frame st)"
proof -
  have "state_ok p (st\<lparr>current_justified_checkpoint := \<lparr>cp_epoch = e, cp_root = root\<rparr>,
      justification_bits := bits_set (justification_bits st) i True\<rparr>)" if "length root = 32" for root
    by (rule state_ok_upd_justification_bits, rule state_ok_upd_current_justified_checkpoint [OF ok])
      (simp_all add: Checkpoint_ok_iff e that state_ok_justification_bits [OF ok])
  then show ?thesis
    using ok by (auto simp: safe_simps intro!: safe_mono [OF block_root_safe [OF ok]])
qed

lemma justify_step:
  assumes "state_ok p s" and "e \<le> u64_max"
    and "\<And>s'. state_ok p s' \<Longrightarrow> chain_frame s' = chain_frame s \<Longrightarrow> Q s'"
  shows "safe (has_two_thirds_support t tot) (\<lambda>b.
      safe (if b then bindR (block_root_at_slot p s sl) (\<lambda>root.
        Inr (s\<lparr>current_justified_checkpoint := \<lparr>cp_epoch = e, cp_root = root\<rparr>,
                justification_bits := bits_set (justification_bits s) i True\<rparr>)) else Inr s) Q)"
  unfolding two_thirds_safe by (intro impI safe_mono [OF justify_safe]) (use assms in auto)

lemma justification_safe:
  assumes ok: "state_ok p st"
  shows "safe (process_justification_and_finalization p st)
    (\<lambda>st'. state_ok p st' \<and> chain_frame st' = chain_frame st)"
proof -
  let ?st0 = "st\<lparr>previous_justified_checkpoint := current_justified_checkpoint st,
      justification_bits := shift_justification_bits (justification_bits st)\<rparr>"
  have ok0: "state_ok p ?st0"
    by (rule state_ok_upd_justification_bits, rule state_ok_upd_previous_justified_checkpoint [OF ok])
      (simp_all add: state_ok_current_justified_checkpoint [OF ok] state_ok_justification_bits [OF ok])
  have fin: "safe (bindR (rule_finalized_checkpoint \<lparr>fu_old_previous = previous_justified_checkpoint st,
        fu_old_current = current_justified_checkpoint st, fu_current_epoch = e, fu_bits = bits\<rparr>)
      (\<lambda>f. Inr (case f of Some c \<Rightarrow> s\<lparr>finalized_checkpoint := c\<rparr> | None \<Rightarrow> s)))
      (\<lambda>st'. state_ok p st' \<and> chain_frame st' = chain_frame st)"
    if "state_ok p s" "chain_frame s = chain_frame st" for s e bits
    unfolding safe_bind
    by (rule safe_mono [OF rule_finalized_safe])
      (use that state_ok_previous_justified_checkpoint [OF ok] state_ok_current_justified_checkpoint [OF ok]
       in \<open>auto intro!: state_ok_upd_finalized_checkpoint\<close>)
  show ?thesis
  proof (cases "epoch_of p (slot st) \<le> GENESIS_EPOCH + 1")
    case True
    then show ?thesis using ok by (simp add: process_justification_and_finalization_def Let_def)
  next
    case False
    then show ?thesis
      unfolding process_justification_and_finalization_def Let_def safe_bind if_not_P [OF False]
      by (intro safe_mono [OF get_total_active_balance_safe] safe_mono [OF participating_safe [OF ok]]
          safe_mono [OF get_total_balance_safe] justify_step fin [unfolded safe_bind])
        (use ok0 state_epoch_le [OF ok] previous_epoch_le [of p st] in auto)
  qed
qed

interpretation justification: phase X p "process_justification_and_finalization p" for X p
  by unfold_locales (rule justification_safe)

section \<open>What a successful run does\<close>

text \<open>The stake behind a target epoch, and the checkpoint of an epoch in the state's history.\<close>

definition target_stake :: "preset \<Rightarrow> BeaconState \<Rightarrow> Epoch \<Rightarrow> nat" where
  "target_stake p st t = max (effective_sum st
     (filter (participates p st TIMELY_TARGET_FLAG_INDEX t) [0..<length (validators st)])) EFFECTIVE_BALANCE_INCREMENT"

definition epoch_checkpoint :: "preset \<Rightarrow> BeaconState \<Rightarrow> Epoch \<Rightarrow> Checkpoint" where
  "epoch_checkpoint p st t = \<lparr>cp_epoch = t, cp_root = block_roots st ! (start_slot p t mod SLOTS_PER_HISTORICAL_ROOT p)\<rparr>"

lemma target_stake_eq:
  assumes "state_ok p st" and "t = epoch_of p (slot st) \<or> t = get_previous_epoch p st"
  shows "(\<exists>is. get_unslashed_participating_indices p st TIMELY_TARGET_FLAG_INDEX t = Inr is
      \<and> get_total_balance st is = Inr w) \<Longrightarrow> w = target_stake p st t"
  using assms participating_eq [OF assms(1), of TIMELY_TARGET_FLAG_INDEX t]
  by (auto simp: target_stake_def get_total_balance_eq_Inr TIMELY_TARGET_FLAG_INDEX_def get_current_epoch_def)

lemma bits_4: "length bs = 4 \<Longrightarrow> \<exists>a b c d. bs = [a, b, c, d]"
  by (auto simp: numeral_eq_Suc length_Suc_conv)

lemma justify_both:
  assumes ok: "state_ok p st" and "block_roots s = block_roots st" and "justification_bits s = [False, b0, b1, b2]"
  shows "bindR (if jp then bindR (block_root_at_slot p s (start_slot p e1)) (\<lambda>root.
        Inr (s\<lparr>current_justified_checkpoint := \<lparr>cp_epoch = e1, cp_root = root\<rparr>,
                justification_bits := bits_set (justification_bits s) 1 True\<rparr>)) else Inr s) (\<lambda>s.
      bindR (if jc then bindR (block_root_at_slot p s (start_slot p e2)) (\<lambda>root.
        Inr (s\<lparr>current_justified_checkpoint := \<lparr>cp_epoch = e2, cp_root = root\<rparr>,
                justification_bits := bits_set (justification_bits s) 0 True\<rparr>)) else Inr s) k) =
    k (s\<lparr>current_justified_checkpoint := (if jc then epoch_checkpoint p st e2
         else if jp then epoch_checkpoint p st e1 else current_justified_checkpoint s),
        justification_bits := [jc, b0 \<or> jp, b1, b2]\<rparr>)"
proof -
  have roots: "block_root_at_slot p s' sl = Inr (block_roots st ! (sl mod SLOTS_PER_HISTORICAL_ROOT p))"
    if "block_roots s' = block_roots st" for s' sl
    using that state_ok_block_roots(1) [OF ok]
    by (cases p) (simp_all add: block_root_at_slot_def idx_def SLOTS_PER_HISTORICAL_ROOT_def)
  have same: "s\<lparr>justification_bits := [False, b0, b1, b2]\<rparr> = s"
    by (simp flip: assms(3))
  show ?thesis
    using assms(2,3) by (cases jp; cases jc) (simp_all add: roots epoch_checkpoint_def bits_set_def same)
qed

lemma justification_inv:
  assumes ok: "state_ok p st" and run: "process_justification_and_finalization p st = Inr st'"
    and e: "1 < epoch_of p (slot st)" and bits: "justification_bits st = [b0, b1, b2, b3]"
  defines "cur \<equiv> epoch_of p (slot st)" and "prev \<equiv> get_previous_epoch p st"
  shows "\<exists>tot f. get_total_active_balance p st = Inr tot
    \<and> previous_justified_checkpoint st' = current_justified_checkpoint st
    \<and> current_justified_checkpoint st' =
        (if 2 * tot \<le> 3 * target_stake p st cur then epoch_checkpoint p st cur
         else if 2 * tot \<le> 3 * target_stake p st prev then epoch_checkpoint p st prev
         else current_justified_checkpoint st)
    \<and> justification_bits st' =
        [2 * tot \<le> 3 * target_stake p st cur, b0 \<or> 2 * tot \<le> 3 * target_stake p st prev, b1, b2]
    \<and> rule_finalized_checkpoint \<lparr>fu_old_previous = previous_justified_checkpoint st,
        fu_old_current = current_justified_checkpoint st, fu_current_epoch = cur,
        fu_bits = justification_bits st'\<rparr> = Inr f
    \<and> finalized_checkpoint st' = (case f of Some c \<Rightarrow> c | None \<Rightarrow> finalized_checkpoint st)"
proof -
  obtain tot "is" js pt ct where tot: "get_total_active_balance p st = Inr tot"
    and is_eq: "get_unslashed_participating_indices p st TIMELY_TARGET_FLAG_INDEX prev = Inr is"
    and js: "get_unslashed_participating_indices p st TIMELY_TARGET_FLAG_INDEX cur = Inr js"
    and pt: "get_total_balance st is = Inr pt" and ct: "get_total_balance st js = Inr ct"
    using run e by (auto simp: process_justification_and_finalization_def Let_def bindR_eq_Inr GENESIS_EPOCH_def
        prev_def cur_def)
  have stakes: "pt = target_stake p st prev" "ct = target_stake p st cur"
    using target_stake_eq [OF ok] is_eq js pt ct by (auto simp: prev_def cur_def)
  let ?jp = "2 * tot \<le> 3 * target_stake p st prev" and ?jc = "2 * tot \<le> 3 * target_stake p st cur"
  have e': "\<not> epoch_of p (slot st) \<le> GENESIS_EPOCH + 1" using e by (simp add: GENESIS_EPOCH_def)
  note steps = run [unfolded process_justification_and_finalization_def Let_def if_not_P [OF e'],
      folded prev_def cur_def, unfolded tot is_eq js bindR_simps pt ct]
  obtain b where "has_two_thirds_support pt tot = Inr b" using steps by (simp only: bindR_eq_Inr) blast
  then have jp: "has_two_thirds_support pt tot = Inr ?jp" by (simp add: two_thirds_eq_Inr stakes)
  obtain b where "has_two_thirds_support ct tot = Inr b"
    using steps [unfolded jp bindR_simps] by (simp only: bindR_eq_Inr) blast
  then have jc: "has_two_thirds_support ct tot = Inr ?jc" by (simp add: two_thirds_eq_Inr stakes)
  let ?s0 = "st\<lparr>previous_justified_checkpoint := current_justified_checkpoint st\<rparr>"
  let ?s = "?s0\<lparr>justification_bits := shift_justification_bits (justification_bits ?s0)\<rparr>"
  have "block_roots ?s = block_roots st" "justification_bits ?s = [False, b0, b1, b2]"
    by (simp_all add: bits shift_justification_bits_eq)
  note justified = justify_both [OF ok this, of ?jp prev ?jc cur]
  define s2 where "s2 = ?s\<lparr>current_justified_checkpoint := (if ?jc then epoch_checkpoint p st cur
         else if ?jp then epoch_checkpoint p st prev else current_justified_checkpoint ?s),
        justification_bits := [?jc, b0 \<or> ?jp, b1, b2]\<rparr>"
  let ?u = "\<lparr>fu_old_previous = previous_justified_checkpoint st, fu_old_current = current_justified_checkpoint st,
      fu_current_epoch = cur, fu_bits = justification_bits s2\<rparr>"
  have "bindR (rule_finalized_checkpoint ?u)
      (\<lambda>f. Inr (case f of Some c \<Rightarrow> s2\<lparr>finalized_checkpoint := c\<rparr> | None \<Rightarrow> s2)) = Inr st'"
    using steps unfolding jp jc bindR_simps justified s2_def .
  then obtain f where f: "rule_finalized_checkpoint ?u = Inr f"
      and st': "st' = (case f of Some c \<Rightarrow> s2\<lparr>finalized_checkpoint := c\<rparr> | None \<Rightarrow> s2)"
    by (cases "rule_finalized_checkpoint ?u") simp_all
  have "justification_bits st' = justification_bits s2" by (simp add: st' split: option.split)
  then show ?thesis using tot f
    by (intro exI [of _ tot] exI [of _ f]) (simp add: st' s2_def split: option.split)
qed

text \<open>
  C12: finality is safe and never moves back. From checkpoints in order (finalized, previous justified,
  current justified, before the current epoch) the phase leaves checkpoints in order, moves the
  finalized epoch only forward and only to a checkpoint that was justified before, and justifies a new
  checkpoint only for the previous or current epoch, with two thirds of the active stake behind it.
\<close>

theorem finality_monotone:
  assumes ok: "state_ok p st" and run: "process_justification_and_finalization p st = Inr st'"
    and order: "cp_epoch (finalized_checkpoint st) \<le> cp_epoch (previous_justified_checkpoint st)"
      "cp_epoch (previous_justified_checkpoint st) \<le> cp_epoch (current_justified_checkpoint st)"
      "cp_epoch (current_justified_checkpoint st) \<le> get_previous_epoch p st"
  shows "cp_epoch (finalized_checkpoint st) \<le> cp_epoch (finalized_checkpoint st')
    \<and> cp_epoch (finalized_checkpoint st') \<le> cp_epoch (previous_justified_checkpoint st')
    \<and> cp_epoch (previous_justified_checkpoint st') \<le> cp_epoch (current_justified_checkpoint st')
    \<and> cp_epoch (current_justified_checkpoint st') \<le> get_current_epoch p st
    \<and> finalized_checkpoint st' \<in>
        {finalized_checkpoint st, previous_justified_checkpoint st, current_justified_checkpoint st}
    \<and> (current_justified_checkpoint st' \<noteq> current_justified_checkpoint st \<longrightarrow>
        (\<exists>t \<in> {get_previous_epoch p st, get_current_epoch p st}. \<exists>tot. get_total_active_balance p st = Inr tot
           \<and> current_justified_checkpoint st' = epoch_checkpoint p st t \<and> 2 * tot \<le> 3 * target_stake p st t))"
proof (cases "1 < epoch_of p (slot st)")
  case False
  then have "st' = st"
    using run by (simp add: process_justification_and_finalization_def Let_def GENESIS_EPOCH_def not_less)
  then show ?thesis using order previous_epoch_le [of p st] by (simp add: get_current_epoch_def)
next
  case True
  obtain b0 b1 b2 b3 where "justification_bits st = [b0, b1, b2, b3]"
    using bits_4 state_ok_justification_bits [OF ok] by (metis JUSTIFICATION_BITS_LENGTH_def)
  from justification_inv [OF ok run True this] obtain tot f where
    tot: "get_total_active_balance p st = Inr tot"
    and pj: "previous_justified_checkpoint st' = current_justified_checkpoint st"
    and cj: "current_justified_checkpoint st' =
        (if 2 * tot \<le> 3 * target_stake p st (epoch_of p (slot st)) then epoch_checkpoint p st (epoch_of p (slot st))
         else if 2 * tot \<le> 3 * target_stake p st (get_previous_epoch p st) then epoch_checkpoint p st (get_previous_epoch p st)
         else current_justified_checkpoint st)"
    and rule: "rule_finalized_checkpoint \<lparr>fu_old_previous = previous_justified_checkpoint st,
        fu_old_current = current_justified_checkpoint st, fu_current_epoch = epoch_of p (slot st),
        fu_bits = justification_bits st'\<rparr> = Inr f"
    and fin: "finalized_checkpoint st' = (case f of Some c \<Rightarrow> c | None \<Rightarrow> finalized_checkpoint st)"
    by blast
  have "finalized_checkpoint st' \<in>
      {finalized_checkpoint st, previous_justified_checkpoint st, current_justified_checkpoint st}"
    using rule_finalized_cases [OF rule] fin by auto
  then show ?thesis
    using order previous_epoch_le [of p st] tot
    by (auto simp: pj cj epoch_checkpoint_def get_current_epoch_def)
qed

section \<open>Consecutive justified epochs finalize\<close>

lemma effective_sum_filter_le:
  "effective_sum st (filter P [0..<length (validators st)]) \<le> sum_list (map v_effective_balance (validators st))"
proof -
  have "map v_effective_balance (validators st) = map (\<lambda>i. v_effective_balance (validators st ! i)) [0..<length (validators st)]"
    by (rule nth_equalityI) simp_all
  then show ?thesis using sum_list_filter_le_nat by metis
qed

lemma rule_finalized_total:
  assumes "cp_epoch (fu_old_previous u) + 3 \<le> u64_max" and "cp_epoch (fu_old_current u) + 2 \<le> u64_max"
  shows "\<exists>f. rule_finalized_checkpoint u = Inr f"
  using assms by (simp add: rule_finalized_checkpoint_def finality_rules checkpoint_is_def Let_def checked_add_def)

lemma justification_total:
  assumes ok: "state_ok p st" and stake: "3 * sum_list (map v_effective_balance (validators st)) \<le> u64_max"
    and "cp_epoch (previous_justified_checkpoint st) + 3 \<le> u64_max"
    and "cp_epoch (current_justified_checkpoint st) + 2 \<le> u64_max"
  shows "\<exists>st'. process_justification_and_finalization p st = Inr st'"
proof -
  let ?cur = "epoch_of p (slot st)" and ?prev = "get_previous_epoch p st"
  let ?part = "\<lambda>t. filter (participates p st TIMELY_TARGET_FLAG_INDEX t) [0..<length (validators st)]"
  have bal: "get_total_balance st (filter P [0..<length (validators st)]) =
      Inr (max (effective_sum st (filter P [0..<length (validators st)])) EFFECTIVE_BALANCE_INCREMENT)"
    and small: "max (effective_sum st (filter P [0..<length (validators st)])) EFFECTIVE_BALANCE_INCREMENT * 3 \<le> u64_max" for P
    using effective_sum_filter_le [of st P] stake
    by (auto simp: get_total_balance_eq_Inr EFFECTIVE_BALANCE_INCREMENT_def u64_max_def)
  obtain tot where tot: "get_total_active_balance p st = Inr tot" "tot * 3 \<le> u64_max"
    using bal small by (auto simp: get_total_active_balance_def active_indices_eq)
  have part: "get_unslashed_participating_indices p st TIMELY_TARGET_FLAG_INDEX t = Inr (?part t)"
    if "t = ?cur \<or> t = ?prev" for t
    using participating_eq [OF ok] that by (auto simp: get_current_epoch_def TIMELY_TARGET_FLAG_INDEX_def)
  have sup: "has_two_thirds_support (max (effective_sum st (?part t)) EFFECTIVE_BALANCE_INCREMENT) tot =
      Inr (2 * tot \<le> 3 * max (effective_sum st (?part t)) EFFECTIVE_BALANCE_INCREMENT)" for t
    using small tot(2) by (simp add: two_thirds_eq_Inr)
  obtain b0 b1 b2 b3 where bits: "justification_bits st = [b0, b1, b2, b3]"
    using bits_4 state_ok_justification_bits [OF ok] by (metis JUSTIFICATION_BITS_LENGTH_def)
  let ?s0 = "st\<lparr>previous_justified_checkpoint := current_justified_checkpoint st\<rparr>"
  let ?s = "?s0\<lparr>justification_bits := shift_justification_bits (justification_bits ?s0)\<rparr>"
  have s: "block_roots ?s = block_roots st" "justification_bits ?s = [False, b0, b1, b2]"
    by (simp_all add: bits shift_justification_bits_eq)
  have rule: "\<exists>f. rule_finalized_checkpoint \<lparr>fu_old_previous = previous_justified_checkpoint st,
        fu_old_current = current_justified_checkpoint st, fu_current_epoch = ?cur, fu_bits = bs\<rparr> = Inr f" for bs
    by (rule rule_finalized_total) (use assms(3,4) in simp_all)
  show ?thesis
  proof (cases "?cur \<le> GENESIS_EPOCH + 1")
    case False
    show ?thesis
      unfolding process_justification_and_finalization_def Let_def if_not_P [OF False] tot(1) bindR_simps
        part [OF disjI1 [OF refl]] part [OF disjI2 [OF refl]] bal sup justify_both [OF ok s]
      using rule by (auto simp: bindR_eq_Inr)
  qed (simp add: process_justification_and_finalization_def Let_def)
qed

text \<open>
  C13: finality makes progress. When the previous epoch is justified and validators with two thirds of
  the active stake vote for the current epoch in time, the phase succeeds, justifies the current epoch
  and finalizes the previous one; the stake in the registry must only be small enough that three times
  its sum fits 64 bits.
\<close>

theorem finality_progress:
  assumes ok: "state_ok p st" and e: "1 < get_current_epoch p st"
    and stake: "3 * sum_list (map v_effective_balance (validators st)) \<le> u64_max"
    and cur: "cp_epoch (current_justified_checkpoint st) + 1 = get_current_epoch p st"
    and prev: "cp_epoch (previous_justified_checkpoint st) \<le> cp_epoch (current_justified_checkpoint st)"
    and bit: "justification_bits st ! 0"
    and sup: "get_total_active_balance p st = Inr tot" "2 * tot \<le> 3 * target_stake p st (get_current_epoch p st)"
  shows "\<exists>st'. process_justification_and_finalization p st = Inr st'
    \<and> finalized_checkpoint st' = current_justified_checkpoint st
    \<and> current_justified_checkpoint st' = epoch_checkpoint p st (get_current_epoch p st)"
proof -
  have "epoch_of p (slot st) * 8 \<le> u64_max"
    using state_ok_slot [OF ok] div_times_less_eq_dividend [of "slot st" "SLOTS_PER_EPOCH p"]
    by (cases p) (simp_all add: epoch_of_def SLOTS_PER_EPOCH_def)
  then have "get_current_epoch p st + 3 \<le> u64_max" by (simp add: get_current_epoch_def u64_max_def)
  then obtain st' where run: "process_justification_and_finalization p st = Inr st'"
    using justification_total [OF ok stake] cur prev by auto
  obtain b0 b1 b2 b3 where bits: "justification_bits st = [b0, b1, b2, b3]"
    using bits_4 state_ok_justification_bits [OF ok] by (metis JUSTIFICATION_BITS_LENGTH_def)
  let ?u = "\<lparr>fu_old_previous = previous_justified_checkpoint st, fu_old_current = current_justified_checkpoint st,
      fu_current_epoch = get_current_epoch p st, fu_bits = justification_bits st'\<rparr>"
  from justification_inv [OF ok run e [unfolded get_current_epoch_def] bits, folded get_current_epoch_def] sup
  obtain f x where cj: "current_justified_checkpoint st' = epoch_checkpoint p st (get_current_epoch p st)"
    and bits': "justification_bits st' = [True, b0 \<or> x, b1, b2]"
    and rule: "rule_finalized_checkpoint ?u = Inr f"
    and fin: "finalized_checkpoint st' = (case f of Some c \<Rightarrow> c | None \<Rightarrow> finalized_checkpoint st)"
    by auto
  have "bits_are_set ?u 0 2" using bit bits by (simp add: bits_are_set_def bits' slice_of_def numeral_2_eq_2)
  then have "f = Some (current_justified_checkpoint st)" using rule_finalized_consecutive [OF rule] cur by simp
  then show ?thesis using run cj fin by simp
qed

section \<open>A concrete epoch\<close>

lemma ex_target_stake: "target_stake Minimal (ex_state Minimal) 5 = 96000000000"
  by (simp add: target_stake_def participates_def participation_at_def ex_epochs ex_length upt_4 TIMELY_TARGET_FLAG_INDEX_def
      ex_active u64_max_def EFFECTIVE_BALANCE_INCREMENT_def bit_simps)

lemma ex_checkpoint_5: "epoch_checkpoint Minimal (ex_state Minimal) 5 = ex_checkpoint 5"
  by (simp add: epoch_checkpoint_def ex_checkpoint_def start_slot_def saturating_mul_def SLOTS_PER_EPOCH_def
      SLOTS_PER_HISTORICAL_ROOT_def u64_max_def)

theorem finality_progress_witness:
  "\<exists>st'. process_justification_and_finalization Minimal (ex_state Minimal) = Inr st'
    \<and> finalized_checkpoint st' = ex_checkpoint 4 \<and> current_justified_checkpoint st' = ex_checkpoint 5"
  using finality_progress [OF ex_state_ok, of Minimal 128000000000]
  by (simp add: ex_epochs ex_total ex_target_stake ex_checkpoint_5 u64_max_def)

theorem finality_monotone_witness:
  "\<exists>st'. process_justification_and_finalization Minimal (ex_state Minimal) = Inr st'
    \<and> 3 \<le> cp_epoch (finalized_checkpoint st')
    \<and> finalized_checkpoint st' \<in> {ex_checkpoint 3, ex_checkpoint 4}"
proof -
  obtain st' where run: "process_justification_and_finalization Minimal (ex_state Minimal) = Inr st'"
    using justification_total [OF ex_state_ok, of Minimal] by (auto simp: u64_max_def)
  then show ?thesis using finality_monotone [OF ex_state_ok run] by (simp add: ex_epochs)
qed

end
