(* ===== verification/Accounting.thy ===== *)
theory Accounting
  imports Finality
begin

text \<open>
  Per-epoch accounting (\<open>state_transition/epoch/accounting.rs\<close>): inactivity scores, rewards and
  penalties, and the proportional slashing sweep, each with its closed form per validator.
\<close>

section \<open>Definitions\<close>

text \<open>One iteration of the loop of \<open>process_inactivity_updates\<close>, on the list of scores.\<close>

definition update_inactivity_score :: "ValidatorIndex list \<Rightarrow> bool \<Rightarrow> u64 list \<Rightarrow> ValidatorIndex \<Rightarrow> u64 list tres" where
  "update_inactivity_score matching in_leak scores vi =
     bindR (reject (vi \<ge> length scores) (InvariantErr (Inv_MissingInactivityScore vi))) (\<lambda>_.
     bindR (idx scores vi) (\<lambda>score.
     bindR (if vi \<in> set matching then idx_set scores vi (saturating_sub score (min 1 score))
            else bindR (or_err (checked_add score INACTIVITY_SCORE_BIAS) (ArithmeticOverflow Arith_Weight))
              (\<lambda>score'. idx_set scores vi score')) (\<lambda>scores.
     if \<not> in_leak then
       bindR (idx scores vi) (\<lambda>score.
       idx_set scores vi (saturating_sub score (min INACTIVITY_SCORE_RECOVERY_RATE score)))
     else Inr scores)))"

definition process_inactivity_updates :: "preset \<Rightarrow> BeaconState \<Rightarrow> BeaconState tres" where
  "process_inactivity_updates p st =
     (if epoch_of p (slot st) = GENESIS_EPOCH then Inr st
      else
      let previous = get_previous_epoch p st in
      bindR (get_unslashed_participating_indices p st TIMELY_TARGET_FLAG_INDEX previous) (\<lambda>matching.
      bindR (is_in_inactivity_leak p st) (\<lambda>in_leak.
      bindR (get_eligible_validator_indices p st) (\<lambda>eligible.
      bindR (foldR (update_inactivity_score matching in_leak)
             (inactivity_scores st) eligible) (\<lambda>scores.
      Inr (st\<lparr>inactivity_scores := scores\<rparr>))))))"

definition process_rewards_and_penalties :: "preset \<Rightarrow> BeaconState \<Rightarrow> BeaconState tres" where
  "process_rewards_and_penalties p st =
     (if epoch_of p (slot st) = GENESIS_EPOCH then Inr st
      else
      bindR (foldR (\<lambda>all fi. bindR (get_flag_index_deltas p st fi) (\<lambda>d. Inr (all @ [d])))
               [] [0..<length PARTICIPATION_FLAG_WEIGHTS]) (\<lambda>all_deltas.
      bindR (get_inactivity_penalty_deltas p st) (\<lambda>d.
      bindR (foldR (\<lambda>bals deltas. apply_to deltas bals) (balances st) (all_deltas @ [d])) (\<lambda>bals.
      Inr (st\<lparr>balances := bals\<rparr>)))))"

text \<open>One iteration of the loop of \<open>process_slashings\<close>.\<close>

definition sweep_slashed :: "Epoch \<Rightarrow> u64 \<Rightarrow> BeaconState \<Rightarrow> nat \<Rightarrow> BeaconState tres" where
  "sweep_slashed slash_epoch penalty_per_increment st i =
     bindR (idx (validators st) i) (\<lambda>v.
     if v_slashed v \<and> slash_epoch = v_withdrawable_epoch v then
       let effective_balance_increments = v_effective_balance v div EFFECTIVE_BALANCE_INCREMENT in
       bindR (or_err (checked_mul penalty_per_increment effective_balance_increments)
                (ArithmeticOverflow Arith_BalanceSum)) (\<lambda>penalty.
       decrease_balance st i penalty)
     else Inr st)"

definition process_slashings :: "preset \<Rightarrow> BeaconState \<Rightarrow> BeaconState tres" where
  "process_slashings p st =
     (let epoch = epoch_of p (slot st) in
      bindR (get_total_active_balance p st) (\<lambda>total_balance.
      bindR (foldR (\<lambda>s amount. or_err (checked_add s amount) (ArithmeticOverflow Arith_BalanceSum))
               0 (slashings st)) (\<lambda>sum_slashings.
      bindR (or_err (checked_mul sum_slashings PROPORTIONAL_SLASHING_MULTIPLIER)
               (ArithmeticOverflow Arith_BalanceSum)) (\<lambda>m.
      let adjusted = min m total_balance;
          increment = EFFECTIVE_BALANCE_INCREMENT;
          total_increments = total_balance div increment
      in
      bindR (u_div adjusted total_increments) (\<lambda>penalty_per_increment.
      let half = EPOCHS_PER_SLASHINGS_VECTOR p div 2 in
      bindR (or_err (checked_add epoch half) (ArithmeticOverflow Arith_Epoch)) (\<lambda>slash_epoch.
      foldR (sweep_slashed slash_epoch penalty_per_increment) st [0..<length (validators st)]))))))"

section \<open>Loops over the registry\<close>

text \<open>
  A loop over distinct indices that reads and writes only the entry of the index at hand applies one
  function to each of these entries.
\<close>

lemma index_loop:
  assumes step: "\<And>ys i. i \<in> set is \<Longrightarrow> i < length ys \<Longrightarrow> f ys i = bindR (g i (ys ! i)) (\<lambda>y. Inr (ys[i := y]))"
    and "distinct is" and "\<forall>i \<in> set is. i < length xs"
    and "foldR f xs is = Inr ys"
  shows "length ys = length xs \<and>
    (\<forall>i < length xs. if i \<in> set is then g i (xs ! i) = Inr (ys ! i) else ys ! i = xs ! i)"
  using assms
proof (induction "is" arbitrary: xs)
  case Nil
  then show ?case by simp
next
  case (Cons i "is")
  have "f xs i = bindR (g i (xs ! i)) (\<lambda>y. Inr (xs[i := y]))" using Cons.prems(1,3) by simp
  with Cons.prems(4) obtain y where y: "g i (xs ! i) = Inr y" and rest: "foldR f (xs[i := y]) is = Inr ys"
    by (cases "g i (xs ! i)") simp_all
  have "length ys = length (xs[i := y]) \<and>
    (\<forall>j < length (xs[i := y]). if j \<in> set is then g j (xs[i := y] ! j) = Inr (ys ! j) else ys ! j = xs[i := y] ! j)"
    using Cons.IH [of "xs[i := y]"] Cons.prems(1-3) rest by simp
  then have rest: "length ys = length xs" "j < length xs \<Longrightarrow>
      if j \<in> set is then g j (xs[i := y] ! j) = Inr (ys ! j) else ys ! j = xs[i := y] ! j" for j
    by simp_all
  have i: "i \<notin> set is" "i < length xs" using Cons.prems(2,3) by simp_all
  have "if j \<in> set (i # is) then g j (xs ! j) = Inr (ys ! j) else ys ! j = xs ! j" if "j < length xs" for j
    using rest(2) [OF that] i y by (cases "j = i"; cases "j \<in> set is") simp_all
  then show ?case using rest(1) by simp
qed

text \<open>A loop over states that changes one component is a loop over that component.\<close>

lemma foldR_component:
  assumes "\<And>b i. i \<in> set is \<Longrightarrow> f (u b) i = bindR (g b i) (\<lambda>b'. Inr (u b'))"
  shows "foldR f (u b) is = bindR (foldR g b is) (\<lambda>b'. Inr (u b'))"
  using assms
proof (induction "is" arbitrary: b)
  case Nil
  then show ?case by simp
next
  case (Cons i "is")
  then show ?case by (cases "g b i") simp_all
qed

lemma index_loop_safe:
  assumes "\<And>ys i. i \<in> set is \<Longrightarrow> length ys = length xs \<Longrightarrow> \<forall>y \<in> set ys. P y \<Longrightarrow>
      safe (f ys i) (\<lambda>zs. length zs = length xs \<and> (\<forall>y \<in> set zs. P y))"
    and "\<forall>y \<in> set xs. P y"
  shows "safe (foldR f xs is) (\<lambda>ys. length ys = length xs \<and> (\<forall>y \<in> set ys. P y))"
  by (rule safe_foldR) (use assms in auto)

section \<open>Inactivity scores\<close>

lemma leak_safe [safe_simps]:
  "safe (is_in_inactivity_leak p st) Q = (\<forall>b. is_in_inactivity_leak p st = Inr b \<longrightarrow> Q b)"
  by (auto simp: is_in_inactivity_leak_def get_finality_delay_def safe_simps res_simps)

lemma update_score_eq:
  "i < length scores \<Longrightarrow> update_inactivity_score matching in_leak scores i =
     bindR (if i \<in> set matching then Inr (scores ! i - 1)
            else or_err (checked_add (scores ! i) INACTIVITY_SCORE_BIAS) (ArithmeticOverflow Arith_Weight)) (\<lambda>s.
     Inr (scores[i := if in_leak then s else s - INACTIVITY_SCORE_RECOVERY_RATE]))"
  by (cases "checked_add (scores ! i) INACTIVITY_SCORE_BIAS")
    (auto simp: update_inactivity_score_def idx_def idx_set_def saturating_sub_def min_def)

lemma update_score_safe:
  assumes "\<forall>y \<in> set scores. y \<le> u64_max"
  shows "safe (update_inactivity_score matching in_leak scores i)
    (\<lambda>ys. length ys = length scores \<and> (\<forall>y \<in> set ys. y \<le> u64_max))"
proof (cases "i < length scores")
  case True
  then have le: "scores ! i \<le> u64_max" using assms by simp
  have upd: "\<forall>y \<in> set (scores[i := v]). y \<le> u64_max" if "v \<le> u64_max" for v
    by (rule set_update_all [OF assms that])
  show ?thesis
    unfolding update_score_eq [OF True] safe_bind
    using le by (simp add: safe_simps res_simps, intro conjI impI upd) simp_all
qed (simp add: update_inactivity_score_def safe_simps)

lemma inactivity_safe:
  assumes ok: "state_ok p st"
  shows "safe (process_inactivity_updates p st) (\<lambda>st'. state_ok p st' \<and> chain_frame st' = chain_frame st)"
proof -
  have "safe (foldR (update_inactivity_score matching in_leak) (inactivity_scores st) is)
      (\<lambda>ys. length ys = length (inactivity_scores st) \<and> (\<forall>y \<in> set ys. y \<le> u64_max))" for matching in_leak "is"
  proof (rule index_loop_safe [OF _ state_ok_inactivity_scores(2) [OF ok]])
    fix ys i assume "length ys = length (inactivity_scores st)" and "\<forall>y \<in> set ys. y \<le> u64_max"
    then show "safe (update_inactivity_score matching in_leak ys i)
        (\<lambda>zs. length zs = length (inactivity_scores st) \<and> (\<forall>y \<in> set zs. y \<le> u64_max))"
      using update_score_safe [of ys matching in_leak i] by simp
  qed
  note loop = this
  show ?thesis
  proof (cases "epoch_of p (slot st) = GENESIS_EPOCH")
    case False
    show ?thesis
      unfolding process_inactivity_updates_def Let_def if_not_P [OF False] safe_bind leak_safe
      by (intro safe_mono [OF participating_safe [OF ok]] allI impI safe_mono [OF eligible_safe] safe_mono [OF loop])
        (simp add: state_ok_upd_inactivity_scores [OF ok])
  qed (simp add: process_inactivity_updates_def ok)
qed

text \<open>The new inactivity score of a validator.\<close>

definition new_score :: "bool \<Rightarrow> bool \<Rightarrow> nat \<Rightarrow> nat" where
  "new_score voted in_leak s =
     (let s = (if voted then s - 1 else s + INACTIVITY_SCORE_BIAS) in
      if in_leak then s else s - INACTIVITY_SCORE_RECOVERY_RATE)"

text \<open>
  After the first epoch, inactivity updates change the score of exactly the eligible validators:
  down by one for a timely target vote in the previous epoch and up by the bias otherwise, and down by
  the recovery rate when the chain is not leaking, never below zero. Nothing else of the state changes.
\<close>

theorem inactivity_updates_correct:
  assumes ok: "state_ok p st" and run: "process_inactivity_updates p st = Inr st'"
    and e: "get_current_epoch p st \<noteq> GENESIS_EPOCH"
  shows "\<exists>in_leak. is_in_inactivity_leak p st = Inr in_leak
    \<and> st' = st\<lparr>inactivity_scores := map (\<lambda>i.
        if eligible p st i
        then new_score (participates p st TIMELY_TARGET_FLAG_INDEX (get_previous_epoch p st) i) in_leak (inactivity_scores st ! i)
        else inactivity_scores st ! i) [0..<length (validators st)]\<rparr>"
proof -
  let ?n = "length (validators st)"
  let ?M = "filter (participates p st TIMELY_TARGET_FLAG_INDEX (get_previous_epoch p st)) [0..<?n]"
  have len: "length (inactivity_scores st) = ?n" by (rule state_ok_aligned [OF ok])
  have part: "get_unslashed_participating_indices p st TIMELY_TARGET_FLAG_INDEX (get_previous_epoch p st) = Inr ?M"
    using participating_eq [OF ok] by (simp add: TIMELY_TARGET_FLAG_INDEX_def)
  obtain leak "is" scores where leak: "is_in_inactivity_leak p st = Inr leak"
    and el: "get_eligible_validator_indices p st = Inr is"
    and loop: "foldR (update_inactivity_score ?M leak) (inactivity_scores st) is = Inr scores"
    and st': "st' = st\<lparr>inactivity_scores := scores\<rparr>"
    using run e part by (auto simp: process_inactivity_updates_def Let_def bindR_eq_Inr get_current_epoch_def)
  have "is": "is = filter (eligible p st) [0..<?n]" by (rule eligible_eq_Inr [OF el])
  let ?g = "\<lambda>i s. bindR (if i \<in> set ?M then Inr (s - 1)
      else or_err (checked_add s INACTIVITY_SCORE_BIAS) (ArithmeticOverflow Arith_Weight))
    (\<lambda>s. Inr (if leak then s else s - INACTIVITY_SCORE_RECOVERY_RATE))"
  have res: "length scores = length (inactivity_scores st) \<and> (\<forall>i < length (inactivity_scores st).
      if i \<in> set is then ?g i (inactivity_scores st ! i) = Inr (scores ! i) else scores ! i = inactivity_scores st ! i)"
    by (rule index_loop [OF _ _ _ loop]) (simp_all add: update_score_eq bindR_assoc "is" len)
  have size: "length scores = ?n" using res len by simp
  note entry = res [THEN conjunct2, unfolded len, THEN spec, THEN mp]
  have "scores ! i = (if eligible p st i
        then new_score (participates p st TIMELY_TARGET_FLAG_INDEX (get_previous_epoch p st) i) leak (inactivity_scores st ! i)
        else inactivity_scores st ! i)" if "i < ?n" for i
    using entry [OF that] that
    by (cases "eligible p st i"; cases "participates p st TIMELY_TARGET_FLAG_INDEX (get_previous_epoch p st) i")
      (auto simp: "is" new_score_def Let_def res_simps)
  then have "scores = map (\<lambda>i. if eligible p st i
        then new_score (participates p st TIMELY_TARGET_FLAG_INDEX (get_previous_epoch p st) i) leak (inactivity_scores st ! i)
        else inactivity_scores st ! i) [0..<?n]"
    by (intro nth_equalityI) (simp_all add: size)
  then show ?thesis using leak st' by simp
qed

interpretation inactivity: phase X p "process_inactivity_updates p" for X p
  by unfold_locales (rule inactivity_safe)

section \<open>Rewards and penalties\<close>

lemma apply_to_safe:
  assumes "length (bd_rewards d) = length bals" and "length (bd_penalties d) = length bals"
  shows "safe (apply_to d bals) (\<lambda>ys. length ys = length bals \<and> (\<forall>y \<in> set ys. y \<le> u64_max))"
proof -
  have "\<forall>y \<in> set (map2 (-) (map2 (+) bals (bd_rewards d)) (bd_penalties d)). y \<le> u64_max"
    if "\<forall>(b, r) \<in> set (zip bals (bd_rewards d)). b + r \<le> u64_max"
    using that assms by (fastforce simp: set_zip)
  then show ?thesis
    unfolding apply_to_def reward_loop [OF assms(1)] by (simp add: penalty_loop assms)
qed

lemma rewards_safe:
  assumes ok: "state_ok p st"
  shows "safe (process_rewards_and_penalties p st) (\<lambda>st'. state_ok p st' \<and> chain_frame st' = chain_frame st)"
proof -
  let ?n = "length (validators st)"
  let ?sized = "\<lambda>d. length (bd_rewards d) = ?n \<and> length (bd_penalties d) = ?n"
  have all: "safe (foldR (\<lambda>all fi. bindR (get_flag_index_deltas p st fi) (\<lambda>d. Inr (all @ [d]))) [] is)
      (\<lambda>ds. \<forall>d \<in> set ds. ?sized d)" for "is"
    by (rule safe_foldR) (auto simp: safe_bind intro!: safe_mono [OF flag_index_deltas_safe [OF ok]])
  have apply_all: "safe (foldR (\<lambda>bals deltas. apply_to deltas bals) (balances st) ds)
      (\<lambda>ys. length ys = length (balances st) \<and> (\<forall>y \<in> set ys. y \<le> u64_max))" if "\<forall>d \<in> set ds. ?sized d" for ds
  proof (rule safe_foldR)
    fix bals d assume d: "d \<in> set ds" and "length bals = length (balances st) \<and> (\<forall>y \<in> set bals. y \<le> u64_max)"
    then have "length bals = ?n" using state_ok_aligned(1) [OF ok] by simp
    then show "safe (apply_to d bals) (\<lambda>ys. length ys = length (balances st) \<and> (\<forall>y \<in> set ys. y \<le> u64_max))"
      using apply_to_safe [of d bals] that d state_ok_aligned(1) [OF ok] by simp
  qed (simp add: state_ok_balances(2) [OF ok])
  show ?thesis
  proof (cases "epoch_of p (slot st) = GENESIS_EPOCH")
    case False
    show ?thesis
      unfolding process_rewards_and_penalties_def if_not_P [OF False] safe_bind
      by (intro safe_mono [OF all] safe_mono [OF inactivity_penalty_deltas_safe [OF ok]] safe_mono [OF apply_all])
        (auto simp: state_ok_upd_balances [OF ok])
  qed (simp add: process_rewards_and_penalties_def ok)
qed

interpretation rewards: phase X p "process_rewards_and_penalties p" for X p
  by unfold_locales (rule rewards_safe)

section \<open>The slashing sweep\<close>

lemma slashing_sum:
  "foldR (\<lambda>s amount. or_err (checked_add s amount) e) t xs = Inr s \<Longrightarrow> s = t + sum_list xs"
  by (induction xs arbitrary: t) (fastforce simp: res_simps)+

lemma slashing_sum_eq:
  "t + sum_list xs \<le> u64_max \<Longrightarrow>
     foldR (\<lambda>s amount. or_err (checked_add s amount) e) t xs = Inr (t + sum_list xs)"
  by (induction xs arbitrary: t) (simp_all add: checked_add_def)

lemma slashing_sum_safe:
  "safe (foldR (\<lambda>s amount. or_err (checked_add s amount) e) t xs) (\<lambda>_. True)"
  by (rule safe_foldR) (auto simp: safe_simps)

lemma slashings_safe:
  assumes ok: "state_ok p st"
  shows "safe (process_slashings p st) (\<lambda>st'. state_ok p st' \<and> chain_frame st' = chain_frame st)"
proof -
  have loop: "safe (foldR (sweep_slashed slash_epoch ppi) st [0..<length (validators st)])
      (\<lambda>s. state_ok p s \<and> chain_frame s = chain_frame st \<and> validators s = validators st)" for slash_epoch ppi
    by (rule safe_foldR) (auto simp: sweep_slashed_def Let_def safe_simps ok intro!: safe_mono [OF decrease_balance_ok])
  show ?thesis
    unfolding process_slashings_def Let_def safe_bind safe_u_div safe_or_err
    by (intro safe_mono [OF get_total_active_balance_safe] safe_mono [OF slashing_sum_safe] allI impI conjI
        safe_mono [OF loop]) (use increments_pos in auto)
qed

interpretation slashing_sweep: phase X p "process_slashings p" for X p
  by unfold_locales (rule slashings_safe)

lemma sweep_slashed_eq:
  assumes "length bs = length (validators st)" and "i < length (validators st)"
  shows "sweep_slashed e ppi (st\<lparr>balances := bs\<rparr>) i =
    bindR (if v_slashed (validators st ! i) \<and> e = v_withdrawable_epoch (validators st ! i)
           then or_err (checked_mul ppi (v_effective_balance (validators st ! i) div EFFECTIVE_BALANCE_INCREMENT))
             (ArithmeticOverflow Arith_BalanceSum) else Inr 0)
      (\<lambda>q. Inr (st\<lparr>balances := bs[i := bs ! i - q]\<rparr>))"
proof -
  have "decrease_balance (st\<lparr>balances := bs\<rparr>) i = (\<lambda>q. Inr (st\<lparr>balances := bs[i := bs ! i - q]\<rparr>))"
    using assms by (simp add: fun_eq_iff decrease_balance_def balance_mut_def validator_def get_at_def saturating_sub_def
        idx_def)
  then show ?thesis using assms by (auto simp: sweep_slashed_def Let_def idx_def)
qed

lemma sweep_loop:
  assumes "foldR (sweep_slashed e ppi) (st\<lparr>balances := bs\<rparr>) is = Inr st'"
    and "length bs = length (validators st)" and "distinct is" and "\<forall>i \<in> set is. i < length (validators st)"
  shows "st' = st\<lparr>balances := map (\<lambda>i. bs ! i -
      (if i \<in> set is \<and> v_slashed (validators st ! i) \<and> e = v_withdrawable_epoch (validators st ! i)
       then ppi * (v_effective_balance (validators st ! i) div EFFECTIVE_BALANCE_INCREMENT) else 0))
      [0..<length (validators st)]\<rparr>"
  using assms
proof (induction "is" arbitrary: bs)
  case Nil
  then have "map (\<lambda>i. bs ! i) [0..<length (validators st)] = bs" by (metis map_nth)
  then show ?case using Nil by simp
next
  case (Cons i "is")
  let ?q = "if v_slashed (validators st ! i) \<and> e = v_withdrawable_epoch (validators st ! i)
      then ppi * (v_effective_balance (validators st ! i) div EFFECTIVE_BALANCE_INCREMENT) else 0"
  have i: "i < length (validators st)" "i \<notin> set is" using Cons.prems(3,4) by simp_all
  have "foldR (sweep_slashed e ppi) (st\<lparr>balances := bs[i := bs ! i - ?q]\<rparr>) is = Inr st'"
    using Cons.prems(1) by (auto simp: sweep_slashed_eq [OF Cons.prems(2) i(1)] res_simps split: if_splits)
  from Cons.IH [OF this] Cons.prems i show ?case
    by (auto simp: nth_list_update intro!: arg_cong [where f = "\<lambda>bs. st\<lparr>balances := bs\<rparr>"])
qed

text \<open>What the sweep takes from a validator, when \<open>tot\<close> is the total active balance.\<close>

definition slashing_penalty :: "preset \<Rightarrow> BeaconState \<Rightarrow> nat \<Rightarrow> nat \<Rightarrow> nat" where
  "slashing_penalty p st tot i =
     (let v = validators st ! i in
      if v_slashed v \<and> v_withdrawable_epoch v = get_current_epoch p st + EPOCHS_PER_SLASHINGS_VECTOR p div 2
      then min (PROPORTIONAL_SLASHING_MULTIPLIER * sum_list (slashings st)) tot div (tot div EFFECTIVE_BALANCE_INCREMENT)
        * (v_effective_balance v div EFFECTIVE_BALANCE_INCREMENT)
      else 0)"

text \<open>
  C14: the slashing sweep takes from each slashed validator that is half a slashings window before its
  withdrawable epoch the penalty per increment times its increments, at most its balance, where the
  penalty per increment is three times the recently slashed stake, at most the total, spread over the
  increments of the total; it changes nothing else.
\<close>

theorem process_slashings_correct:
  assumes ok: "state_ok p st" and run: "process_slashings p st = Inr st'"
    and tot: "get_total_active_balance p st = Inr tot"
  shows "st' = st\<lparr>balances := map (\<lambda>i. balances st ! i - slashing_penalty p st tot i) [0..<length (validators st)]\<rparr>"
proof -
  let ?ppi = "min (sum_list (slashings st) * PROPORTIONAL_SLASHING_MULTIPLIER) tot div (tot div EFFECTIVE_BALANCE_INCREMENT)"
  have "foldR (sweep_slashed (epoch_of p (slot st) + EPOCHS_PER_SLASHINGS_VECTOR p div 2) ?ppi)
      (st\<lparr>balances := balances st\<rparr>) [0..<length (validators st)] = Inr st'"
    using run tot by (auto simp: process_slashings_def Let_def res_simps dest!: slashing_sum)
  from sweep_loop [OF this] state_ok_aligned(1) [OF ok] show ?thesis
    by (auto simp: slashing_penalty_def Let_def get_current_epoch_def mult.commute
        intro!: arg_cong [where f = "\<lambda>bs. st\<lparr>balances := bs\<rparr>"])
qed

section \<open>Concrete epochs\<close>

lemma ex_inactivity_run:
  "\<exists>st'. process_inactivity_updates Minimal (ex_state Minimal) = Inr st'"
proof -
  have "get_unslashed_participating_indices Minimal (ex_state Minimal) 1 4 = Inr [0, 1]"
    using participating_eq [OF ex_state_ok, of 1 4 Minimal] unfolding ex_length ex_epochs ex_participates by simp
  moreover have "get_eligible_validator_indices Minimal (ex_state Minimal) = Inr [0, 1, 2, 3]"
    by (simp add: get_eligible_validator_indices_def ex_epochs ex_active u64_max_def checked_add_def)
  ultimately show ?thesis
    by (simp add: process_inactivity_updates_def ex_epochs epoch_of_def SLOTS_PER_EPOCH_def GENESIS_EPOCH_def
        TIMELY_TARGET_FLAG_INDEX_def is_in_inactivity_leak_def get_finality_delay_def u64_defs u64_max_def
        update_score_eq INACTIVITY_SCORE_BIAS_def)
qed

theorem inactivity_updates_correct_witness:
  "\<exists>st'. process_inactivity_updates Minimal (ex_state Minimal) = Inr st'
     \<and> inactivity_scores st' ! 2 = new_score False False 5"
proof -
  obtain st' where run: "process_inactivity_updates Minimal (ex_state Minimal) = Inr st'"
    using ex_inactivity_run ..
  have e: "get_current_epoch Minimal (ex_state Minimal) \<noteq> GENESIS_EPOCH" by (simp add: ex_epochs GENESIS_EPOCH_def)
  have "\<not> participates Minimal (ex_state Minimal) (Suc 0) 4 2"
    by (simp add: participates_def participation_at_def ex_epochs)
  then have "\<not> participates Minimal (ex_state Minimal) (Suc 0) 4 (Suc (Suc 0))" by (simp add: numeral_2_eq_2)
  then show ?thesis
    using inactivity_updates_correct [OF ex_state_ok run e] run
    by (auto simp: ex_epochs ex_eligible is_in_inactivity_leak_def get_finality_delay_def u64_defs
        MIN_EPOCHS_TO_INACTIVITY_PENALTY_def TIMELY_TARGET_FLAG_INDEX_def)
qed

text \<open>The example state with its slashed validator in the middle of the slashings window.\<close>

definition ex_slashed :: BeaconState where
  "ex_slashed = (ex_state Minimal)\<lparr>
     validators := (validators (ex_state Minimal))[3 := (ex_validator 3)\<lparr>v_withdrawable_epoch := 37\<rparr>],
     slashings := (slashings (ex_state Minimal))[0 := 32000000000]\<rparr>"

lemma ex_slashed_ok: "state_ok Minimal ex_slashed"
  unfolding ex_slashed_def
proof (intro state_ok_upd_slashings state_ok_upd_validators)
  show "\<forall>y \<in> set ((validators (ex_state Minimal))[3 := (ex_validator 3)\<lparr>v_withdrawable_epoch := 37\<rparr>]). Validator_ok y"
    by (simp add: Validator_ok_iff ex_validator_def ex_pubkey_def u64_max_def FAR_FUTURE_EPOCH_def)
  show "\<forall>y \<in> set ((slashings (ex_state Minimal))[0 := 32000000000]). y \<le> u64_max"
    by (rule set_update_all) (simp_all add: u64_max_def)
qed (simp_all add: ex_state_ok)

lemma ex_slashed_total: "get_total_active_balance Minimal ex_slashed = Inr 128000000000"
  by (simp add: ex_slashed_def get_total_active_balance_def get_active_validator_indices_def get_current_epoch_def
      is_active_validator_def epoch_of_def get_total_balance_eq_Inr const_defs u64_max_def)

theorem process_slashings_correct_witness:
  "\<exists>st'. process_slashings Minimal ex_slashed = Inr st' \<and> balances st' ! 3 = 8000000000 \<and> balances st' ! 0 = 32000000000"
proof -
  have v: "v_slashed (validators ex_slashed ! 3)" "v_withdrawable_epoch (validators ex_slashed ! 3) = 37"
    "v_effective_balance (validators ex_slashed ! 3) = 32000000000" "\<not> v_slashed (validators ex_slashed ! 0)"
    by (simp_all add: ex_slashed_def)
  have sl: "sum_list (slashings ex_slashed) = 32000000000"
    by (simp add: ex_slashed_def sum_list_update sum_list_replicate EPOCHS_PER_SLASHINGS_VECTOR_def)
  have loop: "\<exists>s. foldR (sweep_slashed 37 750000000) ex_slashed [0, 1, 2, 3] = Inr s"
    by (simp add: ex_slashed_def sweep_slashed_def idx_def decrease_balance_def balance_mut_def validator_def get_at_def
        checked_mul_def u64_max_def EFFECTIVE_BALANCE_INCREMENT_def)
  have "length (validators ex_slashed) = 4" "epoch_of Minimal (slot ex_slashed) = 5"
    by (simp_all add: ex_slashed_def epoch_of_def SLOTS_PER_EPOCH_def)
  then have "\<exists>st'. process_slashings Minimal ex_slashed = Inr st'"
    using loop slashing_sum_eq [of 0 "slashings ex_slashed" "ArithmeticOverflow Arith_BalanceSum"]
    unfolding process_slashings_def ex_slashed_total sl
    by (simp add: upt_4 u_div_def u64_max_def checked_mul_def checked_add_def [of 5]
        PROPORTIONAL_SLASHING_MULTIPLIER_def EFFECTIVE_BALANCE_INCREMENT_def EPOCHS_PER_SLASHINGS_VECTOR_def)
  then obtain st' where run: "process_slashings Minimal ex_slashed = Inr st'" ..
  show ?thesis
    using process_slashings_correct [OF ex_slashed_ok run ex_slashed_total] run v sl
    by (simp add: slashing_penalty_def ex_slashed_def get_current_epoch_def epoch_of_def const_defs)
qed

end
