(* ===== verification/Deposits.thy ===== *)
theory Deposits
  imports Accounting
begin

text \<open>
  Deposits (\<open>state_transition/operations/deposits.rs\<close>): the validator and builder registries and the
  signature checks of new entries. The struct \<open>DepositMessage\<close> of that file has the fields and SSZ
  impls of the container of the same name.
\<close>

section \<open>Definitions\<close>

definition add_validator_to_registry :: "BeaconState \<Rightarrow> BLSPubkey \<Rightarrow> Bytes32 \<Rightarrow> Gwei \<Rightarrow> BeaconState tres" where
  "add_validator_to_registry st pubkey withdrawal_credentials amount =
     bindR (reject (length (validators st) \<ge> VALIDATOR_REGISTRY_LIMIT) (BoundedListFull BL_Validators)) (\<lambda>_.
     bindR (reject (length (balances st) \<ge> VALIDATOR_REGISTRY_LIMIT) (BoundedListFull BL_Balances)) (\<lambda>_.
     bindR (reject (length (previous_epoch_participation st) \<ge> VALIDATOR_REGISTRY_LIMIT)
              (BoundedListFull BL_PreviousEpochParticipation)) (\<lambda>_.
     bindR (reject (length (current_epoch_participation st) \<ge> VALIDATOR_REGISTRY_LIMIT)
              (BoundedListFull BL_CurrentEpochParticipation)) (\<lambda>_.
     bindR (reject (length (inactivity_scores st) \<ge> VALIDATOR_REGISTRY_LIMIT)
              (BoundedListFull BL_InactivityScores)) (\<lambda>_.
     bindR (idx withdrawal_credentials 0) (\<lambda>prefix.
     let compounding = (prefix = COMPOUNDING_WITHDRAWAL_PREFIX);
         max_balance = (if compounding then MAX_EFFECTIVE_BALANCE else MIN_ACTIVATION_BALANCE);
         increment = EFFECTIVE_BALANCE_INCREMENT
     in
     bindR (u_sub amount (amount mod increment)) (\<lambda>rounded.
     let effective = min rounded max_balance;
         v = \<lparr>v_pubkey = pubkey, v_withdrawal_credentials = withdrawal_credentials,
              v_effective_balance = effective, v_slashed = False,
              v_activation_eligibility_epoch = FAR_FUTURE_EPOCH, v_activation_epoch = FAR_FUTURE_EPOCH,
              v_exit_epoch = FAR_FUTURE_EPOCH, v_withdrawable_epoch = FAR_FUTURE_EPOCH\<rparr>
     in
     bindR (or_err (list_push VALIDATOR_REGISTRY_LIMIT (validators st) v) (BoundedListFull BL_Validators)) (\<lambda>vs.
     bindR (or_err (list_push VALIDATOR_REGISTRY_LIMIT (balances st) amount) (BoundedListFull BL_Balances)) (\<lambda>bs.
     bindR (or_err (list_push VALIDATOR_REGISTRY_LIMIT (previous_epoch_participation st) ParticipationFlags_NONE)
              (BoundedListFull BL_PreviousEpochParticipation)) (\<lambda>pp.
     bindR (or_err (list_push VALIDATOR_REGISTRY_LIMIT (current_epoch_participation st) ParticipationFlags_NONE)
              (BoundedListFull BL_CurrentEpochParticipation)) (\<lambda>cp.
     bindR (or_err (list_push VALIDATOR_REGISTRY_LIMIT (inactivity_scores st) 0)
              (BoundedListFull BL_InactivityScores)) (\<lambda>sc.
     Inr (st\<lparr>validators := vs, balances := bs, previous_epoch_participation := pp,
            current_epoch_participation := cp, inactivity_scores := sc\<rparr>)))))))))))))"

text \<open>The loop of \<open>get_index_for_new_builder\<close> returns the first match.\<close>

definition get_index_for_new_builder :: "preset \<Rightarrow> BeaconState \<Rightarrow> BuilderIndex" where
  "get_index_for_new_builder p st =
     (let current_epoch = epoch_of p (slot st) in
      case position (\<lambda>b. bld_withdrawable_epoch b \<le> current_epoch \<and> bld_balance b = 0) (builders st) of
        Some i \<Rightarrow> i
      | None \<Rightarrow> length (builders st))"

definition add_builder_to_registry ::
    "preset \<Rightarrow> BeaconState \<Rightarrow> BLSPubkey \<Rightarrow> byte \<Rightarrow> ExecutionAddress \<Rightarrow> Gwei \<Rightarrow> Slot \<Rightarrow> BeaconState tres" where
  "add_builder_to_registry p st pubkey version execution_address amount sl =
     (let b = \<lparr>bld_pubkey = pubkey, bld_version = version, bld_execution_address = execution_address,
               bld_balance = amount, bld_deposit_epoch = epoch_of p sl, bld_withdrawable_epoch = FAR_FUTURE_EPOCH\<rparr>;
          i = get_index_for_new_builder p st
      in
      if i < length (builders st) then
        bindR (idx_set (builders st) i b) (\<lambda>bs. Inr (st\<lparr>builders := bs\<rparr>))
      else
        bindR (reject (length (builders st) \<ge> BUILDER_REGISTRY_LIMIT) (BoundedListFull BL_Builders)) (\<lambda>_.
        bindR (or_err (list_push BUILDER_REGISTRY_LIMIT (builders st) b) (BoundedListFull BL_Builders)) (\<lambda>bs.
        Inr (st\<lparr>builders := bs\<rparr>))))"

text \<open>A failed signature check is the answer no; other errors are passed on.\<close>

definition signature_verdict :: "unit tres \<Rightarrow> bool tres" where
  "signature_verdict r =
     (case r of Inr _ \<Rightarrow> Inr True
      | Inl (Err (SignatureErr _)) \<Rightarrow> Inr False
      | Inl e \<Rightarrow> Inl e)"

definition is_valid_builder_deposit_signature :: "('g1, 'g2, 'gt) ext \<Rightarrow> preset \<Rightarrow> BuilderDepositRequest \<Rightarrow> bool tres" where
  "is_valid_builder_deposit_signature X p request =
     bindR (compute_domain X DOMAIN_BUILDER_DEPOSIT (GENESIS_FORK_VERSION p) Root_ZERO) (\<lambda>dmn.
     let msg = \<lparr>dm_pubkey = bdr_pubkey request, dm_withdrawal_credentials = bdr_withdrawal_credentials request,
                dm_amount = bdr_amount request\<rparr>
     in
     bindR (compute_signing_root X DepositMessage_ty (DepositMessage_val msg) dmn Mer_DepositMessage) (\<lambda>signing_root.
     signature_verdict (verify_signature X (bdr_pubkey request) signing_root (bdr_signature request) Sig_Deposit)))"

definition verify_deposit_signature ::
    "('g1, 'g2, 'gt) ext \<Rightarrow> preset \<Rightarrow> BLSPubkey \<Rightarrow> Bytes32 \<Rightarrow> Gwei \<Rightarrow> BLSSignature \<Rightarrow> unit tres" where
  "verify_deposit_signature X p pubkey withdrawal_credentials amount signature =
     bindR (compute_domain X DOMAIN_DEPOSIT (GENESIS_FORK_VERSION p) Root_ZERO) (\<lambda>dmn.
     let msg = \<lparr>dm_pubkey = pubkey, dm_withdrawal_credentials = withdrawal_credentials, dm_amount = amount\<rparr> in
     bindR (compute_signing_root X DepositMessage_ty (DepositMessage_val msg) dmn Mer_DepositMessage) (\<lambda>signing_root.
     verify_signature X pubkey signing_root signature Sig_Deposit))"

definition is_valid_deposit_signature ::
    "('g1, 'g2, 'gt) ext \<Rightarrow> preset \<Rightarrow> BLSPubkey \<Rightarrow> Bytes32 \<Rightarrow> Gwei \<Rightarrow> BLSSignature \<Rightarrow> bool tres" where
  "is_valid_deposit_signature X p pubkey withdrawal_credentials amount signature =
     signature_verdict (verify_deposit_signature X p pubkey withdrawal_credentials amount signature)"

definition process_builder_deposit_request ::
    "('g1, 'g2, 'gt) ext \<Rightarrow> preset \<Rightarrow> BeaconState \<Rightarrow> BuilderDepositRequest \<Rightarrow> BeaconState tres" where
  "process_builder_deposit_request X p st request =
     (case position (\<lambda>b. bld_pubkey b = bdr_pubkey request) (builders st) of
        None \<Rightarrow>
          bindR (is_valid_builder_deposit_signature X p request) (\<lambda>valid.
          if valid then
            bindR (idx (bdr_withdrawal_credentials request) 0) (\<lambda>version.
            add_builder_to_registry p st (bdr_pubkey request) version
              (drop 12 (bdr_withdrawal_credentials request)) (bdr_amount request) (slot st))
          else Inr st)
      | Some i \<Rightarrow>
          let current_epoch = epoch_of p (slot st) in
          bindR (idx (builders st) i) (\<lambda>b.
          bindR (or_err (checked_add (bld_balance b) (bdr_amount request)) BalanceOverflow) (\<lambda>balance.
          bindR (if bld_withdrawable_epoch b \<noteq> FAR_FUTURE_EPOCH then
                   or_err (checked_add current_epoch (MIN_BUILDER_WITHDRAWABILITY_DELAY p)) (ArithmeticOverflow Arith_Epoch)
                 else Inr (bld_withdrawable_epoch b)) (\<lambda>withdrawable_epoch.
          bindR (idx_set (builders st) i (b\<lparr>bld_balance := balance, bld_withdrawable_epoch := withdrawable_epoch\<rparr>)) (\<lambda>bs.
          Inr (st\<lparr>builders := bs\<rparr>))))))"

section \<open>Signing roots exist\<close>

lemma compute_domain_total:
  assumes "ext_ok X" and "length dt = 4" and "length v = 4" and "length g = 32"
  shows "\<exists>d. compute_domain X dt v g = Inr d \<and> length d = 32"
proof -
  have "well_typed ForkData_ty (ForkData_val \<lparr>fd_current_version = v, fd_genesis_validators_root = g\<rparr>)"
    using assms(3,4) by (simp add: ForkData_ok_iff flip: ForkData_ok_def)
  moreover have "ForkData_ty \<in> set (container_types Mainnet)" by (simp add: container_types_def)
  ultimately obtain r where "compute_fork_data_root X v g = Inr r" "length r = 32"
    using tree_root_of_total [OF assms(1)] container_ty_ok unfolding compute_fork_data_root_def by meson
  then show ?thesis using assms(2) by (simp add: compute_domain_def)
qed

lemma compute_signing_root_total:
  assumes "ext_ok X" and "t \<in> set (container_types p)" and "well_typed t v" and "length d = 32"
  shows "\<exists>r. compute_signing_root X t v d e = Inr r \<and> length r = 32"
proof -
  obtain o1 where "tree_root_of X t v e = Inr o1" "length o1 = 32"
    using tree_root_of_total [OF assms(1) _ _ assms(3)] container_ty_ok [OF assms(2)] by blast
  then show ?thesis
    using assms(1,4) by (simp add: compute_signing_root_def signing_data_root_eq ext_ok_def)
qed

lemma ex_verify_signature [simp]: "verify_signature ex_ext pk r s e = Inr ()" if "pk \<noteq> G1_POINT_AT_INFINITY"
  using that by (simp add: verify_signature_def parse_pubkey_def parse_signature_def hash_to_g2_def verify_pairing_def ex_ext_def)

section \<open>No panics\<close>

lemma signature_verdict_safe [safe_simps]:
  "safe (signature_verdict r) Q = (case r of Inr _ \<Rightarrow> Q True | Inl (Err (SignatureErr _)) \<Rightarrow> Q False | Inl e \<Rightarrow> e \<noteq> Panic)"
  by (auto simp: signature_verdict_def split: sum.split failure.split TransitionError.split)

lemma safe_verdict: "safe r (\<lambda>_. True) \<Longrightarrow> safe (signature_verdict r) (\<lambda>_. True)"
  by (auto simp: signature_verdict_safe split: sum.split failure.split TransitionError.split)

lemma builder_deposit_signature_safe: "safe (is_valid_builder_deposit_signature X p r) (\<lambda>_. True)"
  by (auto simp: is_valid_builder_deposit_signature_def safe_bind signing_safe Let_def
      intro: safe_verdict verify_signature_safe)

lemma deposit_signature_safe: "safe (is_valid_deposit_signature X p pk wc a s) (\<lambda>_. True)"
  by (auto simp: is_valid_deposit_signature_def verify_deposit_signature_def safe_bind signing_safe Let_def
      intro!: safe_verdict verify_signature_safe)

text \<open>A successful registration, in one equation.\<close>

definition new_validator :: "BLSPubkey \<Rightarrow> Bytes32 \<Rightarrow> Gwei \<Rightarrow> Validator" where
  "new_validator pubkey wc amount =
     \<lparr>v_pubkey = pubkey, v_withdrawal_credentials = wc,
      v_effective_balance = min (amount - amount mod EFFECTIVE_BALANCE_INCREMENT)
        (if wc ! 0 = COMPOUNDING_WITHDRAWAL_PREFIX then MAX_EFFECTIVE_BALANCE else MIN_ACTIVATION_BALANCE),
      v_slashed = False, v_activation_eligibility_epoch = FAR_FUTURE_EPOCH, v_activation_epoch = FAR_FUTURE_EPOCH,
      v_exit_epoch = FAR_FUTURE_EPOCH, v_withdrawable_epoch = FAR_FUTURE_EPOCH\<rparr>"

definition registered :: "BeaconState \<Rightarrow> BLSPubkey \<Rightarrow> Bytes32 \<Rightarrow> Gwei \<Rightarrow> BeaconState" where
  "registered st pubkey wc amount =
     st\<lparr>validators := validators st @ [new_validator pubkey wc amount], balances := balances st @ [amount],
        previous_epoch_participation := previous_epoch_participation st @ [ParticipationFlags_NONE],
        current_epoch_participation := current_epoch_participation st @ [ParticipationFlags_NONE],
        inactivity_scores := inactivity_scores st @ [0]\<rparr>"

lemma add_validator_eq:
  assumes "state_ok p st" and "length wc = 32"
  shows "add_validator_to_registry st pubkey wc amount =
    (if length (validators st) \<ge> VALIDATOR_REGISTRY_LIMIT then fail (BoundedListFull BL_Validators)
     else Inr (registered st pubkey wc amount))"
  using assms(2) state_ok_aligned [OF assms(1)]
  by (simp add: add_validator_to_registry_def Let_def idx_def u_sub_def list_push_def registered_def new_validator_def
      not_le)

lemma registered_ok:
  assumes ok: "state_ok p st" and "length pubkey = 48" and "length wc = 32" and "amount \<le> u64_max"
    and "length (validators st) < VALIDATOR_REGISTRY_LIMIT"
  shows "state_ok p (registered st pubkey wc amount)"
proof -
  have "Validator_ok (new_validator pubkey wc amount)"
    using assms(2-4) by (auto simp: Validator_ok_iff new_validator_def FAR_FUTURE_EPOCH_def u64_max_def min_def)
  then show ?thesis using assms by (auto simp: state_ok_iff registered_def)
qed

lemma add_validator_safe:
  assumes "state_ok p st" and "length pubkey = 48" and "length wc = 32" and "amount \<le> u64_max"
  shows "safe (add_validator_to_registry st pubkey wc amount)
    (\<lambda>st'. state_ok p st' \<and> st' = registered st pubkey wc amount)"
  using registered_ok [OF assms] by (simp add: add_validator_eq [OF assms(1,3)])

lemma chain_frame_registered [simp]: "chain_frame (registered st pk wc a) = chain_frame st"
  by (simp add: registered_def)

section \<open>Builders\<close>

lemma new_builder_index:
  assumes "get_index_for_new_builder p st < length (builders st)"
  shows "bld_withdrawable_epoch (builders st ! get_index_for_new_builder p st) \<le> epoch_of p (slot st)
    \<and> bld_balance (builders st ! get_index_for_new_builder p st) = 0"
proof (cases "position (\<lambda>b. bld_withdrawable_epoch b \<le> epoch_of p (slot st) \<and> bld_balance b = 0) (builders st)")
  case None
  then show ?thesis using assms by (simp add: get_index_for_new_builder_def)
next
  case (Some i)
  then show ?thesis using Some [unfolded position_eq_Some] by (simp add: get_index_for_new_builder_def)
qed

lemma add_builder_eq_Inr:
  assumes "add_builder_to_registry p st pubkey version addr amount sl = Inr st'"
  shows "\<exists>b. bld_balance b = amount \<and> st' = st\<lparr>builders :=
    if get_index_for_new_builder p st < length (builders st) then (builders st)[get_index_for_new_builder p st := b]
    else builders st @ [b]\<rparr>"
  by (rule exI [of _ "\<lparr>bld_pubkey = pubkey, bld_version = version, bld_execution_address = addr, bld_balance = amount,
      bld_deposit_epoch = epoch_of p sl, bld_withdrawable_epoch = FAR_FUTURE_EPOCH\<rparr>"])
    (use assms in \<open>auto simp: add_builder_to_registry_def Let_def res_simps split: if_splits\<close>)

lemma add_builder_safe:
  assumes ok: "state_ok p st" and "length pubkey = 48" and "length addr = 20" and "amount \<le> u64_max" and "sl \<le> u64_max"
  shows "safe (add_builder_to_registry p st pubkey version addr amount sl)
    (\<lambda>st'. state_ok p st' \<and> chain_frame st' = chain_frame st)"
proof -
  let ?b = "\<lparr>bld_pubkey = pubkey, bld_version = version, bld_execution_address = addr, bld_balance = amount,
      bld_deposit_epoch = epoch_of p sl, bld_withdrawable_epoch = FAR_FUTURE_EPOCH\<rparr>"
  have b: "Builder_ok ?b"
    using assms epoch_of_le [of p sl] by (simp add: Builder_ok_iff FAR_FUTURE_EPOCH_def u64_max_def)
  have "state_ok p (st\<lparr>builders := (builders st)[i := ?b]\<rparr>)" for i
    by (rule state_ok_upd_builders [OF ok]) (simp_all add: state_ok_builders(1) [OF ok] set_update_all [OF state_ok_builders(2) [OF ok] b])
  moreover have "state_ok p (st\<lparr>builders := builders st @ [?b]\<rparr>)" if "length (builders st) < BUILDER_REGISTRY_LIMIT"
    by (rule state_ok_upd_builders [OF ok]) (use that b state_ok_builders(2) [OF ok] in auto)
  ultimately show ?thesis
    by (simp add: add_builder_to_registry_def Let_def safe_simps res_simps)
qed

lemma builder_deposit_safe:
  assumes ok: "state_ok p st" and r: "BuilderDepositRequest_ok r"
  shows "safe (process_builder_deposit_request X p st r) (\<lambda>st'. state_ok p st' \<and> chain_frame st' = chain_frame st)"
proof (cases "position (\<lambda>b. bld_pubkey b = bdr_pubkey r) (builders st)")
  case None
  have "safe (add_builder_to_registry p st (bdr_pubkey r) version (drop 12 (bdr_withdrawal_credentials r)) (bdr_amount r) (slot st))
      (\<lambda>st'. state_ok p st' \<and> chain_frame st' = chain_frame st)" for version
    using r by (intro add_builder_safe [OF ok]) (simp_all add: BuilderDepositRequest_ok_iff state_ok_slot [OF ok])
  moreover have "0 < length (bdr_withdrawal_credentials r)" using r by (simp add: BuilderDepositRequest_ok_iff)
  ultimately show ?thesis
    using None ok
    by (auto simp: process_builder_deposit_request_def safe_bind safe_idx intro!: safe_mono [OF builder_deposit_signature_safe])
next
  case (Some i)
  then have i: "i < length (builders st)" by (simp add: position_eq_Some)
  then have "Builder_ok (builders st ! i)" using state_ok_builders(2) [OF ok] nth_mem by blast
  then have "Builder_ok ((builders st ! i)\<lparr>bld_balance := a, bld_withdrawable_epoch := e\<rparr>)"
    if "a \<le> u64_max" "e \<le> u64_max" for a e
    using that by (simp add: Builder_ok_iff)
  then have "state_ok p (st\<lparr>builders := (builders st)[i := (builders st ! i)\<lparr>bld_balance := a, bld_withdrawable_epoch := e\<rparr>]\<rparr>)"
    if "a \<le> u64_max" "e \<le> u64_max" for a e
    using that by (intro state_ok_upd_builders [OF ok] set_update_all [OF state_ok_builders(2) [OF ok]])
      (simp_all add: state_ok_builders(1) [OF ok])
  moreover have "FAR_FUTURE_EPOCH \<le> u64_max" by (simp add: FAR_FUTURE_EPOCH_def u64_max_def)
  ultimately show ?thesis
    using i by (simp add: process_builder_deposit_request_def Some Let_def safe_simps res_simps)
qed

text \<open>
  C15: a builder deposit never costs any builder its stake. When it is applied the total of all builder
  balances grows by exactly the deposited amount; it is dropped only for a key without a builder and
  with an invalid signature. Every record other than the depositor's stays as it was, except that a new
  builder may take the place of one that has exited with nothing left.
\<close>

theorem builder_deposit_conserves:
  assumes run: "process_builder_deposit_request X p st r = Inr st'"
  shows "(sum_list (map bld_balance (builders st')) = sum_list (map bld_balance (builders st)) + bdr_amount r
      \<or> st' = st \<and> (\<forall>b \<in> set (builders st). bld_pubkey b \<noteq> bdr_pubkey r)
        \<and> is_valid_builder_deposit_signature X p r = Inr False)
    \<and> (\<forall>i < length (builders st). builders st' ! i = builders st ! i
        \<or> bld_pubkey (builders st ! i) = bdr_pubkey r
        \<or> bld_withdrawable_epoch (builders st ! i) \<le> epoch_of p (slot st) \<and> bld_balance (builders st ! i) = 0)
    \<and> st' = st\<lparr>builders := builders st'\<rparr>"
proof (cases "position (\<lambda>b. bld_pubkey b = bdr_pubkey r) (builders st)")
  case (Some i)
  then have i: "i < length (builders st)" "bld_pubkey (builders st ! i) = bdr_pubkey r"
    by (simp_all add: position_eq_Some)
  obtain e where st': "st' = st\<lparr>builders := (builders st)[i := (builders st ! i)\<lparr>
      bld_balance := bld_balance (builders st ! i) + bdr_amount r, bld_withdrawable_epoch := e\<rparr>]\<rparr>"
    using run by (auto simp: process_builder_deposit_request_def Some Let_def res_simps)
  have "bld_balance (builders st ! i) \<le> sum_list (map bld_balance (builders st))"
    using elem_le_sum_list [of i "map bld_balance (builders st)"] i(1) by simp
  then show ?thesis using i by (auto simp: st' map_update sum_list_update nth_list_update)
next
  case None
  then have none: "\<forall>b \<in> set (builders st). bld_pubkey b \<noteq> bdr_pubkey r" by (simp add: position_eq_None)
  obtain valid where valid: "is_valid_builder_deposit_signature X p r = Inr valid"
    using run by (auto simp: process_builder_deposit_request_def None bindR_eq_Inr)
  show ?thesis
  proof (cases valid)
    case False
    then have "st' = st" using run by (simp add: process_builder_deposit_request_def None valid)
    then show ?thesis using none valid False by simp
  next
    case True
    let ?i = "get_index_for_new_builder p st"
    obtain b where b: "bld_balance b = bdr_amount r" and st': "st' = st\<lparr>builders :=
        if ?i < length (builders st) then (builders st)[?i := b] else builders st @ [b]\<rparr>"
      using run True by (auto simp: process_builder_deposit_request_def None valid bindR_eq_Inr dest!: add_builder_eq_Inr)
    show ?thesis
    proof (cases "?i < length (builders st)")
      case True
      then show ?thesis using new_builder_index [OF True] b by (auto simp: st' map_update sum_list_update nth_list_update)
    next
      case False
      then show ?thesis using b by (simp add: st' nth_append)
    qed
  qed
qed

theorem builder_deposit_conserves_witness:
  "\<exists>st'. process_builder_deposit_request ex_ext Minimal (ex_state Minimal)
       \<lparr>bdr_pubkey = ex_pubkey 9, bdr_withdrawal_credentials = replicate 32 3, bdr_amount = 7, bdr_signature = replicate 96 0\<rparr> = Inr st'
     \<and> (sum_list (map bld_balance (builders st')) = 7 \<or> st' = ex_state Minimal)"
proof -
  let ?r = "\<lparr>bdr_pubkey = ex_pubkey 9, bdr_withdrawal_credentials = replicate 32 3, bdr_amount = 7, bdr_signature = replicate 96 0\<rparr>"
  obtain st' where run: "process_builder_deposit_request ex_ext Minimal (ex_state Minimal) ?r = Inr st'"
  proof -
    have "DepositMessage_ok \<lparr>dm_pubkey = ex_pubkey 9, dm_withdrawal_credentials = replicate 32 3, dm_amount = 7\<rparr>"
      by (simp add: DepositMessage_ok_iff ex_pubkey_def u64_max_def)
    moreover have "DepositMessage_ty \<in> set (container_types Minimal)" by (simp add: container_types_def)
    moreover obtain d where d: "compute_domain ex_ext DOMAIN_BUILDER_DEPOSIT (GENESIS_FORK_VERSION Minimal) Root_ZERO = Inr d"
        "length d = 32"
      using compute_domain_total [OF ex_ext_ok] by (force simp: DOMAIN_BUILDER_DEPOSIT_def GENESIS_FORK_VERSION_def Root_ZERO_def)
    ultimately obtain sr where "compute_signing_root ex_ext DepositMessage_ty (DepositMessage_val
        \<lparr>dm_pubkey = ex_pubkey 9, dm_withdrawal_credentials = replicate 32 3, dm_amount = 7\<rparr>) d Mer_DepositMessage = Inr sr"
      using compute_signing_root_total [OF ex_ext_ok] by (metis DepositMessage_ok_def)
    moreover have "ex_pubkey 9 \<noteq> G1_POINT_AT_INFINITY" by (simp add: ex_pubkey_def G1_POINT_AT_INFINITY_def)
    ultimately have "is_valid_builder_deposit_signature ex_ext Minimal ?r = Inr True"
      using d by (simp add: is_valid_builder_deposit_signature_def signature_verdict_def)
    then show ?thesis
      by (intro that) (simp add: process_builder_deposit_request_def add_builder_to_registry_def get_index_for_new_builder_def
          idx_def list_push_def BUILDER_REGISTRY_LIMIT_def)
  qed
  show ?thesis using builder_deposit_conserves [OF run] run by auto
qed

end
