(* ===== verification/Registry.thy ===== *)
theory Registry
  imports Deposits
begin

text \<open>
  Registry processing at an epoch boundary (\<open>state_transition/epoch/registry.rs\<close>): activations and
  ejections, the deposit queue, the consolidation queue and effective balances.
\<close>

section \<open>Definitions\<close>

definition checked_epoch_add :: "Epoch \<Rightarrow> u64 \<Rightarrow> Epoch tres" where
  "checked_epoch_add epoch delta = or_err (checked_add epoch delta) (ArithmeticOverflow Arith_Epoch)"

definition checked_start_slot :: "preset \<Rightarrow> Epoch \<Rightarrow> Slot tres" where
  "checked_start_slot p epoch = or_err (checked_mul epoch (SLOTS_PER_EPOCH p)) (ArithmeticOverflow Arith_Slot)"

text \<open>The bodies of the two loops over the registry in \<open>process_registry_updates\<close>.\<close>

definition mark_eligible :: "Epoch \<Rightarrow> BeaconState \<times> ValidatorIndex list \<Rightarrow> nat \<Rightarrow> (BeaconState \<times> ValidatorIndex list) tres" where
  "mark_eligible current = (\<lambda>(st, to_exit) i.
     bindR (idx (validators st) i) (\<lambda>v.
     bindR (if v_activation_eligibility_epoch v = FAR_FUTURE_EPOCH \<and> v_effective_balance v \<ge> MIN_ACTIVATION_BALANCE then
              bindR (idx_set (validators st) i (v\<lparr>v_activation_eligibility_epoch := saturating_add current 1\<rparr>)) (\<lambda>vs.
              Inr (st\<lparr>validators := vs\<rparr>))
            else Inr st) (\<lambda>st.
     bindR (idx (validators st) i) (\<lambda>v.
     Inr (st, if is_active_validator v current \<and> v_effective_balance v \<le> EJECTION_BALANCE then to_exit @ [i] else to_exit)))))"

definition activate_eligible :: "Epoch \<Rightarrow> Epoch \<Rightarrow> BeaconState \<Rightarrow> nat \<Rightarrow> BeaconState tres" where
  "activate_eligible activation_epoch finalized_epoch st i =
     bindR (idx (validators st) i) (\<lambda>v.
     if v_activation_epoch v = FAR_FUTURE_EPOCH \<and> v_activation_eligibility_epoch v \<le> finalized_epoch then
       bindR (idx_set (validators st) i (v\<lparr>v_activation_epoch := activation_epoch\<rparr>)) (\<lambda>vs.
       Inr (st\<lparr>validators := vs\<rparr>))
     else Inr st)"

definition process_registry_updates :: "preset \<Rightarrow> BeaconState \<Rightarrow> BeaconState tres" where
  "process_registry_updates p st =
     (let current = epoch_of p (slot st) in
      bindR (foldR (mark_eligible current) (st, []) [0..<length (validators st)]) (\<lambda>(st, to_exit).
      bindR (foldR (initiate_validator_exit p) st to_exit) (\<lambda>st.
      bindR (compute_activation_exit_epoch current) (\<lambda>activation_epoch.
      let finalized_epoch = cp_epoch (finalized_checkpoint st) in
      foldR (activate_eligible activation_epoch finalized_epoch) st [0..<length (validators st)]))))"

definition apply_pending_deposit :: "('g1, 'g2, 'gt) ext \<Rightarrow> preset \<Rightarrow> BeaconState \<Rightarrow> PendingDeposit \<Rightarrow> BeaconState tres" where
  "apply_pending_deposit X p st deposit =
     (case position (\<lambda>v. v_pubkey v = pd_pubkey deposit) (validators st) of
        Some i \<Rightarrow> increase_balance st i (pd_amount deposit)
      | None \<Rightarrow>
          bindR (is_valid_deposit_signature X p (pd_pubkey deposit) (pd_withdrawal_credentials deposit)
                   (pd_amount deposit) (pd_signature deposit)) (\<lambda>valid.
          if \<not> valid then Inr st
          else add_validator_to_registry st (pd_pubkey deposit) (pd_withdrawal_credentials deposit) (pd_amount deposit)))"

definition keep_pending_deposits :: "BeaconState \<Rightarrow> PendingDeposit list \<Rightarrow> BeaconState tres" where
  "keep_pending_deposits st kept =
     bindR (or_err (list_try_from PENDING_DEPOSITS_LIMIT kept) (BoundedListFull BL_PendingDeposits)) (\<lambda>q.
     Inr (st\<lparr>pending_deposits := q\<rparr>))"

text \<open>The loop variables of \<open>process_pending_deposits\<close>, and the loop with its \<open>break\<close>s.\<close>

record DepositLoop =
  dl_state :: BeaconState
  dl_processed_amount :: Gwei
  dl_next_deposit_index :: u64
  dl_deposits_to_postpone :: "PendingDeposit list"
  dl_is_churn_limit_reached :: bool

fun pending_deposit_loop ::
    "('g1, 'g2, 'gt) ext \<Rightarrow> preset \<Rightarrow> Epoch \<Rightarrow> Gwei \<Rightarrow> Slot \<Rightarrow> DepositLoop \<Rightarrow> PendingDeposit list \<Rightarrow> DepositLoop tres" where
  "pending_deposit_loop X p next_epoch available finalized_slot l [] = Inr l"
| "pending_deposit_loop X p next_epoch available finalized_slot l (deposit # rest) =
     (if pd_slot deposit > finalized_slot then Inr l
      else if dl_next_deposit_index l \<ge> MAX_PENDING_DEPOSITS_PER_EPOCH then Inr l
      else
      let found = List.find (\<lambda>v. v_pubkey v = pd_pubkey deposit) (validators (dl_state l));
          is_validator_exited = (case found of Some v \<Rightarrow> v_exit_epoch v < FAR_FUTURE_EPOCH | None \<Rightarrow> False);
          is_validator_withdrawn = (case found of Some v \<Rightarrow> v_withdrawable_epoch v < next_epoch | None \<Rightarrow> False);
          continue = (\<lambda>l.
            bindR (or_err (checked_add (dl_next_deposit_index l) 1) (ArithmeticOverflow Arith_BoundedListLength)) (\<lambda>n.
            pending_deposit_loop X p next_epoch available finalized_slot (l\<lparr>dl_next_deposit_index := n\<rparr>) rest))
      in
      if is_validator_withdrawn then
        bindR (apply_pending_deposit X p (dl_state l) deposit) (\<lambda>st. continue (l\<lparr>dl_state := st\<rparr>))
      else if is_validator_exited then
        continue (l\<lparr>dl_deposits_to_postpone := dl_deposits_to_postpone l @ [deposit]\<rparr>)
      else
        bindR (or_err (checked_add (dl_processed_amount l) (pd_amount deposit)) (ArithmeticOverflow Arith_Churn)) (\<lambda>next_processed_amount.
        if next_processed_amount > available then Inr (l\<lparr>dl_is_churn_limit_reached := True\<rparr>)
        else
          bindR (apply_pending_deposit X p (dl_state l) deposit) (\<lambda>st.
          continue (l\<lparr>dl_processed_amount := next_processed_amount, dl_state := st\<rparr>))))"

definition process_pending_deposits :: "('g1, 'g2, 'gt) ext \<Rightarrow> preset \<Rightarrow> BeaconState \<Rightarrow> BeaconState tres" where
  "process_pending_deposits X p st =
     bindR (checked_epoch_add (epoch_of p (slot st)) 1) (\<lambda>next_epoch.
     bindR (get_activation_churn_limit p st) (\<lambda>limit.
     bindR (or_err (checked_add (deposit_balance_to_consume st) limit) (ArithmeticOverflow Arith_Churn)) (\<lambda>available_for_processing.
     bindR (checked_start_slot p (cp_epoch (finalized_checkpoint st))) (\<lambda>finalized_slot.
     let queue = pending_deposits st in
     bindR (pending_deposit_loop X p next_epoch available_for_processing finalized_slot
              \<lparr>dl_state = st, dl_processed_amount = 0, dl_next_deposit_index = 0,
               dl_deposits_to_postpone = [], dl_is_churn_limit_reached = False\<rparr> queue) (\<lambda>l.
     let new_queue = drop (dl_next_deposit_index l) queue @ dl_deposits_to_postpone l in
     bindR (keep_pending_deposits (dl_state l) new_queue) (\<lambda>st.
     bindR (if dl_is_churn_limit_reached l then
              or_err (checked_sub available_for_processing (dl_processed_amount l)) (ArithmeticOverflow Arith_Churn)
            else Inr 0) (\<lambda>rest.
     Inr (st\<lparr>deposit_balance_to_consume := rest\<rparr>))))))))"

definition keep_pending_consolidations :: "preset \<Rightarrow> BeaconState \<Rightarrow> PendingConsolidation list \<Rightarrow> BeaconState tres" where
  "keep_pending_consolidations p st kept =
     bindR (or_err (list_try_from (PENDING_CONSOLIDATIONS_LIMIT p) kept) (BoundedListFull BL_PendingConsolidations)) (\<lambda>q.
     Inr (st\<lparr>pending_consolidations := q\<rparr>))"

text \<open>The loop of \<open>process_pending_consolidations\<close>: the state and the number of entries consumed.\<close>

fun consolidation_loop ::
    "Epoch \<Rightarrow> BeaconState \<times> usize \<Rightarrow> PendingConsolidation list \<Rightarrow> (BeaconState \<times> usize) tres" where
  "consolidation_loop next_epoch (st, consumed) [] = Inr (st, consumed)"
| "consolidation_loop next_epoch (st, consumed) (entry # rest) =
     bindR (validator st (pc_source_index entry)) (\<lambda>source.
     if v_slashed source then consolidation_loop next_epoch (st, consumed + 1) rest
     else if v_withdrawable_epoch source > next_epoch then Inr (st, consumed)
     else
       bindR (or_err (get_at (balances st) (pc_source_index entry))
                (InvariantErr (Inv_MissingBalance (pc_source_index entry)))) (\<lambda>source_balance.
       let source_effective_balance = min source_balance (v_effective_balance source) in
       bindR (decrease_balance st (pc_source_index entry) source_effective_balance) (\<lambda>st.
       bindR (increase_balance st (pc_target_index entry) source_effective_balance) (\<lambda>st.
       consolidation_loop next_epoch (st, consumed + 1) rest))))"

definition process_pending_consolidations :: "preset \<Rightarrow> BeaconState \<Rightarrow> BeaconState tres" where
  "process_pending_consolidations p st =
     bindR (checked_epoch_add (epoch_of p (slot st)) 1) (\<lambda>next_epoch.
     let queue = pending_consolidations st in
     bindR (consolidation_loop next_epoch (st, 0) queue) (\<lambda>(st, consumed).
     keep_pending_consolidations p st (drop consumed queue)))"

text \<open>The body of the loop of \<open>process_effective_balance_updates\<close>.\<close>

definition update_effective_balance :: "u64 \<Rightarrow> u64 \<Rightarrow> BeaconState \<Rightarrow> nat \<Rightarrow> BeaconState tres" where
  "update_effective_balance downward upward st i =
     bindR (or_err (get_at (balances st) i) (InvariantErr (Inv_MissingBalance i))) (\<lambda>balance.
     bindR (idx (validators st) i) (\<lambda>v.
     let max_balance = get_max_effective_balance v; eff = v_effective_balance v in
     bindR (or_err (checked_add balance downward) (ArithmeticOverflow Arith_BalanceSum)) (\<lambda>balance_plus_downward.
     bindR (or_err (checked_add eff upward) (ArithmeticOverflow Arith_BalanceSum)) (\<lambda>effective_plus_upward.
     if balance_plus_downward < eff \<or> effective_plus_upward < balance then
       bindR (u_sub balance (balance mod EFFECTIVE_BALANCE_INCREMENT)) (\<lambda>rounded.
       bindR (idx_set (validators st) i (v\<lparr>v_effective_balance := min rounded max_balance\<rparr>)) (\<lambda>vs.
       Inr (st\<lparr>validators := vs\<rparr>)))
     else Inr st))))"

definition process_effective_balance_updates :: "BeaconState \<Rightarrow> BeaconState tres" where
  "process_effective_balance_updates st =
     (let hysteresis_increment = EFFECTIVE_BALANCE_INCREMENT div max HYSTERESIS_QUOTIENT 1;
          downward = saturating_mul hysteresis_increment HYSTERESIS_DOWNWARD_MULTIPLIER;
          upward = saturating_mul hysteresis_increment HYSTERESIS_UPWARD_MULTIPLIER
      in foldR (update_effective_balance downward upward) st [0..<length (validators st)])"

section \<open>Loops that rewrite one list of the state\<close>

lemma state_list_loop:
  assumes "foldR f (u xs) is = Inr s" and "distinct is" and "\<forall>i \<in> set is. i < length xs"
    and step: "\<And>ys i. i < length ys \<Longrightarrow> length ys = length xs \<Longrightarrow>
      f (u ys) i = bindR (g i (ys ! i)) (\<lambda>y. Inr (u (ys[i := y])))"
  shows "\<exists>ys. s = u ys \<and> length ys = length xs \<and>
    (\<forall>i < length xs. if i \<in> set is then g i (xs ! i) = Inr (ys ! i) else ys ! i = xs ! i)"
  using assms
proof (induction "is" arbitrary: xs)
  case Nil
  then show ?case by auto
next
  case (Cons i "is")
  have i: "i \<notin> set is" "i < length xs" using Cons.prems(2,3) by simp_all
  have "f (u xs) i = bindR (g i (xs ! i)) (\<lambda>y. Inr (u (xs[i := y])))" using Cons.prems(4) i(2) by simp
  with Cons.prems(1) obtain y where y: "g i (xs ! i) = Inr y" and rest: "foldR f (u (xs[i := y])) is = Inr s"
    by (cases "g i (xs ! i)") simp_all
  have "\<exists>ys. s = u ys \<and> length ys = length (xs[i := y]) \<and> (\<forall>j < length (xs[i := y]).
      if j \<in> set is then g j (xs[i := y] ! j) = Inr (ys ! j) else ys ! j = xs[i := y] ! j)"
    using Cons.IH [OF rest] Cons.prems(2-4) by simp
  then obtain ys where ys: "s = u ys" "length ys = length xs" "\<And>j. j < length xs \<Longrightarrow>
      if j \<in> set is then g j (xs[i := y] ! j) = Inr (ys ! j) else ys ! j = xs[i := y] ! j"
    by auto
  have "if j \<in> set (i # is) then g j (xs ! j) = Inr (ys ! j) else ys ! j = xs ! j" if "j < length xs" for j
    using ys(3) [OF that] i y by (cases "j = i"; cases "j \<in> set is") simp_all
  then show ?case using ys(1,2) by blast
qed

lemma foldR_fixpoint: "(\<And>x. x \<in> set xs \<Longrightarrow> f s x = Inr s) \<Longrightarrow> foldR f s xs = Inr s"
  by (induction xs) simp_all

section \<open>Effective balances\<close>

abbreviation hysteresis_down :: nat where
  "hysteresis_down \<equiv> 250000000"

abbreviation hysteresis_up :: nat where
  "hysteresis_up \<equiv> 1250000000"

definition hysteresis :: "nat \<Rightarrow> Validator \<Rightarrow> Validator" where
  "hysteresis b v =
     (if b + hysteresis_down < v_effective_balance v \<or> v_effective_balance v + hysteresis_up < b
      then v\<lparr>v_effective_balance := min (b - b mod EFFECTIVE_BALANCE_INCREMENT) (get_max_effective_balance v)\<rparr>
      else v)"

lemma effective_updates_eq:
  "process_effective_balance_updates st =
     foldR (update_effective_balance hysteresis_down hysteresis_up) st [0..<length (validators st)]"
  by (simp add: process_effective_balance_updates_def saturating_mul_def const_defs u64_max_def)

lemma update_effective_eq:
  assumes "i < length vs" and "i < length (balances st)"
  shows "update_effective_balance d u (st\<lparr>validators := vs\<rparr>) i =
    bindR (if balances st ! i + d \<le> u64_max \<and> v_effective_balance (vs ! i) + u \<le> u64_max
           then Inr (if balances st ! i + d < v_effective_balance (vs ! i) \<or> v_effective_balance (vs ! i) + u < balances st ! i
             then (vs ! i)\<lparr>v_effective_balance := min (balances st ! i - balances st ! i mod EFFECTIVE_BALANCE_INCREMENT)
               (get_max_effective_balance (vs ! i))\<rparr> else vs ! i)
           else fail (ArithmeticOverflow Arith_BalanceSum))
      (\<lambda>v. Inr (st\<lparr>validators := vs[i := v]\<rparr>))"
  using assms by (simp add: update_effective_balance_def Let_def get_at_def idx_def idx_set_def checked_add_def u_sub_def)

lemma update_hysteresis_eq:
  assumes "i < length vs" and "i < length (balances st)"
  shows "update_effective_balance hysteresis_down hysteresis_up (st\<lparr>validators := vs\<rparr>) i =
    bindR (if balances st ! i + hysteresis_down \<le> u64_max \<and> v_effective_balance (vs ! i) + hysteresis_up \<le> u64_max
           then Inr (hysteresis (balances st ! i) (vs ! i)) else fail (ArithmeticOverflow Arith_BalanceSum))
      (\<lambda>v. Inr (st\<lparr>validators := vs[i := v]\<rparr>))"
  by (simp add: update_effective_eq [OF assms] hysteresis_def)

lemma Validator_ok_hysteresis: "Validator_ok v \<Longrightarrow> b \<le> u64_max \<Longrightarrow> Validator_ok (hysteresis b v)"
  by (auto simp: hysteresis_def Validator_ok_iff min.coboundedI1)

lemma effective_loop:
  assumes ok: "state_ok p st" and run: "process_effective_balance_updates st = Inr st'"
  shows "st' = st\<lparr>validators := map (\<lambda>i. hysteresis (balances st ! i) (validators st ! i)) [0..<length (validators st)]\<rparr>
    \<and> (\<forall>i < length (validators st). balances st ! i + hysteresis_down \<le> u64_max
        \<and> v_effective_balance (validators st ! i) + hysteresis_up \<le> u64_max)"
proof -
  let ?g = "\<lambda>i v. if balances st ! i + hysteresis_down \<le> u64_max \<and> v_effective_balance v + hysteresis_up \<le> u64_max
      then Inr (hysteresis (balances st ! i) v) else fail (ArithmeticOverflow Arith_BalanceSum)"
  have "foldR (update_effective_balance hysteresis_down hysteresis_up) (st\<lparr>validators := validators st\<rparr>)
      [0..<length (validators st)] = Inr st'"
    using run by (simp add: effective_updates_eq)
  then have "\<exists>ys. st' = st\<lparr>validators := ys\<rparr> \<and> length ys = length (validators st) \<and> (\<forall>i < length (validators st).
      if i \<in> set [0..<length (validators st)] then ?g i (validators st ! i) = Inr (ys ! i) else ys ! i = validators st ! i)"
    by (rule state_list_loop [where u = "\<lambda>vs. st\<lparr>validators := vs\<rparr>"])
      (simp_all add: update_hysteresis_eq state_ok_aligned(1) [OF ok])
  then obtain ys where ys: "st' = st\<lparr>validators := ys\<rparr>" "length ys = length (validators st)"
      "\<And>i. i < length (validators st) \<Longrightarrow> ?g i (validators st ! i) = Inr (ys ! i)"
    by auto
  have bounds: "balances st ! i + hysteresis_down \<le> u64_max \<and> v_effective_balance (validators st ! i) + hysteresis_up \<le> u64_max
      \<and> ys ! i = hysteresis (balances st ! i) (validators st ! i)" if "i < length (validators st)" for i
    using ys(3) [OF that] by (auto split: if_splits)
  then have "ys = map (\<lambda>i. hysteresis (balances st ! i) (validators st ! i)) [0..<length (validators st)]"
    by (intro nth_equalityI) (simp_all add: ys(2))
  then show ?thesis using ys(1) bounds by blast
qed

lemma state_ok_set_validator:
  assumes "state_ok p st" and "Validator_ok v"
  shows "state_ok p (st\<lparr>validators := (validators st)[i := v]\<rparr>)"
  by (rule state_ok_upd_validators [OF assms(1)]) (simp_all add: set_update_all [OF state_ok_validators(2) [OF assms(1)] assms(2)])

lemma effective_updates_safe:
  assumes ok: "state_ok p st"
  shows "safe (process_effective_balance_updates st) (\<lambda>st'. state_ok p st' \<and> chain_frame st' = chain_frame st)"
proof -
  have "safe (foldR (update_effective_balance d u) st [0..<length (validators st)])
      (\<lambda>s. state_ok p s \<and> chain_frame s = chain_frame st \<and> length (validators s) = length (validators st))" for d u
  proof (rule safe_foldR)
    fix s i assume "i \<in> set [0..<length (validators st)]"
      and s: "state_ok p s \<and> chain_frame s = chain_frame st \<and> length (validators s) = length (validators st)"
    then have i: "i < length (validators s)" "i < length (balances s)" using state_ok_aligned(1) [of p s] by simp_all
    have b: "balances s ! i \<le> u64_max" and v: "Validator_ok (validators s ! i)"
      using state_ok_balances(2) state_ok_validators(2) s i nth_mem by blast+
    have "state_ok p (s\<lparr>validators := (validators s)[i := (validators s ! i)\<lparr>v_effective_balance :=
        min (balances s ! i - balances s ! i mod EFFECTIVE_BALANCE_INCREMENT) m\<rparr>]\<rparr>)" for m
      by (rule state_ok_set_validator) (use s v b in \<open>auto simp: Validator_ok_iff min.coboundedI1\<close>)
    then show "safe (update_effective_balance d u s i)
        (\<lambda>s. state_ok p s \<and> chain_frame s = chain_frame st \<and> length (validators s) = length (validators st))"
      using s i by (auto simp: update_effective_balance_def Let_def safe_simps res_simps)
  qed (simp add: ok)
  then show ?thesis unfolding effective_updates_eq by (rule safe_mono) simp
qed

interpretation effective_updates: phase X p process_effective_balance_updates for X p
  by unfold_locales (rule effective_updates_safe)

lemma get_max_hysteresis [simp]: "get_max_effective_balance (v\<lparr>v_effective_balance := b\<rparr>) = get_max_effective_balance v"
  by (simp add: get_max_effective_balance_def has_compounding_withdrawal_credential_def)

lemma max_effective_le: "get_max_effective_balance v \<le> MAX_EFFECTIVE_BALANCE"
  by (simp add: get_max_effective_balance_def const_defs)

lemma hysteresis_idem: "hysteresis b (hysteresis b v) = hysteresis b v"
proof -
  have "b mod EFFECTIVE_BALANCE_INCREMENT < 1000000000" by (simp add: EFFECTIVE_BALANCE_INCREMENT_def)
  then show ?thesis by (auto simp: hysteresis_def min_def)
qed

lemma hysteresis_band:
  "v_effective_balance (hysteresis b v) \<le> b + hysteresis_down"
  "b \<le> v_effective_balance (hysteresis b v) + hysteresis_up \<or> v_effective_balance (hysteresis b v) = get_max_effective_balance v"
proof -
  have "b mod EFFECTIVE_BALANCE_INCREMENT < 1000000000" by (simp add: EFFECTIVE_BALANCE_INCREMENT_def)
  then show "b \<le> v_effective_balance (hysteresis b v) + hysteresis_up \<or> v_effective_balance (hysteresis b v) = get_max_effective_balance v"
    by (auto simp: hysteresis_def min_def)
qed (auto simp: hysteresis_def min_def)



section \<open>Consolidations\<close>

lemma balance_move:
  assumes "decrease_balance st i q = Inr st1" and "increase_balance st1 j q = Inr st2" and "q \<le> balances st ! i"
  shows "\<exists>bs. st2 = st\<lparr>balances := bs\<rparr> \<and> length bs = length (balances st) \<and> sum_list bs = sum_list (balances st)"
proof -
  let ?bs = "(balances st)[i := balances st ! i - q]"
  have i: "i < length (balances st)" and j: "j < length (balances st)" and st2: "st2 = st\<lparr>balances := ?bs[j := ?bs ! j + q]\<rparr>"
    using assms(1,2) by (auto simp: res_simps)
  have "sum_list ?bs + q = sum_list (balances st)"
    using i assms(3) elem_le_sum_list [OF i] by (simp add: sum_list_update)
  moreover have "sum_list (?bs[j := ?bs ! j + q]) = sum_list ?bs + q"
    using j elem_le_sum_list [of j ?bs] sum_list_update [of j ?bs] by simp
  ultimately show ?thesis using st2 by (intro exI [of _ "?bs[j := ?bs ! j + q]"]) simp
qed

text \<open>What the walk over the queue leaves: it stops at an entry whose source is not yet withdrawable.\<close>

definition consolidated :: "Epoch \<Rightarrow> BeaconState \<Rightarrow> nat \<Rightarrow> PendingConsolidation list \<Rightarrow> BeaconState \<Rightarrow> nat \<Rightarrow> bool" where
  "consolidated e st c queue st' c' \<longleftrightarrow> c \<le> c' \<and> c' \<le> c + length queue
     \<and> (\<exists>bs. st' = st\<lparr>balances := bs\<rparr> \<and> length bs = length (balances st) \<and> sum_list bs = sum_list (balances st))
     \<and> (c' < c + length queue \<longrightarrow> e < v_withdrawable_epoch (validators st ! pc_source_index (queue ! (c' - c))))"

lemma consolidated_Cons:
  assumes "consolidated e (st\<lparr>balances := bs\<rparr>) (c + 1) queue st' c'"
    and "length bs = length (balances st)" and "sum_list bs = sum_list (balances st)"
  shows "consolidated e st c (q # queue) st' c'"
proof -
  have "c + 1 \<le> c'" using assms(1) by (simp add: consolidated_def)
  then have "(q # queue) ! (c' - c) = queue ! (c' - (c + 1))" by (simp add: nth_Cons')
  then show ?thesis using assms by (auto simp: consolidated_def)
qed

lemma consolidation_loop_inv:
  assumes "consolidation_loop e (st, c) queue = Inr (st', c')"
  shows "consolidated e st c queue st' c'"
  using assms
proof (induction queue arbitrary: st c)
  case Nil
  then show ?case by (auto simp: consolidated_def intro!: exI [of _ "balances st"])
next
  case (Cons q queue)
  let ?v = "validators st ! pc_source_index q"
  consider "v_slashed ?v" | "\<not> v_slashed ?v" "e < v_withdrawable_epoch ?v"
    | "\<not> v_slashed ?v" "v_withdrawable_epoch ?v \<le> e" by linarith
  then show ?case
  proof cases
    case 1
    then have "consolidation_loop e (st, c + 1) queue = Inr (st', c')" using Cons.prems by (auto simp: res_simps)
    from Cons.IH [OF this] show ?thesis using consolidated_Cons [of e "balances st" st] by simp
  next
    case 2
    then show ?thesis using Cons.prems by (auto simp: res_simps consolidated_def intro!: exI [of _ "balances st"])
  next
    case 3
    let ?m = "min (balances st ! pc_source_index q) (v_effective_balance ?v)"
    from 3 Cons.prems obtain st1 st2 where dec: "decrease_balance st (pc_source_index q) ?m = Inr st1"
      and inc: "increase_balance st1 (pc_target_index q) ?m = Inr st2"
      and rest: "consolidation_loop e (st2, c + 1) queue = Inr (st', c')"
      by (auto simp: validator_eq_Inr get_at_eq_Some or_err_eq_Inr bindR_eq_Inr Let_def)
    from balance_move [OF dec inc min.cobounded1] obtain bs where
      "st2 = st\<lparr>balances := bs\<rparr>" "length bs = length (balances st)" "sum_list bs = sum_list (balances st)" by blast
    then show ?thesis using consolidated_Cons Cons.IH [OF rest] by blast
  qed
qed

lemma consolidation_loop_safe:
  assumes "state_ok p st"
  shows "safe (consolidation_loop e (st, c) queue) (\<lambda>(st', c'). state_ok p st' \<and> chain_frame st' = chain_frame st)"
  using assms
proof (induction queue arbitrary: st c)
  case (Cons q queue)
  have step: "safe (consolidation_loop e (s, c + 1) queue) (\<lambda>(st', c'). state_ok p st' \<and> chain_frame st' = chain_frame st)"
    if "state_ok p s" "chain_frame s = chain_frame st" for s
    using Cons.IH [OF that(1), of "c + 1"] that(2) by simp
  have "safe (decrease_balance st i m) (\<lambda>s. safe (increase_balance s j m) (\<lambda>s. safe (consolidation_loop e (s, c + 1) queue)
      (\<lambda>(st', c'). state_ok p st' \<and> chain_frame st' = chain_frame st)))" for i j m
    by (intro safe_mono [OF decrease_balance_ok [OF Cons.prems]] safe_mono [OF increase_balance_ok] step) auto
  then show ?case
    using Cons.prems step by (simp add: safe_bind safe_validator safe_or_err Let_def)
qed simp

lemma pending_consolidations_safe:
  assumes ok: "state_ok p st"
  shows "safe (process_pending_consolidations p st) (\<lambda>st'. state_ok p st' \<and> chain_frame st' = chain_frame st)"
proof -
  let ?queue = "pending_consolidations st"
  have "state_ok p (s\<lparr>pending_consolidations := drop c ?queue\<rparr>)" if "state_ok p s" for s c
    by (rule state_ok_upd_pending_consolidations [OF that])
      (use state_ok_pending_consolidations [OF ok] in \<open>auto dest: in_set_dropD\<close>)
  then have "safe (case x of (s, c) \<Rightarrow> keep_pending_consolidations p s (drop c ?queue))
      (\<lambda>st'. state_ok p st' \<and> chain_frame st' = chain_frame st)"
    if "case x of (s, c) \<Rightarrow> state_ok p s \<and> chain_frame s = chain_frame st" for x
    using that by (auto simp: keep_pending_consolidations_def safe_simps res_simps)
  then show ?thesis
    unfolding process_pending_consolidations_def checked_epoch_add_def Let_def safe_bind safe_or_err
    by (intro allI impI safe_mono [OF consolidation_loop_safe [OF ok]]) simp
qed

interpretation consolidations: phase X p "process_pending_consolidations p" for X p
  by unfold_locales (rule pending_consolidations_safe)

text \<open>
  C17: draining the consolidation queue moves stake between validators and neither creates nor destroys
  any; it removes a prefix of the queue and stops only at an entry whose source is not withdrawable in
  the next epoch.
\<close>

theorem pending_consolidations_conserve:
  assumes "process_pending_consolidations p st = Inr st'"
  shows "sum_list (balances st') = sum_list (balances st) \<and> length (balances st') = length (balances st)
    \<and> (\<exists>k \<le> length (pending_consolidations st). pending_consolidations st' = drop k (pending_consolidations st)
        \<and> (k < length (pending_consolidations st) \<longrightarrow> get_current_epoch p st + 1 <
             v_withdrawable_epoch (validators st ! pc_source_index (pending_consolidations st ! k))))
    \<and> st' = st\<lparr>balances := balances st', pending_consolidations := pending_consolidations st'\<rparr>"
proof -
  let ?queue = "pending_consolidations st"
  obtain s c where loop: "consolidation_loop (get_current_epoch p st + 1) (st, 0) ?queue = Inr (s, c)"
    and st': "st' = s\<lparr>pending_consolidations := drop c ?queue\<rparr>"
    using assms by (auto simp: process_pending_consolidations_def checked_epoch_add_def keep_pending_consolidations_def Let_def
        res_simps get_current_epoch_def)
  from consolidation_loop_inv [OF loop] show ?thesis
    by (auto simp: consolidated_def st' intro!: exI [of _ c])
qed

text \<open>A consolidation whose source has become withdrawable.\<close>

definition ex_consolidating :: BeaconState where
  "ex_consolidating = (ex_state Minimal)\<lparr>
     validators := (validators (ex_state Minimal))[2 := (ex_validator 2)\<lparr>v_withdrawable_epoch := 6\<rparr>],
     pending_consolidations := [\<lparr>pc_source_index = 2, pc_target_index = 0\<rparr>]\<rparr>"

theorem pending_consolidations_conserve_witness:
  "\<exists>st'. process_pending_consolidations Minimal ex_consolidating = Inr st' \<and> sum_list (balances st') = 128000000000"
proof -
  have "\<exists>st'. process_pending_consolidations Minimal ex_consolidating = Inr st'"
    by (simp add: process_pending_consolidations_def ex_consolidating_def checked_epoch_add_def epoch_of_def SLOTS_PER_EPOCH_def
        validator_def get_at_def decrease_balance_def increase_balance_def balance_mut_def idx_def u64_defs u64_max_def
        keep_pending_consolidations_def list_try_from_def)
  then obtain st' where run: "process_pending_consolidations Minimal ex_consolidating = Inr st'" ..
  then show ?thesis using pending_consolidations_conserve [OF run] by (simp add: ex_consolidating_def)
qed

section \<open>The deposit queue\<close>

lemma apply_pending_deposit_safe:
  assumes ok: "state_ok p st" and d: "PendingDeposit_ok d"
  shows "safe (apply_pending_deposit X p st d) (\<lambda>st'. state_ok p st' \<and> chain_frame st' = chain_frame st)"
proof -
  have "safe (add_validator_to_registry st (pd_pubkey d) (pd_withdrawal_credentials d) (pd_amount d))
      (\<lambda>st'. state_ok p st' \<and> chain_frame st' = chain_frame st)"
    by (rule safe_mono [OF add_validator_safe [OF ok]]) (use d in \<open>auto simp: PendingDeposit_ok_iff\<close>)
  moreover have "safe (increase_balance st i a) (\<lambda>st'. state_ok p st' \<and> chain_frame st' = chain_frame st)" for i a
    by (rule safe_mono [OF increase_balance_ok [OF ok]]) auto
  ultimately show ?thesis
    using ok by (auto simp: apply_pending_deposit_def safe_bind split: option.split intro!: safe_mono [OF deposit_signature_safe])
qed

lemma apply_pending_deposit_inv:
  assumes ok: "state_ok p st" and d: "PendingDeposit_ok d" and run: "apply_pending_deposit X p st d = Inr st'"
  shows "pending_deposits st' = pending_deposits st \<and> (sum_list (balances st') = sum_list (balances st) + pd_amount d
    \<or> st' = st \<and> is_valid_deposit_signature X p (pd_pubkey d) (pd_withdrawal_credentials d) (pd_amount d) (pd_signature d) = Inr False)"
proof (cases "position (\<lambda>v. v_pubkey v = pd_pubkey d) (validators st)")
  case (Some i)
  then have inc: "increase_balance st i (pd_amount d) = Inr st'" using run by (simp add: apply_pending_deposit_def)
  then have "i < length (balances st)" by (simp add: res_simps)
  then show ?thesis using inc elem_le_sum_list [of i "balances st"] by (auto simp: res_simps sum_list_update)
next
  case None
  have "length (pd_withdrawal_credentials d) = 32" using d by (simp add: PendingDeposit_ok_iff)
  then have "st' = registered st (pd_pubkey d) (pd_withdrawal_credentials d) (pd_amount d)
    \<or> st' = st \<and> is_valid_deposit_signature X p (pd_pubkey d) (pd_withdrawal_credentials d) (pd_amount d) (pd_signature d) = Inr False"
    using run by (auto simp: apply_pending_deposit_def None bindR_eq_Inr add_validator_eq [OF ok] split: if_splits)
  then show ?thesis by (auto simp: registered_def)
qed

text \<open>
  What a walk over the queue achieves: it takes \<open>k\<close> deposits, postpones some of them and drops some with
  an invalid signature; the rest went to balances, within the churn budget.
\<close>

definition deposits_walked ::
    "('g1, 'g2, 'gt) ext \<Rightarrow> preset \<Rightarrow> Gwei \<Rightarrow> DepositLoop \<Rightarrow> PendingDeposit list \<Rightarrow> DepositLoop
     \<Rightarrow> nat \<Rightarrow> PendingDeposit list \<Rightarrow> PendingDeposit list \<Rightarrow> bool" where
  "deposits_walked X p available l queue l' k post dropped \<longleftrightarrow>
     k \<le> length queue \<and> dl_next_deposit_index l' = dl_next_deposit_index l + k
     \<and> dl_deposits_to_postpone l' = dl_deposits_to_postpone l @ post
     \<and> set post \<subseteq> set (take k queue) \<and> set dropped \<subseteq> set (take k queue)
     \<and> (\<forall>d \<in> set dropped. is_valid_deposit_signature X p (pd_pubkey d) (pd_withdrawal_credentials d)
          (pd_amount d) (pd_signature d) = Inr False)
     \<and> sum_list (balances (dl_state l')) + sum_list (map pd_amount post) + sum_list (map pd_amount dropped) =
         sum_list (balances (dl_state l)) + sum_list (map pd_amount (take k queue))
     \<and> (dl_processed_amount l \<le> available \<longrightarrow> dl_processed_amount l' \<le> available)
     \<and> (dl_next_deposit_index l \<le> MAX_PENDING_DEPOSITS_PER_EPOCH \<longrightarrow>
          dl_next_deposit_index l' \<le> MAX_PENDING_DEPOSITS_PER_EPOCH)
     \<and> state_ok p (dl_state l') \<and> pending_deposits (dl_state l') = pending_deposits (dl_state l)
     \<and> chain_frame (dl_state l') = chain_frame (dl_state l)"

lemma deposits_walked_stop:
  "state_ok p (dl_state l) \<Longrightarrow> deposits_walked X p available l queue l 0 [] []"
  "state_ok p (dl_state l) \<Longrightarrow> deposits_walked X p available l queue (l\<lparr>dl_is_churn_limit_reached := b\<rparr>) 0 [] []"
  by (simp_all add: deposits_walked_def)

lemma deposits_walked_step:
  assumes "deposits_walked X p available l1 queue l' k post dropped"
    and "dl_next_deposit_index l1 = dl_next_deposit_index l + 1" "dl_next_deposit_index l < MAX_PENDING_DEPOSITS_PER_EPOCH"
    and "dl_deposits_to_postpone l1 = dl_deposits_to_postpone l @ post1"
    and "dl_processed_amount l \<le> available \<longrightarrow> dl_processed_amount l1 \<le> available"
    and "set post1 \<subseteq> {d}" "set drop1 \<subseteq> {d}"
    and "\<forall>d \<in> set drop1. is_valid_deposit_signature X p (pd_pubkey d) (pd_withdrawal_credentials d)
          (pd_amount d) (pd_signature d) = Inr False"
    and "sum_list (balances (dl_state l1)) + sum_list (map pd_amount post1) + sum_list (map pd_amount drop1) =
         sum_list (balances (dl_state l)) + pd_amount d"
    and "pending_deposits (dl_state l1) = pending_deposits (dl_state l)" "chain_frame (dl_state l1) = chain_frame (dl_state l)"
  shows "deposits_walked X p available l (d # queue) l' (Suc k) (post1 @ post) (drop1 @ dropped)"
  using assms unfolding deposits_walked_def by auto

lemma deposit_applied:
  assumes "state_ok p st" and "PendingDeposit_ok d" and "apply_pending_deposit X p st d = Inr st'"
  obtains drop1 where "set drop1 \<subseteq> {d}"
    "\<forall>d \<in> set drop1. is_valid_deposit_signature X p (pd_pubkey d) (pd_withdrawal_credentials d)
          (pd_amount d) (pd_signature d) = Inr False"
    "sum_list (balances st') + sum_list (map pd_amount drop1) = sum_list (balances st) + pd_amount d"
    "pending_deposits st' = pending_deposits st" "chain_frame st' = chain_frame st" "state_ok p st'"
proof -
  have *: "state_ok p st'" "chain_frame st' = chain_frame st"
    using safeD [OF apply_pending_deposit_safe [OF assms(1,2)] assms(3)] by simp_all
  from apply_pending_deposit_inv [OF assms] show thesis
    using that [of "[]"] that [of "[d]"] * by auto
qed

lemma deposits_walked_applied:
  assumes ok: "state_ok p (dl_state l)" and d: "PendingDeposit_ok d" and n: "dl_next_deposit_index l < MAX_PENDING_DEPOSITS_PER_EPOCH"
    and a: "a = dl_processed_amount l \<or> a \<le> available"
    and st1: "apply_pending_deposit X p (dl_state l) d = Inr st1"
    and rest: "state_ok p st1 \<Longrightarrow> \<exists>k post dropped. deposits_walked X p available
      (l\<lparr>dl_processed_amount := a, dl_state := st1, dl_next_deposit_index := dl_next_deposit_index l + 1\<rparr>) queue l' k post dropped"
  shows "\<exists>k post dropped. deposits_walked X p available l (d # queue) l' k post dropped"
proof -
  from deposit_applied [OF ok d st1] obtain drop1 where drop1: "set drop1 \<subseteq> {d}"
    "\<forall>d \<in> set drop1. is_valid_deposit_signature X p (pd_pubkey d) (pd_withdrawal_credentials d)
        (pd_amount d) (pd_signature d) = Inr False"
    "sum_list (balances st1) + sum_list (map pd_amount drop1) = sum_list (balances (dl_state l)) + pd_amount d"
    "pending_deposits st1 = pending_deposits (dl_state l)" "chain_frame st1 = chain_frame (dl_state l)" "state_ok p st1"
    by blast
  from rest [OF drop1(6)] obtain k post dropped where "deposits_walked X p available
      (l\<lparr>dl_processed_amount := a, dl_state := st1, dl_next_deposit_index := dl_next_deposit_index l + 1\<rparr>) queue l' k post dropped"
    by blast
  from deposits_walked_step [OF this, of l "[]" d drop1] drop1 n a show ?thesis by auto
qed

lemma pending_deposit_loop_inv:
  assumes "pending_deposit_loop X p e available fs l queue = Inr l'"
    and "state_ok p (dl_state l)" and "\<forall>d \<in> set queue. PendingDeposit_ok d"
  shows "\<exists>k post dropped. deposits_walked X p available l queue l' k post dropped"
  using assms
proof (induction queue arbitrary: l)
  case Nil
  then show ?case using deposits_walked_stop by fastforce
next
  case (Cons d queue)
  let ?found = "List.find (\<lambda>v. v_pubkey v = pd_pubkey d) (validators (dl_state l))"
  let ?exited = "case ?found of Some v \<Rightarrow> v_exit_epoch v < FAR_FUTURE_EPOCH | None \<Rightarrow> False"
  let ?withdrawn = "case ?found of Some v \<Rightarrow> v_withdrawable_epoch v < e | None \<Rightarrow> False"
  let ?n = "dl_next_deposit_index l" and ?a = "dl_processed_amount l + pd_amount d"
  note ok = Cons.prems(2)
  have d: "PendingDeposit_ok d" and queue: "\<forall>d \<in> set queue. PendingDeposit_ok d" using Cons.prems(3) by simp_all
  consider (stop) "pd_slot d > fs \<or> ?n \<ge> MAX_PENDING_DEPOSITS_PER_EPOCH"
    | (withdrawn) "pd_slot d \<le> fs" "?n < MAX_PENDING_DEPOSITS_PER_EPOCH" ?withdrawn
    | (exited) "pd_slot d \<le> fs" "?n < MAX_PENDING_DEPOSITS_PER_EPOCH" "\<not> ?withdrawn" ?exited
    | (full) "pd_slot d \<le> fs" "?n < MAX_PENDING_DEPOSITS_PER_EPOCH" "\<not> ?withdrawn" "\<not> ?exited" "?a > available"
    | (churn) "pd_slot d \<le> fs" "?n < MAX_PENDING_DEPOSITS_PER_EPOCH" "\<not> ?withdrawn" "\<not> ?exited" "?a \<le> available"
    by linarith
  then show ?case
  proof cases
    case stop
    then have "l' = l" using Cons.prems(1) by (auto split: if_splits)
    then show ?thesis using deposits_walked_stop(1) [OF ok] by blast
  next
    case withdrawn
    then obtain st1 where st1: "apply_pending_deposit X p (dl_state l) d = Inr st1"
      and rest: "pending_deposit_loop X p e available fs (l\<lparr>dl_processed_amount := dl_processed_amount l,
        dl_state := st1, dl_next_deposit_index := ?n + 1\<rparr>) queue = Inr l'"
      using Cons.prems(1) by (auto simp: Let_def res_simps)
    show ?thesis
      by (rule deposits_walked_applied [OF ok d withdrawn(2) disjI1 [OF refl] st1]) (rule Cons.IH [OF rest _ queue], simp)
  next
    case exited
    let ?l = "l\<lparr>dl_deposits_to_postpone := dl_deposits_to_postpone l @ [d], dl_next_deposit_index := ?n + 1\<rparr>"
    from exited have rest: "pending_deposit_loop X p e available fs ?l queue = Inr l'"
      using Cons.prems(1) by (auto simp: Let_def res_simps)
    from Cons.IH [OF rest _ queue] ok obtain k post dropped where
      "deposits_walked X p available ?l queue l' k post dropped" by auto
    from deposits_walked_step [OF this, of l "[d]" d "[]"] exited show ?thesis by auto
  next
    case full
    then have "l' = l\<lparr>dl_is_churn_limit_reached := True\<rparr>" using Cons.prems(1) by (auto simp: Let_def res_simps)
    then show ?thesis using deposits_walked_stop(2) [OF ok] by blast
  next
    case churn
    then obtain st1 where st1: "apply_pending_deposit X p (dl_state l) d = Inr st1"
      and rest: "pending_deposit_loop X p e available fs
          (l\<lparr>dl_processed_amount := ?a, dl_state := st1, dl_next_deposit_index := ?n + 1\<rparr>) queue = Inr l'"
      using Cons.prems(1) by (auto simp: Let_def res_simps)
    show ?thesis
      by (rule deposits_walked_applied [OF ok d churn(2) disjI2 [OF churn(5)] st1]) (rule Cons.IH [OF rest _ queue], simp)
  qed
qed

lemma pending_deposit_loop_safe:
  assumes "state_ok p (dl_state l)" and "\<forall>d \<in> set queue. PendingDeposit_ok d"
  shows "safe (pending_deposit_loop X p e available fs l queue) (\<lambda>_. True)"
  using assms
proof (induction queue arbitrary: l)
  case (Cons d queue)
  have step: "safe (pending_deposit_loop X p e available fs l' queue) (\<lambda>_. True)" if "state_ok p (dl_state l')" for l'
    using Cons.IH [OF that] Cons.prems(2) by simp
  have "safe (apply_pending_deposit X p (dl_state l) d) (\<lambda>st'. state_ok p st')"
    by (rule safe_mono [OF apply_pending_deposit_safe]) (use Cons.prems in auto)
  note app = safe_mono [OF this]
  show ?case
    using Cons.prems(1)
    by (auto simp: Let_def safe_bind safe_or_err safe_if res_simps intro!: app step)
qed simp

lemma activation_churn_limit_safe: "safe (get_activation_churn_limit p st) (\<lambda>_. True)"
  by (auto simp: get_activation_churn_limit_def safe_bind intro!: safe_mono [OF balance_churn_limit_safe])

lemma pending_deposits_safe:
  assumes ok: "state_ok p st"
  shows "safe (process_pending_deposits X p st) (\<lambda>st'. state_ok p st' \<and> chain_frame st' = chain_frame st)"
proof -
  let ?queue = "pending_deposits st"
  let ?l = "\<lparr>dl_state = st, dl_processed_amount = 0, dl_next_deposit_index = 0, dl_deposits_to_postpone = [],
      dl_is_churn_limit_reached = False\<rparr>"
  have queue: "\<forall>d \<in> set ?queue. PendingDeposit_ok d" by (rule state_ok_pending_deposits [OF ok])
  have tail: "safe (bindR (keep_pending_deposits (dl_state l) (drop (dl_next_deposit_index l) ?queue @ dl_deposits_to_postpone l)) (\<lambda>s.
      bindR (if dl_is_churn_limit_reached l then or_err (checked_sub a (dl_processed_amount l)) (ArithmeticOverflow Arith_Churn)
        else Inr 0) (\<lambda>rest. Inr (s\<lparr>deposit_balance_to_consume := rest\<rparr>))))
      (\<lambda>st'. state_ok p st' \<and> chain_frame st' = chain_frame st)"
    if run: "pending_deposit_loop X p e a fs ?l ?queue = Inr l" and a: "a \<le> u64_max" for e a fs l
  proof -
    from pending_deposit_loop_inv [OF run _ queue] ok obtain k post dropped where
      w: "deposits_walked X p a ?l ?queue l k post dropped" by auto
    have post: "dl_deposits_to_postpone l = post" "set post \<subseteq> set ?queue"
      using w in_set_takeD by (fastforce simp: deposits_walked_def)+
    have "state_ok p ((dl_state l)\<lparr>pending_deposits := drop n ?queue @ post, deposit_balance_to_consume := r\<rparr>)"
      if "length (drop n ?queue @ post) \<le> PENDING_DEPOSITS_LIMIT" "r \<le> u64_max" for n r
      using w that queue post(2) unfolding deposits_walked_def
      by (intro state_ok_upd_deposit_balance_to_consume state_ok_upd_pending_deposits) (auto dest: in_set_dropD)
    then show ?thesis
      using w a by (auto simp: keep_pending_deposits_def safe_simps res_simps post(1) deposits_walked_def)
  qed
  show ?thesis
    unfolding process_pending_deposits_def checked_epoch_add_def checked_start_slot_def Let_def safe_bind safe_or_err
    by (intro allI impI safe_mono [OF activation_churn_limit_safe] safe_mono [OF pending_deposit_loop_safe]
        tail [unfolded safe_bind safe_or_err]) (auto simp: ok queue checked_add_eq_Some)
qed

interpretation deposits: phase X p "process_pending_deposits X p" for X p
  by unfold_locales (rule pending_deposits_safe)

text \<open>
  C18: the deposit queue is drained without losing or creating stake. A prefix of at most the per-epoch
  maximum is taken; postponed deposits go to the end of the queue; and the sum of all balances and
  queued deposits is unchanged except for deposits of new keys with an invalid signature, which are
  dropped. The budget carried over never exceeds the one that was available.
\<close>

theorem pending_deposits_accounted:
  assumes ok: "state_ok p st" and run: "process_pending_deposits X p st = Inr st'"
  shows "\<exists>limit k post dropped. get_activation_churn_limit p st = Inr limit
    \<and> k \<le> MAX_PENDING_DEPOSITS_PER_EPOCH \<and> k \<le> length (pending_deposits st)
    \<and> pending_deposits st' = drop k (pending_deposits st) @ post
    \<and> set post \<subseteq> set (take k (pending_deposits st)) \<and> set dropped \<subseteq> set (take k (pending_deposits st))
    \<and> (\<forall>d \<in> set dropped. is_valid_deposit_signature X p (pd_pubkey d) (pd_withdrawal_credentials d)
         (pd_amount d) (pd_signature d) = Inr False)
    \<and> sum_list (balances st') + sum_list (map pd_amount (pending_deposits st')) + sum_list (map pd_amount dropped) =
        sum_list (balances st) + sum_list (map pd_amount (pending_deposits st))
    \<and> deposit_balance_to_consume st' \<le> deposit_balance_to_consume st + limit"
proof -
  let ?queue = "pending_deposits st"
  let ?l = "\<lparr>dl_state = st, dl_processed_amount = 0, dl_next_deposit_index = 0, dl_deposits_to_postpone = [],
      dl_is_churn_limit_reached = False\<rparr>"
  obtain limit e fs l r where limit: "get_activation_churn_limit p st = Inr limit"
    and loop: "pending_deposit_loop X p e (deposit_balance_to_consume st + limit) fs ?l ?queue = Inr l"
    and rest: "(if dl_is_churn_limit_reached l then or_err (checked_sub (deposit_balance_to_consume st + limit)
        (dl_processed_amount l)) (ArithmeticOverflow Arith_Churn) else Inr 0) = Inr r"
    and st': "st' = (dl_state l)\<lparr>pending_deposits := drop (dl_next_deposit_index l) ?queue @ dl_deposits_to_postpone l,
        deposit_balance_to_consume := r\<rparr>"
    using run by (auto simp: process_pending_deposits_def keep_pending_deposits_def Let_def bindR_eq_Inr or_err_eq_Inr
        list_try_from_eq_Some checked_add_eq_Some)
  have r: "r \<le> deposit_balance_to_consume st + limit" using rest by (auto simp: res_simps split: if_splits)
  from pending_deposit_loop_inv [OF loop _ state_ok_pending_deposits(2) [OF ok]] ok obtain k post dropped where
    w: "deposits_walked X p (deposit_balance_to_consume st + limit) ?l ?queue l k post dropped" by auto
  have "sum_list (map pd_amount ?queue) = sum_list (map pd_amount (take k ?queue)) + sum_list (map pd_amount (drop k ?queue))"
    by (metis append_take_drop_id map_append sum_list.append)
  then show ?thesis
    using limit r w
    by (intro exI [of _ limit] exI [of _ k] exI [of _ post] exI [of _ dropped]) (auto simp: deposits_walked_def st')
qed

definition ex_deposit :: PendingDeposit where
  "ex_deposit = \<lparr>pd_pubkey = ex_pubkey 0, pd_withdrawal_credentials = 1 # replicate 31 0, pd_amount = 5,
     pd_signature = replicate 96 0, pd_slot = 0\<rparr>"

definition ex_depositing :: BeaconState where
  "ex_depositing = (ex_state Minimal)\<lparr>pending_deposits := [ex_deposit]\<rparr>"

lemma ex_depositing_ok: "state_ok Minimal ex_depositing"
  unfolding ex_depositing_def
  by (rule state_ok_upd_pending_deposits [OF ex_state_ok])
    (simp_all add: ex_deposit_def PendingDeposit_ok_iff ex_pubkey_def u64_max_def PENDING_DEPOSITS_LIMIT_def)

lemma ex_depositing_limit: "get_activation_churn_limit Minimal ex_depositing = Inr 64000000000"
proof -
  have "get_total_active_balance Minimal ex_depositing = get_total_active_balance Minimal (ex_state Minimal)"
    by (simp add: ex_depositing_def get_total_active_balance_def get_total_balance_def validator_def
        get_active_validator_indices_def get_current_epoch_def)
  then show ?thesis
    by (simp add: get_activation_churn_limit_def get_balance_churn_limit_def ex_total u_sub_def const_defs)
qed

theorem pending_deposits_accounted_witness:
  "\<exists>st'. process_pending_deposits ex_ext Minimal ex_depositing = Inr st'
     \<and> (\<exists>dropped :: PendingDeposit list. sum_list (balances st') + sum_list (map pd_amount (pending_deposits st')) + sum_list (map pd_amount dropped) =
          128000000005)"
proof -
  have "\<exists>st'. process_pending_deposits ex_ext Minimal ex_depositing = Inr st'"
    unfolding process_pending_deposits_def ex_depositing_limit
    by (simp add: ex_depositing_def ex_deposit_def checked_epoch_add_def checked_start_slot_def epoch_of_def
        SLOTS_PER_EPOCH_def u64_defs u64_max_def MAX_PENDING_DEPOSITS_PER_EPOCH_def apply_pending_deposit_def
        increase_balance_def balance_mut_def validator_def get_at_def idx_def FAR_FUTURE_EPOCH_def keep_pending_deposits_def
        list_try_from_def)
  then obtain st' where run: "process_pending_deposits ex_ext Minimal ex_depositing = Inr st'" ..
  from pending_deposits_accounted [OF ex_depositing_ok run] obtain dropped :: "PendingDeposit list" where
    "sum_list (balances st') + sum_list (map pd_amount (pending_deposits st')) + sum_list (map pd_amount dropped) =
      sum_list (balances ex_depositing) + sum_list (map pd_amount (pending_deposits ex_depositing))"
    by blast
  moreover have "sum_list (balances ex_depositing) + sum_list (map pd_amount (pending_deposits ex_depositing)) = 128000000005"
    by (simp add: ex_depositing_def ex_deposit_def)
  ultimately show ?thesis using run by auto
qed

section \<open>Activations and ejections\<close>

lemma initiate_exit_frame:
  assumes "state_ok p st"
  shows "safe (initiate_validator_exit p st i) (\<lambda>st'. state_ok p st' \<and> chain_frame st' = chain_frame st
    \<and> length (validators st') = length (validators st) \<and> finalized_checkpoint st' = finalized_checkpoint st)"
  by (rule safe_mono [OF initiate_validator_exit_safe [OF assms]]) (auto simp: exit_scheduled_def split: if_splits)

lemma Validator_ok_epochs:
  "Validator_ok v \<Longrightarrow> e \<le> u64_max \<Longrightarrow> Validator_ok (v\<lparr>v_activation_eligibility_epoch := e\<rparr>)"
  "Validator_ok v \<Longrightarrow> e \<le> u64_max \<Longrightarrow> Validator_ok (v\<lparr>v_activation_epoch := e\<rparr>)"
  by (simp_all add: Validator_ok_iff)

lemma mark_eligible_safe:
  assumes "state_ok p s" and "i < length (validators s)"
  shows "safe (mark_eligible current (s, ex) i) (\<lambda>(s', ex'). state_ok p s' \<and> chain_frame s' = chain_frame s
    \<and> length (validators s') = length (validators s) \<and> finalized_checkpoint s' = finalized_checkpoint s)"
proof -
  have "state_ok p (s\<lparr>validators := (validators s)[i := (validators s ! i)\<lparr>v_activation_eligibility_epoch := saturating_add current 1\<rparr>]\<rparr>)"
    by (rule state_ok_set_validator [OF assms(1)])
      (simp add: Validator_ok_epochs validator_nth_ok [OF assms] saturating_add_def)
  then show ?thesis using assms by (simp add: mark_eligible_def safe_simps)
qed

lemma activate_eligible_safe:
  assumes "state_ok p s" and "i < length (validators s)" and "a \<le> u64_max"
  shows "safe (activate_eligible a f s i) (\<lambda>s'. state_ok p s' \<and> chain_frame s' = chain_frame s
    \<and> length (validators s') = length (validators s))"
proof -
  have "state_ok p (s\<lparr>validators := (validators s)[i := (validators s ! i)\<lparr>v_activation_epoch := a\<rparr>]\<rparr>)"
    by (rule state_ok_set_validator [OF assms(1)]) (simp add: Validator_ok_epochs validator_nth_ok [OF assms(1,2)] assms(3))
  then show ?thesis using assms by (simp add: activate_eligible_def safe_simps)
qed

lemma registry_updates_safe:
  assumes ok: "state_ok p st"
  shows "safe (process_registry_updates p st) (\<lambda>st'. state_ok p st' \<and> chain_frame st' = chain_frame st)"
proof -
  let ?n = "length (validators st)"
  let ?I = "\<lambda>s. state_ok p s \<and> chain_frame s = chain_frame st \<and> length (validators s) = ?n"
  have mark: "safe (foldR (mark_eligible c) (st, []) [0..<?n]) (\<lambda>(s, ex). ?I s)" for c
    by (rule safe_foldR) (use ok in \<open>auto intro!: safe_mono [OF mark_eligible_safe]\<close>)
  have exit: "safe (foldR (initiate_validator_exit p) s ex) ?I" if "?I s" for s ex
    by (rule safe_foldR) (use that in \<open>auto intro!: safe_mono [OF initiate_exit_frame]\<close>)
  have act: "safe (foldR (activate_eligible a f) s [0..<length (validators s)]) ?I" if "?I s" "a \<le> u64_max" for s a f
    by (rule safe_foldR) (use that in \<open>auto intro!: safe_mono [OF activate_eligible_safe]\<close>)
  have tail: "safe (foldR (initiate_validator_exit p) s ex) (\<lambda>s. safe (compute_activation_exit_epoch c)
      (\<lambda>a. safe (foldR (activate_eligible a (cp_epoch (finalized_checkpoint s))) s [0..<length (validators s)])
      (\<lambda>st'. state_ok p st' \<and> chain_frame st' = chain_frame st)))" if "?I s" for s ex c
    unfolding activation_exit_epoch_safe by (intro safe_mono [OF exit [OF that]] impI safe_mono [OF act]) auto
  show ?thesis
    unfolding process_registry_updates_def Let_def safe_bind
    by (rule safe_mono [OF mark]) (auto simp: safe_bind intro!: tail)
qed

interpretation registry_updates: phase X p "process_registry_updates p" for X p
  by unfold_locales (rule registry_updates_safe)

end
