(* ===== verification/Builder_Payments.thy ===== *)
theory Builder_Payments
  imports Registry
begin

text \<open>
  The builder payment window (\<open>state_transition/builder/payments.rs\<close> and the window part of
  \<open>state_transition/epoch/windows.rs\<close>). The two-epoch window refines a map from slots to pending
  payments, and settling a payment moves what is owed without changing the total.
\<close>

section \<open>Definitions (builder/payments.rs)\<close>

definition BuilderPendingPayment_default :: BuilderPendingPayment where
  "BuilderPendingPayment_default = \<lparr>bpp_weight = 0,
     bpp_withdrawal = \<lparr>bpw_fee_recipient = replicate 20 0, bpw_amount = 0, bpw_builder_index = 0\<rparr>,
     bpp_proposer_index = 0\<rparr>"

definition builder_payment_index_for_slot :: "preset \<Rightarrow> BeaconState \<Rightarrow> Slot \<Rightarrow> usize option" where
  "builder_payment_index_for_slot p st sl =
     (let offset = sl mod SLOTS_PER_EPOCH p in
      if epoch_of p sl = epoch_of p (slot st) then Some (SLOTS_PER_EPOCH p + offset)
      else if epoch_of p sl = get_previous_epoch p st then Some offset
      else None)"

definition get_builder_payment_quorum_threshold :: "preset \<Rightarrow> BeaconState \<Rightarrow> Gwei tres" where
  "get_builder_payment_quorum_threshold p st =
     bindR (get_total_active_balance p st) (\<lambda>total_balance.
     let per_slot_balance = total_balance div SLOTS_PER_EPOCH p in
     bindR (or_err (checked_mul per_slot_balance BUILDER_PAYMENT_THRESHOLD_NUMERATOR) (ArithmeticOverflow Arith_Weight)) (\<lambda>quorum.
     Inr (quorum div BUILDER_PAYMENT_THRESHOLD_DENOMINATOR)))"

definition get_pending_balance_to_withdraw_for_builder :: "BeaconState \<Rightarrow> BuilderIndex \<Rightarrow> Gwei tres" where
  "get_pending_balance_to_withdraw_for_builder st i =
     bindR (foldR (\<lambda>s amount. or_err (checked_add s amount) (ArithmeticOverflow Arith_BalanceSum)) 0
              (map bpw_amount (filter (\<lambda>w. bpw_builder_index w = i) (builder_pending_withdrawals st)))) (\<lambda>s.
     foldR (\<lambda>s amount. or_err (checked_add s amount) (ArithmeticOverflow Arith_BalanceSum)) s
       (map (\<lambda>q. bpw_amount (bpp_withdrawal q))
         (filter (\<lambda>q. bpw_builder_index (bpp_withdrawal q) = i) (builder_pending_payments st))))"

definition queue_builder_pending_withdrawal :: "BeaconState \<Rightarrow> BuilderPendingWithdrawal \<Rightarrow> BeaconState tres" where
  "queue_builder_pending_withdrawal st withdrawal =
     bindR (reject (length (builder_pending_withdrawals st) \<ge> BUILDER_PENDING_WITHDRAWALS_LIMIT)
              (OperationErr Op_BuilderPendingWithdrawalsFull)) (\<lambda>_.
     bindR (or_err (list_push BUILDER_PENDING_WITHDRAWALS_LIMIT (builder_pending_withdrawals st) withdrawal)
              (OperationErr Op_BuilderPendingWithdrawalsFull)) (\<lambda>ws.
     Inr (st\<lparr>builder_pending_withdrawals := ws\<rparr>)))"

definition settle_builder_payment :: "BeaconState \<Rightarrow> usize \<Rightarrow> BeaconState tres" where
  "settle_builder_payment st payment_index =
     bindR (or_err (get_at (builder_pending_payments st) payment_index) (OperationErr Op_BuilderPaymentIndexOutOfRange)) (\<lambda>payment.
     bindR (if bpw_amount (bpp_withdrawal payment) > 0
            then queue_builder_pending_withdrawal st (bpp_withdrawal payment) else Inr st) (\<lambda>st.
     bindR (idx_set (builder_pending_payments st) payment_index BuilderPendingPayment_default) (\<lambda>ps.
     Inr (st\<lparr>builder_pending_payments := ps\<rparr>))))"

definition settle_builder_payment_if_quorum :: "preset \<Rightarrow> BeaconState \<Rightarrow> BuilderPendingPayment \<Rightarrow> BeaconState tres" where
  "settle_builder_payment_if_quorum p st payment =
     bindR (get_builder_payment_quorum_threshold p st) (\<lambda>threshold.
     if bpp_weight payment \<ge> threshold then queue_builder_pending_withdrawal st (bpp_withdrawal payment)
     else Inr st)"

section \<open>Definitions (epoch/windows.rs)\<close>

definition settle_builder_payment_window :: "preset \<Rightarrow> BeaconState \<Rightarrow> usize \<Rightarrow> BeaconState tres" where
  "settle_builder_payment_window p st epoch_slots =
     foldR (settle_builder_payment_if_quorum p) st (take epoch_slots (builder_pending_payments st))"

definition advance_builder_payment_window :: "BeaconState \<Rightarrow> usize \<Rightarrow> usize \<Rightarrow> BeaconState tres" where
  "advance_builder_payment_window st epoch_slots window_len =
     bindR (foldR (\<lambda>ps i. bindR (idx ps (i + epoch_slots)) (\<lambda>q. idx_set ps i q))
              (builder_pending_payments st) [0..<window_len - epoch_slots]) (\<lambda>ps.
     bindR (foldR (\<lambda>ps i. idx_set ps i BuilderPendingPayment_default) ps [window_len - epoch_slots..<window_len]) (\<lambda>ps.
     Inr (st\<lparr>builder_pending_payments := ps\<rparr>)))"

definition process_builder_pending_payments :: "preset \<Rightarrow> BeaconState \<Rightarrow> BeaconState tres" where
  "process_builder_pending_payments p st =
     (let window_len = length (builder_pending_payments st) in
      if window_len = 0 then Inr st
      else
      let epoch_slots = min (SLOTS_PER_EPOCH p) window_len in
      bindR (settle_builder_payment_window p st epoch_slots) (\<lambda>st.
      advance_builder_payment_window st epoch_slots window_len))"

section \<open>Window loops\<close>

lemma shift_loop:
  "m + k \<le> length xs \<Longrightarrow>
     foldR (\<lambda>xs i. bindR (idx xs (i + k)) (\<lambda>x. idx_set xs i x)) xs [0..<m] = Inr (take m (drop k xs) @ drop m xs)"
proof (induction m)
  case 0
  then show ?case by simp
next
  case (Suc m)
  let ?ys = "take m (drop k xs) @ drop m xs"
  have "?ys ! (m + k) = xs ! (m + k)" using Suc.prems by (simp add: nth_append)
  moreover have "drop m xs = xs ! m # drop (Suc m) xs" using Suc.prems by (simp add: Cons_nth_drop_Suc)
  then have "?ys[m := xs ! (m + k)] = take (Suc m) (drop k xs) @ drop (Suc m) xs"
    using Suc.prems by (simp add: list_update_append take_Suc_conv_app_nth add.commute)
  ultimately show ?case
    using Suc by (simp add: foldR_append idx_def idx_set_def)
qed

lemma fill_loop:
  "a \<le> b \<Longrightarrow> b \<le> length xs \<Longrightarrow>
     foldR (\<lambda>xs i. idx_set xs i v) xs [a..<b] = Inr (take a xs @ replicate (b - a) v @ drop b xs)"
proof (induction b)
  case 0
  then show ?case by simp
next
  case (Suc b)
  show ?case
  proof (cases "a = Suc b")
    case True
    then show ?thesis by simp
  next
    case False
    let ?ys = "take a xs @ replicate (b - a) v @ drop b xs"
    have "foldR (\<lambda>xs i. idx_set xs i v) xs [a..<b] = Inr ?ys" using Suc False by simp
    moreover have "drop b xs = xs ! b # drop (Suc b) xs" using Suc.prems by (simp add: Cons_nth_drop_Suc)
    then have "?ys[b := v] = take a xs @ replicate (Suc b - a) v @ drop (Suc b) xs"
      using Suc.prems False by (simp add: list_update_append Suc_diff_le replicate_app_Cons_same)
    ultimately show ?thesis using Suc.prems False by (simp add: foldR_append idx_set_def)
  qed
qed

lemma window_len: "BUILDER_PAYMENT_WINDOW_LEN p = 2 * SLOTS_PER_EPOCH p"
  by (simp add: BUILDER_PAYMENT_WINDOW_LEN_def)

lemma advance_window_eq:
  assumes "length (builder_pending_payments st) = 2 * k"
  shows "advance_builder_payment_window st k (2 * k) =
    Inr (st\<lparr>builder_pending_payments := drop k (builder_pending_payments st) @ replicate k BuilderPendingPayment_default\<rparr>)"
  using assms by (simp add: advance_builder_payment_window_def shift_loop fill_loop)

section \<open>Settling\<close>

lemma default_payment_ok: "BuilderPendingPayment_ok BuilderPendingPayment_default"
  by (simp add: BuilderPendingPayment_default_def BuilderPendingPayment_ok_iff BuilderPendingWithdrawal_ok_iff)

lemma queue_withdrawal_eq_Inr [res_simps]:
  "queue_builder_pending_withdrawal st w = Inr st' \<longleftrightarrow> length (builder_pending_withdrawals st) < BUILDER_PENDING_WITHDRAWALS_LIMIT
     \<and> st' = st\<lparr>builder_pending_withdrawals := builder_pending_withdrawals st @ [w]\<rparr>"
  by (auto simp: queue_builder_pending_withdrawal_def res_simps)

lemma queue_withdrawal_safe:
  assumes "state_ok p st" and "BuilderPendingWithdrawal_ok w"
  shows "safe (queue_builder_pending_withdrawal st w) (\<lambda>st'. state_ok p st'
    \<and> st' = st\<lparr>builder_pending_withdrawals := builder_pending_withdrawals st @ [w]\<rparr>)"
proof -
  have "state_ok p (st\<lparr>builder_pending_withdrawals := builder_pending_withdrawals st @ [w]\<rparr>)"
    if "length (builder_pending_withdrawals st) < BUILDER_PENDING_WITHDRAWALS_LIMIT"
    using that assms(2) state_ok_builder_pending_withdrawals(2) [OF assms(1)]
    by (intro state_ok_upd_builder_pending_withdrawals [OF assms(1)]) auto
  then show ?thesis by (simp add: queue_builder_pending_withdrawal_def safe_simps res_simps)
qed

lemma state_ok_set_payment:
  assumes "state_ok p st" and "BuilderPendingPayment_ok q"
  shows "state_ok p (st\<lparr>builder_pending_payments := (builder_pending_payments st)[i := q]\<rparr>)"
  by (rule state_ok_upd_builder_pending_payments [OF assms(1)])
    (simp_all add: state_ok_builder_pending_payments(1) [OF assms(1)]
      set_update_all [OF state_ok_builder_pending_payments(2) [OF assms(1)] assms(2)])

lemma settle_payment_safe:
  assumes ok: "state_ok p st"
  shows "safe (settle_builder_payment st i) (\<lambda>st'. state_ok p st' \<and> chain_frame st' = chain_frame st)"
proof (cases "i < length (builder_pending_payments st)")
  case True
  then have "BuilderPendingPayment_ok (builder_pending_payments st ! i)"
    using state_ok_builder_pending_payments(2) [OF ok] nth_mem by blast
  then have w: "BuilderPendingWithdrawal_ok (bpp_withdrawal (builder_pending_payments st ! i))"
    by (simp add: BuilderPendingPayment_ok_iff)
  have set0: "state_ok p (s\<lparr>builder_pending_payments := (builder_pending_payments s)[i := BuilderPendingPayment_default]\<rparr>)"
    if "state_ok p s" for s
    by (rule state_ok_set_payment [OF that default_payment_ok])
  have "safe (queue_builder_pending_withdrawal st (bpp_withdrawal (builder_pending_payments st ! i)))
      (\<lambda>s. safe (idx_set (builder_pending_payments s) i BuilderPendingPayment_default)
        (\<lambda>ps. state_ok p (s\<lparr>builder_pending_payments := ps\<rparr>) \<and> chain_frame (s\<lparr>builder_pending_payments := ps\<rparr>) = chain_frame st))"
    by (rule safe_mono [OF queue_withdrawal_safe [OF ok w]])
      (use True in \<open>auto simp: safe_idx_set dest: set0\<close>)
  then show ?thesis
    using True set0 [OF ok] by (simp add: settle_builder_payment_def safe_bind safe_or_err get_at_eq_Some safe_idx_set)
qed (simp add: settle_builder_payment_def safe_simps get_at_eq_Some)

text \<open>Everything owed by builders, queued or pending.\<close>

definition owed :: "BeaconState \<Rightarrow> nat" where
  "owed st = sum_list (map bpw_amount (builder_pending_withdrawals st))
     + sum_list (map (\<lambda>q. bpw_amount (bpp_withdrawal q)) (builder_pending_payments st))"

text \<open>
  C19: a pending payment is released exactly once. Settling moves its amount from the window to the
  withdrawal queue, so that what builders owe in total does not change, and settling the same place
  again changes nothing.
\<close>

theorem settle_payment_once:
  assumes run: "settle_builder_payment st i = Inr st'"
  shows "owed st' = owed st \<and> settle_builder_payment st' i = Inr st'
    \<and> sum_list (map bpw_amount (builder_pending_withdrawals st')) =
        sum_list (map bpw_amount (builder_pending_withdrawals st)) + bpw_amount (bpp_withdrawal (builder_pending_payments st ! i))"
proof -
  let ?q = "builder_pending_payments st ! i"
  have i: "i < length (builder_pending_payments st)"
    using run by (auto simp: settle_builder_payment_def res_simps)
  have pay: "builder_pending_payments st' = (builder_pending_payments st)[i := BuilderPendingPayment_default]"
    and wd: "builder_pending_withdrawals st' = builder_pending_withdrawals st
        @ (if bpw_amount (bpp_withdrawal ?q) > 0 then [bpp_withdrawal ?q] else [])"
    using run by (auto simp: settle_builder_payment_def res_simps split: if_splits)
  have zero: "bpw_amount (bpp_withdrawal BuilderPendingPayment_default) = 0"
    by (simp add: BuilderPendingPayment_default_def)
  let ?amounts = "map (\<lambda>q. bpw_amount (bpp_withdrawal q)) (builder_pending_payments st)"
  have "sum_list (?amounts[i := 0]) + ?amounts ! i = sum_list ?amounts"
    using i elem_le_sum_list [of i ?amounts] by (simp add: sum_list_update)
  then have "owed st' = owed st" using i by (simp add: owed_def pay wd map_update zero)
  moreover have "settle_builder_payment st' i = Inr st'"
  proof -
    have "i < length (builder_pending_payments st')" "builder_pending_payments st' ! i = BuilderPendingPayment_default"
      "(builder_pending_payments st')[i := BuilderPendingPayment_default] = builder_pending_payments st'"
      using i by (simp_all add: pay)
    then show ?thesis using zero by (simp add: settle_builder_payment_def get_at_def idx_set_def)
  qed
  ultimately show ?thesis by (simp add: wd)
qed

theorem settle_payment_once_witness:
  "\<exists>st'. settle_builder_payment (ex_state Minimal) 3 = Inr st' \<and> owed st' = owed (ex_state Minimal)
     \<and> settle_builder_payment st' 3 = Inr st'"
proof -
  have "\<exists>st'. settle_builder_payment (ex_state Minimal) 3 = Inr st'"
    by (simp add: settle_builder_payment_def get_at_def idx_set_def BUILDER_PAYMENT_WINDOW_LEN_def SLOTS_PER_EPOCH_def ex_payment_def)
  then obtain st' where run: "settle_builder_payment (ex_state Minimal) 3 = Inr st'" ..
  then show ?thesis using settle_payment_once [OF run] by blast
qed

section \<open>The epoch boundary\<close>

lemma quorum_threshold_safe: "safe (get_builder_payment_quorum_threshold p st) (\<lambda>_. True)"
  by (auto simp: get_builder_payment_quorum_threshold_def Let_def safe_simps intro!: safe_mono [OF get_total_active_balance_safe])

lemma quorum_threshold_frame [simp]:
  "get_builder_payment_quorum_threshold p (st\<lparr>builder_pending_withdrawals := ws\<rparr>) = get_builder_payment_quorum_threshold p st"
  by (simp add: get_builder_payment_quorum_threshold_def get_total_active_balance_def get_total_balance_def validator_def
      get_active_validator_indices_def get_current_epoch_def)

lemma settle_loop:
  assumes "get_builder_payment_quorum_threshold p st = Inr t"
    and "foldR (settle_builder_payment_if_quorum p) (st\<lparr>builder_pending_withdrawals := ws\<rparr>) qs = Inr st'"
  shows "st' = st\<lparr>builder_pending_withdrawals := ws @ map bpp_withdrawal (filter (\<lambda>q. t \<le> bpp_weight q) qs)\<rparr>"
  using assms(2)
proof (induction qs arbitrary: ws)
  case Nil
  then show ?case by simp
next
  case (Cons q qs)
  have "foldR (settle_builder_payment_if_quorum p)
      (st\<lparr>builder_pending_withdrawals := ws @ (if t \<le> bpp_weight q then [bpp_withdrawal q] else [])\<rparr>) qs = Inr st'"
    using Cons.prems assms(1)
    by (auto simp: settle_builder_payment_if_quorum_def [of p "st\<lparr>builder_pending_withdrawals := ws\<rparr>" q] res_simps split: if_splits)
  from Cons.IH [OF this] show ?case by simp
qed

lemma settle_window_safe:
  assumes ok: "state_ok p st"
  shows "safe (settle_builder_payment_window p st k) (\<lambda>s. state_ok p s \<and> chain_frame s = chain_frame st
    \<and> builder_pending_payments s = builder_pending_payments st)"
  unfolding settle_builder_payment_window_def
proof (rule safe_foldR)
  fix s q assume q: "q \<in> set (take k (builder_pending_payments st))"
    and s: "state_ok p s \<and> chain_frame s = chain_frame st \<and> builder_pending_payments s = builder_pending_payments st"
  have "BuilderPendingPayment_ok q" using state_ok_builder_pending_payments(2) [OF ok] in_set_takeD [OF q] by blast
  then have w: "BuilderPendingWithdrawal_ok (bpp_withdrawal q)" by (simp add: BuilderPendingPayment_ok_iff)
  show "safe (settle_builder_payment_if_quorum p s q) (\<lambda>s. state_ok p s \<and> chain_frame s = chain_frame st
      \<and> builder_pending_payments s = builder_pending_payments st)"
    unfolding settle_builder_payment_if_quorum_def safe_bind
    by (rule safe_mono [OF quorum_threshold_safe]) (use s w in \<open>auto intro!: safe_mono [OF queue_withdrawal_safe]\<close>)
qed (simp add: ok)

lemma process_payments_eq:
  assumes "state_ok p st"
  shows "process_builder_pending_payments p st =
    bindR (settle_builder_payment_window p st (SLOTS_PER_EPOCH p)) (\<lambda>s.
      advance_builder_payment_window s (SLOTS_PER_EPOCH p) (2 * SLOTS_PER_EPOCH p))"
  using state_ok_builder_pending_payments(1) [OF assms] slots_per_epoch_pos [of p]
  by (simp add: process_builder_pending_payments_def Let_def window_len not_le del: slots_per_epoch_pos)

lemma advance_window_ok:
  assumes "state_ok p s"
  shows "state_ok p (s\<lparr>builder_pending_payments := drop (SLOTS_PER_EPOCH p) (builder_pending_payments s)
    @ replicate (SLOTS_PER_EPOCH p) BuilderPendingPayment_default\<rparr>)"
  using state_ok_builder_pending_payments [OF assms] default_payment_ok
  by (intro state_ok_upd_builder_pending_payments [OF assms]) (auto simp: window_len dest: in_set_dropD)

lemma builder_payments_safe:
  assumes ok: "state_ok p st"
  shows "safe (process_builder_pending_payments p st) (\<lambda>st'. state_ok p st' \<and> chain_frame st' = chain_frame st)"
  unfolding process_payments_eq [OF ok] safe_bind
proof (rule safe_mono [OF settle_window_safe [OF ok]])
  fix s assume s: "state_ok p s \<and> chain_frame s = chain_frame st \<and> builder_pending_payments s = builder_pending_payments st"
  then have "length (builder_pending_payments s) = 2 * SLOTS_PER_EPOCH p"
    using state_ok_builder_pending_payments(1) [of p s] by (simp add: window_len)
  then show "safe (advance_builder_payment_window s (SLOTS_PER_EPOCH p) (2 * SLOTS_PER_EPOCH p))
      (\<lambda>st'. state_ok p st' \<and> chain_frame st' = chain_frame st)"
    using s advance_window_ok [of p s] by (simp add: advance_window_eq)
qed

interpretation builder_payments: phase X p "process_builder_pending_payments p" for X p
  by unfold_locales (rule builder_payments_safe)

section \<open>The window as a map from slots\<close>

text \<open>The abstract view of the window: the pending payment of a slot, while it is tracked.\<close>

definition payment_of :: "preset \<Rightarrow> BeaconState \<Rightarrow> Slot \<Rightarrow> BuilderPendingPayment option" where
  "payment_of p st sl = map_option (\<lambda>i. builder_pending_payments st ! i) (builder_payment_index_for_slot p st sl)"

lemma payment_index_lt:
  "builder_payment_index_for_slot p st sl = Some i \<Longrightarrow> i < BUILDER_PAYMENT_WINDOW_LEN p"
  using less_le_trans [OF mod_less_divisor [OF slots_per_epoch_pos], of p "2 * SLOTS_PER_EPOCH p" sl]
  by (auto simp: builder_payment_index_for_slot_def Let_def window_len split: if_splits)

text \<open>
  C20: the two-epoch payment window implements a map from slots to pending payments. Processing an
  epoch boundary and entering the next epoch keeps the payment of every slot of the epoch just ended,
  starts every slot of the new epoch without a payment, forgets older slots, and queues the withdrawals
  of exactly those forgotten payments whose weight reached the quorum.
\<close>

theorem payment_window_refines:
  assumes ok: "state_ok p st" and run: "process_builder_pending_payments p st = Inr st'"
    and s: "epoch_of p sl' = get_current_epoch p st + 1"
    and t: "get_builder_payment_quorum_threshold p st = Inr t"
  shows "payment_of p (st'\<lparr>slot := sl'\<rparr>) sl =
      (if epoch_of p sl = get_current_epoch p st then payment_of p st sl
       else if epoch_of p sl = get_current_epoch p st + 1 then Some BuilderPendingPayment_default
       else None)
    \<and> builder_pending_withdrawals st' = builder_pending_withdrawals st
        @ map bpp_withdrawal (filter (\<lambda>q. t \<le> bpp_weight q) (take (SLOTS_PER_EPOCH p) (builder_pending_payments st)))"
proof -
  let ?S = "SLOTS_PER_EPOCH p" and ?ps = "builder_pending_payments st"
  have len: "length ?ps = 2 * ?S" using state_ok_builder_pending_payments(1) [OF ok] by (simp add: window_len)
  obtain s1 where settle: "foldR (settle_builder_payment_if_quorum p)
      (st\<lparr>builder_pending_withdrawals := builder_pending_withdrawals st\<rparr>) (take ?S ?ps) = Inr s1"
    and adv: "advance_builder_payment_window s1 ?S (2 * ?S) = Inr st'"
    using run by (auto simp: process_payments_eq [OF ok] settle_builder_payment_window_def bindR_eq_Inr)
  note s1 = settle_loop [OF t settle]
  have st': "st' = s1\<lparr>builder_pending_payments := drop ?S ?ps @ replicate ?S BuilderPendingPayment_default\<rparr>"
    using adv s1 len by (simp add: advance_window_eq)
  have "sl mod ?S < ?S" by simp
  then have "payment_of p (st'\<lparr>slot := sl'\<rparr>) sl =
      (if epoch_of p sl = get_current_epoch p st then payment_of p st sl
       else if epoch_of p sl = get_current_epoch p st + 1 then Some BuilderPendingPayment_default else None)"
    using s len
    by (simp add: payment_of_def builder_payment_index_for_slot_def Let_def get_previous_epoch_def get_current_epoch_def
        GENESIS_EPOCH_def st' nth_append)
  then show ?thesis by (simp add: st' s1)
qed

lemma ex_threshold: "get_builder_payment_quorum_threshold Minimal (ex_state Minimal) = Inr 9600000000"
  by (simp add: get_builder_payment_quorum_threshold_def ex_total SLOTS_PER_EPOCH_def checked_mul_def u64_max_def
      BUILDER_PAYMENT_THRESHOLD_NUMERATOR_def BUILDER_PAYMENT_THRESHOLD_DENOMINATOR_def)

theorem payment_window_refines_witness:
  "\<exists>st'. process_builder_pending_payments Minimal (ex_state Minimal) = Inr st'
     \<and> payment_of Minimal (st'\<lparr>slot := 48\<rparr>) 41 = payment_of Minimal (ex_state Minimal) 41
     \<and> payment_of Minimal (st'\<lparr>slot := 48\<rparr>) 49 = Some BuilderPendingPayment_default"
proof -
  have low: "settle_builder_payment_if_quorum Minimal (ex_state Minimal) ex_payment = Inr (ex_state Minimal)"
    by (simp add: settle_builder_payment_if_quorum_def ex_threshold ex_payment_def)
  have "settle_builder_payment_window Minimal (ex_state Minimal) (SLOTS_PER_EPOCH Minimal) = Inr (ex_state Minimal)"
    unfolding settle_builder_payment_window_def by (rule foldR_fixpoint) (auto simp: low dest: in_set_takeD)
  then obtain st' where run: "process_builder_pending_payments Minimal (ex_state Minimal) = Inr st'"
    by (simp add: process_payments_eq [OF ex_state_ok] advance_window_eq window_len)
  have e: "epoch_of Minimal 48 = get_current_epoch Minimal (ex_state Minimal) + 1"
    by (simp add: ex_epochs epoch_of_def SLOTS_PER_EPOCH_def)
  show ?thesis
    using run payment_window_refines [OF ex_state_ok run e ex_threshold, of 41]
      payment_window_refines [OF ex_state_ok run e ex_threshold, of 49]
    by (simp add: ex_epochs epoch_of_def SLOTS_PER_EPOCH_def)
qed

end
