(* ===== verification/Epoch.thy ===== *)
theory Epoch
  imports Builder_Payments
begin

text \<open>
  The remaining phases of an epoch boundary (\<open>epoch/windows.rs\<close>, \<open>epoch/resets.rs\<close>,
  \<open>epoch/sync_committees.rs\<close>) and their sequence (\<open>epoch.rs\<close>). The whole of epoch processing keeps the
  state invariant and cannot panic.
\<close>

section \<open>Rolling windows (epoch/windows.rs)\<close>

definition checked_slot_offset :: "Slot \<Rightarrow> usize \<Rightarrow> Slot tres" where
  "checked_slot_offset sl offset = or_err (checked_add sl offset) (ArithmeticOverflow Arith_Slot)"

text \<open>The body of the loop of \<open>process_proposer_lookahead\<close> that fills the new epoch.\<close>

definition fill_proposer_slot ::
    "('g1, 'g2, 'gt) ext \<Rightarrow> preset \<Rightarrow> ValidatorIndex list \<Rightarrow> Bytes32 \<Rightarrow> Slot \<Rightarrow> usize \<Rightarrow> BeaconState \<Rightarrow> usize \<Rightarrow> BeaconState tres" where
  "fill_proposer_slot X p indices seed next_start_slot tail_base st offset =
     bindR (checked_slot_offset next_start_slot offset) (\<lambda>sl.
     let slot_seed = ext_sha256 X (seed @ to_le_bytes 8 sl) in
     bindR (compute_proposer_index X p st indices slot_seed) (\<lambda>proposer.
     bindR (idx_set (proposer_lookahead st) (tail_base + offset) proposer) (\<lambda>la.
     Inr (st\<lparr>proposer_lookahead := la\<rparr>))))"

definition process_proposer_lookahead :: "('g1, 'g2, 'gt) ext \<Rightarrow> preset \<Rightarrow> BeaconState \<Rightarrow> BeaconState tres" where
  "process_proposer_lookahead X p st =
     (let current = epoch_of p (slot st) in
      bindR (checked_epoch_add current (1 + MIN_SEED_LOOKAHEAD)) (\<lambda>next.
      bindR (active_unslashed_validator_indices st next) (\<lambda>indices.
      bindR (seed_at X p st next DOMAIN_BEACON_PROPOSER) (\<lambda>seed.
      let lookahead_len = length (proposer_lookahead st);
          epoch_slots = SLOTS_PER_EPOCH p
      in
      if lookahead_len < epoch_slots then Inr st
      else
      bindR (foldR (\<lambda>la i. bindR (idx la (i + epoch_slots)) (\<lambda>x. idx_set la i x))
               (proposer_lookahead st) [0..<lookahead_len - epoch_slots]) (\<lambda>la.
      bindR (reject (indices = []) (BlockErr Block_EmptyActiveValidatorSet)) (\<lambda>_.
      bindR (checked_start_slot p next) (\<lambda>next_start_slot.
      foldR (fill_proposer_slot X p indices seed next_start_slot (lookahead_len - epoch_slots))
        (st\<lparr>proposer_lookahead := la\<rparr>) [0..<epoch_slots])))))))"

definition advance_ptc_window :: "preset \<Rightarrow> BeaconState \<Rightarrow> usize \<Rightarrow> BeaconState tres" where
  "advance_ptc_window p st len =
     bindR (foldR (\<lambda>w i. bindR (idx w (i + SLOTS_PER_EPOCH p)) (\<lambda>x. idx_set w i x))
              (ptc_window st) [0..<len - SLOTS_PER_EPOCH p]) (\<lambda>w.
     Inr (st\<lparr>ptc_window := w\<rparr>))"

text \<open>The body of the loop of \<open>process_ptc_window\<close>.\<close>

definition fill_ptc_slot ::
    "('g1, 'g2, 'gt) ext \<Rightarrow> preset \<Rightarrow> Slot \<Rightarrow> usize \<Rightarrow> BeaconState \<Rightarrow> usize \<Rightarrow> BeaconState tres" where
  "fill_ptc_slot X p first_slot tail_base st offset =
     bindR (checked_slot_offset first_slot offset) (\<lambda>sl.
     bindR (compute_ptc X p st sl) (\<lambda>sample.
     bindR (foldR (\<lambda>filled (i, vi). idx_set filled i vi) (replicate (PTC_SIZE p) 0)
              (take (PTC_SIZE p) (enumerated sample))) (\<lambda>filled.
     bindR (idx_set (ptc_window st) (tail_base + offset) filled) (\<lambda>w.
     Inr (st\<lparr>ptc_window := w\<rparr>)))))"

definition process_ptc_window :: "('g1, 'g2, 'gt) ext \<Rightarrow> preset \<Rightarrow> BeaconState \<Rightarrow> BeaconState tres" where
  "process_ptc_window X p st =
     (let len = length (ptc_window st) in
      if len < SLOTS_PER_EPOCH p then Inr st
      else
      bindR (advance_ptc_window p st len) (\<lambda>st.
      bindR (checked_epoch_add (epoch_of p (slot st)) (MIN_SEED_LOOKAHEAD + 1)) (\<lambda>next_epoch.
      bindR (checked_start_slot p next_epoch) (\<lambda>first_slot.
      let tail_base = len - SLOTS_PER_EPOCH p in
      foldR (fill_ptc_slot X p first_slot tail_base) st [0..<SLOTS_PER_EPOCH p]))))"

section \<open>Resets (epoch/resets.rs)\<close>

definition ring_index :: "u64 \<Rightarrow> usize \<Rightarrow> usize" where
  "ring_index epoch period = epoch mod period"

definition process_eth1_data_reset :: "preset \<Rightarrow> BeaconState \<Rightarrow> BeaconState tres" where
  "process_eth1_data_reset p st =
     bindR (u_add (epoch_of p (slot st)) 1) (\<lambda>next_epoch.
     Inr (if next_epoch mod EPOCHS_PER_ETH1_VOTING_PERIOD p = 0 then st\<lparr>eth1_data_votes := []\<rparr> else st))"

definition process_slashings_reset :: "preset \<Rightarrow> BeaconState \<Rightarrow> BeaconState tres" where
  "process_slashings_reset p st =
     bindR (u_add (epoch_of p (slot st)) 1) (\<lambda>next_epoch.
     bindR (idx_set (slashings st) (ring_index next_epoch (EPOCHS_PER_SLASHINGS_VECTOR p)) 0) (\<lambda>s.
     Inr (st\<lparr>slashings := s\<rparr>)))"

definition process_randao_mixes_reset :: "preset \<Rightarrow> BeaconState \<Rightarrow> BeaconState tres" where
  "process_randao_mixes_reset p st =
     (let current_epoch = epoch_of p (slot st) in
      bindR (u_add current_epoch 1) (\<lambda>n.
      let next_idx = ring_index n (EPOCHS_PER_HISTORICAL_VECTOR p);
          current_idx = ring_index current_epoch (EPOCHS_PER_HISTORICAL_VECTOR p)
      in
      bindR (idx (randao_mixes st) current_idx) (\<lambda>mix.
      bindR (idx_set (randao_mixes st) next_idx mix) (\<lambda>mixes.
      Inr (st\<lparr>randao_mixes := mixes\<rparr>)))))"

text \<open>The fields \<open>block_roots\<close> and \<open>state_roots\<close> are vectors of roots; this is their type and value.\<close>

definition roots_ty :: "preset \<Rightarrow> ssz_ty" where
  "roots_ty p = TVector Root_ty (SLOTS_PER_HISTORICAL_ROOT p)"

definition roots_val :: "Root list \<Rightarrow> ssz_val" where
  "roots_val rs = VSeq (map VBytes rs)"

definition process_historical_summaries_update :: "('g1, 'g2, 'gt) ext \<Rightarrow> preset \<Rightarrow> BeaconState \<Rightarrow> BeaconState tres" where
  "process_historical_summaries_update X p st =
     bindR (u_add (epoch_of p (slot st)) 1) (\<lambda>next_epoch.
     let boundary = SLOTS_PER_HISTORICAL_ROOT p div SLOTS_PER_EPOCH p in
     if next_epoch mod boundary \<noteq> 0 then Inr st
     else
     bindR (tree_root_of X (roots_ty p) (roots_val (block_roots st)) Mer_BlockRoots) (\<lambda>block_summary_root.
     bindR (tree_root_of X (roots_ty p) (roots_val (state_roots st)) Mer_StateRoots) (\<lambda>state_summary_root.
     bindR (or_err (list_push HISTORICAL_ROOTS_LIMIT (historical_summaries st)
              \<lparr>hs_block_summary_root = block_summary_root, hs_state_summary_root = state_summary_root\<rparr>)
              (BoundedListFull BL_HistoricalSummaries)) (\<lambda>hs.
     Inr (st\<lparr>historical_summaries := hs\<rparr>)))))"

definition process_participation_flag_updates :: "BeaconState \<Rightarrow> BeaconState tres" where
  "process_participation_flag_updates st =
     bindR (foldR (\<lambda>flags _. or_err (list_push VALIDATOR_REGISTRY_LIMIT flags ParticipationFlags_NONE)
                      (BoundedListFull BL_CurrentEpochParticipation)) [] [0..<length (validators st)]) (\<lambda>flags.
     Inr (st\<lparr>previous_epoch_participation := current_epoch_participation st, current_epoch_participation := flags\<rparr>))"

section \<open>Sync committees (epoch/sync\_committees.rs)\<close>

definition get_next_sync_committee_indices ::
    "('g1, 'g2, 'gt) ext \<Rightarrow> preset \<Rightarrow> BeaconState \<Rightarrow> ValidatorIndex list tres" where
  "get_next_sync_committee_indices X p st =
     bindR (checked_epoch_add (epoch_of p (slot st)) 1) (\<lambda>epoch.
     let active = get_active_validator_indices st epoch in
     bindR (get_seed X p st epoch DOMAIN_SYNC_COMMITTEE) (\<lambda>seed.
     compute_balance_weighted_selection X p st active seed (SYNC_COMMITTEE_SIZE p) True))"

definition get_next_sync_committee :: "('g1, 'g2, 'gt) ext \<Rightarrow> preset \<Rightarrow> BeaconState \<Rightarrow> SyncCommittee tres" where
  "get_next_sync_committee X p st =
     bindR (get_next_sync_committee_indices X p st) (\<lambda>indices.
     bindR (mapR (\<lambda>i. bindR (validator st i) (\<lambda>v. Inr (v_pubkey v))) indices) (\<lambda>pubkeys.
     bindR (aggregate_pubkeys X pubkeys) (\<lambda>aggregate_pubkey.
     bindR (foldR (\<lambda>pk_vec (i, pk). idx_set pk_vec i pk) (replicate (SYNC_COMMITTEE_SIZE p) (replicate 48 0))
              (take (SYNC_COMMITTEE_SIZE p) (enumerated pubkeys))) (\<lambda>pk_vec.
     Inr \<lparr>sc_pubkeys = pk_vec, sc_aggregate_pubkey = aggregate_pubkey\<rparr>))))"

definition process_sync_committee_updates :: "('g1, 'g2, 'gt) ext \<Rightarrow> preset \<Rightarrow> BeaconState \<Rightarrow> BeaconState tres" where
  "process_sync_committee_updates X p st =
     bindR (checked_epoch_add (epoch_of p (slot st)) 1) (\<lambda>next_epoch.
     if next_epoch mod EPOCHS_PER_SYNC_COMMITTEE_PERIOD p = 0 then
       bindR (get_next_sync_committee X p st) (\<lambda>new_next_sync_committee.
       Inr (st\<lparr>current_sync_committee := next_sync_committee st, next_sync_committee := new_next_sync_committee\<rparr>))
     else Inr st)"

section \<open>All phases in order (epoch.rs)\<close>

definition process_epoch :: "('g1, 'g2, 'gt) ext \<Rightarrow> preset \<Rightarrow> BeaconState \<Rightarrow> BeaconState tres" where
  "process_epoch X p st =
     bindR (process_justification_and_finalization p st) (\<lambda>st.
     bindR (process_inactivity_updates p st) (\<lambda>st.
     bindR (process_rewards_and_penalties p st) (\<lambda>st.
     bindR (process_registry_updates p st) (\<lambda>st.
     bindR (process_slashings p st) (\<lambda>st.
     bindR (process_eth1_data_reset p st) (\<lambda>st.
     bindR (process_pending_deposits X p st) (\<lambda>st.
     bindR (process_pending_consolidations p st) (\<lambda>st.
     bindR (process_builder_pending_payments p st) (\<lambda>st.
     bindR (process_effective_balance_updates st) (\<lambda>st.
     bindR (process_slashings_reset p st) (\<lambda>st.
     bindR (process_randao_mixes_reset p st) (\<lambda>st.
     bindR (process_historical_summaries_update X p st) (\<lambda>st.
     bindR (process_participation_flag_updates st) (\<lambda>st.
     bindR (process_sync_committee_updates X p st) (\<lambda>st.
     bindR (process_proposer_lookahead X p st) (\<lambda>st.
     process_ptc_window X p st))))))))))))))))"

section \<open>Rolling windows keep the invariant\<close>

lemma copy_loop:
  "length xs \<le> length ys \<Longrightarrow>
     foldR (\<lambda>ys (i, v). idx_set ys i v) ys (enumerated xs) = Inr (xs @ drop (length xs) ys)"
proof (induction xs rule: rev_induct)
  case (snoc x xs)
  then have "drop (length xs) ys = ys ! length xs # drop (Suc (length xs)) ys" by (simp add: Cons_nth_drop_Suc)
  then show ?case using snoc by (simp add: enumerate_append_eq foldR_append idx_set_def)
qed simp

lemma take_enumerated: "length xs = n \<Longrightarrow> take n (enumerated xs) = enumerated xs"
  by simp

lemma registry_index_u64: "state_ok p st \<Longrightarrow> i < length (validators st) \<Longrightarrow> i \<le> u64_max"
  using state_ok_validators(1) [of p st] by (simp add: VALIDATOR_REGISTRY_LIMIT_def u64_max_def)

lemma state_ok_set_lookahead:
  assumes "state_ok p st" and "v \<le> u64_max"
  shows "state_ok p (st\<lparr>proposer_lookahead := (proposer_lookahead st)[i := v]\<rparr>)"
  by (rule state_ok_upd_proposer_lookahead [OF assms(1)])
    (simp_all add: state_ok_proposer_lookahead(1) [OF assms(1)] set_update_all [OF state_ok_proposer_lookahead(2) [OF assms(1)] assms(2)])

lemma state_ok_set_ptc:
  assumes "state_ok p st" and "length v = PTC_SIZE p" and "\<forall>x \<in> set v. x \<le> u64_max"
  shows "state_ok p (st\<lparr>ptc_window := (ptc_window st)[i := v]\<rparr>)"
proof -
  have "length v = PTC_SIZE p \<and> (\<forall>y \<in> set v. y \<le> u64_max)" using assms(2,3) by blast
  then show ?thesis
    by (intro state_ok_upd_ptc_window [OF assms(1)] set_update_all [OF state_ok_ptc_window(2) [OF assms(1)]])
      (simp_all add: state_ok_ptc_window(1) [OF assms(1)])
qed

lemma lookahead_len: "PROPOSER_LOOKAHEAD_LEN p = 2 * SLOTS_PER_EPOCH p"
  by (simp add: PROPOSER_LOOKAHEAD_LEN_def MIN_SEED_LOOKAHEAD_def)

lemma ptc_window_len: "PTC_WINDOW_LEN p = 3 * SLOTS_PER_EPOCH p"
  by (simp add: PTC_WINDOW_LEN_def MIN_SEED_LOOKAHEAD_def)

lemma fill_proposer_safe:
  assumes X: "ext_ok X" and ok: "state_ok p st" and sub: "set is \<subseteq> {..<length (validators st)}"
    and k: "k < SLOTS_PER_EPOCH p"
  shows "safe (fill_proposer_slot X p is seed sl0 (SLOTS_PER_EPOCH p) st k) (\<lambda>st'. state_ok p st'
    \<and> chain_frame st' = chain_frame st \<and> validators st' = validators st)"
proof -
  have i: "j \<le> u64_max" if "j \<in> set is" for j using registry_index_u64 [OF ok] sub that by blast
  have "SLOTS_PER_EPOCH p + k < length (proposer_lookahead st)"
    using k state_ok_proposer_lookahead(1) [OF ok] by (simp add: lookahead_len)
  then show ?thesis
    unfolding fill_proposer_slot_def Let_def safe_bind checked_slot_offset_def safe_or_err
    by (auto intro!: safe_mono [OF compute_proposer_index_safe [OF X]] state_ok_set_lookahead [OF ok] i simp: safe_idx_set)
qed

lemma fill_proposers_safe:
  assumes X: "ext_ok X" and ok: "state_ok p st" and sub: "set is \<subseteq> {..<length (validators st)}"
  shows "safe (foldR (fill_proposer_slot X p is seed sl0 (SLOTS_PER_EPOCH p)) st [0..<SLOTS_PER_EPOCH p])
    (\<lambda>st'. state_ok p st' \<and> chain_frame st' = chain_frame st \<and> validators st' = validators st)"
  by (rule safe_foldR) (use ok sub in \<open>auto intro!: safe_mono [OF fill_proposer_safe [OF X]]\<close>)

lemma lookahead_shift_ok:
  assumes ok: "state_ok p st"
  shows "state_ok p (st\<lparr>proposer_lookahead := drop (SLOTS_PER_EPOCH p) (proposer_lookahead st)
    @ drop (SLOTS_PER_EPOCH p) (proposer_lookahead st)\<rparr>)"
  using state_ok_proposer_lookahead [OF ok]
  by (intro state_ok_upd_proposer_lookahead [OF ok]) (auto simp: lookahead_len dest: in_set_dropD)

lemma lookahead_unfold:
  assumes ok: "state_ok p st"
  shows "process_proposer_lookahead X p st =
     (bindR (checked_epoch_add (epoch_of p (slot st)) 2) (\<lambda>next.
      bindR (active_unslashed_validator_indices st next) (\<lambda>indices.
      bindR (seed_at X p st next DOMAIN_BEACON_PROPOSER) (\<lambda>seed.
      bindR (reject (indices = []) (BlockErr Block_EmptyActiveValidatorSet)) (\<lambda>_.
      bindR (checked_start_slot p next) (\<lambda>next_start_slot.
      foldR (fill_proposer_slot X p indices seed next_start_slot (SLOTS_PER_EPOCH p))
        (st\<lparr>proposer_lookahead := drop (SLOTS_PER_EPOCH p) (proposer_lookahead st)
            @ drop (SLOTS_PER_EPOCH p) (proposer_lookahead st)\<rparr>) [0..<SLOTS_PER_EPOCH p]))))))"
proof -
  have len: "length (proposer_lookahead st) = 2 * SLOTS_PER_EPOCH p"
    using state_ok_proposer_lookahead(1) [OF ok] by (simp add: lookahead_len)
  then show ?thesis
    by (simp add: process_proposer_lookahead_def Let_def shift_loop MIN_SEED_LOOKAHEAD_def numeral_2_eq_2)
qed

lemma lookahead_safe:
  assumes X: "ext_ok X" and ok: "state_ok p st"
  shows "safe (process_proposer_lookahead X p st) (\<lambda>st'. state_ok p st' \<and> chain_frame st' = chain_frame st)"
  unfolding lookahead_unfold [OF ok] Let_def safe_bind checked_epoch_add_def safe_or_err safe_reject checked_start_slot_def
  by (intro allI impI safe_mono [OF active_unslashed_safe] safe_mono [OF seed_at_safe [OF ok X]]
      safe_mono [OF fill_proposers_safe [OF X lookahead_shift_ok [OF ok]]]) simp_all

interpretation lookahead: phase X p "process_proposer_lookahead X p" for X p
  by unfold_locales (rule lookahead_safe)

lemma fill_ptc_safe:
  assumes X: "ext_ok X" and ok: "state_ok p st" and k: "k < SLOTS_PER_EPOCH p"
  shows "safe (fill_ptc_slot X p sl0 (2 * SLOTS_PER_EPOCH p) st k) (\<lambda>st'. state_ok p st' \<and> chain_frame st' = chain_frame st)"
proof -
  have pos: "2 * SLOTS_PER_EPOCH p + k < length (ptc_window st)"
    using k state_ok_ptc_window(1) [OF ok] by (simp add: ptc_window_len)
  have "safe (foldR (\<lambda>filled (i, vi). idx_set filled i vi) (replicate (PTC_SIZE p) 0) (take (PTC_SIZE p) (enumerated js)))
      (\<lambda>filled. safe (idx_set (ptc_window st) (2 * SLOTS_PER_EPOCH p + k) filled) (\<lambda>w. safe (Inr (st\<lparr>ptc_window := w\<rparr>))
        (\<lambda>st'. state_ok p st' \<and> chain_frame st' = chain_frame st)))"
    if "set js \<subseteq> {..<length (validators st)} \<and> length js = PTC_SIZE p" for js
  proof -
    have "\<forall>j \<in> set js. j \<le> u64_max" using registry_index_u64 [OF ok] that by blast
    then have "state_ok p (st\<lparr>ptc_window := (ptc_window st)[2 * SLOTS_PER_EPOCH p + k := js]\<rparr>)"
      using state_ok_set_ptc [OF ok] that by blast
    then show ?thesis using that pos by (simp add: copy_loop safe_idx_set)
  qed
  then show ?thesis
    unfolding fill_ptc_slot_def safe_bind checked_slot_offset_def safe_or_err
    by (intro allI impI safe_mono [OF compute_ptc_safe [OF X ok]])
qed

lemma advance_ptc_eq:
  assumes ok: "state_ok p st"
  shows "advance_ptc_window p st (3 * SLOTS_PER_EPOCH p) =
    Inr (st\<lparr>ptc_window := drop (SLOTS_PER_EPOCH p) (ptc_window st) @ drop (2 * SLOTS_PER_EPOCH p) (ptc_window st)\<rparr>)"
  using state_ok_ptc_window(1) [OF ok] by (simp add: ptc_window_len advance_ptc_window_def shift_loop)

lemma advance_ptc_ok:
  assumes ok: "state_ok p st"
  shows "state_ok p (st\<lparr>ptc_window := drop (SLOTS_PER_EPOCH p) (ptc_window st) @ drop (2 * SLOTS_PER_EPOCH p) (ptc_window st)\<rparr>)"
  using state_ok_ptc_window [OF ok] 
  by (intro state_ok_upd_ptc_window [OF ok]) (auto simp: ptc_window_len dest!: in_set_dropD)

lemma ptc_window_safe:
  assumes X: "ext_ok X" and ok: "state_ok p st"
  shows "safe (process_ptc_window X p st) (\<lambda>st'. state_ok p st' \<and> chain_frame st' = chain_frame st)"
proof -
  have fill: "safe (foldR (fill_ptc_slot X p sl0 (2 * SLOTS_PER_EPOCH p)) s [0..<SLOTS_PER_EPOCH p])
      (\<lambda>st'. state_ok p st' \<and> chain_frame st' = chain_frame s)" if "state_ok p s" for sl0 s
    by (rule safe_foldR) (use that in \<open>auto intro!: safe_mono [OF fill_ptc_safe [OF X]]\<close>)
  show ?thesis
    using state_ok_ptc_window(1) [OF ok] safe_mono [OF fill [OF advance_ptc_ok [OF ok]]]
    by (simp add: process_ptc_window_def Let_def ptc_window_len advance_ptc_eq [OF ok] safe_bind checked_epoch_add_def
        checked_start_slot_def safe_or_err)
qed

interpretation ptc: phase X p "process_ptc_window X p" for X p
  by unfold_locales (rule ptc_window_safe)

section \<open>Resets and rotations keep the invariant\<close>

lemma epoch_succ_fits:
  assumes "state_ok p st"
  shows "epoch_of p (slot st) + 1 \<le> u64_max"
proof -
  have "epoch_of p (slot st) \<le> slot st div 2"
    using slots_per_epoch_pos [of p] by (cases p) (simp_all add: epoch_of_def SLOTS_PER_EPOCH_def div_le_mono2)
  then show ?thesis using state_ok_slot [OF assms] by (simp add: u64_max_def)
qed

lemma eth1_reset_safe:
  assumes ok: "state_ok p st"
  shows "safe (process_eth1_data_reset p st) (\<lambda>st'. state_ok p st' \<and> chain_frame st' = chain_frame st)"
  using epoch_succ_fits [OF ok] ok state_ok_upd_eth1_data_votes [OF ok, of "[]"]
  by (simp add: process_eth1_data_reset_def safe_simps)

interpretation eth1_reset: phase X p "process_eth1_data_reset p" for X p
  by unfold_locales (rule eth1_reset_safe)

lemma ring_index_lt: "0 < n \<Longrightarrow> ring_index e n < n"
  by (simp add: ring_index_def)

lemma ring_sizes_pos: "0 < EPOCHS_PER_SLASHINGS_VECTOR p" "0 < EPOCHS_PER_HISTORICAL_VECTOR p"
  by (cases p; simp add: EPOCHS_PER_SLASHINGS_VECTOR_def EPOCHS_PER_HISTORICAL_VECTOR_def)+

lemma slashings_reset_eq:
  assumes ok: "state_ok p st"
  shows "process_slashings_reset p st =
    Inr (st\<lparr>slashings := (slashings st)[(epoch_of p (slot st) + 1) mod EPOCHS_PER_SLASHINGS_VECTOR p := 0]\<rparr>)"
  using epoch_succ_fits [OF ok] state_ok_slashings(1) [OF ok] ring_sizes_pos [of p]
  by (simp add: process_slashings_reset_def u_add_def checked_add_def ring_index_def idx_set_def)

lemma slashings_reset_safe:
  assumes ok: "state_ok p st"
  shows "safe (process_slashings_reset p st) (\<lambda>st'. state_ok p st' \<and> chain_frame st' = chain_frame st)"
proof -
  have "state_ok p (st\<lparr>slashings := (slashings st)[i := 0]\<rparr>)" for i
    by (intro state_ok_upd_slashings [OF ok] set_update_all [OF state_ok_slashings(2) [OF ok]]) (simp_all add: state_ok_slashings(1) [OF ok])
  then show ?thesis by (simp add: slashings_reset_eq [OF ok])
qed

interpretation slashings_reset: phase X p "process_slashings_reset p" for X p
  by unfold_locales (rule slashings_reset_safe)

lemma mixes_reset_eq:
  assumes ok: "state_ok p st"
  shows "process_randao_mixes_reset p st =
    Inr (st\<lparr>randao_mixes := (randao_mixes st)[(epoch_of p (slot st) + 1) mod EPOCHS_PER_HISTORICAL_VECTOR p :=
      randao_mixes st ! (epoch_of p (slot st) mod EPOCHS_PER_HISTORICAL_VECTOR p)]\<rparr>)"
  using epoch_succ_fits [OF ok] state_ok_randao_mixes(1) [OF ok] ring_sizes_pos [of p]
  by (simp add: process_randao_mixes_reset_def Let_def u_add_def checked_add_def ring_index_def idx_set_def idx_def)

lemma mixes_reset_safe:
  assumes ok: "state_ok p st"
  shows "safe (process_randao_mixes_reset p st) (\<lambda>st'. state_ok p st' \<and> chain_frame st' = chain_frame st)"
proof -
  have "length (randao_mixes st ! (e mod EPOCHS_PER_HISTORICAL_VECTOR p)) = 32" for e
    using state_ok_randao_mixes [OF ok] ring_sizes_pos [of p] by simp
  then have "state_ok p (st\<lparr>randao_mixes := (randao_mixes st)[i := randao_mixes st ! (e mod EPOCHS_PER_HISTORICAL_VECTOR p)]\<rparr>)" for i e
    by (intro state_ok_upd_randao_mixes [OF ok] set_update_all [OF state_ok_randao_mixes(2) [OF ok]])
      (simp_all add: state_ok_randao_mixes(1) [OF ok])
  then show ?thesis by (simp add: mixes_reset_eq [OF ok])
qed

interpretation mixes_reset: phase X p "process_randao_mixes_reset p" for X p
  by unfold_locales (rule mixes_reset_safe)

lemma roots_typed:
  assumes "length rs = SLOTS_PER_HISTORICAL_ROOT p" and "\<forall>r \<in> set rs. length r = 32"
  shows "well_typed (roots_ty p) (roots_val rs)"
  using assms by (simp add: roots_ty_def roots_val_def typing_simps)

lemma roots_ty_ok: "wf_ty (roots_ty p)" "merkle_ok (roots_ty p)"
  by (cases p; simp add: roots_ty_def Root_ty_def SLOTS_PER_HISTORICAL_ROOT_def u64_max_def)
    (cases p; simp add: roots_ty_def Root_ty_def SLOTS_PER_HISTORICAL_ROOT_def u64_max_def)

lemma roots_root_safe:
  assumes "ext_ok X" and "length rs = SLOTS_PER_HISTORICAL_ROOT p" and "\<forall>r \<in> set rs. length r = 32"
  shows "safe (tree_root_of X (roots_ty p) (roots_val rs) e) (\<lambda>r. length r = 32)"
  by (rule safe_tree_root_of [OF assms(1) roots_ty_ok roots_typed [OF assms(2,3)]])

lemma historical_summaries_safe:
  assumes X: "ext_ok X" and ok: "state_ok p st"
  shows "safe (process_historical_summaries_update X p st) (\<lambda>st'. state_ok p st' \<and> chain_frame st' = chain_frame st)"
proof -
  have push: "state_ok p (st\<lparr>historical_summaries := historical_summaries st @ [s]\<rparr>)"
    if "HistoricalSummary_ok s" and "length (historical_summaries st) < HISTORICAL_ROOTS_LIMIT" for s
    using that state_ok_historical_summaries [OF ok] by (intro state_ok_upd_historical_summaries [OF ok]) auto
  have roots: "safe (tree_root_of X (roots_ty p) (roots_val (block_roots st)) e) (\<lambda>r. length r = 32)"
      "safe (tree_root_of X (roots_ty p) (roots_val (state_roots st)) e) (\<lambda>r. length r = 32)" for e
    using roots_root_safe [OF X] state_ok_block_roots [OF ok] state_ok_state_roots [OF ok] by blast+
  show ?thesis
    unfolding process_historical_summaries_update_def Let_def safe_bind safe_u_add safe_if
    by (use epoch_succ_fits [OF ok] ok push in \<open>auto intro!: safe_mono [OF roots(1)] safe_mono [OF roots(2)]
        simp: safe_or_err list_push_eq_Some HistoricalSummary_ok_iff\<close>)
qed

interpretation summaries: phase X p "process_historical_summaries_update X p" for X p
  by unfold_locales (rule historical_summaries_safe)

lemma push_loop:
  "length xs + n \<le> N \<Longrightarrow> foldR (\<lambda>ys _. or_err (list_push N ys v) e) xs [0..<n] = Inr (xs @ replicate n v)"
  by (induction n) (auto simp: foldR_append list_push_def or_err_def replicate_append_same)

lemma participation_eq:
  assumes ok: "state_ok p st"
  shows "process_participation_flag_updates st = Inr (st\<lparr>previous_epoch_participation := current_epoch_participation st,
    current_epoch_participation := replicate (length (validators st)) ParticipationFlags_NONE\<rparr>)"
  using state_ok_validators(1) [OF ok] by (simp add: process_participation_flag_updates_def push_loop)

lemma participation_safe:
  assumes ok: "state_ok p st"
  shows "safe (process_participation_flag_updates st) (\<lambda>st'. state_ok p st' \<and> chain_frame st' = chain_frame st)"
  using ok by (auto simp: participation_eq [OF ok] intro!: state_upd simp: state_ok_aligned)

interpretation participation: phase X p process_participation_flag_updates for X p
  by unfold_locales (rule participation_safe)

lemma sync_indices_safe:
  assumes X: "ext_ok X" and ok: "state_ok p st"
  shows "safe (get_next_sync_committee_indices X p st) (\<lambda>is. length is = SYNC_COMMITTEE_SIZE p)"
  unfolding get_next_sync_committee_indices_def Let_def safe_bind checked_epoch_add_def safe_or_err
  by (intro allI impI safe_mono [OF get_seed_safe [OF ok X]] safe_mono [OF weighted_selection_safe [OF X]]) simp

lemma sync_committee_safe:
  assumes X: "ext_ok X" and ok: "state_ok p st"
  shows "safe (get_next_sync_committee X p st) (SyncCommittee_ok p)"
proof -
  have keys: "safe (mapR (\<lambda>i. bindR (validator st i) (\<lambda>v. Inr (v_pubkey v))) is)
      (\<lambda>pks. list_all (\<lambda>pk. length pk = 48) pks \<and> length pks = length is)" for "is"
  proof (rule safe_mapR)
    fix i
    show "safe (bindR (validator st i) (\<lambda>v. Inr (v_pubkey v))) (\<lambda>pk. length pk = 48)"
      using state_ok_validators(2) [OF ok] nth_mem [of i "validators st"] by (auto simp: safe_simps Validator_ok_iff)
  qed
  have fill: "safe (foldR (\<lambda>pk_vec (i, pk). idx_set pk_vec i pk) (replicate (SYNC_COMMITTEE_SIZE p) (replicate 48 0))
        (take (SYNC_COMMITTEE_SIZE p) (enumerated pks)))
      (\<lambda>pk_vec. safe (Inr \<lparr>sc_pubkeys = pk_vec, sc_aggregate_pubkey = a\<rparr>) (SyncCommittee_ok p))"
    if "list_all (\<lambda>pk. length pk = 48) pks" "length pks = SYNC_COMMITTEE_SIZE p" "length a = 48" for pks a
    using that by (simp add: copy_loop SyncCommittee_ok_iff list_all_iff)
  show ?thesis
    unfolding get_next_sync_committee_def safe_bind
    by (intro safe_mono [OF sync_indices_safe [OF X ok]] safe_mono [OF keys] safe_mono [OF aggregate_pubkeys_safe [OF X]] fill)
      auto
qed

lemma sync_updates_safe:
  assumes X: "ext_ok X" and ok: "state_ok p st"
  shows "safe (process_sync_committee_updates X p st) (\<lambda>st'. state_ok p st' \<and> chain_frame st' = chain_frame st)"
proof -
  have "state_ok p (st\<lparr>current_sync_committee := next_sync_committee st, next_sync_committee := c\<rparr>)" if "SyncCommittee_ok p c" for c
    using that state_ok_next_sync_committee [OF ok] ok by (intro state_upd)
  then show ?thesis
    unfolding process_sync_committee_updates_def safe_bind safe_if checked_epoch_add_def safe_or_err
    using ok by (auto intro!: safe_mono [OF sync_committee_safe [OF X ok]])
qed

interpretation sync_updates: phase X p "process_sync_committee_updates X p" for X p
  by unfold_locales (rule sync_updates_safe)

section \<open>The whole epoch boundary\<close>

lemmas epoch_phases =
  justification.phase_axioms inactivity.phase_axioms rewards.phase_axioms registry_updates.phase_axioms
  slashing_sweep.phase_axioms eth1_reset.phase_axioms deposits.phase_axioms consolidations.phase_axioms
  builder_payments.phase_axioms effective_updates.phase_axioms slashings_reset.phase_axioms
  mixes_reset.phase_axioms summaries.phase_axioms participation.phase_axioms sync_updates.phase_axioms
  lookahead.phase_axioms ptc.phase_axioms

interpretation epoch: phase X p "process_epoch X p" for X p
  unfolding process_epoch_def [abs_def] by (intro phase_seq epoch_phases)

text \<open>
  C21: epoch processing never panics, whatever the block history that led to the state: on every state
  that satisfies the invariant the seventeen phases end in a state that satisfies it again and has the
  same slot, genesis data and fork, or in a reported error. No index is out of range and no unchecked
  addition, subtraction, multiplication or division fails.
\<close>

theorem process_epoch_safe:
  assumes "ext_ok X" and "state_ok p st"
  shows "process_epoch X p st \<noteq> Inl Panic
    \<and> (\<forall>st'. process_epoch X p st = Inr st' \<longrightarrow> state_ok p st' \<and> chain_frame st' = chain_frame st)"
  using epoch.no_panic [OF assms] safeD [OF epoch.keeps [OF assms]] by blast

theorem process_epoch_safe_witness:
  "ext_ok ex_ext \<and> state_ok Minimal (ex_state Minimal) \<and> process_epoch ex_ext Minimal (ex_state Minimal) \<noteq> Inl Panic"
  using process_epoch_safe [OF ex_ext_ok ex_state_ok, of Minimal] ex_ext_ok ex_state_ok by blast

text \<open>
  C22: the randao ring buffer hands the mix on. After the reset the mix of the new epoch is the mix of
  the epoch just ended, and every other epoch still in the buffer keeps its mix; the only entry lost is
  the one a full period old.
\<close>

theorem randao_mixes_reset_correct:
  assumes ok: "state_ok p st"
  defines "e \<equiv> get_current_epoch p st"
  shows "\<exists>st'. process_randao_mixes_reset p st = Inr st'
    \<and> get_randao_mix p st' (e + 1) = get_randao_mix p st e
    \<and> (\<forall>k. k \<le> e \<longrightarrow> e + 1 < k + EPOCHS_PER_HISTORICAL_VECTOR p \<longrightarrow> get_randao_mix p st' k = get_randao_mix p st k)"
proof -
  let ?n = "EPOCHS_PER_HISTORICAL_VECTOR p"
  have "(e + 1) mod ?n \<noteq> k mod ?n" if "k \<le> e" "e + 1 < k + ?n" for k
  proof
    assume "(e + 1) mod ?n = k mod ?n"
    then have "?n dvd e + 1 - k" using that(1) by (metis mod_eq_dvd_iff_nat trans_le_add1)
    then show False using that by (auto dest!: dvd_imp_le)
  qed
  then show ?thesis
    using ring_sizes_pos(2) [of p] state_ok_randao_mixes(1) [OF ok]
    by (auto simp: mixes_reset_eq [OF ok] get_randao_mix_def idx_def e_def get_current_epoch_def)
qed

theorem randao_mixes_reset_correct_witness:
  "state_ok Minimal (ex_state Minimal) \<and> (\<exists>st'. process_randao_mixes_reset Minimal (ex_state Minimal) = Inr st')"
  using randao_mixes_reset_correct [OF ex_state_ok, of Minimal] ex_state_ok by blast

section \<open>Proposer duties\<close>

lemma active_unslashed_mem:
  assumes "active_unslashed_validator_indices st e = Inr is" and "j \<in> set is"
  shows "j < length (validators st) \<and> is_active_validator (validators st ! j) e \<and> \<not> v_slashed (validators st ! j)"
proof -
  let ?P = "\<lambda>(i, b). i < length (validators st) \<and> is_active_validator (validators st ! i) e \<and> b = (\<not> v_slashed (validators st ! i))"
  have "safe (mapR (\<lambda>index. bindR (idx (validators st) index) (\<lambda>v. Inr (index, \<not> v_slashed v))) (get_active_validator_indices st e))
      (\<lambda>ys. list_all ?P ys \<and> length ys = length (get_active_validator_indices st e))"
    by (rule safe_mapR) (simp add: safe_simps active_index_iff)
  then have "safe (active_unslashed_validator_indices st e)
      (\<lambda>is. \<forall>j \<in> set is. j < length (validators st) \<and> is_active_validator (validators st ! j) e \<and> \<not> v_slashed (validators st ! j))"
    unfolding active_unslashed_validator_indices_def safe_bind by (rule safe_mono) (auto simp: list_all_iff)
  then show ?thesis using safeD assms by fast
qed

lemma fill_proposer_inv:
  assumes X: "ext_ok X" and "fill_proposer_slot X p is seed sl0 b st k = Inr st'"
  shows "\<exists>j \<in> set is. b + k < length (proposer_lookahead st) \<and> st' = st\<lparr>proposer_lookahead := (proposer_lookahead st)[b + k := j]\<rparr>"
proof -
  from assms(2) obtain sd j where j: "compute_proposer_index X p st is sd = Inr j"
    and "b + k < length (proposer_lookahead st)" and "st' = st\<lparr>proposer_lookahead := (proposer_lookahead st)[b + k := j]\<rparr>"
    by (auto simp: fill_proposer_slot_def Let_def bindR_eq_Inr idx_set_eq_Inr)
  then show ?thesis using safeD [OF compute_proposer_index_safe [OF X] j] by blast
qed

lemma fill_proposers_inv:
  assumes X: "ext_ok X" and "foldR (fill_proposer_slot X p is seed sl0 b) st [0..<k] = Inr st'"
    and "length (proposer_lookahead st) = b + n" and "k \<le> n"
  shows "\<exists>js. length js = k \<and> set js \<subseteq> set is \<and> st' = st\<lparr>proposer_lookahead := take b (proposer_lookahead st) @ js
    @ drop (b + k) (proposer_lookahead st)\<rparr>"
  using assms(2,4)
proof (induction k arbitrary: st')
  case 0
  then have "st' = st\<lparr>proposer_lookahead := take b (proposer_lookahead st) @ [] @ drop (b + 0) (proposer_lookahead st)\<rparr>" by simp
  then show ?case by (intro exI [of _ "[]"] conjI) simp_all
next
  case (Suc k)
  let ?la = "proposer_lookahead st"
  from Suc.prems(1) obtain s where s: "foldR (fill_proposer_slot X p is seed sl0 b) st [0..<k] = Inr s"
    and step: "fill_proposer_slot X p is seed sl0 b s k = Inr st'"
    by (auto simp: foldR_append bindR_eq_Inr)
  from Suc.IH [OF s] Suc.prems(2) obtain js where js: "length js = k" "set js \<subseteq> set is"
    "s = st\<lparr>proposer_lookahead := take b ?la @ js @ drop (b + k) ?la\<rparr>" by auto
  from fill_proposer_inv [OF X step] obtain j where j: "j \<in> set is"
    "st' = s\<lparr>proposer_lookahead := (proposer_lookahead s)[b + k := j]\<rparr>" by blast
  have "drop (b + k) ?la = ?la ! (b + k) # drop (b + Suc k) ?la"
    using assms(3) Suc.prems(2) by (simp add: Cons_nth_drop_Suc)
  then have "(take b ?la @ js @ drop (b + k) ?la)[b + k := j] = take b ?la @ (js @ [j]) @ drop (b + Suc k) ?la"
    using assms(3) Suc.prems(2) js(1) by (simp add: list_update_append)
  then have "st' = st\<lparr>proposer_lookahead := take b ?la @ (js @ [j]) @ drop (b + Suc k) ?la\<rparr>"
    using j(2) js(3) by simp
  moreover have "length (js @ [j]) = Suc k" and "set (js @ [j]) \<subseteq> set is" using js(1,2) j(1) by auto
  ultimately show ?case by blast
qed

text \<open>
  C23: announced proposer duties are kept. When the epoch boundary moves the lookahead forward, the
  proposer of every slot of the epoch being entered is the one the old lookahead announced for it, and
  the duties newly announced for the epoch after it all go to validators that are active in that epoch
  and not slashed.
\<close>

theorem proposer_duties_kept:
  assumes X: "ext_ok X" and ok: "state_ok p st" and run: "process_proposer_lookahead X p st = Inr st'"
    and next_epoch: "epoch_of p sl = get_current_epoch p st + 1"
  shows "get_beacon_proposer_index p (st'\<lparr>slot := sl\<rparr>) =
      Inr (proposer_lookahead st ! (SLOTS_PER_EPOCH p + sl mod SLOTS_PER_EPOCH p))
    \<and> (\<forall>j \<in> set (drop (SLOTS_PER_EPOCH p) (proposer_lookahead st')).
          j < length (validators st) \<and> is_active_validator (validators st ! j) (get_current_epoch p st + 2)
          \<and> \<not> v_slashed (validators st ! j))
    \<and> length (proposer_lookahead st') = 2 * SLOTS_PER_EPOCH p"
proof -
  let ?S = "SLOTS_PER_EPOCH p" and ?la = "proposer_lookahead st" and ?e = "get_current_epoch p st + 2"
  have len: "length ?la = 2 * ?S" using state_ok_proposer_lookahead(1) [OF ok] by (simp add: lookahead_len)
  from run obtain "is" seed sl0 where mem: "active_unslashed_validator_indices st ?e = Inr is"
    and fold: "foldR (fill_proposer_slot X p is seed sl0 ?S) (st\<lparr>proposer_lookahead := drop ?S ?la @ drop ?S ?la\<rparr>) [0..<?S] = Inr st'"
    by (auto simp: lookahead_unfold [OF ok] checked_epoch_add_def res_simps get_current_epoch_def u64_simps split: if_splits)
  from fill_proposers_inv [OF X fold, of ?S] len obtain js where js: "length js = ?S" "set js \<subseteq> set is"
    "st' = st\<lparr>proposer_lookahead := drop ?S ?la @ js\<rparr>" by auto
  have "sl mod ?S < ?S" and "sl mod ?S < ?S + length js" by (simp_all add: trans_less_add1)
  then have "get_beacon_proposer_index p (st'\<lparr>slot := sl\<rparr>) = Inr (?la ! (?S + sl mod ?S))"
    using len by (simp add: get_beacon_proposer_index_def Let_def get_at_def js(3) nth_append)
  moreover have "j < length (validators st) \<and> is_active_validator (validators st ! j) ?e \<and> \<not> v_slashed (validators st ! j)"
    if "j \<in> set is" for j
    using active_unslashed_mem [OF mem] that by blast
  ultimately show ?thesis using js len by auto
qed

lemma ex_proposer:
  assumes "validators st = validators (ex_state p)"
  shows "\<exists>j. compute_proposer_index ex_ext p st [0, 1, 2] sd = Inr j \<and> j < 3"
proof -
  obtain c where c: "compute_shuffled_index_checked ex_ext p 0 3 sd = Inr c" "c < 3"
    using shuffled_index_eq [OF ex_ext_ok, of 3 0 p sd] bij_betw_apply [OF shuffled_bij [of ex_ext p 3 sd], of 0] by auto
  have "validator st c = Inr (ex_validator c)" and "idx [0, 1, 2] c = Inr c" and "c \<le> 2"
    using c(2) assms by (auto simp: validator_def idx_def get_at_def less_Suc_eq numeral_3_eq_3 numeral_2_eq_2)
  then have "proposer_loop ex_ext p st [0, 1, 2] sd 0 = Inr c"
    using c by (simp add: proposer_loop.simps [of _ _ _ _ _ 0] Let_def idx_def ex_ext_def checked_mul_def u64_max_def
        MAX_RANDOM_VALUE_def MAX_EFFECTIVE_BALANCE_def numeral_3_eq_3)
  then show ?thesis using c(2) by (auto simp: compute_proposer_index_def)
qed

lemma ex_lookahead_total: "\<exists>st'. process_proposer_lookahead ex_ext Minimal (ex_state Minimal) = Inr st'"
proof -
  let ?st = "ex_state Minimal"
  have active: "active_unslashed_validator_indices ?st e = Inr [0, 1, 2]" if "e = 7" for e
    using that by (simp add: active_unslashed_validator_indices_def get_active_validator_indices_def is_active_validator_def
        idx_def FAR_FUTURE_EPOCH_def u64_max_def)
  have seed: "\<exists>sd. seed_at ex_ext Minimal ?st 7 DOMAIN_BEACON_PROPOSER = Inr sd"
    by (simp add: seed_at_def Let_def get_randao_mix_def idx_def EPOCHS_PER_HISTORICAL_VECTOR_def)
  have fill: "\<exists>st'. foldR (fill_proposer_slot ex_ext Minimal [0, 1, 2] sd 56 8) st [0..<8] = Inr st'
      \<and> validators st' = validators ?st \<and> length (proposer_lookahead st') = 16"
    if "validators st = validators ?st" "length (proposer_lookahead st) = 16" for sd st
  proof (rule foldR_total)
    fix s :: BeaconState and k assume k: "k \<in> set [0..<8::nat]" and s: "validators s = validators ?st \<and> length (proposer_lookahead s) = 16"
    obtain j where "compute_proposer_index ex_ext Minimal s [0, 1, 2] (ext_sha256 ex_ext (sd @ to_le_bytes 8 (56 + k))) = Inr j"
      using ex_proposer s by blast
    then show "\<exists>s'. fill_proposer_slot ex_ext Minimal [0, 1, 2] sd 56 8 s k = Inr s'
        \<and> validators s' = validators ?st \<and> length (proposer_lookahead s') = 16"
      using k s by (simp add: fill_proposer_slot_def checked_slot_offset_def Let_def checked_add_def u64_max_def idx_set_def)
  qed (use that in simp)
  from seed obtain sd where "seed_at ex_ext Minimal ?st 7 DOMAIN_BEACON_PROPOSER = Inr sd" ..
  moreover obtain st' where "foldR (fill_proposer_slot ex_ext Minimal [0, 1, 2] sd 56 8)
      (?st\<lparr>proposer_lookahead := drop 8 (proposer_lookahead ?st) @ drop 8 (proposer_lookahead ?st)\<rparr>) [0..<8] = Inr st'"
    using fill [of "?st\<lparr>proposer_lookahead := drop 8 (proposer_lookahead ?st) @ drop 8 (proposer_lookahead ?st)\<rparr>" sd]
    by (auto simp: lookahead_len SLOTS_PER_EPOCH_def)
  ultimately show ?thesis
    using active by (simp add: lookahead_unfold [OF ex_state_ok] checked_epoch_add_def checked_start_slot_def epoch_of_def
        SLOTS_PER_EPOCH_def checked_add_def checked_mul_def u64_max_def del: upt_Suc foldR.simps ex_state_sel(37))
qed

theorem proposer_duties_kept_witness:
  "\<exists>st'. process_proposer_lookahead ex_ext Minimal (ex_state Minimal) = Inr st'
     \<and> get_beacon_proposer_index Minimal (st'\<lparr>slot := 48\<rparr>) = Inr (proposer_lookahead (ex_state Minimal) ! 8)"
proof -
  obtain st' where run: "process_proposer_lookahead ex_ext Minimal (ex_state Minimal) = Inr st'"
    using ex_lookahead_total by blast
  have "epoch_of Minimal 48 = get_current_epoch Minimal (ex_state Minimal) + 1"
    by (simp add: epoch_of_def get_current_epoch_def SLOTS_PER_EPOCH_def)
  from proposer_duties_kept [OF ex_ext_ok ex_state_ok run this] have
    "get_beacon_proposer_index Minimal (st'\<lparr>slot := 48\<rparr>) = Inr (proposer_lookahead (ex_state Minimal) ! (SLOTS_PER_EPOCH Minimal + 48 mod SLOTS_PER_EPOCH Minimal))"
    by blast
  then show ?thesis using run by (simp add: SLOTS_PER_EPOCH_def)
qed

end
