(* ===== verification/Attestations.thy ===== *)
theory Attestations
  imports Epoch
begin

text \<open>
  Beacon attestations (\<open>state_transition/operations/attestations.rs\<close>): decoding of the committee and
  aggregation bits, validation, participation flags, the proposer reward and the weight of pending
  builder payments.
\<close>

section \<open>Definitions\<close>

record AcceptedAttestation =
  aa_attesting_indices :: "ValidatorIndex list"
  aa_participation_flags :: "usize list"
  aa_target_is_current_epoch :: bool
  aa_is_same_slot :: bool
  aa_builder_payment_index :: usize

text \<open>
  The body of the loop over committees. The position \<open>offset + i\<close> cannot overflow: a slot has at most
  64 committees of registered validators.
\<close>

definition add_committee_attesters ::
    "('g1, 'g2, 'gt) ext \<Rightarrow> preset \<Rightarrow> BeaconState \<Rightarrow> Attestation \<Rightarrow> usize \<times> ValidatorIndex list \<Rightarrow> CommitteeIndex
     \<Rightarrow> (usize \<times> ValidatorIndex list) tres" where
  "add_committee_attesters X p st attestation = (\<lambda>(offset, out) ci.
     bindR (get_beacon_committee X p st (ad_slot (att_data attestation)) ci) (\<lambda>committee.
     let before = length out;
         out = out @ map snd (filter (\<lambda>(i, vi). get_at (att_aggregation_bits attestation) (offset + i) = Some True)
                                (enumerated committee))
     in
     bindR (reject (length out = before) (OperationErr Op_AttestationParticipantsEmpty)) (\<lambda>_.
     Inr (saturating_add offset (length committee), out))))"

definition attesting_indices ::
    "('g1, 'g2, 'gt) ext \<Rightarrow> preset \<Rightarrow> BeaconState \<Rightarrow> Attestation \<Rightarrow> ValidatorIndex list tres" where
  "attesting_indices X p st attestation =
     bindR (foldR (add_committee_attesters X p st attestation) (0, [])
              (get_committee_indices (att_committee_bits attestation))) (\<lambda>(offset, out).
     bindR (reject (length (att_aggregation_bits attestation) \<noteq> offset)
              (OperationErr Op_AttestationAggregationBitsLength)) (\<lambda>_.
     Inr (remdups_adj (sort out))))"

definition indexed_attestation_from_known_indices ::
    "preset \<Rightarrow> Attestation \<Rightarrow> ValidatorIndex list \<Rightarrow> IndexedAttestation tres" where
  "indexed_attestation_from_known_indices p attestation indices =
     bindR (foldR (\<lambda>indexed vi. or_err (list_push (MAX_ATTESTING_INDICES p) indexed vi)
                                  (BoundedListFull BL_IndexedAttestationIndices)) [] indices) (\<lambda>indexed_indices.
     Inr \<lparr>ia_attesting_indices = indexed_indices, ia_data = att_data attestation, ia_signature = att_signature attestation\<rparr>)"

definition indexed_attestation ::
    "('g1, 'g2, 'gt) ext \<Rightarrow> preset \<Rightarrow> BeaconState \<Rightarrow> Attestation \<Rightarrow> IndexedAttestation tres" where
  "indexed_attestation X p st attestation =
     bindR (attesting_indices X p st attestation) (\<lambda>attesting.
     bindR (foldR (\<lambda>indices vi. or_err (list_push (MAX_ATTESTING_INDICES p) indices vi)
                                  (BoundedListFull BL_IndexedAttestationIndices)) [] attesting) (\<lambda>indices.
     Inr \<lparr>ia_attesting_indices = indices, ia_data = att_data attestation, ia_signature = att_signature attestation\<rparr>))"

definition validate_indexed_attestation ::
    "('g1, 'g2, 'gt) ext \<Rightarrow> preset \<Rightarrow> BeaconState \<Rightarrow> IndexedAttestation \<Rightarrow> SignatureError \<Rightarrow> unit tres" where
  "validate_indexed_attestation X p st indexed on_fail =
     bindR (reject (ia_attesting_indices indexed = []) (OperationErr Op_IndexedAttestationEmpty)) (\<lambda>_.
     bindR (reject (\<not> list_all (\<lambda>(a, b). a < b) (zip (ia_attesting_indices indexed) (tl (ia_attesting_indices indexed))))
              (OperationErr Op_IndexedAttestationNotSorted)) (\<lambda>_.
     bindR (mapR (\<lambda>i. bindR (validator st i) (\<lambda>v. Inr (v_pubkey v))) (ia_attesting_indices indexed)) (\<lambda>pubkeys.
     let data = ia_data indexed in
     bindR (domain_for X p st DOMAIN_BEACON_ATTESTER (cp_epoch (ad_target data))) (\<lambda>dmn.
     bindR (compute_signing_root X AttestationData_ty (AttestationData_val data) dmn Mer_AttestationData) (\<lambda>signing_root.
     fast_aggregate_verify X pubkeys signing_root (ia_signature indexed) on_fail)))))"

definition is_attestation_same_slot :: "preset \<Rightarrow> BeaconState \<Rightarrow> AttestationData \<Rightarrow> bool tres" where
  "is_attestation_same_slot p st data =
     (if ad_slot data = 0 then Inr True
      else
        let block_root = ad_beacon_block_root data in
        bindR (block_root_at_slot p st (ad_slot data)) (\<lambda>slot_root.
        bindR (block_root_at_slot p st (saturating_sub (ad_slot data) 1)) (\<lambda>prev_root.
        Inr (block_root = slot_root \<and> block_root \<noteq> prev_root))))"

definition get_attestation_participation_flag_indices ::
    "preset \<Rightarrow> BeaconState \<Rightarrow> AttestationData \<Rightarrow> u64 \<Rightarrow> usize list tres" where
  "get_attestation_participation_flag_indices p st data inclusion_delay =
     (let current_epoch = epoch_of p (slot st);
          justified = (if cp_epoch (ad_target data) = current_epoch then current_justified_checkpoint st
                       else previous_justified_checkpoint st);
          is_matching_source = (ad_source data = justified)
      in
      bindR (reject (\<not> is_matching_source) (OperationErr Op_AttestationSourceMismatch)) (\<lambda>_.
      bindR (if is_matching_source then
               bindR (block_root_at_slot p st (start_slot p (cp_epoch (ad_target data)))) (\<lambda>r. Inr (cp_root (ad_target data) = r))
             else Inr False) (\<lambda>is_matching_target.
      bindR (is_attestation_same_slot p st data) (\<lambda>same_slot.
      bindR (if same_slot then
               bindR (reject (ad_index data \<noteq> 0) (OperationErr Op_AttestationPayloadStatusInvalid)) (\<lambda>_. Inr True)
             else
               let slot_index = ad_slot data mod SLOTS_PER_HISTORICAL_ROOT p in
               bindR (idx (execution_payload_availability st) slot_index) (\<lambda>available.
               let payload_index = (if available then 1 else 0) in
               Inr (ad_index data = payload_index))) (\<lambda>payload_matches.
      bindR (if is_matching_target then
               bindR (block_root_at_slot p st (ad_slot data)) (\<lambda>r. Inr (ad_beacon_block_root data = r \<and> payload_matches))
             else Inr False) (\<lambda>is_matching_head.
      let sqrt_slots = integer_squareroot (SLOTS_PER_EPOCH p) in
      Inr ((if is_matching_source \<and> inclusion_delay \<le> sqrt_slots then [TIMELY_SOURCE_FLAG_INDEX] else [])
           @ (if is_matching_target then [TIMELY_TARGET_FLAG_INDEX] else [])
           @ (if is_matching_head \<and> inclusion_delay = MIN_ATTESTATION_INCLUSION_DELAY then [TIMELY_HEAD_FLAG_INDEX] else []))))))))"

definition accept_attestation ::
    "('g1, 'g2, 'gt) ext \<Rightarrow> preset \<Rightarrow> BeaconState \<Rightarrow> Attestation \<Rightarrow> AcceptedAttestation tres" where
  "accept_attestation X p st attestation =
     (let data = att_data attestation;
          current = epoch_of p (slot st);
          previous = get_previous_epoch p st;
          target = cp_epoch (ad_target data)
      in
      bindR (reject (target \<noteq> previous \<and> target \<noteq> current) (OperationErr Op_AttestationTargetEpochInvalid)) (\<lambda>_.
      bindR (reject (target \<noteq> epoch_of p (ad_slot data)) (OperationErr Op_AttestationTargetEpochInvalid)) (\<lambda>_.
      bindR (or_err (checked_add (ad_slot data) MIN_ATTESTATION_INCLUSION_DELAY) (ArithmeticOverflow Arith_Slot)) (\<lambda>earliest.
      bindR (reject (earliest > slot st) (OperationErr (Op_AttestationSlotInvalid (ad_slot data)))) (\<lambda>_.
      bindR (reject (ad_index data \<ge> 2) (OperationErr Op_AttestationPayloadStatusInvalid)) (\<lambda>_.
      bindR (mapR (\<lambda>ci. reject (ci \<ge> get_committee_count_per_slot p st target) (BlockErr (Block_CommitteeIndexOutOfRange ci)))
               (get_committee_indices (att_committee_bits attestation))) (\<lambda>_.
      bindR (attesting_indices X p st attestation) (\<lambda>indices.
      bindR (reject (indices = []) (OperationErr Op_AttestationParticipantsEmpty)) (\<lambda>_.
      bindR (indexed_attestation_from_known_indices p attestation indices) (\<lambda>indexed.
      bindR (validate_indexed_attestation X p st indexed Sig_Attestation) (\<lambda>_.
      let inclusion_delay = saturating_sub (slot st) (ad_slot data) in
      bindR (get_attestation_participation_flag_indices p st data inclusion_delay) (\<lambda>flags.
      bindR (is_attestation_same_slot p st data) (\<lambda>same_slot.
      bindR (or_err (builder_payment_index_for_slot p st (ad_slot data))
               (OperationErr (Op_AttestationSlotInvalid (ad_slot data)))) (\<lambda>payment_index.
      Inr \<lparr>aa_attesting_indices = indices, aa_participation_flags = flags, aa_target_is_current_epoch = (target = current),
           aa_is_same_slot = same_slot, aa_builder_payment_index = payment_index\<rparr>))))))))))))))"

definition record_builder_payment_weight_from_same_slot_attestation ::
    "BeaconState \<Rightarrow> BuilderPendingPayment \<Rightarrow> ValidatorIndex \<Rightarrow> BuilderPendingPayment tres" where
  "record_builder_payment_weight_from_same_slot_attestation st payment index =
     bindR (validator st index) (\<lambda>v.
     bindR (or_err (checked_add (bpp_weight payment) (v_effective_balance v)) (ArithmeticOverflow Arith_Weight)) (\<lambda>w.
     Inr (payment\<lparr>bpp_weight := w\<rparr>)))"

text \<open>
  The two nested loops of \<open>record_attestation_participation\<close>. The participation list of the target
  epoch is read and written through \<open>target_participation\<close>.
\<close>

definition target_participation :: "AcceptedAttestation \<Rightarrow> BeaconState \<Rightarrow> ParticipationFlags list" where
  "target_participation a st =
     (if aa_target_is_current_epoch a then current_epoch_participation st else previous_epoch_participation st)"

definition set_target_participation :: "AcceptedAttestation \<Rightarrow> ParticipationFlags list \<Rightarrow> BeaconState \<Rightarrow> BeaconState" where
  "set_target_participation a fs st =
     (if aa_target_is_current_epoch a then st\<lparr>current_epoch_participation := fs\<rparr> else st\<lparr>previous_epoch_participation := fs\<rparr>)"

definition set_participation_flag ::
    "AcceptedAttestation \<Rightarrow> ValidatorIndex \<Rightarrow> Gwei \<Rightarrow> BeaconState \<times> u64 \<times> bool \<Rightarrow> usize \<times> u64 \<Rightarrow> (BeaconState \<times> u64 \<times> bool) tres" where
  "set_participation_flag a vi base = (\<lambda>(st, numerator, will_set_new_flag) (flag_index, weight).
     if flag_index \<notin> set (aa_participation_flags a) then Inr (st, numerator, will_set_new_flag)
     else
       let missing_participation = (if aa_target_is_current_epoch a then Inv_MissingCurrentEpochParticipation vi
                                    else Inv_MissingPreviousEpochParticipation vi) in
       bindR (or_err (get_at (target_participation a st) vi) (InvariantErr missing_participation)) (\<lambda>slot_flags.
       bindR (map_err (\<lambda>e. Err (PrimitiveErr e)) (has_flag slot_flags flag_index)) (\<lambda>has.
       if has then Inr (st, numerator, will_set_new_flag)
       else
       bindR (map_err (\<lambda>e. Err (PrimitiveErr e)) (with_flag slot_flags flag_index)) (\<lambda>slot_flags'.
       let st = set_target_participation a ((target_participation a st)[vi := slot_flags']) st in
       bindR (or_err (checked_mul base weight) (ArithmeticOverflow Arith_Weight)) (\<lambda>reward_delta.
       bindR (or_err (checked_add numerator reward_delta) (ArithmeticOverflow Arith_Weight)) (\<lambda>numerator.
       Inr (st, numerator, True)))))))"

definition record_attester ::
    "preset \<Rightarrow> AcceptedAttestation \<Rightarrow> BeaconState \<times> BuilderPendingPayment \<times> u64 \<Rightarrow> ValidatorIndex
     \<Rightarrow> (BeaconState \<times> BuilderPendingPayment \<times> u64) tres" where
  "record_attester p a = (\<lambda>(st, payment, numerator) vi.
     bindR (get_base_reward p st vi) (\<lambda>base.
     bindR (foldR (set_participation_flag a vi base) (st, numerator, False) (enumerated PARTICIPATION_FLAG_WEIGHTS))
       (\<lambda>(st, numerator, will_set_new_flag).
     if aa_is_same_slot a \<and> will_set_new_flag \<and> bpw_amount (bpp_withdrawal payment) > 0 then
       bindR (record_builder_payment_weight_from_same_slot_attestation st payment vi) (\<lambda>payment.
       Inr (st, payment, numerator))
     else Inr (st, payment, numerator))))"

definition record_attestation_participation ::
    "preset \<Rightarrow> BeaconState \<Rightarrow> AcceptedAttestation \<Rightarrow> (u64 \<times> BeaconState) tres" where
  "record_attestation_participation p st a =
     bindR (idx (builder_pending_payments st) (aa_builder_payment_index a)) (\<lambda>payment.
     bindR (foldR (record_attester p a) (st, payment, 0) (aa_attesting_indices a)) (\<lambda>(st, payment, numerator).
     bindR (idx_set (builder_pending_payments st) (aa_builder_payment_index a) payment) (\<lambda>ps.
     Inr (numerator, st\<lparr>builder_pending_payments := ps\<rparr>))))"

definition reward_attestation_proposer :: "preset \<Rightarrow> BeaconState \<Rightarrow> u64 \<Rightarrow> BeaconState tres" where
  "reward_attestation_proposer p st proposer_reward_numerator =
     bindR (u_mul (saturating_sub WEIGHT_DENOMINATOR PROPOSER_WEIGHT) WEIGHT_DENOMINATOR) (\<lambda>w.
     bindR (u_div w PROPOSER_WEIGHT) (\<lambda>proposer_reward_denominator.
     bindR (u_div proposer_reward_numerator (max proposer_reward_denominator 1)) (\<lambda>proposer_reward.
     bindR (get_beacon_proposer_index p st) (\<lambda>proposer.
     increase_balance st proposer proposer_reward))))"

definition process_attestation :: "('g1, 'g2, 'gt) ext \<Rightarrow> preset \<Rightarrow> BeaconState \<Rightarrow> Attestation \<Rightarrow> BeaconState tres" where
  "process_attestation X p st attestation =
     bindR (accept_attestation X p st attestation) (\<lambda>accepted.
     bindR (record_attestation_participation p st accepted) (\<lambda>(proposer_reward_numerator, st).
     reward_attestation_proposer p st proposer_reward_numerator))"

section \<open>Decoding the bits\<close>

definition picked :: "bool list \<Rightarrow> nat \<Rightarrow> 'a list \<Rightarrow> 'a list" where
  "picked bits k xs = map snd (filter (\<lambda>(i, v). get_at bits (k + i) = Some True) (enumerated xs))"

lemma enumerate_shift: "List.enumerate n xs = map (\<lambda>(i, v). (n + i, v)) (enumerated xs)"
  by (rule nth_equalityI) (auto simp: nth_enumerate_eq)

lemma picked_append: "picked bits k (xs @ ys) = picked bits k xs @ picked bits (k + length xs) ys"
  by (simp add: picked_def enumerate_append_eq enumerate_shift [of "length xs"] filter_map o_def case_prod_unfold add.assoc)

lemma picked_Nil [simp]: "picked bits k [] = []"
  by (simp add: picked_def)

lemma set_picked: "set (picked bits 0 xs) = {xs ! i | i. i < length xs \<and> i < length bits \<and> bits ! i}"
  by (force simp: picked_def in_set_enumerate_eq res_simps)

lemma picked_subset: "set (picked bits k xs) \<subseteq> set xs"
  by (force simp: picked_def in_set_enumerate_eq)

lemma attesters_loop:
  assumes "foldR (add_committee_attesters X p st att) (k, out) cs = Inr (k', out')" and "k' < u64_max"
  shows "\<exists>L. mapR (get_beacon_committee X p st (ad_slot (att_data att))) cs = Inr L \<and> k' = k + length (concat L)
    \<and> out' = out @ picked (att_aggregation_bits att) k (concat L)
    \<and> (\<forall>c \<in> set L. \<exists>j. picked (att_aggregation_bits att) j c \<noteq> [] \<and> set (picked (att_aggregation_bits att) j c) \<subseteq> set out')"
  using assms
proof (induction cs arbitrary: k out)
  case Nil
  then show ?case by simp
next
  case (Cons ci cs)
  let ?bits = "att_aggregation_bits att"
  from Cons.prems(1) obtain c where c: "get_beacon_committee X p st (ad_slot (att_data att)) ci = Inr c"
    and some: "picked ?bits k c \<noteq> []"
    and rest: "foldR (add_committee_attesters X p st att) (saturating_add k (length c), out @ picked ?bits k c) cs = Inr (k', out')"
    by (auto simp: add_committee_attesters_def [of X p st att] Let_def bindR_eq_Inr reject_eq_Inr picked_def)
  from Cons.IH [OF rest Cons.prems(2)] obtain L where L: "mapR (get_beacon_committee X p st (ad_slot (att_data att))) cs = Inr L"
    "k' = saturating_add k (length c) + length (concat L)"
    "out' = (out @ picked ?bits k c) @ picked ?bits (saturating_add k (length c)) (concat L)"
    "\<forall>c \<in> set L. \<exists>j. picked ?bits j c \<noteq> [] \<and> set (picked ?bits j c) \<subseteq> set out'" by blast
  have "saturating_add k (length c) = k + length c" using L(2) Cons.prems(2) by (simp add: saturating_add_def)
  then show ?case using c some L by (auto simp: picked_append)
qed

lemma sorted_remdups_adj_strict: "sorted xs \<Longrightarrow> sorted_wrt (<) (remdups_adj xs)"
  for xs :: "nat list"
proof (induction xs rule: remdups_adj.induct)
  case (3 x y xs)
  then show ?case by (auto simp del: remdups_adj.simps simp add: remdups_adj.simps(3) less_le)
qed simp_all

lemma sorted_dedup: "sorted_wrt (<) (remdups_adj (sort xs))" for xs :: "nat list"
  by (rule sorted_remdups_adj_strict) simp

text \<open>
  C24: the bits of an attestation are decoded as intended. The chosen committees, one after the
  other, are indexed by the aggregation bits, no bit is left over or missing, the attesters are
  exactly the members whose bit is set, in strictly increasing order, and every chosen committee
  contributes at least one.
\<close>

theorem attesting_indices_correct:
  assumes run: "attesting_indices X p st att = Inr js" and ok: "Attestation_ok p att"
  shows "\<exists>L. mapR (get_beacon_committee X p st (ad_slot (att_data att))) (get_committee_indices (att_committee_bits att)) = Inr L
    \<and> length (att_aggregation_bits att) = length (concat L)
    \<and> set js = {concat L ! i | i. i < length (concat L) \<and> att_aggregation_bits att ! i}
    \<and> sorted_wrt (<) js \<and> (\<forall>c \<in> set L. set c \<inter> set js \<noteq> {})"
proof -
  let ?bits = "att_aggregation_bits att"
  from run obtain out where loop: "foldR (add_committee_attesters X p st att) (0, [])
      (get_committee_indices (att_committee_bits att)) = Inr (length ?bits, out)" and js: "js = remdups_adj (sort out)"
    by (auto simp: attesting_indices_def bindR_eq_Inr reject_eq_Inr)
  have "length ?bits < u64_max"
    using ok by (cases p) (simp_all add: Attestation_ok_iff MAX_ATTESTING_INDICES_def MAX_VALIDATORS_PER_COMMITTEE_def
        MAX_COMMITTEES_PER_SLOT_def u64_max_def)
  note decoded = attesters_loop [OF loop this, unfolded add_0 append_Nil]
  then obtain L where
    L: "mapR (get_beacon_committee X p st (ad_slot (att_data att))) (get_committee_indices (att_committee_bits att)) = Inr L"
      "length ?bits = length (concat L)" "out = picked ?bits 0 (concat L)"
      and some: "\<forall>c \<in> set L. \<exists>j. picked ?bits j c \<noteq> [] \<and> set (picked ?bits j c) \<subseteq> set out"
    by (elim exE conjE) (rule that)
  have "set c \<inter> set js \<noteq> {}" if "c \<in> set L" for c
  proof -
    from bspec [OF some that] obtain j where j: "picked ?bits j c \<noteq> []" "set (picked ?bits j c) \<subseteq> set out"
      by (elim exE conjE)
    have "hd (picked ?bits j c) \<in> set c" and "hd (picked ?bits j c) \<in> set js"
      using picked_subset [of ?bits j c] hd_in_set [OF j(1)] j(2) by (simp_all add: subset_iff js)
    then show ?thesis by blast
  qed
  moreover have "set js = {concat L ! i | i. i < length (concat L) \<and> ?bits ! i}"
    using L(2) by (auto simp: js L(3) set_picked)
  ultimately show ?thesis using L(1,2) sorted_dedup [of out] by (intro exI [of _ L] conjI ballI) (simp_all add: js)
qed

definition ex_attestation :: Attestation where
  "ex_attestation = \<lparr>att_aggregation_bits = [True],
     att_data = \<lparr>ad_slot = 41, ad_index = 0, ad_beacon_block_root = replicate 32 0,
       ad_source = ex_checkpoint 4, ad_target = \<lparr>cp_epoch = 5, cp_root = replicate 32 0\<rparr>\<rparr>,
     att_signature = replicate 96 0, att_committee_bits = [True, False, False, False]\<rparr>"

lemma ex_committee: "\<exists>j. get_beacon_committee ex_ext Minimal (ex_state Minimal) 41 0 = Inr [j]"
proof -
  let ?st = "ex_state Minimal"
  obtain seed where seed: "get_seed ex_ext Minimal ?st 5 DOMAIN_BEACON_ATTESTER = Inr seed"
    by (simp add: get_seed_def Let_def checked_add_def get_randao_mix_def idx_def EPOCHS_PER_HISTORICAL_VECTOR_def
        MIN_SEED_LOOKAHEAD_def u64_max_def)
  have active: "get_active_validator_indices ?st 5 = [0, 1, 2, 3]"
    by (simp add: active_indices_eq ex_active u64_max_def)
  have count: "get_committee_count_per_slot Minimal ?st 5 = 1"
    by (simp add: get_committee_count_per_slot_def active SLOTS_PER_EPOCH_def)
  have "get_beacon_committee ex_ext Minimal ?st (5 * SLOTS_PER_EPOCH Minimal + 1) 0 =
      compute_committee ex_ext Minimal [0, 1, 2, 3] seed 1 8"
    using get_beacon_committee_eq [of 1 Minimal 0 ?st 5 ex_ext seed] seed by (simp add: count active SLOTS_PER_EPOCH_def)
  moreover have "\<exists>j. compute_committee ex_ext Minimal [0, 1, 2, 3] seed 1 8 = Inr [j]"
    using compute_committee_eq [OF ex_ext_ok, of "[0, 1, 2, 3]" 1 8 Minimal seed] by (simp add: u64_max_def)
  ultimately show ?thesis by (simp add: SLOTS_PER_EPOCH_def)
qed

theorem attesting_indices_correct_witness:
  "\<exists>js. attesting_indices ex_ext Minimal (ex_state Minimal) ex_attestation = Inr js \<and> sorted_wrt (<) js \<and> js \<noteq> []"
proof -
  obtain j where j: "get_beacon_committee ex_ext Minimal (ex_state Minimal) 41 0 = Inr [j]" using ex_committee ..
  have run: "attesting_indices ex_ext Minimal (ex_state Minimal) ex_attestation = Inr [j]"
    by (simp add: attesting_indices_def get_committee_indices_def add_committee_attesters_def ex_attestation_def j get_at_def
        saturating_add_def u64_max_def)
  have "Attestation_ok Minimal ex_attestation"
    by (simp add: Attestation_ok_iff AttestationData_ok_iff Checkpoint_ok_iff ex_attestation_def MAX_ATTESTING_INDICES_def
        MAX_VALIDATORS_PER_COMMITTEE_def MAX_COMMITTEES_PER_SLOT_def u64_max_def)
  from attesting_indices_correct [OF run this] run show ?thesis by auto
qed

section \<open>Attestations keep the invariant\<close>

lemma attesting_indices_safe:
  assumes X: "ext_ok X" and ok: "state_ok p st"
  shows "safe (attesting_indices X p st att) (\<lambda>_. True)"
proof -
  have "safe (foldR (add_committee_attesters X p st att) (0, []) cs) (\<lambda>_. True)" for cs
    by (rule safe_foldR) (auto simp: add_committee_attesters_def Let_def safe_bind safe_reject case_prod_unfold
        intro!: safe_mono [OF beacon_committee_safe [OF X ok]])
  then show ?thesis
    unfolding attesting_indices_def safe_bind by (rule safe_mono) (auto simp: safe_simps)
qed

lemma push_all_safe: "safe (foldR (\<lambda>ys v. or_err (list_push n ys v) e) xs vs) (\<lambda>_. True)"
  by (rule safe_foldR) (simp_all add: safe_or_err)

lemma keys_safe: "safe (mapR (\<lambda>i. bindR (validator st i) (\<lambda>v. Inr (v_pubkey v))) is) (\<lambda>_. True)"
  by (rule safe_mono [OF safe_mapR [where Q = "\<lambda>_. True"]]) (simp_all add: safe_simps)

lemma validate_indexed_safe: "safe (validate_indexed_attestation X p st ia e) (\<lambda>_. True)"
  unfolding validate_indexed_attestation_def Let_def safe_bind safe_reject
  by (intro impI safe_mono [OF keys_safe]) (simp add: safe_simps fast_aggregate_verify_safe)

lemma same_slot_safe:
  assumes "state_ok p st"
  shows "safe (is_attestation_same_slot p st d) (\<lambda>_. True)"
  by (auto simp: is_attestation_same_slot_def Let_def safe_simps intro!: safe_mono [OF block_root_safe [OF assms]])

lemma flag_indices_safe:
  assumes ok: "state_ok p st"
  shows "safe (get_attestation_participation_flag_indices p st d n) (\<lambda>_. True)"
proof -
  have avail: "sl mod SLOTS_PER_HISTORICAL_ROOT p < length (execution_payload_availability st)" for sl
    using state_ok_execution_payload_availability [OF ok] by (cases p) (simp_all add: SLOTS_PER_HISTORICAL_ROOT_def)
  show ?thesis
    unfolding get_attestation_participation_flag_indices_def Let_def safe_bind safe_reject safe_if safe_idx
    using avail by (auto intro!: safe_mono [OF block_root_safe [OF ok]] safe_mono [OF same_slot_safe [OF ok]])
qed

lemma accept_safe:
  assumes X: "ext_ok X" and ok: "state_ok p st"
  shows "safe (accept_attestation X p st att) (\<lambda>a. aa_builder_payment_index a < BUILDER_PAYMENT_WINDOW_LEN p)"
proof -
  have cis: "safe (mapR (\<lambda>ci. reject (b ci) (e ci)) cis) (\<lambda>_. True)" for b e cis
    by (rule safe_mono [OF safe_mapR [where Q = "\<lambda>_. True"]]) (simp_all add: safe_reject)
  have ind: "safe (indexed_attestation_from_known_indices p att js) (\<lambda>_. True)" for js
    unfolding indexed_attestation_from_known_indices_def safe_bind by (rule safe_mono [OF push_all_safe]) simp
  show ?thesis
    unfolding accept_attestation_def Let_def safe_bind safe_reject safe_or_err
    by (intro impI allI safe_mono [OF cis] safe_mono [OF ind] safe_mono [OF attesting_indices_safe [OF X ok]]
        safe_mono [OF validate_indexed_safe] safe_mono [OF flag_indices_safe [OF ok]] safe_mono [OF same_slot_safe [OF ok]])
      (simp add: payment_index_lt)
qed

lemma state_ok_set_target:
  assumes "state_ok p st"
  shows "state_ok p (set_target_participation a ((target_participation a st)[i := f]) st)"
  using assms by (auto simp: set_target_participation_def target_participation_def intro!: state_upd)

lemma set_target_simps [simp]:
  "chain_frame (set_target_participation a fs st) = chain_frame st"
  "validators (set_target_participation a fs st) = validators st"
  "slot (set_target_participation a fs st) = slot st"
  "builder_pending_payments (set_target_participation a fs st) = builder_pending_payments st"
  "target_participation a (set_target_participation a fs st) = fs"
  "set_target_participation a gs (set_target_participation a fs st) = set_target_participation a gs st"
  "set_target_participation a (target_participation a st) st = st"
  by (simp_all add: set_target_participation_def target_participation_def)

definition recorded :: "preset \<Rightarrow> BeaconState \<Rightarrow> BeaconState \<Rightarrow> bool" where
  "recorded p st s \<longleftrightarrow> state_ok p s \<and> chain_frame s = chain_frame st"

lemma set_flag_safe:
  assumes "recorded p st s"
  shows "safe (set_participation_flag a vi base (s, n, new) fw) (\<lambda>(s', _). recorded p st s')"
  using assms state_ok_set_target [of p s a vi]
  by (cases fw) (auto simp: set_participation_flag_def Let_def safe_simps recorded_def)

lemma set_flags_safe:
  assumes "recorded p st s"
  shows "safe (foldR (set_participation_flag a vi base) (s, n, new) ws) (\<lambda>(s', _). recorded p st s')"
  by (rule safe_foldR) (use assms set_flag_safe in \<open>auto\<close>)

lemma record_attester_safe:
  assumes "recorded p st s" and "BuilderPendingPayment_ok q"
  shows "safe (record_attester p a (s, q, n) vi) (\<lambda>(s', q', _). recorded p st s' \<and> BuilderPendingPayment_ok q')"
  unfolding record_attester_def case_prod_unfold safe_bind fst_conv snd_conv
  by (rule safe_mono [OF get_base_reward_safe], rule safe_mono [OF set_flags_safe [OF assms(1)]])
    (use assms in \<open>auto simp: safe_simps record_builder_payment_weight_from_same_slot_attestation_def
      res_simps BuilderPendingPayment_ok_iff u64_simps split: if_splits\<close>)

lemma record_safe:
  assumes ok: "state_ok p st" and i: "aa_builder_payment_index a < BUILDER_PAYMENT_WINDOW_LEN p"
  shows "safe (record_attestation_participation p st a) (\<lambda>(_, st'). recorded p st st')"
proof -
  have len: "recorded p st s \<Longrightarrow> length (builder_pending_payments s) = BUILDER_PAYMENT_WINDOW_LEN p" for s
    using state_ok_builder_pending_payments(1) [of p s] by (simp add: recorded_def)
  have "BuilderPendingPayment_ok (builder_pending_payments st ! aa_builder_payment_index a)"
    using state_ok_builder_pending_payments [OF ok] i by simp
  then have loop: "safe (foldR (record_attester p a) (st, builder_pending_payments st ! aa_builder_payment_index a, 0) vis)
      (\<lambda>(s, q, _). recorded p st s \<and> BuilderPendingPayment_ok q)" for vis
    by (intro safe_foldR) (use record_attester_safe ok in \<open>auto simp: recorded_def [of p st st]\<close>)
  have upd: "recorded p st (s\<lparr>builder_pending_payments := (builder_pending_payments s)[j := q]\<rparr>)"
    if "recorded p st s" "BuilderPendingPayment_ok q" for s q j
    using that state_ok_set_payment [of p s q j] by (simp add: recorded_def)
  show ?thesis
    unfolding record_attestation_participation_def safe_bind safe_idx
  proof (intro conjI safe_mono [OF loop])
    show "aa_builder_payment_index a < length (builder_pending_payments st)"
      using i state_ok_builder_pending_payments(1) [OF ok] by simp
    fix r assume "case r of (s, q, _) \<Rightarrow> recorded p st s \<and> BuilderPendingPayment_ok q"
    then show "safe (case r of (s, q, n) \<Rightarrow> bindR (idx_set (builder_pending_payments s) (aa_builder_payment_index a) q)
        (\<lambda>ps. Inr (n, s\<lparr>builder_pending_payments := ps\<rparr>))) (\<lambda>(_, st'). recorded p st st')"
      by (cases r) (simp add: safe_bind safe_idx_set len upd i)
  qed
qed

lemma reward_proposer_safe:
  assumes "state_ok p st"
  shows "safe (reward_attestation_proposer p st n) (\<lambda>st'. state_ok p st' \<and> chain_frame st' = chain_frame st)"
  by (auto simp: reward_attestation_proposer_def safe_simps saturating_sub_def WEIGHT_DENOMINATOR_def PROPOSER_WEIGHT_def
      u64_max_def intro!: safe_mono [OF increase_balance_ok [OF assms]])

lemma attestation_safe:
  assumes X: "ext_ok X" and ok: "state_ok p st"
  shows "safe (process_attestation X p st att) (\<lambda>st'. state_ok p st' \<and> chain_frame st' = chain_frame st)"
  unfolding process_attestation_def safe_bind
proof (rule safe_mono [OF accept_safe [OF X ok]], rule safe_mono [OF record_safe [OF ok]])
  fix a and r :: "u64 \<times> BeaconState" assume "case r of (_, st') \<Rightarrow> recorded p st st'"
  then show "safe (case r of (n, st) \<Rightarrow> reward_attestation_proposer p st n)
      (\<lambda>st'. state_ok p st' \<and> chain_frame st' = chain_frame st)"
    using reward_proposer_safe [of p "snd r" "fst r"] by (cases r) (simp add: recorded_def)
qed

interpretation attestation: phase X p "\<lambda>st. process_attestation X p st att" for X p att
  by unfold_locales (rule attestation_safe)

section \<open>Every vote counts once\<close>

text \<open>The state \<open>s'\<close> is \<open>s\<close> with more flags set in the participation list of the target epoch.\<close>

definition grown :: "AcceptedAttestation \<Rightarrow> BeaconState \<Rightarrow> BeaconState \<Rightarrow> bool" where
  "grown a s s' \<longleftrightarrow> (\<exists>fs. s' = set_target_participation a fs s \<and> length fs = length (target_participation a s)
     \<and> (\<forall>j < length fs. \<forall>g. bit (target_participation a s ! j) g \<longrightarrow> bit (fs ! j) g))"

definition flag_is_set :: "AcceptedAttestation \<Rightarrow> BeaconState \<Rightarrow> ValidatorIndex \<Rightarrow> nat \<Rightarrow> bool" where
  "flag_is_set a s vi f \<longleftrightarrow> vi < length (target_participation a s) \<and> bit (target_participation a s ! vi) f"

lemma grown_refl: "grown a s s"
  unfolding grown_def by (rule exI [of _ "target_participation a s"]) simp

lemma grown_trans: "grown a s s' \<Longrightarrow> grown a s' s'' \<Longrightarrow> grown a s s''"
  by (auto simp: grown_def)

lemma grown_flag: "grown a s s' \<Longrightarrow> flag_is_set a s vi f \<Longrightarrow> flag_is_set a s' vi f"
  by (auto simp: grown_def flag_is_set_def)

lemma set_flag_grows:
  assumes "set_participation_flag a vi base (s, n, new) (f, w) = Inr (s', n', new')"
  shows "grown a s s' \<and> (f \<in> set (aa_participation_flags a) \<longrightarrow> flag_is_set a s' vi f)"
proof (cases "f \<in> set (aa_participation_flags a)")
  case True
  let ?tp = "target_participation a s"
  from assms True have f: "f < 8" and vi: "vi < length ?tp"
    by (auto simp: set_participation_flag_def Let_def bindR_eq_Inr or_err_eq_Inr get_at_eq_Some has_flag_def split: if_splits)
  show ?thesis
  proof (cases "bit (?tp ! vi) f")
    case True
    then have "s' = s" using assms f vi \<open>f \<in> _\<close>
      by (simp add: set_participation_flag_def get_at_def has_flag_bit)
    then show ?thesis using True vi by (simp add: grown_refl flag_is_set_def)
  next
    case False
    then have s': "s' = set_target_participation a (?tp[vi := ?tp ! vi OR push_bit f 1]) s"
      using assms f vi \<open>f \<in> _\<close>
      by (auto simp: set_participation_flag_def get_at_def has_flag_bit with_flag_def Let_def bindR_eq_Inr)
    have "bit (?tp ! vi OR push_bit f 1) f" using f by (simp add: bit_or_iff bit_exp_iff)
    then show ?thesis using vi
      by (auto simp: s' grown_def flag_is_set_def nth_list_update bit_or_iff intro!: exI [of _ "?tp[vi := ?tp ! vi OR push_bit f 1]"])
  qed
next
  case False
  then have "s' = s" using assms by (simp add: set_participation_flag_def)
  then show ?thesis using False by (simp add: grown_refl)
qed

lemma set_flags_grow:
  assumes "foldR (set_participation_flag a vi base) (s, n, new) ws = Inr (s', n', new')"
  shows "grown a s s' \<and> (\<forall>(f, w) \<in> set ws. f \<in> set (aa_participation_flags a) \<longrightarrow> flag_is_set a s' vi f)"
  using assms
proof (induction ws arbitrary: s n new)
  case Nil
  then show ?case by (simp add: grown_refl)
next
  case (Cons fw ws)
  obtain f w where fw: "fw = (f, w)" by (cases fw)
  from Cons.prems obtain s1 n1 new1 where one: "set_participation_flag a vi base (s, n, new) (f, w) = Inr (s1, n1, new1)"
    and rest: "foldR (set_participation_flag a vi base) (s1, n1, new1) ws = Inr (s', n', new')"
    by (auto simp: bindR_eq_Inr fw)
  have g: "grown a s1 s'" using Cons.IH [OF rest] by simp
  show ?case
    using set_flag_grows [OF one] Cons.IH [OF rest] grown_flag [OF g, of vi f] grown_trans [OF _ g] by (simp add: fw)
qed

lemma base_reward_frame [simp]:
  "get_base_reward p (set_target_participation a fs s) vi = get_base_reward p s vi"
  "get_base_reward p (s\<lparr>builder_pending_payments := ps\<rparr>) vi = get_base_reward p s vi"
  by (simp_all add: get_base_reward_def get_base_reward_per_increment_def get_total_active_balance_def get_total_balance_def
      validator_def get_active_validator_indices_def get_current_epoch_def)

lemma grown_base_reward: "grown a s s' \<Longrightarrow> get_base_reward p s' vi = get_base_reward p s vi"
  by (auto simp: grown_def)

lemma weights_enumerated: "(f, w) \<in> set (enumerated PARTICIPATION_FLAG_WEIGHTS) \<Longrightarrow> f < 3"
  by (auto simp: in_set_enumerate_eq PARTICIPATION_FLAG_WEIGHTS_def)

text \<open>All flags of the attestation are set for the validator, whose base reward is defined.\<close>

definition counted :: "preset \<Rightarrow> AcceptedAttestation \<Rightarrow> BeaconState \<Rightarrow> ValidatorIndex \<Rightarrow> bool" where
  "counted p a s vi \<longleftrightarrow> (\<exists>b. get_base_reward p s vi = Inr b)
     \<and> (\<forall>(f, w) \<in> set (enumerated PARTICIPATION_FLAG_WEIGHTS). f \<in> set (aa_participation_flags a) \<longrightarrow> flag_is_set a s vi f)"

lemma counted_grown: "grown a s s' \<Longrightarrow> counted p a s vi \<Longrightarrow> counted p a s' vi"
  by (auto simp: counted_def grown_base_reward intro: grown_flag)

lemma record_attester_counts:
  assumes "record_attester p a (s, q, n) vi = Inr (s', q', n')"
  shows "grown a s s' \<and> counted p a s' vi"
proof -
  from assms obtain b new where b: "get_base_reward p s vi = Inr b"
    and "foldR (set_participation_flag a vi b) (s, n, False) (enumerated PARTICIPATION_FLAG_WEIGHTS) = Inr (s', n', new)"
    by (auto simp: record_attester_def bindR_eq_Inr split: if_splits)
  from set_flags_grow [OF this(2)] show ?thesis by (auto simp: counted_def grown_base_reward b)
qed

lemma record_all_counted:
  assumes "foldR (record_attester p a) (s, q, n) vis = Inr (s', q', n')"
  shows "grown a s s' \<and> (\<forall>vi \<in> set vis. counted p a s' vi)"
  using assms
proof (induction vis arbitrary: s q n)
  case Nil
  then show ?case by (simp add: grown_refl)
next
  case (Cons vi vis)
  from Cons.prems obtain s1 q1 n1 where one: "record_attester p a (s, q, n) vi = Inr (s1, q1, n1)"
    and rest: "foldR (record_attester p a) (s1, q1, n1) vis = Inr (s', q', n')"
    by (auto simp: bindR_eq_Inr)
  have g: "grown a s1 s'" using Cons.IH [OF rest] by simp
  show ?case
    using record_attester_counts [OF one] Cons.IH [OF rest] counted_grown [OF g, of p vi] grown_trans [OF _ g] by simp
qed

lemma counted_flag_skip:
  assumes "f \<in> set (aa_participation_flags a) \<longrightarrow> flag_is_set a s vi f" and "f < 3"
  shows "set_participation_flag a vi b (s, n, new) (f, w) = Inr (s, n, new)"
  using assms by (auto simp: set_participation_flag_def flag_is_set_def get_at_def has_flag_bit)

lemma counted_skip:
  assumes "counted p a s vi"
  shows "record_attester p a (s, q, n) vi = Inr (s, q, n)"
proof -
  obtain b where b: "get_base_reward p s vi = Inr b" using assms by (auto simp: counted_def)
  have "foldR (set_participation_flag a vi b) (s, n, False) (enumerated PARTICIPATION_FLAG_WEIGHTS) = Inr (s, n, False)"
    by (rule foldR_fixpoint) (use assms weights_enumerated in \<open>auto simp: counted_def intro!: counted_flag_skip\<close>)
  then show ?thesis by (simp add: record_attester_def b)
qed

text \<open>
  C25: a vote counts once. After an attestation has been recorded, recording the same attestation
  again sets no flag, adds no weight to the builder payment, and leaves no reward to pay: the state
  does not change and the reward numerator is zero.
\<close>

theorem attestation_counted_once:
  assumes run: "record_attestation_participation p st a = Inr (n, st')"
  shows "record_attestation_participation p st' a = Inr (0, st')"
proof -
  let ?i = "aa_builder_payment_index a"
  from run obtain s q where i: "?i < length (builder_pending_payments s)"
    and loop: "foldR (record_attester p a) (st, builder_pending_payments st ! ?i, 0) (aa_attesting_indices a) = Inr (s, q, n)"
    and st': "st' = s\<lparr>builder_pending_payments := (builder_pending_payments s)[?i := q]\<rparr>"
    by (auto simp: record_attestation_participation_def bindR_eq_Inr idx_eq_Inr idx_set_eq_Inr)
  have "target_participation a st' = target_participation a s" by (simp add: st' target_participation_def)
  then have "counted p a st' vi" if "vi \<in> set (aa_attesting_indices a)" for vi
    using record_all_counted [OF loop] that by (simp add: counted_def flag_is_set_def st')
  then have "foldR (record_attester p a) (st', q, 0) (aa_attesting_indices a) = Inr (st', q, 0)"
    by (intro foldR_fixpoint counted_skip)
  then show ?thesis using i by (simp add: record_attestation_participation_def idx_def idx_set_def st')
qed

definition ex_accepted :: AcceptedAttestation where
  "ex_accepted = \<lparr>aa_attesting_indices = [2], aa_participation_flags = [0, 1], aa_target_is_current_epoch = False,
     aa_is_same_slot = True, aa_builder_payment_index = 3\<rparr>"

theorem attestation_counted_once_witness:
  "\<exists>n st'. n > 0 \<and> record_attestation_participation Minimal (ex_state Minimal) ex_accepted = Inr (n, st')
     \<and> record_attestation_participation Minimal st' ex_accepted = Inr (0, st')"
proof -
  have "\<exists>n st'. n > 0 \<and> record_attestation_participation Minimal (ex_state Minimal) ex_accepted = Inr (n, st')"
    by (simp add: record_attestation_participation_def record_attester_def ex_accepted_def ex_base_reward idx_def idx_set_def
        BUILDER_PAYMENT_WINDOW_LEN_def SLOTS_PER_EPOCH_def ex_payment_def PARTICIPATION_FLAG_WEIGHTS_def
        set_participation_flag_def target_participation_def set_target_participation_def get_at_def has_flag_def with_flag_def
        checked_mul_def checked_add_def u64_max_def const_defs)
  then show ?thesis using attestation_counted_once by blast
qed

end
