(* ===== verification/Slashings.thy ===== *)
theory Slashings
  imports Attestations
begin

text \<open>
  Slashings and exits: \<open>slash_validator\<close> (\<open>state_transition/balance.rs\<close>), the proposer and attester
  slashing handlers (\<open>operations/slashings.rs\<close>), voluntary exits and credential changes
  (\<open>operations/exits.rs\<close>).
\<close>

section \<open>Slashing (balance.rs, operations/slashings.rs)\<close>

text \<open>The two parts of \<open>slash_validator\<close> after the exit: marking the validator, and penalty and rewards.\<close>

definition mark_slashed :: "BeaconState \<Rightarrow> ValidatorIndex \<Rightarrow> Epoch \<Rightarrow> BeaconState tres" where
  "mark_slashed st slashed_index extended =
     bindR (idx (validators st) slashed_index) (\<lambda>v.
     let v = v\<lparr>v_slashed := True\<rparr>;
         v = (if extended > v_withdrawable_epoch v then v\<lparr>v_withdrawable_epoch := extended\<rparr> else v)
     in
     bindR (idx_set (validators st) slashed_index v) (\<lambda>vs. Inr (st\<lparr>validators := vs\<rparr>)))"

definition pay_slashing ::
    "preset \<Rightarrow> BeaconState \<Rightarrow> ValidatorIndex \<Rightarrow> ValidatorIndex option \<Rightarrow> Gwei \<Rightarrow> BeaconState tres" where
  "pay_slashing p st slashed_index whistleblower_index effective_balance =
     bindR (u_div effective_balance MIN_SLASHING_PENALTY_QUOTIENT) (\<lambda>penalty.
     bindR (decrease_balance st slashed_index penalty) (\<lambda>st.
     bindR (get_beacon_proposer_index p st) (\<lambda>proposer_index.
     let whistleblower = (case whistleblower_index of Some w \<Rightarrow> w | None \<Rightarrow> proposer_index) in
     bindR (u_div effective_balance WHISTLEBLOWER_REWARD_QUOTIENT) (\<lambda>whistleblower_reward.
     bindR (u_mul whistleblower_reward PROPOSER_WEIGHT) (\<lambda>weighted.
     bindR (u_div weighted WEIGHT_DENOMINATOR) (\<lambda>proposer_reward.
     bindR (increase_balance st proposer_index proposer_reward) (\<lambda>st.
     bindR (u_sub whistleblower_reward proposer_reward) (\<lambda>rest.
     increase_balance st whistleblower rest))))))))"

definition slash_validator ::
    "preset \<Rightarrow> BeaconState \<Rightarrow> ValidatorIndex \<Rightarrow> ValidatorIndex option \<Rightarrow> BeaconState tres" where
  "slash_validator p st slashed_index whistleblower_index =
     (let current_epoch = get_current_epoch p st in
      bindR (validator st slashed_index) (\<lambda>v.
      let effective_balance = v_effective_balance v in
      bindR (or_err (checked_add current_epoch (EPOCHS_PER_SLASHINGS_VECTOR p)) (ArithmeticOverflow Arith_Epoch)) (\<lambda>extended.
      let slashings_slot = current_epoch mod EPOCHS_PER_SLASHINGS_VECTOR p in
      bindR (idx (slashings st) slashings_slot) (\<lambda>bucket.
      bindR (or_err (checked_add bucket effective_balance) (ArithmeticOverflow Arith_BalanceSum)) (\<lambda>updated_bucket.
      bindR (initiate_validator_exit p st slashed_index) (\<lambda>st.
      bindR (mark_slashed st slashed_index extended) (\<lambda>st.
      bindR (idx_set (slashings st) slashings_slot updated_bucket) (\<lambda>buckets.
      pay_slashing p (st\<lparr>slashings := buckets\<rparr>) slashed_index whistleblower_index effective_balance))))))))"

text \<open>Removal of the pending builder payment of a slashed proposal, within its window.\<close>

definition clear_slashed_payment :: "preset \<Rightarrow> BeaconState \<Rightarrow> BeaconBlockHeader \<Rightarrow> BeaconState tres" where
  "clear_slashed_payment p st h1 =
     (let current_epoch = epoch_of p (slot st);
          sl = bbh_slot h1;
          proposal_epoch = epoch_of p sl;
          previous_epoch = saturating_sub current_epoch 1;
          slot_offset = sl mod SLOTS_PER_EPOCH p;
          clear = (\<lambda>payment_index.
            bindR (idx (builder_pending_payments st) payment_index) (\<lambda>payment.
            if bpp_proposer_index payment = bbh_proposer_index h1 then
              bindR (idx_set (builder_pending_payments st) payment_index BuilderPendingPayment_default) (\<lambda>ps.
              Inr (st\<lparr>builder_pending_payments := ps\<rparr>))
            else Inr st))
      in
      if proposal_epoch = current_epoch then clear (SLOTS_PER_EPOCH p + slot_offset)
      else if proposal_epoch = previous_epoch then clear slot_offset
      else Inr st)"

definition process_proposer_slashing ::
    "('g1, 'g2, 'gt) ext \<Rightarrow> preset \<Rightarrow> BeaconState \<Rightarrow> ProposerSlashing \<Rightarrow> BeaconState tres" where
  "process_proposer_slashing X p st slashing =
     (let h1 = sbbh_message (ps_signed_header_1 slashing);
          h2 = sbbh_message (ps_signed_header_2 slashing)
      in
      bindR (reject (bbh_slot h1 \<noteq> bbh_slot h2) (OperationErr Op_ProposerSlashingSlotMismatch)) (\<lambda>_.
      bindR (reject (bbh_proposer_index h1 \<noteq> bbh_proposer_index h2) (OperationErr Op_ProposerSlashingProposerMismatch)) (\<lambda>_.
      bindR (reject (h1 = h2) (OperationErr Op_ProposerSlashingHeadersMatch)) (\<lambda>_.
      bindR (validator st (bbh_proposer_index h1)) (\<lambda>proposer.
      let current_epoch = epoch_of p (slot st) in
      bindR (reject (\<not> is_slashable_validator proposer current_epoch)
               (OperationErr (Op_ProposerSlashingNotSlashable (bbh_proposer_index h1)))) (\<lambda>_.
      let pubkey = v_pubkey proposer in
      bindR (domain_for X p st DOMAIN_BEACON_PROPOSER (epoch_of p (bbh_slot h1))) (\<lambda>domain_1.
      bindR (domain_for X p st DOMAIN_BEACON_PROPOSER (epoch_of p (bbh_slot h2))) (\<lambda>domain_2.
      bindR (compute_signing_root X BeaconBlockHeader_ty (BeaconBlockHeader_val h1) domain_1 Mer_BeaconBlockHeader) (\<lambda>sr1.
      bindR (compute_signing_root X BeaconBlockHeader_ty (BeaconBlockHeader_val h2) domain_2 Mer_BeaconBlockHeader) (\<lambda>sr2.
      bindR (verify_signature X pubkey sr1 (sbbh_signature (ps_signed_header_1 slashing)) Sig_ProposerSlashingHeaderOne) (\<lambda>_.
      bindR (verify_signature X pubkey sr2 (sbbh_signature (ps_signed_header_2 slashing)) Sig_ProposerSlashingHeaderTwo) (\<lambda>_.
      bindR (clear_slashed_payment p st h1) (\<lambda>st.
      slash_validator p st (bbh_proposer_index h1) None)))))))))))))"

definition is_slashable_attestation_data :: "AttestationData \<Rightarrow> AttestationData \<Rightarrow> bool" where
  "is_slashable_attestation_data d1 d2 =
     (let double = (d1 \<noteq> d2 \<and> cp_epoch (ad_target d1) = cp_epoch (ad_target d2));
          surround = (cp_epoch (ad_source d1) < cp_epoch (ad_source d2) \<and> cp_epoch (ad_target d2) < cp_epoch (ad_target d1))
      in double \<or> surround)"

text \<open>The body of the loop of \<open>process_attester_slashing\<close>, over the sorted intersection.\<close>

definition slash_attester :: "preset \<Rightarrow> Epoch \<Rightarrow> BeaconState \<times> bool \<Rightarrow> ValidatorIndex \<Rightarrow> (BeaconState \<times> bool) tres" where
  "slash_attester p epoch = (\<lambda>(st, slashed_any) vi.
     bindR (validator st vi) (\<lambda>v.
     if is_slashable_validator v epoch then
       bindR (slash_validator p st vi None) (\<lambda>st. Inr (st, True))
     else Inr (st, slashed_any)))"

definition process_attester_slashing ::
    "('g1, 'g2, 'gt) ext \<Rightarrow> preset \<Rightarrow> BeaconState \<Rightarrow> AttesterSlashing \<Rightarrow> BeaconState tres" where
  "process_attester_slashing X p st slashing =
     (let a1 = as_attestation_1 slashing;
          a2 = as_attestation_2 slashing
      in
      bindR (reject (\<not> is_slashable_attestation_data (ia_data a1) (ia_data a2)) (OperationErr Op_AttesterSlashingNotSlashable)) (\<lambda>_.
      bindR (validate_indexed_attestation X p st a1 Sig_AttesterSlashingAttestationOne) (\<lambda>_.
      bindR (validate_indexed_attestation X p st a2 Sig_AttesterSlashingAttestationTwo) (\<lambda>_.
      let set1 = set (ia_attesting_indices a1);
          set2 = set (ia_attesting_indices a2);
          intersection = sorted_list_of_set (set1 \<inter> set2)
      in
      bindR (reject (intersection = []) (OperationErr Op_AttesterSlashingNoIntersection)) (\<lambda>_.
      let epoch = epoch_of p (slot st) in
      bindR (foldR (slash_attester p epoch) (st, False) intersection) (\<lambda>(st, slashed_any).
      bindR (reject (\<not> slashed_any) (OperationErr Op_AttesterSlashingNotSlashable)) (\<lambda>_.
      Inr st)))))))"

section \<open>Exits and credential changes (operations/exits.rs)\<close>

definition process_voluntary_exit ::
    "('g1, 'g2, 'gt) ext \<Rightarrow> preset \<Rightarrow> BeaconState \<Rightarrow> SignedVoluntaryExit \<Rightarrow> BeaconState tres" where
  "process_voluntary_exit X p st signed_exit =
     (let exit = sve_message signed_exit;
          current = epoch_of p (slot st);
          index = ve_validator_index exit
      in
      bindR (reject (current < ve_epoch exit) (OperationErr (Op_ExitTooEarly current (ve_epoch exit)))) (\<lambda>_.
      bindR (compute_domain X DOMAIN_VOLUNTARY_EXIT (CAPELLA_FORK_VERSION p) (genesis_validators_root st)) (\<lambda>dmn.
      bindR (compute_signing_root X VoluntaryExit_ty (VoluntaryExit_val exit) dmn Mer_VoluntaryExit) (\<lambda>signing_root.
      bindR (validator st index) (\<lambda>v.
      let already_exiting = (v_exit_epoch v \<noteq> FAR_FUTURE_EPOCH);
          active = is_active_validator v current
      in
      bindR (reject (\<not> active) (OperationErr (Op_ValidatorNotActive index))) (\<lambda>_.
      bindR (reject already_exiting (OperationErr (Op_ValidatorAlreadyExiting index))) (\<lambda>_.
      let eligible = saturating_add (v_activation_epoch v) (SHARD_COMMITTEE_PERIOD p) in
      bindR (reject (current < eligible) (OperationErr (Op_ValidatorTooYoung index eligible current))) (\<lambda>_.
      bindR (get_pending_balance_to_withdraw st index) (\<lambda>pending.
      bindR (reject (pending \<noteq> 0) (OperationErr (Op_ValidatorHasPendingWithdrawal index))) (\<lambda>_.
      bindR (verify_signature X (v_pubkey v) signing_root (sve_signature signed_exit) (Sig_VoluntaryExit index)) (\<lambda>_.
      initiate_validator_exit p st index)))))))))))"

definition process_bls_to_execution_change ::
    "('g1, 'g2, 'gt) ext \<Rightarrow> preset \<Rightarrow> BeaconState \<Rightarrow> SignedBLSToExecutionChange \<Rightarrow> BeaconState tres" where
  "process_bls_to_execution_change X p st signed_change =
     (let change = sbtec_message signed_change;
          index = btec_validator_index change
      in
      bindR (validator st index) (\<lambda>v.
      let creds = v_withdrawal_credentials v in
      bindR (idx creds 0) (\<lambda>prefix.
      bindR (reject (prefix \<noteq> BLS_WITHDRAWAL_PREFIX) (OperationErr (Op_WithdrawalCredentialsNotBls index))) (\<lambda>_.
      let pubkey_hash = ext_sha256 X (btec_from_bls_pubkey change) in
      bindR (reject (drop 1 creds \<noteq> drop 1 pubkey_hash) (OperationErr (Op_BlsChangeCredentialMismatch index))) (\<lambda>_.
      bindR (compute_domain X DOMAIN_BLS_TO_EXECUTION_CHANGE (GENESIS_FORK_VERSION p) (genesis_validators_root st)) (\<lambda>dmn.
      bindR (compute_signing_root X BLSToExecutionChange_ty (BLSToExecutionChange_val change) dmn Mer_BlsToExecutionChange)
        (\<lambda>signing_root.
      bindR (verify_signature X (btec_from_bls_pubkey change) signing_root (sbtec_signature signed_change)
               (Sig_BlsToExecutionChange index)) (\<lambda>_.
      let new_creds = ETH1_ADDRESS_WITHDRAWAL_PREFIX # replicate 11 0 @ btec_to_execution_address change in
      bindR (idx (validators st) index) (\<lambda>v.
      bindR (idx_set (validators st) index (v\<lparr>v_withdrawal_credentials := new_creds\<rparr>)) (\<lambda>vs.
      Inr (st\<lparr>validators := vs\<rparr>)))))))))))"

section \<open>What slashing does\<close>

text \<open>The registry and the slashings buffer after a slashing.\<close>

definition slashed_in :: "preset \<Rightarrow> BeaconState \<Rightarrow> ValidatorIndex \<Rightarrow> BeaconState \<Rightarrow> bool" where
  "slashed_in p st i st' \<longleftrightarrow> i < length (validators st)
     \<and> (\<exists>v. validators st' = (validators st)[i := v] \<and> v_slashed v \<and> v_pubkey v = v_pubkey (validators st ! i)
          \<and> get_current_epoch p st + EPOCHS_PER_SLASHINGS_VECTOR p \<le> v_withdrawable_epoch v)
     \<and> slashings st' = (slashings st)[get_current_epoch p st mod EPOCHS_PER_SLASHINGS_VECTOR p :=
          slashings st ! (get_current_epoch p st mod EPOCHS_PER_SLASHINGS_VECTOR p) + v_effective_balance (validators st ! i)]"

lemma exit_marks:
  assumes ok: "state_ok p st" and i: "i < length (validators st)"
  shows "safe (initiate_validator_exit p st i) (\<lambda>s. state_ok p s \<and> chain_frame s = chain_frame st
    \<and> slashings s = slashings st \<and> (\<exists>v. Validator_ok v \<and> validators s = (validators st)[i := v] \<and> v_pubkey v = v_pubkey (validators st ! i)))"
proof (rule safe_mono [OF initiate_validator_exit_safe [OF ok]])
  fix s assume "state_ok p s \<and> i < length (validators st)
       \<and> (if v_exit_epoch (validators st ! i) \<noteq> FAR_FUTURE_EPOCH then s = st else exit_scheduled p st i s)"
  moreover have "validators st = (validators st)[i := validators st ! i]" by simp
  ultimately show "state_ok p s \<and> chain_frame s = chain_frame st \<and> slashings s = slashings st
      \<and> (\<exists>v. Validator_ok v \<and> validators s = (validators st)[i := v] \<and> v_pubkey v = v_pubkey (validators st ! i))"
    using validator_nth_ok [OF ok i] validator_nth_ok [of p s i] i
    by (auto simp: exit_scheduled_def split: if_splits)
qed

lemma Validator_ok_slashed:
  assumes "Validator_ok v" and "e \<le> u64_max"
  shows "Validator_ok (if b then v\<lparr>v_slashed := True, v_withdrawable_epoch := e\<rparr> else v\<lparr>v_slashed := True\<rparr>)"
  using assms by (simp add: Validator_ok_iff)

lemma mark_slashed_safe:
  assumes ok: "state_ok p s" and i: "i < length (validators s)" and e: "e \<le> u64_max"
  shows "safe (mark_slashed s i e) (\<lambda>s'. state_ok p s' \<and> (\<exists>v. s' = s\<lparr>validators := (validators s)[i := v]\<rparr> \<and> v_slashed v
    \<and> v_pubkey v = v_pubkey (validators s ! i) \<and> e \<le> v_withdrawable_epoch v))"
proof -
  let ?v = "validators s ! i"
  have "state_ok p (s\<lparr>validators := (validators s)[i := if b then ?v\<lparr>v_slashed := True, v_withdrawable_epoch := e\<rparr> else ?v\<lparr>v_slashed := True\<rparr>]\<rparr>)" for b
    by (intro state_ok_set_validator [OF ok] Validator_ok_slashed validator_nth_ok [OF ok i] e)
  from this [of True] this [of False] show ?thesis using i by (auto simp: mark_slashed_def Let_def safe_simps intro!: exI)
qed

lemma reward_split: "w * PROPOSER_WEIGHT div WEIGHT_DENOMINATOR \<le> w" for w
  by (simp add: PROPOSER_WEIGHT_def WEIGHT_DENOMINATOR_def)

lemma pay_slashing_safe:
  assumes ok: "state_ok p s" and eb: "eb \<le> u64_max"
  shows "safe (pay_slashing p s i w eb) (\<lambda>s'. state_ok p s' \<and> (\<exists>bs. s' = s\<lparr>balances := bs\<rparr>))"
proof -
  have "eb div 4096 * 8 \<le> eb" by linarith
  then have "eb div WHISTLEBLOWER_REWARD_QUOTIENT * PROPOSER_WEIGHT \<le> u64_max"
    using eb by (simp add: WHISTLEBLOWER_REWARD_QUOTIENT_def PROPOSER_WEIGHT_def)
  moreover have "MIN_SLASHING_PENALTY_QUOTIENT \<noteq> 0" "WHISTLEBLOWER_REWARD_QUOTIENT \<noteq> 0" "WEIGHT_DENOMINATOR \<noteq> 0"
    by (simp_all add: MIN_SLASHING_PENALTY_QUOTIENT_def WHISTLEBLOWER_REWARD_QUOTIENT_def WEIGHT_DENOMINATOR_def)
  ultimately show ?thesis
    unfolding pay_slashing_def Let_def safe_bind
    by (auto simp: safe_u_div safe_u_mul safe_u_sub reward_split beacon_proposer_index_safe
        intro!: safe_mono [OF decrease_balance_ok [OF ok]] safe_mono [OF increase_balance_ok])
qed

lemma slash_safe:
  assumes ok: "state_ok p st"
  shows "safe (slash_validator p st i w) (\<lambda>st'. state_ok p st' \<and> chain_frame st' = chain_frame st \<and> slashed_in p st i st')"
proof (cases "i < length (validators st)")
  case False
  then show ?thesis by (simp add: slash_validator_def Let_def safe_simps)
next
  case i: True
  let ?eb = "v_effective_balance (validators st ! i)"
  let ?k = "get_current_epoch p st mod EPOCHS_PER_SLASHINGS_VECTOR p"
  have eb: "?eb \<le> u64_max" using validator_nth_ok [OF ok i] by (simp add: Validator_ok_iff)
  have k: "?k < length (slashings st)" using state_ok_slashings(1) [OF ok] ring_sizes_pos [of p] by simp
  have bucket: "state_ok p (s\<lparr>slashings := (slashings s)[j := b]\<rparr>)" if "state_ok p s" "b \<le> u64_max" for s j b
    using that state_ok_upd_slashings [OF that(1), of "(slashings s)[j := b]"] state_ok_slashings(1) [OF that(1)]
      set_update_all [OF state_ok_slashings(2) [OF that(1)] that(2)] by simp
  show ?thesis
    unfolding slash_validator_def Let_def safe_bind safe_validator safe_or_err safe_idx safe_idx_set
  proof (intro impI allI conjI safe_mono [OF exit_marks [OF ok i]])
    fix e b s assume e: "checked_add (get_current_epoch p st) (EPOCHS_PER_SLASHINGS_VECTOR p) = Some e"
      and b: "checked_add (slashings st ! ?k) ?eb = Some b"
      and s: "state_ok p s \<and> chain_frame s = chain_frame st \<and> slashings s = slashings st
        \<and> (\<exists>v. Validator_ok v \<and> validators s = (validators st)[i := v] \<and> v_pubkey v = v_pubkey (validators st ! i))"
    have "i < length (validators s)" and "e \<le> u64_max" using s i e by (auto simp: res_simps)
    then have "safe (mark_slashed s i e) (\<lambda>x. state_ok p x \<and> (\<exists>v. x = s\<lparr>validators := (validators s)[i := v]\<rparr> \<and> v_slashed v
        \<and> v_pubkey v = v_pubkey (validators s ! i) \<and> e \<le> v_withdrawable_epoch v))"
      using mark_slashed_safe s by blast
    then show "safe (mark_slashed s i e) (\<lambda>x. ?k < length (slashings x) \<and>
        safe (pay_slashing p (x\<lparr>slashings := (slashings x)[?k := b]\<rparr>) i w ?eb)
          (\<lambda>st'. state_ok p st' \<and> chain_frame st' = chain_frame st \<and> slashed_in p st i st'))"
    proof (rule safe_mono)
      fix x assume x: "state_ok p x \<and> (\<exists>v. x = s\<lparr>validators := (validators s)[i := v]\<rparr> \<and> v_slashed v
        \<and> v_pubkey v = v_pubkey (validators s ! i) \<and> e \<le> v_withdrawable_epoch v)"
      have marked: "slashed_in p st i (x\<lparr>slashings := (slashings x)[?k := b], balances := bs\<rparr>)" for bs
        using x s i e b by (auto simp: slashed_in_def res_simps)
      have frame: "chain_frame (x\<lparr>slashings := (slashings x)[?k := b], balances := bs\<rparr>) = chain_frame st" for bs
        using x s by auto
      have "state_ok p (x\<lparr>slashings := (slashings x)[?k := b]\<rparr>)" using bucket x b by (auto simp: res_simps)
      then have "safe (pay_slashing p (x\<lparr>slashings := (slashings x)[?k := b]\<rparr>) i w ?eb)
          (\<lambda>st'. state_ok p st' \<and> chain_frame st' = chain_frame st \<and> slashed_in p st i st')"
        by (intro safe_mono [OF pay_slashing_safe [OF _ eb]]) (use marked frame in auto)
      then show "?k < length (slashings x) \<and> safe (pay_slashing p (x\<lparr>slashings := (slashings x)[?k := b]\<rparr>) i w ?eb)
          (\<lambda>st'. state_ok p st' \<and> chain_frame st' = chain_frame st \<and> slashed_in p st i st')"
        using x s k by auto
    qed
  qed (use i k in simp_all)
qed

section \<open>The handlers keep the invariant\<close>

lemma clear_payment_safe:
  assumes ok: "state_ok p st"
  shows "safe (clear_slashed_payment p st h) (\<lambda>s. state_ok p s \<and> chain_frame s = chain_frame st \<and> validators s = validators st)"
proof -
  have "bbh_slot h mod SLOTS_PER_EPOCH p < 2 * SLOTS_PER_EPOCH p"
    by (rule less_le_trans [OF mod_less_divisor [OF slots_per_epoch_pos]]) simp
  then have idx: "bbh_slot h mod SLOTS_PER_EPOCH p < length (builder_pending_payments st)"
    "SLOTS_PER_EPOCH p + bbh_slot h mod SLOTS_PER_EPOCH p < length (builder_pending_payments st)"
    using state_ok_builder_pending_payments(1) [OF ok] by (simp_all add: window_len)
  show ?thesis
    using idx state_ok_set_payment [OF ok default_payment_ok] ok
    by (auto simp: clear_slashed_payment_def Let_def safe_simps)
qed

lemma proposer_slashing_safe:
  assumes ok: "state_ok p st"
  shows "safe (process_proposer_slashing X p st sl) (\<lambda>st'. state_ok p st' \<and> chain_frame st' = chain_frame st)"
proof -
  have slash: "safe (clear_slashed_payment p st h) (\<lambda>s. safe (slash_validator p s i w) (\<lambda>st'. state_ok p st' \<and> chain_frame st' = chain_frame st))"
    for h i w
    by (rule safe_mono [OF clear_payment_safe [OF ok]]) (auto intro!: safe_mono [OF slash_safe])
  show ?thesis
    unfolding process_proposer_slashing_def Let_def safe_bind safe_reject safe_validator signing_safe
    by (intro impI allI safe_mono [OF verify_signature_safe] slash)
qed

interpretation proposer_slashing: phase X p "\<lambda>st. process_proposer_slashing X p st sl" for X p sl
  by unfold_locales (rule proposer_slashing_safe)

lemma slash_attester_safe:
  assumes "state_ok p s \<and> chain_frame s = chain_frame st"
  shows "safe (slash_attester p e (s, b) i) (\<lambda>(s', b'). state_ok p s' \<and> chain_frame s' = chain_frame st)"
  using assms by (auto simp: slash_attester_def safe_bind safe_validator safe_if intro!: safe_mono [OF slash_safe])

lemma attester_slashing_safe:
  assumes ok: "state_ok p st"
  shows "safe (process_attester_slashing X p st sl) (\<lambda>st'. state_ok p st' \<and> chain_frame st' = chain_frame st)"
proof -
  have loop: "safe (foldR (slash_attester p e) (st, False) vis) (\<lambda>(s, _). state_ok p s \<and> chain_frame s = chain_frame st)" for e vis
    by (rule safe_foldR) (use ok slash_attester_safe in auto)
  show ?thesis
    unfolding process_attester_slashing_def Let_def safe_bind safe_reject
    by (intro impI safe_mono [OF validate_indexed_safe] safe_mono [OF loop]) (auto simp: safe_simps)
qed

interpretation attester_slashing: phase X p "\<lambda>st. process_attester_slashing X p st sl" for X p sl
  by unfold_locales (rule attester_slashing_safe)

lemma voluntary_exit_safe:
  assumes ok: "state_ok p st"
  shows "safe (process_voluntary_exit X p st ex) (\<lambda>st'. state_ok p st' \<and> chain_frame st' = chain_frame st)"
proof -
  have exit: "safe (initiate_validator_exit p st i) (\<lambda>st'. state_ok p st' \<and> chain_frame st' = chain_frame st)" for i
    by (rule safe_mono [OF initiate_exit_frame [OF ok]]) simp
  show ?thesis
    unfolding process_voluntary_exit_def Let_def safe_bind safe_reject safe_validator signing_safe get_pending_balance_safe
    by (intro impI allI safe_mono [OF verify_signature_safe] exit)
qed

interpretation voluntary_exit: phase X p "\<lambda>st. process_voluntary_exit X p st ex" for X p ex
  by unfold_locales (rule voluntary_exit_safe)

lemma bls_change_phase:
  assumes "SignedBLSToExecutionChange_ok c"
  shows "phase X p (\<lambda>st. process_bls_to_execution_change X p st c)"
proof
  fix st assume ok: "state_ok p st"
  let ?c = "sbtec_message c"
  let ?creds = "ETH1_ADDRESS_WITHDRAWAL_PREFIX # replicate 11 0 @ btec_to_execution_address ?c"
  have upd: "state_ok p (st\<lparr>validators := (validators st)[i := (validators st ! i)\<lparr>v_withdrawal_credentials := ?creds\<rparr>]\<rparr>)"
    if "i < length (validators st)" for i
    by (rule state_ok_set_validator [OF ok])
      (use validator_nth_ok [OF ok that] assms in \<open>simp add: Validator_ok_iff SignedBLSToExecutionChange_ok_iff BLSToExecutionChange_ok_iff\<close>)
  have creds: "v_withdrawal_credentials (validators st ! i) \<noteq> []" if "i < length (validators st)" for i
    using validator_nth_ok [OF ok that] by (auto simp: Validator_ok_iff)
  show "safe (process_bls_to_execution_change X p st c) (\<lambda>st'. state_ok p st' \<and> chain_frame st' = chain_frame st)"
    unfolding process_bls_to_execution_change_def Let_def safe_bind safe_reject safe_validator signing_safe safe_idx safe_idx_set
    by (intro impI conjI allI safe_mono [OF verify_signature_safe]) (simp_all add: upd creds)
qed

section \<open>Evidence is used once\<close>

lemma attester_loop_slashes:
  assumes "state_ok p s" and "foldR (slash_attester p e) (s, b) vis = Inr (s', b')" and "e = epoch_of p (slot s)"
  shows "length (validators s') = length (validators s) \<and> map v_pubkey (validators s') = map v_pubkey (validators s)
    \<and> (\<forall>i \<in> set vis. \<not> is_slashable_validator (validators s' ! i) e)
    \<and> (\<forall>i < length (validators s). \<not> is_slashable_validator (validators s ! i) e \<longrightarrow> \<not> is_slashable_validator (validators s' ! i) e)
    \<and> chain_frame s' = chain_frame s \<and> (\<forall>i \<in> set vis. i < length (validators s))"
  using assms
proof (induction vis arbitrary: s b)
  case Nil
  then show ?case by simp
next
  case (Cons i vis)
  from Cons.prems(2) obtain s1 b1 where one: "slash_attester p e (s, b) i = Inr (s1, b1)"
    and rest: "foldR (slash_attester p e) (s1, b1) vis = Inr (s', b')" by (auto simp: bindR_eq_Inr)
  have i: "i < length (validators s)" using one by (auto simp: slash_attester_def bindR_eq_Inr validator_def res_simps)
  have step: "state_ok p s1 \<and> chain_frame s1 = chain_frame s
      \<and> (\<exists>v. validators s1 = (validators s)[i := v] \<and> v_pubkey v = v_pubkey (validators s ! i) \<and> \<not> is_slashable_validator v e)"
  proof (cases "is_slashable_validator (validators s ! i) e")
    case True
    then have "slash_validator p s i None = Inr s1"
      using one i by (auto simp: slash_attester_def bindR_eq_Inr validator_def res_simps)
    from safeD [OF slash_safe [OF Cons.prems(1)] this] show ?thesis
      by (auto simp: slashed_in_def is_slashable_validator_def)
  next
    case False
    then have "s1 = s" using one i by (auto simp: slash_attester_def bindR_eq_Inr validator_def res_simps)
    then show ?thesis using Cons.prems(1) False by (auto intro!: exI [of _ "validators s ! i"])
  qed
  then obtain v where s1: "state_ok p s1" "chain_frame s1 = chain_frame s" "validators s1 = (validators s)[i := v]"
    "v_pubkey v = v_pubkey (validators s ! i)" "\<not> is_slashable_validator v e" by blast
  have "e = epoch_of p (slot s1)" using chain_frame_eqD(1) [OF s1(2)] Cons.prems(3) by simp
  note IH = Cons.IH [OF s1(1) rest this]
  have keys: "map v_pubkey (validators s1) = map v_pubkey (validators s)"
    using s1(4) by (simp add: s1(3) map_update) (metis list_update_id map_update nth_map i)
  have len: "length (validators s1) = length (validators s)" by (simp add: s1(3))
  have "\<not> is_slashable_validator (validators s1 ! j) e"
    if "j < length (validators s)" "j = i \<or> \<not> is_slashable_validator (validators s ! j) e" for j
    using that s1(5) by (cases "j = i") (auto simp: s1(3))
  then show ?case using IH keys len s1(2) i by simp
qed

lemma validate_indexed_frame:
  assumes "map v_pubkey (validators s') = map v_pubkey (validators s)" and "chain_frame s' = chain_frame s"
  shows "validate_indexed_attestation X p s' ia e = validate_indexed_attestation X p s ia e"
proof -
  have key: "bindR (validator s' i) (\<lambda>v. Inr (v_pubkey v)) = bindR (validator s i) (\<lambda>v. Inr (v_pubkey v))" for i
    using arg_cong [OF assms(1), of length] arg_cong [OF assms(1), of "\<lambda>ks. ks ! i"]
    by (auto simp: validator_def get_at_def)
  have "domain_for X p s' dt ep = domain_for X p s dt ep" for dt ep
    using chain_frame_eqD [OF assms(2)] by (simp add: domain_for_def get_domain_def fork_version_at_def Let_def)
  then show ?thesis by (simp add: validate_indexed_attestation_def key)
qed

text \<open>
  C26: attester-slashing evidence can be used once. After it has been accepted, no validator named by
  both attestations is slashable any more, and the same evidence is rejected with the error for
  evidence that slashes nobody.
\<close>

theorem attester_slashing_once:
  assumes ok: "state_ok p st" and run: "process_attester_slashing X p st sl = Inr st'"
  shows "process_attester_slashing X p st' sl = fail (OperationErr Op_AttesterSlashingNotSlashable)"
proof -
  let ?a1 = "as_attestation_1 sl" and ?a2 = "as_attestation_2 sl" and ?e = "epoch_of p (slot st)"
  let ?vis = "sorted_list_of_set (set (ia_attesting_indices ?a1) \<inter> set (ia_attesting_indices ?a2))"
  from run have pre: "is_slashable_attestation_data (ia_data ?a1) (ia_data ?a2)" "?vis \<noteq> []"
    and valid: "validate_indexed_attestation X p st ?a1 Sig_AttesterSlashingAttestationOne = Inr ()"
      "validate_indexed_attestation X p st ?a2 Sig_AttesterSlashingAttestationTwo = Inr ()"
    and loop: "foldR (slash_attester p ?e) (st, False) ?vis = Inr (st', True)"
    by (auto simp: process_attester_slashing_def Let_def bindR_eq_Inr reject_eq_Inr simp del: sorted_list_of_set_eq_Nil_iff)
  note after = attester_loop_slashes [OF ok loop refl]
  have e: "epoch_of p (slot st') = ?e" using after chain_frame_eqD(1) by metis
  have "slash_attester p ?e (st', False) i = Inr (st', False)" if "i \<in> set ?vis" for i
    using after that by (simp add: slash_attester_def validator_def get_at_def)
  then have again: "foldR (slash_attester p ?e) (st', False) ?vis = Inr (st', False)" by (rule foldR_fixpoint)
  have "map v_pubkey (validators st') = map v_pubkey (validators st)" and "chain_frame st' = chain_frame st"
    using after by blast+
  note valid' = valid [folded validate_indexed_frame [OF this]]
  show ?thesis
    unfolding process_attester_slashing_def Let_def e valid' again using pre by (simp del: sorted_list_of_set_eq_Nil_iff)
qed

text \<open>
  C27: a proposer is slashed once per offence. After a proposer slashing has been accepted the
  proposer is marked slashed, with a withdrawal delayed by at least the length of the slashings vector,
  and the same evidence is rejected because the proposer is not slashable.
\<close>

theorem proposer_slashing_once:
  assumes ok: "state_ok p st" and run: "process_proposer_slashing X p st sl = Inr st'"
  defines "i \<equiv> bbh_proposer_index (sbbh_message (ps_signed_header_1 sl))"
  shows "v_slashed (validators st' ! i)
    \<and> get_current_epoch p st + EPOCHS_PER_SLASHINGS_VECTOR p \<le> v_withdrawable_epoch (validators st' ! i)
    \<and> process_proposer_slashing X p st' sl = fail (OperationErr (Op_ProposerSlashingNotSlashable i))"
proof -
  let ?h1 = "sbbh_message (ps_signed_header_1 sl)" and ?h2 = "sbbh_message (ps_signed_header_2 sl)"
  from run obtain s where pre: "bbh_slot ?h1 = bbh_slot ?h2" "bbh_proposer_index ?h1 = bbh_proposer_index ?h2" "?h1 \<noteq> ?h2"
    and clear: "clear_slashed_payment p st ?h1 = Inr s" and slash: "slash_validator p s i None = Inr st'"
    by (auto simp: process_proposer_slashing_def Let_def bindR_eq_Inr reject_eq_Inr i_def)
  have s: "state_ok p s \<and> chain_frame s = chain_frame st \<and> validators s = validators st"
    by (rule safeD [OF clear_payment_safe [OF ok] clear])
  have after: "slashed_in p s i st'" using safeD [OF slash_safe slash] s by blast
  have epoch: "get_current_epoch p s = get_current_epoch p st"
    using chain_frame_eqD(1) [of s st] s by (simp add: get_current_epoch_def)
  have marked: "i < length (validators st')" "v_slashed (validators st' ! i)"
    "get_current_epoch p st + EPOCHS_PER_SLASHINGS_VECTOR p \<le> v_withdrawable_epoch (validators st' ! i)"
    using after by (auto simp: slashed_in_def epoch)
  then have "process_proposer_slashing X p st' sl = fail (OperationErr (Op_ProposerSlashingNotSlashable i))"
    using pre by (simp add: process_proposer_slashing_def Let_def validator_def get_at_def is_slashable_validator_def flip: i_def)
  then show ?thesis using marked by blast
qed

section \<open>Examples of evidence\<close>

lemma ex_slash: "\<exists>st'. slash_validator Minimal (ex_state Minimal) 1 None = Inr st'"
proof -
  have ep: "epoch_of Minimal 47 = 5" by (simp add: epoch_of_def SLOTS_PER_EPOCH_def)
  show ?thesis
    by (simp add: slash_validator_def Let_def get_current_epoch_def ep initiate_validator_exit_def validator_def get_at_def
        compute_exit_epoch_and_update_churn_def get_exit_churn_limit_def ex_balance_churn consume_churn_budget_def
        compute_activation_exit_epoch_def checked_add_def checked_sub_def u64_max_def idx_def idx_set_def mark_slashed_def
        pay_slashing_def u_div_def u_mul_def u_sub_def decrease_balance_def increase_balance_def balance_mut_def
        get_beacon_proposer_index_def saturating_sub_def const_defs)
qed

lemma ex_domain: "\<exists>d. domain_for ex_ext Minimal (ex_state Minimal) dt e = Inr d \<and> length d = 32" if "length dt = 4"
  using that compute_domain_total [OF ex_ext_ok, of dt "replicate 4 0" "replicate 32 0"]
  by (simp add: domain_for_def get_domain_def fork_version_at_def Let_def)

lemma ex_pubkey_finite [simp]: "ex_pubkey (Suc 0) \<noteq> G1_POINT_AT_INFINITY"
  by (simp add: ex_pubkey_def G1_POINT_AT_INFINITY_def)

definition ex_proposer_slashing :: ProposerSlashing where
  "ex_proposer_slashing =
     \<lparr>ps_signed_header_1 = \<lparr>sbbh_message = ex_header\<lparr>bbh_slot := 30, bbh_proposer_index := 1\<rparr>, sbbh_signature = replicate 96 0\<rparr>,
      ps_signed_header_2 = \<lparr>sbbh_message = ex_header\<lparr>bbh_slot := 30, bbh_proposer_index := 1, bbh_state_root := replicate 32 1\<rparr>,
        sbbh_signature = replicate 96 0\<rparr>\<rparr>"

theorem proposer_slashing_once_witness:
  "\<exists>st'. process_proposer_slashing ex_ext Minimal (ex_state Minimal) ex_proposer_slashing = Inr st'
     \<and> process_proposer_slashing ex_ext Minimal st' ex_proposer_slashing = fail (OperationErr (Op_ProposerSlashingNotSlashable 1))"
proof -
  let ?h1 = "ex_header\<lparr>bbh_slot := 30, bbh_proposer_index := 1\<rparr>"
  let ?h2 = "ex_header\<lparr>bbh_slot := 30, bbh_proposer_index := 1, bbh_state_root := replicate 32 1\<rparr>"
  obtain d where d: "domain_for ex_ext Minimal (ex_state Minimal) DOMAIN_BEACON_PROPOSER 3 = Inr d" "length d = 32"
    using ex_domain [of DOMAIN_BEACON_PROPOSER 3] by (auto simp: DOMAIN_BEACON_PROPOSER_def)
  have hdr: "BeaconBlockHeader_ty \<in> set (container_types Minimal)" by (simp add: container_types_def)
  have typed: "well_typed BeaconBlockHeader_ty (BeaconBlockHeader_val ?h1)" "well_typed BeaconBlockHeader_ty (BeaconBlockHeader_val ?h2)"
    by (simp_all add: BeaconBlockHeader_ok_iff ex_header_def u64_max_def flip: BeaconBlockHeader_ok_def)
  obtain r1 r2 where r: "compute_signing_root ex_ext BeaconBlockHeader_ty (BeaconBlockHeader_val ?h1) d Mer_BeaconBlockHeader = Inr r1"
    "compute_signing_root ex_ext BeaconBlockHeader_ty (BeaconBlockHeader_val ?h2) d Mer_BeaconBlockHeader = Inr r2"
    using compute_signing_root_total [OF ex_ext_ok hdr _ d(2)] typed by blast
  obtain st' where slash: "slash_validator Minimal (ex_state Minimal) 1 None = Inr st'" using ex_slash ..
  have "?h1 \<noteq> ?h2" by (simp add: ex_header_def)
  moreover have "epoch_of Minimal 30 = 3" "epoch_of Minimal 47 = 5" by (simp_all add: epoch_of_def SLOTS_PER_EPOCH_def)
  ultimately have run: "process_proposer_slashing ex_ext Minimal (ex_state Minimal) ex_proposer_slashing = Inr st'"
    using d r slash
    by (simp add: process_proposer_slashing_def ex_proposer_slashing_def Let_def validator_def get_at_def is_slashable_validator_def
        clear_slashed_payment_def saturating_sub_def FAR_FUTURE_EPOCH_def u64_max_def)
  from proposer_slashing_once [OF ex_state_ok run] run show ?thesis by (auto simp: ex_proposer_slashing_def)
qed

definition ex_vote :: "byte \<Rightarrow> IndexedAttestation" where
  "ex_vote b = \<lparr>ia_attesting_indices = [1],
     ia_data = \<lparr>ad_slot = 41, ad_index = 0, ad_beacon_block_root = replicate 32 b,
       ad_source = ex_checkpoint 4, ad_target = ex_checkpoint 5\<rparr>,
     ia_signature = replicate 96 0\<rparr>"

lemma ex_vote_valid: "validate_indexed_attestation ex_ext Minimal (ex_state Minimal) (ex_vote b) e = Inr ()"
proof -
  obtain d where d: "domain_for ex_ext Minimal (ex_state Minimal) DOMAIN_BEACON_ATTESTER 5 = Inr d" "length d = 32"
    using ex_domain [of DOMAIN_BEACON_ATTESTER 5] by (auto simp: DOMAIN_BEACON_ATTESTER_def)
  have data: "AttestationData_ty \<in> set (container_types Minimal)" by (simp add: container_types_def)
  have typed: "well_typed AttestationData_ty (AttestationData_val (ia_data (ex_vote b)))"
    by (simp add: AttestationData_ok_iff Checkpoint_ok_iff ex_vote_def u64_max_def flip: AttestationData_ok_def)
  obtain r where "compute_signing_root ex_ext AttestationData_ty (AttestationData_val (ia_data (ex_vote b))) d Mer_AttestationData = Inr r"
    using compute_signing_root_total [OF ex_ext_ok data typed d(2)] by blast
  moreover have "fast_aggregate_verify ex_ext [ex_pubkey (Suc 0)] r s e = Inr ()" for r s
    by (simp add: fast_aggregate_verify_def aggregate_pubkey_point_def parse_pubkey_def parse_signature_def hash_to_g2_def
        verify_pairing_def ex_ext_def)
  ultimately show ?thesis using d
    by (simp add: validate_indexed_attestation_def Let_def ex_vote_def validator_def get_at_def)
qed

theorem attester_slashing_once_witness:
  "\<exists>st' sl. process_attester_slashing ex_ext Minimal (ex_state Minimal) sl = Inr st'
     \<and> process_attester_slashing ex_ext Minimal st' sl = fail (OperationErr Op_AttesterSlashingNotSlashable)"
proof -
  let ?sl = "\<lparr>as_attestation_1 = ex_vote 0, as_attestation_2 = ex_vote 1\<rparr>"
  obtain st' where slash: "slash_validator Minimal (ex_state Minimal) 1 None = Inr st'" using ex_slash ..
  have "is_slashable_attestation_data (ia_data (ex_vote 0)) (ia_data (ex_vote 1))"
    by (simp add: is_slashable_attestation_data_def ex_vote_def Let_def)
  moreover have "ia_attesting_indices (ex_vote b) = [1]" for b by (simp add: ex_vote_def)
  moreover have "epoch_of Minimal 47 = 5" by (simp add: epoch_of_def SLOTS_PER_EPOCH_def)
  ultimately have run: "process_attester_slashing ex_ext Minimal (ex_state Minimal) ?sl = Inr st'"
    using slash
    by (simp add: process_attester_slashing_def Let_def ex_vote_valid slash_attester_def validator_def get_at_def
        is_slashable_validator_def FAR_FUTURE_EPOCH_def u64_max_def)
  from attester_slashing_once [OF ex_state_ok run] run show ?thesis by blast
qed

end
