(* ===== verification/Requests.thy ===== *)
theory Requests
  imports Slashings
begin

text \<open>
  Execution-layer requests (\<open>operations/requests.rs\<close>) and the life cycle of builders
  (\<open>builder/lifecycle.rs\<close>). A request that does not meet its conditions is ignored, which is an
  unchanged state, not an error.
\<close>

section \<open>Builder life cycle (builder/lifecycle.rs)\<close>

definition is_active_builder :: "BeaconState \<Rightarrow> BuilderIndex \<Rightarrow> bool tres" where
  "is_active_builder st i =
     bindR (builder st i) (\<lambda>b.
     Inr (bld_deposit_epoch b < cp_epoch (finalized_checkpoint st) \<and> bld_withdrawable_epoch b = FAR_FUTURE_EPOCH))"

definition initiate_builder_exit :: "preset \<Rightarrow> BeaconState \<Rightarrow> BuilderIndex \<Rightarrow> BeaconState tres" where
  "initiate_builder_exit p st i =
     bindR (builder st i) (\<lambda>_.
     let current_epoch = epoch_of p (slot st) in
     bindR (or_err (checked_add current_epoch (MIN_BUILDER_WITHDRAWABILITY_DELAY p)) (ArithmeticOverflow Arith_Epoch)) (\<lambda>withdrawable.
     bindR (idx (builders st) i) (\<lambda>b.
     bindR (idx_set (builders st) i (b\<lparr>bld_withdrawable_epoch := withdrawable\<rparr>)) (\<lambda>bs.
     Inr (st\<lparr>builders := bs\<rparr>)))))"

section \<open>Requests (operations/requests.rs)\<close>

definition process_deposit_request :: "BeaconState \<Rightarrow> DepositRequest \<Rightarrow> BeaconState tres" where
  "process_deposit_request st request =
     (let st = (if deposit_requests_start_index st = UNSET_DEPOSIT_REQUESTS_START_INDEX
                then st\<lparr>deposit_requests_start_index := dr_index request\<rparr> else st)
      in
      bindR (reject (length (pending_deposits st) \<ge> PENDING_DEPOSITS_LIMIT) (BoundedListFull BL_PendingDeposits)) (\<lambda>_.
      bindR (or_err (list_push PENDING_DEPOSITS_LIMIT (pending_deposits st)
               \<lparr>pd_pubkey = dr_pubkey request, pd_withdrawal_credentials = dr_withdrawal_credentials request,
                pd_amount = dr_amount request, pd_signature = dr_signature request, pd_slot = slot st\<rparr>)
               (BoundedListFull BL_PendingDeposits)) (\<lambda>ds.
      Inr (st\<lparr>pending_deposits := ds\<rparr>))))"

text \<open>The partial-withdrawal path of \<open>process_withdrawal_request\<close>.\<close>

definition queue_partial_withdrawal ::
    "preset \<Rightarrow> BeaconState \<Rightarrow> WithdrawalRequest \<Rightarrow> ValidatorIndex \<Rightarrow> Gwei \<Rightarrow> BeaconState tres" where
  "queue_partial_withdrawal p st request index pending =
     bindR (validator st index) (\<lambda>v.
     if \<not> has_compounding_withdrawal_credential v then Inr st
     else
     let effective_balance = v_effective_balance v in
     bindR (or_err (get_at (balances st) index) (InvariantErr (Inv_MissingBalance index))) (\<lambda>balance.
     let has_sufficient_effective_balance = (effective_balance \<ge> MIN_ACTIVATION_BALANCE) in
     bindR (or_err (checked_add MIN_ACTIVATION_BALANCE pending) (ArithmeticOverflow Arith_BalanceSum)) (\<lambda>floor.
     let has_excess_balance = (balance > floor) in
     if \<not> has_sufficient_effective_balance \<or> \<not> has_excess_balance then Inr st
     else
     bindR (u_sub balance floor) (\<lambda>max_excess.
     let to_withdraw = min max_excess (wr_amount request) in
     bindR (compute_exit_epoch_and_update_churn p st to_withdraw) (\<lambda>(exit_queue_epoch, st).
     bindR (or_err (checked_add exit_queue_epoch MIN_VALIDATOR_WITHDRAWABILITY_DELAY)
              (OperationErr (Op_WithdrawableEpochOverflow index))) (\<lambda>withdrawable_epoch.
     bindR (or_err (list_push (PENDING_PARTIAL_WITHDRAWALS_LIMIT p) (pending_partial_withdrawals st)
              \<lparr>ppw_validator_index = index, ppw_amount = to_withdraw, ppw_withdrawable_epoch = withdrawable_epoch\<rparr>)
              (BoundedListFull BL_PendingPartialWithdrawals)) (\<lambda>ws.
     Inr (st\<lparr>pending_partial_withdrawals := ws\<rparr>))))))))"

definition process_withdrawal_request :: "preset \<Rightarrow> BeaconState \<Rightarrow> WithdrawalRequest \<Rightarrow> BeaconState tres" where
  "process_withdrawal_request p st request =
     (let is_full_exit_request = (wr_amount request = FULL_EXIT_REQUEST_AMOUNT) in
      if \<not> is_full_exit_request \<and> length (pending_partial_withdrawals st) = PENDING_PARTIAL_WITHDRAWALS_LIMIT p then Inr st
      else case validator_index st (wr_validator_pubkey request) of None \<Rightarrow> Inr st | Some index \<Rightarrow>
      bindR (validator st index) (\<lambda>v.
      if \<not> has_execution_withdrawal_credential v then Inr st
      else if drop 12 (v_withdrawal_credentials v) \<noteq> wr_source_address request then Inr st
      else if \<not> is_active_validator v (epoch_of p (slot st)) then Inr st
      else if v_exit_epoch v \<noteq> FAR_FUTURE_EPOCH then Inr st
      else if epoch_of p (slot st) < saturating_add (v_activation_epoch v) (SHARD_COMMITTEE_PERIOD p) then Inr st
      else
      bindR (get_pending_balance_to_withdraw st index) (\<lambda>pending.
      if is_full_exit_request then
        if pending \<noteq> 0 then Inr st else initiate_validator_exit p st index
      else queue_partial_withdrawal p st request index pending)))"

definition is_valid_switch_to_compounding_request :: "preset \<Rightarrow> BeaconState \<Rightarrow> ConsolidationRequest \<Rightarrow> bool" where
  "is_valid_switch_to_compounding_request p st request =
     (if cr_source_pubkey request \<noteq> cr_target_pubkey request then False
      else case validator_index st (cr_source_pubkey request) of None \<Rightarrow> False | Some source_index \<Rightarrow>
      (case validator st source_index of Inl _ \<Rightarrow> False | Inr source \<Rightarrow>
      if drop 12 (v_withdrawal_credentials source) \<noteq> cr_source_address request then False
      else if \<not> has_eth1_withdrawal_credential source then False
      else is_active_validator source (epoch_of p (slot st)) \<and> v_exit_epoch source = FAR_FUTURE_EPOCH))"

text \<open>The last part of \<open>process_consolidation_request\<close>, after all conditions.\<close>

definition schedule_consolidation ::
    "preset \<Rightarrow> BeaconState \<Rightarrow> ValidatorIndex \<Rightarrow> ValidatorIndex \<Rightarrow> Gwei \<Rightarrow> BeaconState tres" where
  "schedule_consolidation p st source_index target_index source_effective_balance =
     bindR (compute_consolidation_epoch_and_update_churn p st source_effective_balance) (\<lambda>(exit_epoch, st).
     bindR (or_err (checked_add exit_epoch MIN_VALIDATOR_WITHDRAWABILITY_DELAY)
              (OperationErr (Op_WithdrawableEpochOverflow source_index))) (\<lambda>withdrawable_epoch.
     bindR (idx (validators st) source_index) (\<lambda>v.
     bindR (idx_set (validators st) source_index (v\<lparr>v_exit_epoch := exit_epoch, v_withdrawable_epoch := withdrawable_epoch\<rparr>)) (\<lambda>vs.
     let st = st\<lparr>validators := vs\<rparr> in
     bindR (or_err (list_push (PENDING_CONSOLIDATIONS_LIMIT p) (pending_consolidations st)
              \<lparr>pc_source_index = source_index, pc_target_index = target_index\<rparr>)
              (BoundedListFull BL_PendingConsolidations)) (\<lambda>cs.
     Inr (st\<lparr>pending_consolidations := cs\<rparr>))))))"

definition process_consolidation_request :: "preset \<Rightarrow> BeaconState \<Rightarrow> ConsolidationRequest \<Rightarrow> BeaconState tres" where
  "process_consolidation_request p st request =
     (if is_valid_switch_to_compounding_request p st request then
        (case validator_index st (cr_source_pubkey request) of
           Some source_index \<Rightarrow> switch_to_compounding_validator st source_index
         | None \<Rightarrow> Inr st)
      else if cr_source_pubkey request = cr_target_pubkey request then Inr st
      else if length (pending_consolidations st) = PENDING_CONSOLIDATIONS_LIMIT p then Inr st
      else
      bindR (get_consolidation_churn_limit p st) (\<lambda>churn.
      if churn \<le> MIN_ACTIVATION_BALANCE then Inr st
      else case validator_index st (cr_source_pubkey request) of None \<Rightarrow> Inr st | Some source_index \<Rightarrow>
      (case validator_index st (cr_target_pubkey request) of None \<Rightarrow> Inr st | Some target_index \<Rightarrow>
      bindR (validator st source_index) (\<lambda>source.
      if \<not> has_execution_withdrawal_credential source then Inr st
      else if drop 12 (v_withdrawal_credentials source) \<noteq> cr_source_address request then Inr st
      else
      bindR (validator st target_index) (\<lambda>target.
      let current_epoch = epoch_of p (slot st) in
      if \<not> has_compounding_withdrawal_credential target then Inr st
      else if \<not> is_active_validator source current_epoch \<or> \<not> is_active_validator target current_epoch then Inr st
      else if v_exit_epoch source \<noteq> FAR_FUTURE_EPOCH \<or> v_exit_epoch target \<noteq> FAR_FUTURE_EPOCH then Inr st
      else if current_epoch < saturating_add (v_activation_epoch source) (SHARD_COMMITTEE_PERIOD p) then Inr st
      else
      bindR (get_pending_balance_to_withdraw st source_index) (\<lambda>pending.
      if pending > 0 then Inr st
      else schedule_consolidation p st source_index target_index (v_effective_balance source)))))))"

definition process_builder_exit_request :: "preset \<Rightarrow> BeaconState \<Rightarrow> BuilderExitRequest \<Rightarrow> BeaconState tres" where
  "process_builder_exit_request p st request =
     (case builder_index st (ber_pubkey request) of None \<Rightarrow> Inr st | Some i \<Rightarrow>
      bindR (is_active_builder st i) (\<lambda>active.
      if \<not> active then Inr st
      else
      bindR (builder st i) (\<lambda>b.
      if bld_execution_address b \<noteq> ber_source_address request then Inr st
      else
      bindR (get_pending_balance_to_withdraw_for_builder st i) (\<lambda>pending.
      if pending \<noteq> 0 then Inr st else initiate_builder_exit p st i))))"

section \<open>Requests keep the invariant\<close>

lemma safe_iff: "safe m (\<lambda>_. True) \<Longrightarrow> safe m Q = (\<forall>x. m = Inr x \<longrightarrow> Q x)"
  by (cases m) simp_all

lemma checked_sum_safe: "safe (foldR (\<lambda>s amount. or_err (checked_add s amount) e) s as) (\<lambda>_. True)"
  by (rule safe_foldR) (simp_all add: safe_or_err)

lemma pending_for_builder_safe [safe_simps]:
  "safe (get_pending_balance_to_withdraw_for_builder st i) Q =
     (\<forall>t. get_pending_balance_to_withdraw_for_builder st i = Inr t \<longrightarrow> Q t)"
  by (rule safe_iff) (auto simp: get_pending_balance_to_withdraw_for_builder_def safe_bind
      intro: safe_mono [OF checked_sum_safe] checked_sum_safe)

lemma state_ok_set_builder:
  assumes "state_ok p st" and "Builder_ok b"
  shows "state_ok p (st\<lparr>builders := (builders st)[i := b]\<rparr>)"
  by (rule state_ok_upd_builders [OF assms(1)])
    (simp_all add: state_ok_builders(1) [OF assms(1)] set_update_all [OF state_ok_builders(2) [OF assms(1)] assms(2)])

lemma builder_nth_ok: "state_ok p st \<Longrightarrow> i < length (builders st) \<Longrightarrow> Builder_ok (builders st ! i)"
  using state_ok_builders(2) nth_mem by blast

lemma builder_exit_safe:
  assumes ok: "state_ok p st"
  shows "safe (initiate_builder_exit p st i) (\<lambda>st'. state_ok p st' \<and> chain_frame st' = chain_frame st)"
proof -
  have "state_ok p (st\<lparr>builders := (builders st)[i := (builders st ! i)\<lparr>bld_withdrawable_epoch := e\<rparr>]\<rparr>)"
    if "i < length (builders st)" "e \<le> u64_max" for e
    by (rule state_ok_set_builder [OF ok]) (use builder_nth_ok [OF ok that(1)] that(2) in \<open>simp add: Builder_ok_iff\<close>)
  then show ?thesis by (auto simp: initiate_builder_exit_def Let_def safe_simps res_simps)
qed

lemma builder_exit_request_safe:
  assumes "state_ok p st"
  shows "safe (process_builder_exit_request p st r) (\<lambda>st'. state_ok p st' \<and> chain_frame st' = chain_frame st)"
  using assms builder_exit_safe [OF assms]
  by (auto simp: process_builder_exit_request_def is_active_builder_def safe_simps split: option.split)

interpretation builder_exit: phase X p "\<lambda>st. process_builder_exit_request p st r" for X p r
  by unfold_locales (rule builder_exit_request_safe)

lemma deposit_request_phase:
  assumes r: "DepositRequest_ok r"
  shows "phase X p (\<lambda>st. process_deposit_request st r)"
proof
  fix st assume ok: "state_ok p st"
  let ?st = "if deposit_requests_start_index st = UNSET_DEPOSIT_REQUESTS_START_INDEX
      then st\<lparr>deposit_requests_start_index := dr_index r\<rparr> else st"
  let ?d = "\<lparr>pd_pubkey = dr_pubkey r, pd_withdrawal_credentials = dr_withdrawal_credentials r,
      pd_amount = dr_amount r, pd_signature = dr_signature r, pd_slot = slot ?st\<rparr>"
  have st: "state_ok p ?st" using ok r by (auto simp: DepositRequest_ok_iff intro: state_upd)
  then have "state_ok p (?st\<lparr>pending_deposits := pending_deposits ?st @ [?d]\<rparr>)"
    if "length (pending_deposits ?st) < PENDING_DEPOSITS_LIMIT"
    using that r state_ok_pending_deposits(2) [OF st] state_ok_slot [OF st]
    by (intro state_ok_upd_pending_deposits) (auto simp: PendingDeposit_ok_iff DepositRequest_ok_iff)
  moreover have "chain_frame ?st = chain_frame st" by simp
  ultimately show "safe (process_deposit_request st r) (\<lambda>st'. state_ok p st' \<and> chain_frame st' = chain_frame st)"
    unfolding process_deposit_request_def Let_def safe_bind safe_reject safe_or_err list_push_eq_Some by auto
qed

lemma queue_partial_safe:
  assumes ok: "state_ok p st"
  shows "safe (queue_partial_withdrawal p st r i pend) (\<lambda>st'. state_ok p st' \<and> chain_frame st' = chain_frame st)"
proof -
  have push: "state_ok p (s\<lparr>pending_partial_withdrawals := pending_partial_withdrawals s @ [w]\<rparr>)"
    if "state_ok p s" "PendingPartialWithdrawal_ok w" "length (pending_partial_withdrawals s) < PENDING_PARTIAL_WITHDRAWALS_LIMIT p" for s w
    using that state_ok_pending_partial_withdrawals(2) [OF that(1)] by (intro state_ok_upd_pending_partial_withdrawals) auto
  have queue: "safe (compute_exit_epoch_and_update_churn p st a) (\<lambda>(e, s).
      safe (bindR (or_err (checked_add e d) err) (\<lambda>we.
        bindR (or_err (list_push (PENDING_PARTIAL_WITHDRAWALS_LIMIT p) (pending_partial_withdrawals s)
          \<lparr>ppw_validator_index = i, ppw_amount = a, ppw_withdrawable_epoch = we\<rparr>) err') (\<lambda>ws.
        Inr (s\<lparr>pending_partial_withdrawals := ws\<rparr>)))) (\<lambda>st'. state_ok p st' \<and> chain_frame st' = chain_frame st))"
    if "i < length (validators st)" "a \<le> u64_max" for a d err err'
    by (rule safe_mono [OF exit_epoch_update_safe [OF ok that(2)]])
      (auto simp: safe_simps res_simps PendingPartialWithdrawal_ok_iff registry_index_u64 [OF ok that(1)] that(2) intro!: push)
  have bal: "min (balances st ! i - f) x \<le> u64_max" if "i < length (balances st)" for f x
    using state_ok_balances(2) [OF ok] nth_mem [OF that] by (meson diff_le_self le_trans min.cobounded1)
  have len: "length (balances st) = length (validators st)" by (rule state_ok_aligned(1) [OF ok])
  show ?thesis
    unfolding queue_partial_withdrawal_def Let_def safe_bind safe_validator safe_if safe_or_err safe_u_sub get_at_eq_Some
    using ok queue bal
    by (auto simp: len case_prod_unfold safe_simps)
qed

lemma exit_phase_safe:
  assumes "state_ok p st"
  shows "safe (initiate_validator_exit p st i) (\<lambda>st'. state_ok p st' \<and> chain_frame st' = chain_frame st)"
  by (rule safe_mono [OF initiate_exit_frame [OF assms]]) simp

lemma withdrawal_request_safe:
  assumes ok: "state_ok p st"
  shows "safe (process_withdrawal_request p st r) (\<lambda>st'. state_ok p st' \<and> chain_frame st' = chain_frame st)"
  using ok queue_partial_safe [OF ok] exit_phase_safe [OF ok]
  by (simp add: process_withdrawal_request_def Let_def safe_simps split: option.split)

interpretation withdrawal_request: phase X p "\<lambda>st. process_withdrawal_request p st r" for X p r
  by unfold_locales (rule withdrawal_request_safe)

lemma schedule_consolidation_safe:
  assumes ok: "state_ok p st" and i: "i < length (validators st)" and j: "j < length (validators st)" and b: "b \<le> u64_max"
  shows "safe (schedule_consolidation p st i j b) (\<lambda>st'. state_ok p st' \<and> chain_frame st' = chain_frame st)"
  unfolding schedule_consolidation_def Let_def safe_bind
proof (rule safe_mono [OF consolidation_epoch_update_safe [OF ok b]])
  fix r assume "case r of (e, s) \<Rightarrow> state_ok p s \<and> e \<le> u64_max \<and> epoch_of p (slot st) + 1 + MAX_SEED_LOOKAHEAD \<le> e
      \<and> (\<exists>r. s = st\<lparr>consolidation_balance_to_consume := r, earliest_consolidation_epoch := e\<rparr>)"
  then obtain e s where r: "r = (e, s)" and s: "state_ok p s" "e \<le> u64_max" "validators s = validators st" "chain_frame s = chain_frame st"
    by (cases r) auto
  have exit: "state_ok p (s\<lparr>validators := (validators s)[i := (validators s ! i)\<lparr>v_exit_epoch := e, v_withdrawable_epoch := w\<rparr>]\<rparr>)"
    if "w \<le> u64_max" for w
    by (rule state_ok_set_validator [OF s(1)], rule Validator_ok_exit [OF validator_nth_ok [OF s(1)]]) (use s i that in simp_all)
  have push: "state_ok p (x\<lparr>pending_consolidations := pending_consolidations x @ [c]\<rparr>)"
    if "state_ok p x" "PendingConsolidation_ok c" "length (pending_consolidations x) < PENDING_CONSOLIDATIONS_LIMIT p" for x c
    using that state_ok_pending_consolidations(2) [OF that(1)] by (intro state_ok_upd_pending_consolidations) auto
  have pc: "PendingConsolidation_ok \<lparr>pc_source_index = i, pc_target_index = j\<rparr>"
    using registry_index_u64 [OF ok] i j by (simp add: PendingConsolidation_ok_iff)
  show "safe (case r of (exit_epoch, st) \<Rightarrow> bindR (or_err (checked_add exit_epoch MIN_VALIDATOR_WITHDRAWABILITY_DELAY)
              (OperationErr (Op_WithdrawableEpochOverflow i))) (\<lambda>withdrawable_epoch.
     bindR (idx (validators st) i) (\<lambda>v.
     bindR (idx_set (validators st) i (v\<lparr>v_exit_epoch := exit_epoch, v_withdrawable_epoch := withdrawable_epoch\<rparr>)) (\<lambda>vs.
     bindR (or_err (list_push (PENDING_CONSOLIDATIONS_LIMIT p) (pending_consolidations (st\<lparr>validators := vs\<rparr>))
              \<lparr>pc_source_index = i, pc_target_index = j\<rparr>) (BoundedListFull BL_PendingConsolidations)) (\<lambda>cs.
     Inr (st\<lparr>validators := vs, pending_consolidations := cs\<rparr>))))))
     (\<lambda>st'. state_ok p st' \<and> chain_frame st' = chain_frame st)"
    using s i push [OF exit pc] by (auto simp: r safe_simps res_simps)
qed

lemma consolidation_request_safe:
  assumes ok: "state_ok p st"
  shows "safe (process_consolidation_request p st r) (\<lambda>st'. state_ok p st' \<and> chain_frame st' = chain_frame st)"
proof -
  have sched: "safe (schedule_consolidation p st i j (v_effective_balance (validators st ! i)))
      (\<lambda>st'. state_ok p st' \<and> chain_frame st' = chain_frame st)" if "i < length (validators st)" "j < length (validators st)" for i j
    by (rule schedule_consolidation_safe [OF ok that]) (use validator_nth_ok [OF ok that(1)] in \<open>simp add: Validator_ok_iff\<close>)
  show ?thesis
    using ok switch_to_compounding_safe [OF ok] sched
    by (auto simp: process_consolidation_request_def Let_def safe_simps split: option.split
        intro!: safe_mono [OF consolidation_churn_limit_safe])
qed

interpretation consolidation_request: phase X p "\<lambda>st. process_consolidation_request p st r" for X p r
  by unfold_locales (rule consolidation_request_safe)

section \<open>Requests are authorised\<close>

text \<open>The validator with this key is active, and its withdrawal credentials name this execution address.\<close>

definition controls :: "preset \<Rightarrow> BeaconState \<Rightarrow> ExecutionAddress \<Rightarrow> BLSPubkey \<Rightarrow> bool" where
  "controls p st addr pk \<longleftrightarrow> (\<exists>i < length (validators st). v_pubkey (validators st ! i) = pk
     \<and> has_execution_withdrawal_credential (validators st ! i)
     \<and> drop 12 (v_withdrawal_credentials (validators st ! i)) = addr
     \<and> is_active_validator (validators st ! i) (get_current_epoch p st) \<and> v_exit_epoch (validators st ! i) = FAR_FUTURE_EPOCH)"

text \<open>
  C28: only the owner of a validator can make a request take effect. A withdrawal or consolidation
  request that changes the state names an active validator that is not exiting, and comes from the
  execution address in its withdrawal credentials; every other request is ignored.
\<close>

theorem requests_authorised:
  "(process_withdrawal_request p st w = Inr st1 \<and> st1 \<noteq> st \<longrightarrow> controls p st (wr_source_address w) (wr_validator_pubkey w))
   \<and> (process_consolidation_request p st c = Inr st2 \<and> st2 \<noteq> st \<longrightarrow> controls p st (cr_source_address c) (cr_source_pubkey c))"
proof (intro conjI impI; elim conjE)
  assume "process_withdrawal_request p st w = Inr st1" and "st1 \<noteq> st"
  then obtain i where "validator_index st (wr_validator_pubkey w) = Some i" "i < length (validators st)"
    "has_execution_withdrawal_credential (validators st ! i)" "drop 12 (v_withdrawal_credentials (validators st ! i)) = wr_source_address w"
    "is_active_validator (validators st ! i) (epoch_of p (slot st))" "v_exit_epoch (validators st ! i) = FAR_FUTURE_EPOCH"
    by (auto simp: process_withdrawal_request_def Let_def bindR_eq_Inr validator_eq_Inr split: if_splits option.splits)
  then show "controls p st (wr_source_address w) (wr_validator_pubkey w)"
    by (auto simp: controls_def get_current_epoch_def dest!: validator_index_eq_Some)
next
  assume run: "process_consolidation_request p st c = Inr st2" and changed: "st2 \<noteq> st"
  have "\<exists>i. validator_index st (cr_source_pubkey c) = Some i \<and> i < length (validators st)
      \<and> has_execution_withdrawal_credential (validators st ! i) \<and> drop 12 (v_withdrawal_credentials (validators st ! i)) = cr_source_address c
      \<and> is_active_validator (validators st ! i) (epoch_of p (slot st)) \<and> v_exit_epoch (validators st ! i) = FAR_FUTURE_EPOCH"
  proof (cases "is_valid_switch_to_compounding_request p st c")
    case True
    then show ?thesis
      by (auto simp: is_valid_switch_to_compounding_request_def has_execution_withdrawal_credential_def validator_eq_Inr
          split: if_splits option.splits sum.splits)
  next
    case False
    then show ?thesis using run changed
      by (auto simp: process_consolidation_request_def Let_def bindR_eq_Inr validator_eq_Inr split: if_splits option.splits)
  qed
  then show "controls p st (cr_source_address c) (cr_source_pubkey c)"
    by (auto simp: controls_def get_current_epoch_def dest!: validator_index_eq_Some)
qed

theorem requests_authorised_witness:
  "\<exists>st'. process_consolidation_request Minimal (ex_state Minimal)
       \<lparr>cr_source_address = replicate 20 0, cr_source_pubkey = ex_pubkey 0, cr_target_pubkey = ex_pubkey 0\<rparr> = Inr st'
     \<and> st' \<noteq> ex_state Minimal \<and> controls Minimal (ex_state Minimal) (replicate 20 0) (ex_pubkey 0)"
proof -
  let ?st = "ex_state Minimal"
  let ?c = "\<lparr>cr_source_address = replicate 20 0, cr_source_pubkey = ex_pubkey 0, cr_target_pubkey = ex_pubkey 0\<rparr> :: ConsolidationRequest"
  have i: "validator_index ?st (ex_pubkey 0) = Some 0"
    by (simp add: validator_index_def)
  have s: "is_valid_switch_to_compounding_request Minimal ?st ?c"
    by (simp add: is_valid_switch_to_compounding_request_def i validator_def get_at_def or_err_def ok_or_def has_eth1_withdrawal_credential_def
        ETH1_ADDRESS_WITHDRAWAL_PREFIX_def is_active_validator_def FAR_FUTURE_EPOCH_def epoch_of_def SLOTS_PER_EPOCH_def u64_max_def drop_Cons')
  obtain st' where run: "process_consolidation_request Minimal ?st ?c = Inr st'" and v: "v_withdrawal_credentials (validators st' ! 0) = 2 # replicate 31 0"
    by (simp add: process_consolidation_request_def s i switch_to_compounding_validator_def queue_excess_active_balance_def validator_def
        get_at_def idx_def idx_set_def checked_sub_def list_push_def MIN_ACTIVATION_BALANCE_def PENDING_DEPOSITS_LIMIT_def
        COMPOUNDING_WITHDRAWAL_PREFIX_def)
  have "st' \<noteq> ?st" using v by auto
  with run requests_authorised [of Minimal ?st _ _ ?c st'] show ?thesis by auto
qed

end
