(* ===== verification/Withdrawals.thy ===== *)
theory Withdrawals
  imports Requests
begin

text \<open>
  Withdrawals (\<open>state_transition/withdrawal.rs\<close>): selection of the withdrawals of the next payload
  from four sources (builder queue, pending partial withdrawals, builder sweep, validator sweep),
  their effect on balances, queues and sweep cursors.
\<close>

section \<open>Helpers\<close>

record ExpectedWithdrawals =
  ew_withdrawals :: "Withdrawal list"
  ew_processed_builder_withdrawals_count :: u64
  ew_processed_partial_withdrawals_count :: u64
  ew_processed_builders_sweep_count :: u64
  ew_processed_sweep_withdrawals_count :: u64

type_synonym selection = "Withdrawal list \<times> WithdrawalIndex \<times> u64"

definition withdrawal_address_from_credentials :: "Bytes32 \<Rightarrow> ExecutionAddress" where
  "withdrawal_address_from_credentials credentials = drop 12 credentials"

definition increment_withdrawal_index :: "WithdrawalIndex \<Rightarrow> WithdrawalIndex tres" where
  "increment_withdrawal_index index = or_err (checked_add index 1) (ArithmeticOverflow Arith_WithdrawalIndex)"

definition increment_processed_count :: "u64 \<Rightarrow> u64 tres" where
  "increment_processed_count n = or_err (checked_add n 1) (ArithmeticOverflow Arith_BoundedListLength)"

text \<open>\<open>usize::try_from\<close> and \<open>u64::try_from\<close>: both types have 64 bits.\<close>

definition int_try_from :: "nat \<Rightarrow> nat option" where
  "int_try_from n = (if n \<le> u64_max then Some n else None)"

definition builder_index_as_usize :: "BuilderIndex \<Rightarrow> usize tres" where
  "builder_index_as_usize index = or_err (int_try_from index) (RegistryErr (Reg_BuilderIndexOutOfRange index))"

definition validator_index_as_usize :: "ValidatorIndex \<Rightarrow> usize tres" where
  "validator_index_as_usize index = or_err (int_try_from index) (RegistryErr (Reg_ValidatorIndexOutOfRange index))"

definition cursor_as_u64 :: "usize \<Rightarrow> u64 tres" where
  "cursor_as_u64 cursor = or_err (int_try_from cursor) (ArithmeticOverflow Arith_BoundedListLength)"

definition len_as_u64 :: "usize \<Rightarrow> u64 tres" where
  "len_as_u64 len = or_err (int_try_from len) (ArithmeticOverflow Arith_BoundedListLength)"

definition sweep_limit :: "u64 \<Rightarrow> usize \<Rightarrow> usize tres" where
  "sweep_limit limit len =
     bindR (or_err (int_try_from limit) (ArithmeticOverflow Arith_BoundedListLength)) (\<lambda>limit. Inr (min limit len))"

definition combined_withdrawals_len :: "Withdrawal list \<Rightarrow> Withdrawal list \<Rightarrow> usize tres" where
  "combined_withdrawals_len prior withdrawals =
     or_err (checked_add (length prior) (length withdrawals)) (ArithmeticOverflow Arith_BoundedListLength)"

definition convert_builder_index_to_validator_index :: "BuilderIndex \<Rightarrow> ValidatorIndex tres" where
  "convert_builder_index_to_validator_index index = map_err (\<lambda>e. Err (PrimitiveErr e)) (to_validator_index index)"

definition get_balance_after_withdrawals :: "BeaconState \<Rightarrow> ValidatorIndex \<Rightarrow> Withdrawal list \<Rightarrow> Gwei tres" where
  "get_balance_after_withdrawals st index withdrawals =
     bindR (validator_index_as_usize index) (\<lambda>i.
     bindR (or_err (get_at (balances st) i) (InvariantErr (Inv_MissingBalance index))) (\<lambda>starting.
     bindR (foldR (\<lambda>withdrawn w. or_err (checked_add withdrawn (wd_amount w)) (ArithmeticOverflow Arith_BalanceSum)) 0
              (filter (\<lambda>w. wd_validator_index w = index) withdrawals)) (\<lambda>withdrawn.
     Inr (saturating_sub starting withdrawn))))"

definition is_eligible_for_partial_withdrawals :: "Validator \<Rightarrow> Gwei \<Rightarrow> bool" where
  "is_eligible_for_partial_withdrawals v balance \<longleftrightarrow>
     v_exit_epoch v = FAR_FUTURE_EPOCH \<and> v_effective_balance v \<ge> MIN_ACTIVATION_BALANCE \<and> balance > MIN_ACTIVATION_BALANCE"

section \<open>The four sources\<close>

fun builder_withdrawal_loop ::
    "usize \<Rightarrow> Withdrawal list \<Rightarrow> selection \<Rightarrow> BuilderPendingWithdrawal list \<Rightarrow> selection tres" where
  "builder_withdrawal_loop limit prior s [] = Inr s"
| "builder_withdrawal_loop limit prior (ws, wi, n) (entry # rest) =
     bindR (combined_withdrawals_len prior ws) (\<lambda>all_count.
     if all_count \<ge> limit then Inr (ws, wi, n)
     else
     bindR (convert_builder_index_to_validator_index (bpw_builder_index entry)) (\<lambda>vi.
     let ws = ws @ [\<lparr>wd_index = wi, wd_validator_index = vi, wd_address = bpw_fee_recipient entry, wd_amount = bpw_amount entry\<rparr>] in
     bindR (increment_withdrawal_index wi) (\<lambda>wi.
     bindR (increment_processed_count n) (\<lambda>n.
     builder_withdrawal_loop limit prior (ws, wi, n) rest))))"

definition get_builder_withdrawals :: "preset \<Rightarrow> BeaconState \<Rightarrow> WithdrawalIndex \<Rightarrow> Withdrawal list \<Rightarrow> selection tres" where
  "get_builder_withdrawals p st wi prior =
     (let limit = MAX_WITHDRAWALS_PER_PAYLOAD p - 1 in
      bindR (reject (length prior > limit) (BoundedListFull BL_PayloadExpectedWithdrawals)) (\<lambda>_.
      builder_withdrawal_loop limit prior ([], wi, 0) (builder_pending_withdrawals st)))"

fun partial_withdrawal_loop ::
    "BeaconState \<Rightarrow> Epoch \<Rightarrow> usize \<Rightarrow> Withdrawal list \<Rightarrow> selection \<Rightarrow> PendingPartialWithdrawal list \<Rightarrow> selection tres" where
  "partial_withdrawal_loop st epoch limit prior s [] = Inr s"
| "partial_withdrawal_loop st epoch limit prior (ws, wi, n) (entry # rest) =
     bindR (combined_withdrawals_len prior ws) (\<lambda>all_count.
     if ppw_withdrawable_epoch entry > epoch \<or> all_count \<ge> limit then Inr (ws, wi, n)
     else
     let vi = ppw_validator_index entry in
     bindR (validator_index_as_usize vi) (\<lambda>i.
     bindR (reject (i \<ge> length (validators st)) (RegistryErr (Reg_ValidatorIndexOutOfRange vi))) (\<lambda>_.
     bindR (idx (validators st) i) (\<lambda>v.
     bindR (get_balance_after_withdrawals st vi (prior @ ws)) (\<lambda>balance.
     bindR (if is_eligible_for_partial_withdrawals v balance then
              let max_withdraw = saturating_sub balance MIN_ACTIVATION_BALANCE;
                  amount = min (ppw_amount entry) max_withdraw;
                  ws = ws @ [\<lparr>wd_index = wi, wd_validator_index = vi,
                              wd_address = withdrawal_address_from_credentials (v_withdrawal_credentials v), wd_amount = amount\<rparr>]
              in bindR (increment_withdrawal_index wi) (\<lambda>wi. Inr (ws, wi))
            else Inr (ws, wi)) (\<lambda>(ws, wi).
     bindR (increment_processed_count n) (\<lambda>n.
     partial_withdrawal_loop st epoch limit prior (ws, wi, n) rest)))))))"

definition get_pending_partial_withdrawals :: "preset \<Rightarrow> BeaconState \<Rightarrow> WithdrawalIndex \<Rightarrow> Withdrawal list \<Rightarrow> selection tres" where
  "get_pending_partial_withdrawals p st wi prior =
     (let epoch = epoch_of p (slot st) in
      bindR (or_err (int_try_from (MAX_PENDING_PARTIALS_PER_WITHDRAWALS_SWEEP p)) (ArithmeticOverflow Arith_BoundedListLength)) (\<lambda>max_partials.
      bindR (or_err (checked_add (length prior) max_partials) (ArithmeticOverflow Arith_BoundedListLength)) (\<lambda>bound.
      let limit = min bound (MAX_WITHDRAWALS_PER_PAYLOAD p - 1) in
      bindR (reject (length prior > limit) (BoundedListFull BL_PayloadExpectedWithdrawals)) (\<lambda>_.
      partial_withdrawal_loop st epoch limit prior ([], wi, 0) (pending_partial_withdrawals st)))))"

text \<open>The sweeps: the first argument counts the remaining iterations of \<open>for _ in 0..limit\<close>.\<close>

fun builder_sweep_loop ::
    "nat \<Rightarrow> BeaconState \<Rightarrow> Epoch \<Rightarrow> usize \<Rightarrow> Withdrawal list \<Rightarrow> usize \<Rightarrow> selection \<Rightarrow> selection tres" where
  "builder_sweep_loop 0 st epoch limit prior cursor s = Inr s"
| "builder_sweep_loop (Suc k) st epoch limit prior cursor (ws, wi, n) =
     bindR (combined_withdrawals_len prior ws) (\<lambda>all_count.
     if all_count \<ge> limit then Inr (ws, wi, n)
     else
     bindR (idx (builders st) cursor) (\<lambda>b.
     bindR (if bld_withdrawable_epoch b \<le> epoch \<and> bld_balance b > 0 then
              bindR (cursor_as_u64 cursor) (\<lambda>builder_index.
              bindR (convert_builder_index_to_validator_index builder_index) (\<lambda>vi.
              let ws = ws @ [\<lparr>wd_index = wi, wd_validator_index = vi, wd_address = bld_execution_address b, wd_amount = bld_balance b\<rparr>] in
              bindR (increment_withdrawal_index wi) (\<lambda>wi. Inr (ws, wi))))
            else Inr (ws, wi)) (\<lambda>(ws, wi).
     bindR (u_add cursor 1) (\<lambda>c.
     bindR (increment_processed_count n) (\<lambda>n.
     builder_sweep_loop k st epoch limit prior (c mod length (builders st)) (ws, wi, n))))))"

definition get_builders_sweep_withdrawals :: "preset \<Rightarrow> BeaconState \<Rightarrow> WithdrawalIndex \<Rightarrow> Withdrawal list \<Rightarrow> selection tres" where
  "get_builders_sweep_withdrawals p st wi prior =
     (let epoch = epoch_of p (slot st);
          builder_len = length (builders st)
      in
      if builder_len = 0 then Inr ([], wi, 0)
      else
      bindR (builder_index_as_usize (next_withdrawal_builder_index st)) (\<lambda>next_index.
      bindR (reject (next_index \<ge> builder_len)
               (RegistryErr (Reg_BuilderIndexOutOfRange (next_withdrawal_builder_index st)))) (\<lambda>_.
      bindR (sweep_limit (MAX_BUILDERS_PER_WITHDRAWALS_SWEEP p) builder_len) (\<lambda>builders_limit.
      let limit = MAX_WITHDRAWALS_PER_PAYLOAD p - 1 in
      bindR (reject (length prior > limit) (BoundedListFull BL_PayloadExpectedWithdrawals)) (\<lambda>_.
      builder_sweep_loop builders_limit st epoch limit prior next_index ([], wi, 0))))))"

text \<open>One visited validator of the sweep: a full, a partial or no withdrawal.\<close>

definition sweep_validator ::
    "BeaconState \<Rightarrow> Epoch \<Rightarrow> Withdrawal list \<Rightarrow> usize \<Rightarrow> Withdrawal list \<times> WithdrawalIndex \<Rightarrow> (Withdrawal list \<times> WithdrawalIndex) tres" where
  "sweep_validator st epoch prior cursor = (\<lambda>(ws, wi).
     bindR (idx (validators st) cursor) (\<lambda>v.
     bindR (cursor_as_u64 cursor) (\<lambda>vi.
     bindR (get_balance_after_withdrawals st vi (prior @ ws)) (\<lambda>balance.
     let address = withdrawal_address_from_credentials (v_withdrawal_credentials v) in
     if is_fully_withdrawable_validator v balance epoch then
       let ws = ws @ [\<lparr>wd_index = wi, wd_validator_index = vi, wd_address = address, wd_amount = balance\<rparr>] in
       bindR (increment_withdrawal_index wi) (\<lambda>wi. Inr (ws, wi))
     else if is_partially_withdrawable_validator v balance then
       let max = get_max_effective_balance v;
           amount = saturating_sub balance max;
           ws = ws @ [\<lparr>wd_index = wi, wd_validator_index = vi, wd_address = address, wd_amount = amount\<rparr>]
       in bindR (increment_withdrawal_index wi) (\<lambda>wi. Inr (ws, wi))
     else Inr (ws, wi)))))"

fun validator_sweep_loop ::
    "nat \<Rightarrow> BeaconState \<Rightarrow> Epoch \<Rightarrow> usize \<Rightarrow> Withdrawal list \<Rightarrow> usize \<Rightarrow> selection \<Rightarrow> selection tres" where
  "validator_sweep_loop 0 st epoch limit prior cursor s = Inr s"
| "validator_sweep_loop (Suc k) st epoch limit prior cursor (ws, wi, n) =
     bindR (combined_withdrawals_len prior ws) (\<lambda>all_count.
     if all_count \<ge> limit then Inr (ws, wi, n)
     else
     bindR (sweep_validator st epoch prior cursor (ws, wi)) (\<lambda>(ws, wi).
     bindR (u_add cursor 1) (\<lambda>c.
     bindR (increment_processed_count n) (\<lambda>n.
     validator_sweep_loop k st epoch limit prior (c mod length (validators st)) (ws, wi, n)))))"

definition get_validators_sweep_withdrawals :: "preset \<Rightarrow> BeaconState \<Rightarrow> WithdrawalIndex \<Rightarrow> Withdrawal list \<Rightarrow> selection tres" where
  "get_validators_sweep_withdrawals p st wi prior =
     (let epoch = epoch_of p (slot st);
          registry_len = length (validators st)
      in
      if registry_len = 0 then Inr ([], wi, 0)
      else
      bindR (reject (length prior \<ge> MAX_WITHDRAWALS_PER_PAYLOAD p) (BoundedListFull BL_PayloadExpectedWithdrawals)) (\<lambda>_.
      bindR (validator_index_as_usize (next_withdrawal_validator_index st)) (\<lambda>next_index.
      bindR (reject (next_index \<ge> registry_len)
               (RegistryErr (Reg_ValidatorIndexOutOfRange (next_withdrawal_validator_index st)))) (\<lambda>_.
      bindR (sweep_limit (MAX_VALIDATORS_PER_WITHDRAWALS_SWEEP p) registry_len) (\<lambda>validators_limit.
      let limit = MAX_WITHDRAWALS_PER_PAYLOAD p in
      validator_sweep_loop validators_limit st epoch limit prior next_index ([], wi, 0))))))"

definition get_expected_withdrawals :: "preset \<Rightarrow> BeaconState \<Rightarrow> ExpectedWithdrawals tres" where
  "get_expected_withdrawals p st =
     (let ws = []; wi = next_withdrawal_index st in
      bindR (get_builder_withdrawals p st wi ws) (\<lambda>(builder_withdrawals, wi, n1).
      let ws = ws @ builder_withdrawals in
      bindR (get_pending_partial_withdrawals p st wi ws) (\<lambda>(partial_withdrawals, wi, n2).
      let ws = ws @ partial_withdrawals in
      bindR (get_builders_sweep_withdrawals p st wi ws) (\<lambda>(builders_sweep, wi, n3).
      let ws = ws @ builders_sweep in
      bindR (get_validators_sweep_withdrawals p st wi ws) (\<lambda>(validators_sweep, _, n4).
      let ws = ws @ validators_sweep in
      Inr \<lparr>ew_withdrawals = ws, ew_processed_builder_withdrawals_count = n1, ew_processed_partial_withdrawals_count = n2,
           ew_processed_builders_sweep_count = n3, ew_processed_sweep_withdrawals_count = n4\<rparr>)))))"

section \<open>Effects\<close>

definition apply_withdrawal :: "BeaconState \<Rightarrow> Withdrawal \<Rightarrow> BeaconState tres" where
  "apply_withdrawal st w =
     (if is_builder_index (wd_validator_index w) then
        bindR (map_err (\<lambda>e. Err (PrimitiveErr e)) (to_builder_index (wd_validator_index w))) (\<lambda>builder_index.
        bindR (builder_index_as_usize builder_index) (\<lambda>i.
        bindR (reject (i \<ge> length (builders st)) (RegistryErr (Reg_BuilderIndexOutOfRange builder_index))) (\<lambda>_.
        bindR (idx (builders st) i) (\<lambda>b.
        let current = bld_balance b;
            amount = min (wd_amount w) current
        in
        bindR (idx_set (builders st) i (b\<lparr>bld_balance := saturating_sub current amount\<rparr>)) (\<lambda>bs.
        Inr (st\<lparr>builders := bs\<rparr>))))))
      else decrease_balance st (wd_validator_index w) (wd_amount w))"

definition apply_withdrawals :: "BeaconState \<Rightarrow> Withdrawal list \<Rightarrow> BeaconState tres" where
  "apply_withdrawals st withdrawals = foldR apply_withdrawal st withdrawals"

definition update_next_withdrawal_index :: "BeaconState \<Rightarrow> Withdrawal list \<Rightarrow> BeaconState tres" where
  "update_next_withdrawal_index st withdrawals =
     (if withdrawals = [] then Inr st
      else bindR (increment_withdrawal_index (wd_index (last withdrawals))) (\<lambda>i. Inr (st\<lparr>next_withdrawal_index := i\<rparr>)))"

definition update_payload_expected_withdrawals :: "preset \<Rightarrow> BeaconState \<Rightarrow> Withdrawal list \<Rightarrow> BeaconState tres" where
  "update_payload_expected_withdrawals p st withdrawals =
     bindR (or_err (list_try_from (MAX_WITHDRAWALS_PER_PAYLOAD p) withdrawals) (BoundedListFull BL_PayloadExpectedWithdrawals)) (\<lambda>ws.
     Inr (st\<lparr>payload_expected_withdrawals := ws\<rparr>))"

definition update_builder_pending_withdrawals :: "BeaconState \<Rightarrow> u64 \<Rightarrow> BeaconState tres" where
  "update_builder_pending_withdrawals st processed =
     bindR (or_err (int_try_from processed) (ArithmeticOverflow Arith_BoundedListLength)) (\<lambda>skip.
     bindR (or_err (list_try_from BUILDER_PENDING_WITHDRAWALS_LIMIT (drop skip (builder_pending_withdrawals st)))
              (BoundedListFull BL_BuilderPendingWithdrawals)) (\<lambda>remaining.
     Inr (st\<lparr>builder_pending_withdrawals := remaining\<rparr>)))"

definition update_pending_partial_withdrawals :: "preset \<Rightarrow> BeaconState \<Rightarrow> u64 \<Rightarrow> BeaconState tres" where
  "update_pending_partial_withdrawals p st processed =
     bindR (or_err (int_try_from processed) (ArithmeticOverflow Arith_BoundedListLength)) (\<lambda>skip.
     bindR (or_err (list_try_from (PENDING_PARTIAL_WITHDRAWALS_LIMIT p) (drop skip (pending_partial_withdrawals st)))
              (BoundedListFull BL_PendingPartialWithdrawals)) (\<lambda>remaining.
     Inr (st\<lparr>pending_partial_withdrawals := remaining\<rparr>)))"

definition update_next_withdrawal_builder_index :: "BeaconState \<Rightarrow> u64 \<Rightarrow> BeaconState tres" where
  "update_next_withdrawal_builder_index st processed =
     (let builder_len = length (builders st) in
      if builder_len > 0 then
        bindR (or_err (checked_add (next_withdrawal_builder_index st) processed) (ArithmeticOverflow Arith_BoundedListLength)) (\<lambda>next_index.
        bindR (len_as_u64 builder_len) (\<lambda>len.
        Inr (st\<lparr>next_withdrawal_builder_index := next_index mod len\<rparr>)))
      else Inr st)"

definition update_next_withdrawal_validator_index :: "preset \<Rightarrow> BeaconState \<Rightarrow> Withdrawal list \<Rightarrow> BeaconState tres" where
  "update_next_withdrawal_validator_index p st withdrawals =
     (let registry_len = length (validators st) in
      if registry_len > 0 then
        bindR (len_as_u64 registry_len) (\<lambda>len.
        if length withdrawals = MAX_WITHDRAWALS_PER_PAYLOAD p then
          if withdrawals = [] then Inr st
          else
            bindR (or_err (checked_add (wd_validator_index (last withdrawals)) 1) (ArithmeticOverflow Arith_BoundedListLength)) (\<lambda>next_index.
            Inr (st\<lparr>next_withdrawal_validator_index := next_index mod len\<rparr>))
        else
          bindR (or_err (checked_add (next_withdrawal_validator_index st) (MAX_VALIDATORS_PER_WITHDRAWALS_SWEEP p))
                   (ArithmeticOverflow Arith_BoundedListLength)) (\<lambda>next_index.
          Inr (st\<lparr>next_withdrawal_validator_index := next_index mod len\<rparr>)))
      else Inr st)"

definition process_withdrawals :: "preset \<Rightarrow> BeaconState \<Rightarrow> BeaconState tres" where
  "process_withdrawals p st =
     (if latest_block_hash st \<noteq> bid_block_hash (latest_execution_payload_bid st) then Inr st
      else
      bindR (get_expected_withdrawals p st) (\<lambda>expected.
      bindR (apply_withdrawals st (ew_withdrawals expected)) (\<lambda>st.
      bindR (update_next_withdrawal_index st (ew_withdrawals expected)) (\<lambda>st.
      bindR (update_payload_expected_withdrawals p st (ew_withdrawals expected)) (\<lambda>st.
      bindR (update_builder_pending_withdrawals st (ew_processed_builder_withdrawals_count expected)) (\<lambda>st.
      bindR (update_pending_partial_withdrawals p st (ew_processed_partial_withdrawals_count expected)) (\<lambda>st.
      bindR (update_next_withdrawal_builder_index st (ew_processed_builders_sweep_count expected)) (\<lambda>st.
      update_next_withdrawal_validator_index p st (ew_withdrawals expected)))))))))"

section \<open>What a selection satisfies\<close>

definition withdrawn :: "ValidatorIndex \<Rightarrow> Withdrawal list \<Rightarrow> Gwei" where
  "withdrawn i ws = sum_list (map wd_amount (filter (\<lambda>w. wd_validator_index w = i) ws))"

definition covered :: "BeaconState \<Rightarrow> Withdrawal list \<Rightarrow> bool" where
  "covered st ws \<longleftrightarrow> (\<forall>i < length (validators st). withdrawn i ws \<le> balances st ! i)"

definition selected :: "BeaconState \<Rightarrow> Withdrawal list \<Rightarrow> WithdrawalIndex \<Rightarrow> bool" where
  "selected st ws wi \<longleftrightarrow> next_withdrawal_index st \<le> wi \<and> wi \<le> u64_max \<and> map wd_index ws = [next_withdrawal_index st..<wi]
     \<and> (\<forall>w \<in> set ws. Withdrawal_ok w) \<and> covered st ws"

lemma withdrawn_simps [simp]:
  "withdrawn i [] = 0" "withdrawn i (w # ws) = (if wd_validator_index w = i then wd_amount w else 0) + withdrawn i ws"
  "withdrawn i (ws @ vs) = withdrawn i ws + withdrawn i vs"
  by (simp_all add: withdrawn_def)

lemma selected_push:
  assumes "selected st ws wi" and "increment_withdrawal_index wi = Inr wi'"
    and "length (wd_address w) = 20" "wd_amount w \<le> u64_max" "wd_validator_index w \<le> u64_max" "wd_index w = wi"
    and "wd_validator_index w < length (validators st) \<Longrightarrow>
           withdrawn (wd_validator_index w) ws + wd_amount w \<le> balances st ! wd_validator_index w"
  shows "selected st (ws @ [w]) wi'"
  using assms by (auto simp: selected_def increment_withdrawal_index_def covered_def Withdrawal_ok_iff res_simps)

lemma foldR_sum_eq:
  "foldR (\<lambda>s w. or_err (checked_add s (wd_amount w)) e) s ws = Inr t \<Longrightarrow> t = s + sum_list (map wd_amount ws)"
  by (induction ws arbitrary: s) (fastforce simp: res_simps)+

lemma balance_after_eq:
  assumes "get_balance_after_withdrawals st i ws = Inr b"
  shows "i < length (balances st) \<and> b = balances st ! i - withdrawn i ws"
  using assms foldR_sum_eq
  by (fastforce simp: get_balance_after_withdrawals_def validator_index_as_usize_def int_try_from_def withdrawn_def
      saturating_sub_def get_at_def res_simps split: if_splits)

lemma conversions_safe [safe_simps]:
  "safe (builder_index_as_usize i) Q = (i \<le> u64_max \<longrightarrow> Q i)"
  "safe (validator_index_as_usize i) Q = (i \<le> u64_max \<longrightarrow> Q i)"
  "safe (cursor_as_u64 i) Q = (i \<le> u64_max \<longrightarrow> Q i)"
  "safe (len_as_u64 i) Q = (i \<le> u64_max \<longrightarrow> Q i)"
  "safe (increment_withdrawal_index i) Q = (\<forall>j. increment_withdrawal_index i = Inr j \<longrightarrow> Q j)"
  "safe (increment_processed_count n) Q = (n + 1 \<le> u64_max \<longrightarrow> Q (n + 1))"
  "safe (combined_withdrawals_len ps ws) Q = (length ps + length ws \<le> u64_max \<longrightarrow> Q (length ps + length ws))"
  "safe (convert_builder_index_to_validator_index i) Q = (\<forall>j. to_validator_index i = Inr j \<longrightarrow> Q j)"
  by (auto simp: builder_index_as_usize_def validator_index_as_usize_def cursor_as_u64_def len_as_u64_def int_try_from_def
      increment_withdrawal_index_def increment_processed_count_def combined_withdrawals_len_def
      convert_builder_index_to_validator_index_def safe_simps res_simps)

lemma balance_after_safe [safe_simps]:
  "safe (get_balance_after_withdrawals st i ws) Q = (\<forall>b. get_balance_after_withdrawals st i ws = Inr b \<longrightarrow> Q b)"
proof (rule safe_iff)
  show "safe (get_balance_after_withdrawals st i ws) (\<lambda>_. True)"
    by (auto simp: get_balance_after_withdrawals_def safe_simps intro: safe_mono [OF safe_foldR [where I = "\<lambda>_. True"]])
qed

lemma flagged_index:
  assumes "to_validator_index b = Inr i"
  shows "is_builder_index i" "i \<le> u64_max" "BUILDER_INDEX_FLAG \<le> i"
proof -
  have i: "i = unat (w64 b OR w64 BUILDER_INDEX_FLAG)" using assms by (auto simp: to_validator_index_def split: if_splits)
  then have w: "w64 i = w64 b OR w64 BUILDER_INDEX_FLAG" by simp
  show flag: "is_builder_index i" by (simp add: is_builder_index_iff w bit_or_iff bit_flag)
  show "i \<le> u64_max" using i unsigned_less [of "w64 b OR w64 BUILDER_INDEX_FLAG", where ?'a = nat] by (simp add: u64_max_def)
  show "BUILDER_INDEX_FLAG \<le> i" using flag high_bits_clear [of i 40] by (fastforce simp: is_builder_index_iff BUILDER_INDEX_FLAG_def)
qed

lemma registered_not_flagged: "state_ok p st \<Longrightarrow> i < length (validators st) \<Longrightarrow> \<not> is_builder_index i"
  using state_ok_validators(1) [of p st] high_bits_clear [of i 40]
  by (auto simp: is_builder_index_iff VALIDATOR_REGISTRY_LIMIT_def)

section \<open>The sources\<close>

text \<open>
  The contract of a source: after the withdrawals of the earlier sources it never panics, adds
  withdrawals with consecutive indices for accounts of one kind, stays within its limit, and never
  takes more from a validator than its balance.
\<close>

locale withdrawal_source =
  fixes p :: preset and st :: BeaconState and select :: "WithdrawalIndex \<Rightarrow> Withdrawal list \<Rightarrow> selection tres"
    and limit :: usize and account :: "ValidatorIndex \<Rightarrow> bool"
  assumes selects: "state_ok p st \<Longrightarrow> selected st prior wi \<Longrightarrow> length prior \<le> limit \<Longrightarrow>
    safe (select wi prior) (\<lambda>(ws, wi', n). selected st (prior @ ws) wi' \<and> length (prior @ ws) \<le> limit
      \<and> (\<forall>w \<in> set ws. account (wd_validator_index w)))"

text \<open>The state of a loop over a source.\<close>

definition source_inv :: "BeaconState \<Rightarrow> usize \<Rightarrow> (ValidatorIndex \<Rightarrow> bool) \<Rightarrow> Withdrawal list \<Rightarrow> selection \<Rightarrow> bool" where
  "source_inv st limit account prior = (\<lambda>(ws, wi, n). selected st (prior @ ws) wi \<and> length (prior @ ws) \<le> limit
      \<and> (\<forall>w \<in> set ws. account (wd_validator_index w)))"

lemma source_push:
  assumes "source_inv st limit account prior (ws, wi, n)" and "length (prior @ ws) < limit"
    and "increment_withdrawal_index wi = Inr wi'"
    and "length (wd_address w) = 20" "wd_amount w \<le> u64_max" "wd_validator_index w \<le> u64_max" "wd_index w = wi"
    and "wd_validator_index w < length (validators st) \<Longrightarrow>
           withdrawn (wd_validator_index w) (prior @ ws) + wd_amount w \<le> balances st ! wd_validator_index w"
    and "account (wd_validator_index w)"
  shows "source_inv st limit account prior (ws @ [w], wi', n')"
  using assms selected_push [of st "prior @ ws" wi wi' w] by (simp add: source_inv_def)

lemma source_count: "source_inv st limit account prior (ws, wi, n) = source_inv st limit account prior (ws, wi, n')"
  by (simp add: source_inv_def)

lemma flagged_not_registered: "state_ok p st \<Longrightarrow> to_validator_index b = Inr i \<Longrightarrow> \<not> i < length (validators st)"
  using registered_not_flagged flagged_index(1) by blast

lemma builder_loop_safe:
  assumes ok: "state_ok p st" and "\<forall>e \<in> set es. BuilderPendingWithdrawal_ok e" and "source_inv st limit is_builder_index prior (ws, wi, n)"
  shows "safe (builder_withdrawal_loop limit prior (ws, wi, n) es) (source_inv st limit is_builder_index prior)"
  using assms(2,3)
proof (induction es arbitrary: ws wi n)
  case (Cons entry es)
  have push: "source_inv st limit is_builder_index prior
      (ws @ [\<lparr>wd_index = wi, wd_validator_index = vi, wd_address = bpw_fee_recipient entry, wd_amount = bpw_amount entry\<rparr>], wi', n + 1)"
    if "\<not> limit \<le> length prior + length ws" "increment_withdrawal_index wi = Inr wi'" "to_validator_index (bpw_builder_index entry) = Inr vi" for vi wi'
    by (rule source_push [OF Cons.prems(2)])
      (use that Cons.prems(1) flagged_index [OF that(3)] flagged_not_registered [OF ok that(3)] in \<open>simp_all add: BuilderPendingWithdrawal_ok_iff\<close>)
  show ?case
    unfolding builder_withdrawal_loop.simps Let_def safe_bind safe_if conversions_safe safe_results
    by (intro conjI impI allI Cons.IH push Cons.prems(2)) (use Cons.prems(1) in simp_all)
qed simp

lemma partial_loop_safe:
  assumes ok: "state_ok p st" and "\<forall>e \<in> set es. PendingPartialWithdrawal_ok e"
    and "source_inv st limit (\<lambda>i. i < length (validators st)) prior (ws, wi, n)"
  shows "safe (partial_withdrawal_loop st epoch limit prior (ws, wi, n) es) (source_inv st limit (\<lambda>i. i < length (validators st)) prior)"
  using assms(2,3)
proof (induction es arbitrary: ws wi n)
  case (Cons entry es)
  let ?i = "ppw_validator_index entry"
  let ?w = "\<lambda>b. \<lparr>wd_index = wi, wd_validator_index = ?i,
      wd_address = withdrawal_address_from_credentials (v_withdrawal_credentials (validators st ! ?i)),
      wd_amount = min (ppw_amount entry) (saturating_sub b MIN_ACTIVATION_BALANCE)\<rparr>"
  have push: "source_inv st limit (\<lambda>i. i < length (validators st)) prior (ws @ [?w b], wi', n + 1)"
    if "\<not> (epoch < ppw_withdrawable_epoch entry \<or> limit \<le> length prior + length ws)" "increment_withdrawal_index wi = Inr wi'"
       "\<not> length (validators st) \<le> ?i" "get_balance_after_withdrawals st ?i (prior @ ws) = Inr b" for b wi'
  proof (rule source_push [OF Cons.prems(2)])
    have "withdrawn ?i (prior @ ws) \<le> balances st ! ?i"
      using Cons.prems(2) that(3) by (simp add: source_inv_def selected_def covered_def)
    then show "withdrawn (wd_validator_index (?w b)) (prior @ ws) + wd_amount (?w b) \<le> balances st ! wd_validator_index (?w b)"
      using balance_after_eq [OF that(4)] by (simp add: saturating_sub_def)
    show "length (wd_address (?w b)) = 20"
      using validator_nth_ok [OF ok] that(3) by (simp add: Validator_ok_iff withdrawal_address_from_credentials_def)
  qed (use that Cons.prems(1) in \<open>auto simp: PendingPartialWithdrawal_ok_iff min_le_iff_disj\<close>)
  show ?case
    unfolding partial_withdrawal_loop.simps Let_def safe_bind safe_if conversions_safe safe_results balance_after_safe safe_reject safe_idx
      prod.case
    by (intro conjI impI allI Cons.IH push Cons.prems(2)) (use Cons.prems in \<open>auto simp: source_inv_def\<close>)
qed simp

lemma builder_sweep_loop_safe:
  assumes ok: "state_ok p st" and "cursor < length (builders st)" and "source_inv st limit is_builder_index prior (ws, wi, n)"
  shows "safe (builder_sweep_loop k st epoch limit prior cursor (ws, wi, n)) (source_inv st limit is_builder_index prior)"
  using assms(2,3)
proof (induction k arbitrary: cursor ws wi n)
  case (Suc k)
  let ?b = "builders st ! cursor"
  have push: "source_inv st limit is_builder_index prior
      (ws @ [\<lparr>wd_index = wi, wd_validator_index = vi, wd_address = bld_execution_address ?b, wd_amount = bld_balance ?b\<rparr>], wi', n + 1)"
    if "\<not> limit \<le> length prior + length ws" "increment_withdrawal_index wi = Inr wi'" "to_validator_index cursor = Inr vi" for vi wi'
    by (rule source_push [OF Suc.prems(2)])
      (use that builder_nth_ok [OF ok Suc.prems(1)] flagged_index [OF that(3)] flagged_not_registered [OF ok that(3)] in \<open>simp_all add: Builder_ok_iff\<close>)
  have cursor: "(cursor + 1) mod length (builders st) < length (builders st)" "cursor + 1 \<le> u64_max"
    using Suc.prems(1) state_ok_builders(1) [OF ok] by (auto simp: BUILDER_REGISTRY_LIMIT_def u64_max_def intro: mod_less_divisor)
  show ?case
    unfolding builder_sweep_loop.simps Let_def safe_bind safe_if conversions_safe safe_results safe_idx safe_u_add prod.case
    by (intro conjI impI allI Suc.IH push Suc.prems(2) cursor) (use Suc.prems in \<open>auto simp: source_inv_def\<close>)
qed simp

text \<open>A visited validator keeps the state of the loop.\<close>

lemma sweep_validator_safe:
  assumes ok: "state_ok p st" and c: "cursor < length (validators st)" and inv: "source_inv st limit (\<lambda>i. i < length (validators st)) prior (ws, wi, n)"
    and lim: "length prior + length ws < limit"
  shows "safe (sweep_validator st epoch prior cursor (ws, wi))
    (\<lambda>(ws, wi). source_inv st limit (\<lambda>i. i < length (validators st)) prior (ws, wi, n + 1))"
proof -
  let ?v = "validators st ! cursor"
  have push: "source_inv st limit (\<lambda>i. i < length (validators st)) prior
      (ws @ [\<lparr>wd_index = wi, wd_validator_index = cursor, wd_address = withdrawal_address_from_credentials (v_withdrawal_credentials ?v),
              wd_amount = a\<rparr>], wi', n + 1)"
    if "increment_withdrawal_index wi = Inr wi'" "get_balance_after_withdrawals st cursor (prior @ ws) = Inr b" "a \<le> b" for a b wi'
  proof -
    have b: "withdrawn cursor (prior @ ws) + b = balances st ! cursor" "balances st ! cursor \<le> u64_max"
      using inv c balance_after_eq [OF that(2)] state_ok_balances(2) [OF ok] nth_mem [of cursor "balances st"]
      by (auto simp: source_inv_def selected_def covered_def)
    have "length (wd_address \<lparr>wd_index = wi, wd_validator_index = cursor,
        wd_address = withdrawal_address_from_credentials (v_withdrawal_credentials ?v), wd_amount = a\<rparr>) = 20"
      using validator_nth_ok [OF ok c] by (simp add: Validator_ok_iff withdrawal_address_from_credentials_def)
    then show ?thesis
      by (intro source_push [OF inv _ that(1)]) (use that(3) c lim registry_index_u64 [OF ok c] b in auto)
  qed
  show ?thesis
    unfolding sweep_validator_def Let_def prod.case safe_bind safe_if conversions_safe safe_results safe_idx balance_after_safe
    by (intro conjI impI allI push c) (use inv in \<open>auto simp: source_inv_def saturating_sub_def\<close>)
qed

lemma validator_sweep_loop_safe:
  assumes ok: "state_ok p st" and "cursor < length (validators st)" and "source_inv st limit (\<lambda>i. i < length (validators st)) prior (ws, wi, n)"
  shows "safe (validator_sweep_loop k st epoch limit prior cursor (ws, wi, n)) (source_inv st limit (\<lambda>i. i < length (validators st)) prior)"
  using assms(2,3)
proof (induction k arbitrary: cursor ws wi n)
  case (Suc k)
  have cursor: "(cursor + 1) mod length (validators st) < length (validators st)" "cursor + 1 \<le> u64_max"
    using Suc.prems(1) state_ok_validators(1) [OF ok] by (auto simp: VALIDATOR_REGISTRY_LIMIT_def u64_max_def intro: mod_less_divisor)
  show ?case
    unfolding validator_sweep_loop.simps safe_bind safe_if conversions_safe safe_results safe_u_add
    by (intro conjI impI Suc.prems(2) safe_mono [OF sweep_validator_safe [OF ok Suc.prems]])
      (use cursor in \<open>auto simp: safe_bind safe_u_add conversions_safe intro!: Suc.IH\<close>)
qed simp

lemma source_start: "selected st prior wi \<Longrightarrow> length prior \<le> limit \<Longrightarrow> source_inv st limit account prior ([], wi, 0)"
  by (simp add: source_inv_def)

lemma int_try_from_eq [res_simps]: "int_try_from n = Some k \<longleftrightarrow> n \<le> u64_max \<and> k = n"
  by (auto simp: int_try_from_def)

lemma sweep_limit_safe [safe_simps]: "safe (sweep_limit a b) Q = (a \<le> u64_max \<longrightarrow> Q (min a b))"
  by (simp add: sweep_limit_def safe_simps res_simps)

interpretation builder_queue: withdrawal_source p st "get_builder_withdrawals p st" "MAX_WITHDRAWALS_PER_PAYLOAD p - 1" is_builder_index
  for p st
proof
  fix prior wi assume ok: "state_ok p st" and sel: "selected st prior wi" "length prior \<le> MAX_WITHDRAWALS_PER_PAYLOAD p - 1"
  show "safe (get_builder_withdrawals p st wi prior) (\<lambda>(ws, wi', n). selected st (prior @ ws) wi'
      \<and> length (prior @ ws) \<le> MAX_WITHDRAWALS_PER_PAYLOAD p - 1 \<and> (\<forall>w \<in> set ws. is_builder_index (wd_validator_index w)))"
    unfolding get_builder_withdrawals_def Let_def safe_bind safe_reject source_inv_def [symmetric]
    using builder_loop_safe [OF ok state_ok_builder_pending_withdrawals(2) [OF ok] source_start [OF sel]] by simp
qed

interpretation partial_queue: withdrawal_source p st "get_pending_partial_withdrawals p st" "MAX_WITHDRAWALS_PER_PAYLOAD p - 1"
  "\<lambda>i. i < length (validators st)" for p st
proof
  fix prior wi assume ok: "state_ok p st" and sel: "selected st prior wi" "length prior \<le> MAX_WITHDRAWALS_PER_PAYLOAD p - 1"
  show "safe (get_pending_partial_withdrawals p st wi prior) (\<lambda>(ws, wi', n). selected st (prior @ ws) wi'
      \<and> length (prior @ ws) \<le> MAX_WITHDRAWALS_PER_PAYLOAD p - 1 \<and> (\<forall>w \<in> set ws. wd_validator_index w < length (validators st)))"
    unfolding get_pending_partial_withdrawals_def Let_def safe_bind safe_reject safe_or_err
    by (intro allI impI safe_mono [OF partial_loop_safe [OF ok state_ok_pending_partial_withdrawals(2) [OF ok] source_start [OF sel(1)]]])
      (auto simp: source_inv_def)
qed

interpretation builder_sweep: withdrawal_source p st "get_builders_sweep_withdrawals p st" "MAX_WITHDRAWALS_PER_PAYLOAD p - 1"
  is_builder_index for p st
proof
  fix prior wi assume ok: "state_ok p st" and sel: "selected st prior wi" "length prior \<le> MAX_WITHDRAWALS_PER_PAYLOAD p - 1"
  show "safe (get_builders_sweep_withdrawals p st wi prior) (\<lambda>(ws, wi', n). selected st (prior @ ws) wi'
      \<and> length (prior @ ws) \<le> MAX_WITHDRAWALS_PER_PAYLOAD p - 1 \<and> (\<forall>w \<in> set ws. is_builder_index (wd_validator_index w)))"
    unfolding get_builders_sweep_withdrawals_def Let_def safe_bind safe_if safe_results conversions_safe safe_reject sweep_limit_safe
      source_inv_def [symmetric]
    using builder_sweep_loop_safe [OF ok _ source_start [OF sel]] source_start [OF sel] by simp
qed

interpretation validator_sweep: withdrawal_source p st "get_validators_sweep_withdrawals p st" "MAX_WITHDRAWALS_PER_PAYLOAD p"
  "\<lambda>i. i < length (validators st)" for p st
proof
  fix prior wi assume ok: "state_ok p st" and sel: "selected st prior wi" "length prior \<le> MAX_WITHDRAWALS_PER_PAYLOAD p"
  show "safe (get_validators_sweep_withdrawals p st wi prior) (\<lambda>(ws, wi', n). selected st (prior @ ws) wi'
      \<and> length (prior @ ws) \<le> MAX_WITHDRAWALS_PER_PAYLOAD p \<and> (\<forall>w \<in> set ws. wd_validator_index w < length (validators st)))"
    unfolding get_validators_sweep_withdrawals_def Let_def safe_bind safe_if safe_results conversions_safe safe_reject sweep_limit_safe
    by (intro conjI impI safe_mono [OF validator_sweep_loop_safe [OF ok _ source_start [OF sel]]])
      (use sel in \<open>auto simp: source_inv_def\<close>)
qed

section \<open>The withdrawals of a payload\<close>

lemma max_withdrawals_pos: "1 < MAX_WITHDRAWALS_PER_PAYLOAD p"
  by (cases p) (simp_all add: MAX_WITHDRAWALS_PER_PAYLOAD_def)

definition payload_withdrawals_ok :: "preset \<Rightarrow> BeaconState \<Rightarrow> Withdrawal list \<Rightarrow> bool" where
  "payload_withdrawals_ok p st ws \<longleftrightarrow> selected st ws (next_withdrawal_index st + length ws) \<and> length ws \<le> MAX_WITHDRAWALS_PER_PAYLOAD p
    \<and> (\<forall>w \<in> set ws. is_builder_index (wd_validator_index w) \<or> wd_validator_index w < length (validators st))
    \<and> (length ws = MAX_WITHDRAWALS_PER_PAYLOAD p \<longrightarrow> wd_validator_index (last ws) < length (validators st))"

lemma selected_index: "selected st ws wi \<Longrightarrow> wi = next_withdrawal_index st + length ws"
  by (metis add_diff_inverse_nat length_map length_upt not_le selected_def)

lemma expected_safe:
  assumes ok: "state_ok p st"
  shows "safe (get_expected_withdrawals p st) (\<lambda>e. payload_withdrawals_ok p st (ew_withdrawals e))"
proof -
  let ?M = "MAX_WITHDRAWALS_PER_PAYLOAD p" and ?V = "\<lambda>i. i < length (validators st)"
  define early where "early ws wi \<longleftrightarrow> selected st ws wi \<and> length ws \<le> ?M - 1
    \<and> (\<forall>w \<in> set ws. is_builder_index (wd_validator_index w) \<or> ?V (wd_validator_index w))" for ws wi
  have start: "early [] (next_withdrawal_index st)"
    using state_ok_next_withdrawal_index [OF ok] by (simp add: selected_def covered_def early_def)
  have s1: "safe (get_builder_withdrawals p st wi ws) (\<lambda>(vs, wi', n). early (ws @ vs) wi')" if "early ws wi" for ws wi
    using that by (intro safe_mono [OF builder_queue.selects [OF ok]]) (auto simp: early_def)
  have s2: "safe (get_pending_partial_withdrawals p st wi ws) (\<lambda>(vs, wi', n). early (ws @ vs) wi')" if "early ws wi" for ws wi
    using that by (intro safe_mono [OF partial_queue.selects [OF ok]]) (auto simp: early_def)
  have s3: "safe (get_builders_sweep_withdrawals p st wi ws) (\<lambda>(vs, wi', n). early (ws @ vs) wi')" if "early ws wi" for ws wi
    using that by (intro safe_mono [OF builder_sweep.selects [OF ok]]) (auto simp: early_def)
  have s4: "safe (get_validators_sweep_withdrawals p st wi ws) (\<lambda>(vs, wi', n). payload_withdrawals_ok p st (ws @ vs))" if "early ws wi" for ws wi
  proof (rule safe_mono [OF validator_sweep.selects [OF ok]])
    fix r :: selection assume r: "case r of (vs, wi', n) \<Rightarrow> selected st (ws @ vs) wi' \<and> length (ws @ vs) \<le> ?M \<and> (\<forall>w \<in> set vs. ?V (wd_validator_index w))"
    obtain vs wi' n where v: "r = (vs, wi', n)" by (cases r)
    have "length vs \<noteq> 0" if "length (ws @ vs) = ?M" using that \<open>early ws wi\<close> max_withdrawals_pos [of p] by (auto simp: early_def)
    then have "last (ws @ vs) \<in> set vs" if "length (ws @ vs) = ?M" using that by (cases vs) simp_all
    then show "case r of (vs, wi', n) \<Rightarrow> payload_withdrawals_ok p st (ws @ vs)"
      using r selected_index [of st "ws @ vs" wi'] \<open>early ws wi\<close> by (auto simp: v payload_withdrawals_ok_def early_def)
  qed (use that in \<open>auto simp: early_def\<close>)
  show ?thesis
    unfolding get_expected_withdrawals_def Let_def safe_bind
    by (rule safe_mono [OF s1 [OF start]])
      (auto simp: safe_bind intro!: safe_mono [OF s2] safe_mono [OF s3] safe_mono [OF s4])
qed

section \<open>Effects keep the invariant\<close>

lemma apply_withdrawal_safe:
  assumes ok: "state_ok p st"
  shows "safe (apply_withdrawal st w) (\<lambda>s. state_ok p s \<and> chain_frame s = chain_frame st \<and> validators s = validators st
    \<and> next_withdrawal_index s = next_withdrawal_index st \<and> balances s = (if is_builder_index (wd_validator_index w) then balances st
                   else (balances st)[wd_validator_index w := balances st ! wd_validator_index w - wd_amount w]))"
proof -
  have "state_ok p (st\<lparr>builders := (builders st)[i := (builders st ! i)\<lparr>bld_balance := b\<rparr>]\<rparr>)"
    if "i < length (builders st)" "b \<le> bld_balance (builders st ! i)" for i b
    by (rule state_ok_set_builder [OF ok]) (use builder_nth_ok [OF ok that(1)] that(2) in \<open>simp add: Builder_ok_iff\<close>)
  then show ?thesis
    unfolding apply_withdrawal_def Let_def safe_if safe_bind conversions_safe safe_reject safe_idx safe_idx_set safe_map_err
    by (intro conjI impI safe_mono [OF decrease_balance_ok [OF ok]]) (auto simp: saturating_sub_def)
qed

lemma apply_withdrawals_safe:
  assumes ok: "state_ok p st"
  shows "safe (apply_withdrawals st ws) (\<lambda>s. state_ok p s \<and> chain_frame s = chain_frame st \<and> validators s = validators st
    \<and> next_withdrawal_index s = next_withdrawal_index st \<and> (\<forall>i < length (validators st). balances s ! i = balances st ! i - withdrawn i ws))"
  using ok unfolding apply_withdrawals_def
proof (induction ws arbitrary: st)
  case (Cons w ws)
  have b: "(if is_builder_index (wd_validator_index w) then balances st
        else (balances st)[wd_validator_index w := balances st ! wd_validator_index w - wd_amount w]) ! i
      = balances st ! i - (if wd_validator_index w = i then wd_amount w else 0)" if "i < length (validators st)" for i
    using that registered_not_flagged [OF Cons.prems that] state_ok_aligned [OF Cons.prems] by (auto simp: nth_list_update)
  show ?case
    unfolding foldR.simps safe_bind
    by (rule safe_mono [OF apply_withdrawal_safe [OF Cons.prems]])
      (rule safe_mono [OF Cons.IH], auto simp: b)
qed simp

text \<open>The updates of queues and cursors, one after the other.\<close>

lemma withdrawal_updates_safe:
  assumes ok: "state_ok p st" and ws: "\<forall>w \<in> set ws. Withdrawal_ok w"
  shows "safe (update_next_withdrawal_index st ws) (\<lambda>s. state_ok p s \<and> chain_frame s = chain_frame st \<and> balances s = balances st \<and> validators s = validators st
      \<and> next_withdrawal_index s = (if ws = [] then next_withdrawal_index st else wd_index (last ws) + 1))"
    and "safe (update_payload_expected_withdrawals p st ws) (\<lambda>s. state_ok p s \<and> s = st\<lparr>payload_expected_withdrawals := ws\<rparr>)"
    and "safe (update_builder_pending_withdrawals st n) (\<lambda>s. state_ok p s \<and> s = st\<lparr>builder_pending_withdrawals := drop n (builder_pending_withdrawals st)\<rparr>)"
    and "safe (update_pending_partial_withdrawals p st n) (\<lambda>s. state_ok p s \<and> s = st\<lparr>pending_partial_withdrawals := drop n (pending_partial_withdrawals st)\<rparr>)"
proof -
  show "safe (update_next_withdrawal_index st ws) (\<lambda>s. state_ok p s \<and> chain_frame s = chain_frame st \<and> balances s = balances st \<and> validators s = validators st
      \<and> next_withdrawal_index s = (if ws = [] then next_withdrawal_index st else wd_index (last ws) + 1))"
    using ok by (auto simp: update_next_withdrawal_index_def increment_withdrawal_index_def safe_simps res_simps intro!: state_upd)
  show "safe (update_payload_expected_withdrawals p st ws) (\<lambda>s. state_ok p s \<and> s = st\<lparr>payload_expected_withdrawals := ws\<rparr>)"
    using ok ws by (auto simp: update_payload_expected_withdrawals_def safe_simps res_simps intro!: state_ok_upd_payload_expected_withdrawals)
  show "safe (update_builder_pending_withdrawals st n) (\<lambda>s. state_ok p s \<and> s = st\<lparr>builder_pending_withdrawals := drop n (builder_pending_withdrawals st)\<rparr>)"
    using ok state_ok_builder_pending_withdrawals [OF ok]
    by (auto simp: update_builder_pending_withdrawals_def safe_simps res_simps dest: in_set_dropD intro!: state_ok_upd_builder_pending_withdrawals)
  show "safe (update_pending_partial_withdrawals p st n) (\<lambda>s. state_ok p s \<and> s = st\<lparr>pending_partial_withdrawals := drop n (pending_partial_withdrawals st)\<rparr>)"
    using ok state_ok_pending_partial_withdrawals [OF ok]
    by (auto simp: update_pending_partial_withdrawals_def safe_simps res_simps dest: in_set_dropD intro!: state_ok_upd_pending_partial_withdrawals)
qed

lemma mod_u64: "n \<le> u64_max \<Longrightarrow> n mod k \<le> u64_max"
  by (meson le_trans mod_less_eq_dividend)

lemma cursor_updates_safe:
  assumes ok: "state_ok p st"
  shows "safe (update_next_withdrawal_builder_index st n) (\<lambda>s. state_ok p s \<and> chain_frame s = chain_frame st
        \<and> balances s = balances st \<and> validators s = validators st \<and> next_withdrawal_index s = next_withdrawal_index st
        \<and> payload_expected_withdrawals s = payload_expected_withdrawals st)"
    and "safe (update_next_withdrawal_validator_index p st ws) (\<lambda>s. state_ok p s \<and> chain_frame s = chain_frame st
        \<and> balances s = balances st \<and> next_withdrawal_index s = next_withdrawal_index st
        \<and> payload_expected_withdrawals s = payload_expected_withdrawals st
        \<and> (validators st \<noteq> [] \<longrightarrow> ws \<noteq> [] \<or> MAX_WITHDRAWALS_PER_PAYLOAD p \<noteq> 0 \<longrightarrow>
             next_withdrawal_validator_index s < length (validators st)))"
  using ok by (auto simp: update_next_withdrawal_builder_index_def update_next_withdrawal_validator_index_def Let_def safe_simps
      res_simps mod_u64 intro!: state_upd)

lemma next_index_after:
  assumes "payload_withdrawals_ok p st ws"
  shows "(if ws = [] then next_withdrawal_index st else wd_index (last ws) + 1) = next_withdrawal_index st + length ws"
proof (cases "ws = []")
  case False
  let ?n = "next_withdrawal_index st"
  have "map wd_index ws = [?n..<?n + length ws]" using assms by (simp add: payload_withdrawals_ok_def selected_def)
  then have "wd_index (last ws) = last [?n..<?n + length ws]" by (metis False last_map)
  then show ?thesis using False by simp
qed simp

definition withdrawals_applied :: "preset \<Rightarrow> BeaconState \<Rightarrow> BeaconState \<Rightarrow> bool" where
  "withdrawals_applied p st st' \<longleftrightarrow>
     (let ws = payload_expected_withdrawals st' in
      payload_withdrawals_ok p st ws \<and> next_withdrawal_index st' = next_withdrawal_index st + length ws
      \<and> (\<forall>i < length (validators st). balances st' ! i = balances st ! i - withdrawn i ws)
      \<and> (validators st \<noteq> [] \<longrightarrow> next_withdrawal_validator_index st' < length (validators st)))"

lemma withdrawals_safe:
  assumes ok: "state_ok p st"
  shows "safe (process_withdrawals p st) (\<lambda>st'. state_ok p st' \<and> chain_frame st' = chain_frame st
    \<and> (if latest_block_hash st \<noteq> bid_block_hash (latest_execution_payload_bid st) then st' = st else withdrawals_applied p st st'))"
proof (cases "latest_block_hash st \<noteq> bid_block_hash (latest_execution_payload_bid st)")
  case False
  have "safe (apply_withdrawals st ws) (\<lambda>s. safe (update_next_withdrawal_index s ws) (\<lambda>s.
      safe (update_payload_expected_withdrawals p s ws) (\<lambda>s. safe (update_builder_pending_withdrawals s n1) (\<lambda>s.
      safe (update_pending_partial_withdrawals p s n2) (\<lambda>s. safe (update_next_withdrawal_builder_index s n3) (\<lambda>s.
      safe (update_next_withdrawal_validator_index p s ws) (\<lambda>st'. state_ok p st' \<and> chain_frame st' = chain_frame st
         \<and> withdrawals_applied p st st')))))))"
    if ws: "payload_withdrawals_ok p st ws" for ws n1 n2 n3
  proof -
    have w: "\<forall>w \<in> set ws. Withdrawal_ok w" using ws by (simp add: payload_withdrawals_ok_def selected_def)
    note u = withdrawal_updates_safe [where p = p, OF _ w] and c = cursor_updates_safe [where p = p]
    show ?thesis
      apply (rule safe_mono [OF apply_withdrawals_safe [OF ok]])
      apply (rule safe_mono [OF u(1)], simp)
      apply (rule safe_mono [OF u(2)], simp)
      apply (rule safe_mono [OF u(3)], simp)
      apply (rule safe_mono [OF u(4)], simp)
      apply (rule safe_mono [OF c(1)], simp)
      apply (rule safe_mono [OF c(2)], simp)
      using ws max_withdrawals_pos [of p] next_index_after [OF ws]
      by (auto simp: withdrawals_applied_def)
  qed
  with False show ?thesis
    unfolding process_withdrawals_def safe_bind safe_if
    by (auto intro!: safe_mono [OF expected_safe [OF ok]])
qed (use ok in \<open>simp add: process_withdrawals_def\<close>)

interpretation withdrawals: phase X p "process_withdrawals p" for X p
  by unfold_locales (rule safe_mono [OF withdrawals_safe], auto)

text \<open>
  C29: the withdrawals expected in a payload are bounded. There are at most as many as a payload may
  hold, their indices continue the global sequence without gaps, none of them takes more from a
  validator than its balance, and the last one of a full payload belongs to a validator of the
  registry, so that the sweep cursor moves past it.
\<close>

theorem expected_withdrawals_bounds:
  assumes "state_ok p st" and "get_expected_withdrawals p st = Inr e"
  shows "length (ew_withdrawals e) \<le> MAX_WITHDRAWALS_PER_PAYLOAD p
    \<and> map wd_index (ew_withdrawals e) = [next_withdrawal_index st..<next_withdrawal_index st + length (ew_withdrawals e)]
    \<and> covered st (ew_withdrawals e)
    \<and> (length (ew_withdrawals e) = MAX_WITHDRAWALS_PER_PAYLOAD p \<longrightarrow> wd_validator_index (last (ew_withdrawals e)) < length (validators st))"
  using safeD [OF expected_safe [OF assms(1)] assms(2)] by (simp add: payload_withdrawals_ok_def selected_def)

text \<open>
  C30: withdrawals neither create nor lose stake. When the payload branch is settled, each validator's
  new balance and the withdrawals listed for it in the expected payload add up to its old balance,
  and the global withdrawal index advances by the number of withdrawals.
\<close>

theorem withdrawals_conserve:
  assumes "state_ok p st" and "latest_block_hash st = bid_block_hash (latest_execution_payload_bid st)"
    and "process_withdrawals p st = Inr st'" and "i < length (validators st)"
  shows "balances st' ! i + withdrawn i (payload_expected_withdrawals st') = balances st ! i
    \<and> next_withdrawal_index st' = next_withdrawal_index st + length (payload_expected_withdrawals st')"
  using safeD [OF withdrawals_safe [OF assms(1)] assms(3)] assms(2,4)
  by (auto simp: withdrawals_applied_def Let_def payload_withdrawals_ok_def selected_def covered_def)

definition ex_settled :: BeaconState where
  "ex_settled = (ex_state Minimal)\<lparr>latest_block_hash := replicate 32 5\<rparr>"

lemma ex_settled_ok: "state_ok Minimal ex_settled"
  unfolding ex_settled_def by (rule state_ok_upd_latest_block_hash [OF ex_state_ok]) simp

lemma ex_settled_sel [simp]:
  "validators ex_settled = map ex_validator [0, 1, 2, 3]" "balances ex_settled = [32000000000, 33000000000, 31000000000, 32000000000]"
  "builders ex_settled = []" "builder_pending_withdrawals ex_settled = []" "pending_partial_withdrawals ex_settled = []"
  "slot ex_settled = 47" "next_withdrawal_index ex_settled = 0" "next_withdrawal_validator_index ex_settled = 0"
  by (simp_all add: ex_settled_def)

abbreviation ex_withdrawal :: Withdrawal where
  "ex_withdrawal \<equiv> \<lparr>wd_index = 0, wd_validator_index = 1, wd_address = replicate 20 0, wd_amount = 1000000000\<rparr>"

lemmas ex_sweep_defs = sweep_validator_def cursor_as_u64_def int_try_from_def u64_max_def get_balance_after_withdrawals_def
  validator_index_as_usize_def idx_def get_at_def or_err_def ok_or_def saturating_sub_def is_fully_withdrawable_validator_def
  is_partially_withdrawable_validator_def has_execution_withdrawal_credential_def has_eth1_withdrawal_credential_def
  has_compounding_withdrawal_credential_def get_max_effective_balance_def MIN_ACTIVATION_BALANCE_def ETH1_ADDRESS_WITHDRAWAL_PREFIX_def
  COMPOUNDING_WITHDRAWAL_PREFIX_def FAR_FUTURE_EPOCH_def increment_withdrawal_index_def checked_add_def
  withdrawal_address_from_credentials_def

lemma ex_sweep:
  "sweep_validator ex_settled 5 [] 0 ([], 0) = Inr ([], 0)"
  "sweep_validator ex_settled 5 [] 1 ([], 0) = Inr ([ex_withdrawal], 1)"
  "sweep_validator ex_settled 5 [] 2 ([ex_withdrawal], 1) = Inr ([ex_withdrawal], 1)"
  "sweep_validator ex_settled 5 [] 3 ([ex_withdrawal], 1) = Inr ([ex_withdrawal], 1)"
  by (simp_all add: ex_sweep_defs drop_Cons')

lemma ex_sweep_loop:
  "validator_sweep_loop (Suc (Suc (Suc (Suc 0)))) ex_settled 5 4 [] 0 ([], 0, 0) = Inr ([ex_withdrawal], 1, 4)"
  by (simp add: ex_sweep combined_withdrawals_len_def u_add_def increment_processed_count_def checked_add_def u64_max_def or_err_def
      del: One_nat_def)

lemma ex_expected:
  "get_expected_withdrawals Minimal ex_settled = Inr
     \<lparr>ew_withdrawals = [ex_withdrawal],
      ew_processed_builder_withdrawals_count = 0, ew_processed_partial_withdrawals_count = 0,
      ew_processed_builders_sweep_count = 0, ew_processed_sweep_withdrawals_count = 4\<rparr>"
proof -
  have "get_validators_sweep_withdrawals Minimal ex_settled 0 [] = Inr ([ex_withdrawal], 1, 4)"
    using ex_sweep_loop
    by (simp add: get_validators_sweep_withdrawals_def MAX_WITHDRAWALS_PER_PAYLOAD_def validator_index_as_usize_def int_try_from_def
        sweep_limit_def MAX_VALIDATORS_PER_WITHDRAWALS_SWEEP_def u64_max_def epoch_of_def SLOTS_PER_EPOCH_def
        del: validator_sweep_loop.simps)
  then show ?thesis
    by (simp add: get_expected_withdrawals_def get_builder_withdrawals_def get_pending_partial_withdrawals_def
        get_builders_sweep_withdrawals_def int_try_from_def MAX_PENDING_PARTIALS_PER_WITHDRAWALS_SWEEP_def u64_max_def checked_add_def)
qed

theorem expected_withdrawals_bounds_witness:
  "\<exists>e. get_expected_withdrawals Minimal ex_settled = Inr e \<and> ew_withdrawals e \<noteq> [] \<and> length (ew_withdrawals e) \<le> 4
     \<and> covered ex_settled (ew_withdrawals e)"
  using expected_withdrawals_bounds [OF ex_settled_ok ex_expected] ex_expected by (simp add: MAX_WITHDRAWALS_PER_PAYLOAD_def)

theorem withdrawals_conserve_witness:
  "\<exists>st'. process_withdrawals Minimal ex_settled = Inr st' \<and> payload_expected_withdrawals st' = [ex_withdrawal]
     \<and> balances st' ! 1 + withdrawn 1 (payload_expected_withdrawals st') = 33000000000 \<and> next_withdrawal_index st' = 1"
proof -
  have hash: "latest_block_hash ex_settled = bid_block_hash (latest_execution_payload_bid ex_settled)"
    by (simp add: ex_settled_def ex_bid_def)
  have flag: "\<not> is_builder_index 1" using registered_not_flagged [OF ex_settled_ok, of 1] by simp
  have "apply_withdrawals ex_settled [ex_withdrawal] = Inr (ex_settled\<lparr>balances := [32000000000, 32000000000, 31000000000, 32000000000]\<rparr>)"
    using flag by (simp add: apply_withdrawals_def apply_withdrawal_def bindR_eq_Inr decrease_balance_eq_Inr)
  then have "\<exists>st'. process_withdrawals Minimal ex_settled = Inr st' \<and> payload_expected_withdrawals st' = [ex_withdrawal]"
    using hash
    by (simp add: process_withdrawals_def ex_expected
        update_next_withdrawal_index_def increment_withdrawal_index_def update_payload_expected_withdrawals_def list_try_from_def
        update_builder_pending_withdrawals_def update_pending_partial_withdrawals_def update_next_withdrawal_builder_index_def
        update_next_withdrawal_validator_index_def len_as_u64_def int_try_from_def checked_add_def u64_max_def or_err_def
        MAX_WITHDRAWALS_PER_PAYLOAD_def MAX_VALIDATORS_PER_WITHDRAWALS_SWEEP_def BUILDER_PENDING_WITHDRAWALS_LIMIT_def)
  then obtain st' where run: "process_withdrawals Minimal ex_settled = Inr st'" and ws: "payload_expected_withdrawals st' = [ex_withdrawal]"
    by blast
  show ?thesis using run ws withdrawals_conserve [OF ex_settled_ok hash run, of 1] by simp
qed

end
