(* ===== verification/Bids.thy ===== *)
theory Bids
  imports Withdrawals
begin

text \<open>
  Builder bids (\<open>state_transition/builder/bids.rs\<close>, with \<open>get_blob_parameters\<close> of
  \<open>containers/chain.rs\<close>) and payload attestations (\<open>builder/payload_attestations.rs\<close>).
\<close>

section \<open>Bids\<close>

definition get_blob_parameters :: "preset \<Rightarrow> Epoch \<Rightarrow> BlobParameters" where
  "get_blob_parameters p epoch =
     (case find (\<lambda>(entry_epoch, limit). epoch \<ge> entry_epoch) (rev (BLOB_SCHEDULE p)) of
        Some (entry_epoch, limit) \<Rightarrow> \<lparr>bp_epoch = entry_epoch, bp_max_blobs_per_block = limit\<rparr>
      | None \<Rightarrow> \<lparr>bp_epoch = ELECTRA_FORK_EPOCH p, bp_max_blobs_per_block = MAX_BLOBS_PER_BLOCK\<rparr>)"

definition max_blobs_per_block_at :: "preset \<Rightarrow> Epoch \<Rightarrow> usize" where
  "max_blobs_per_block_at p epoch =
     (case int_try_from (bp_max_blobs_per_block (get_blob_parameters p epoch)) of Some n \<Rightarrow> n | None \<Rightarrow> u64_max)"

definition can_builder_cover_bid :: "BeaconState \<Rightarrow> BuilderIndex \<Rightarrow> Gwei \<Rightarrow> bool tres" where
  "can_builder_cover_bid st index value =
     bindR (builder st index) (\<lambda>b.
     let builder_balance = bld_balance b in
     bindR (get_pending_balance_to_withdraw_for_builder st index) (\<lambda>pending.
     bindR (or_err (checked_add MIN_DEPOSIT_AMOUNT pending) (ArithmeticOverflow Arith_BalanceSum)) (\<lambda>min_balance.
     if builder_balance < min_balance then Inr False
     else
     bindR (or_err (checked_sub builder_balance min_balance) (ArithmeticOverflow Arith_BalanceSum)) (\<lambda>available.
     Inr (available \<ge> value)))))"

definition verify_execution_payload_bid_signature ::
    "('g1, 'g2, 'gt) ext \<Rightarrow> preset \<Rightarrow> BeaconState \<Rightarrow> SignedExecutionPayloadBid \<Rightarrow> unit tres" where
  "verify_execution_payload_bid_signature X p st signed_bid =
     (let index = bid_builder_index (sbid_message signed_bid) in
      bindR (builder st index) (\<lambda>b.
      bindR (signing_root_for X p st ExecutionPayloadBid_ty (ExecutionPayloadBid_val (sbid_message signed_bid))
               DOMAIN_BEACON_BUILDER (epoch_of p (slot st)) Mer_ExecutionPayloadBid) (\<lambda>signing_root.
      verify_signature X (bld_pubkey b) signing_root (sbid_signature signed_bid) (Sig_ExecutionPayloadBid index))))"

definition validate_bid_identity :: "preset \<Rightarrow> BeaconState \<Rightarrow> ExecutionPayloadBid \<Rightarrow> unit tres" where
  "validate_bid_identity p st bid =
     bindR (reject (bid_slot bid \<noteq> slot st \<or> slot st = GENESIS_SLOT) (OperationErr Op_BuilderBidSlotMismatch)) (\<lambda>_.
     bindR (u_sub (slot st) 1) (\<lambda>previous.
     bindR (block_root_at_slot p st previous) (\<lambda>parent_block_root.
     bindR (reject (bid_parent_block_root bid \<noteq> parent_block_root) (OperationErr Op_BuilderBidParentMismatch)) (\<lambda>_.
     bindR (reject (bid_parent_block_hash bid \<noteq> latest_block_hash st) (OperationErr Op_BuilderBidParentMismatch)) (\<lambda>_.
     bindR (get_randao_mix p st (epoch_of p (slot st))) (\<lambda>mix.
     bindR (reject (bid_prev_randao bid \<noteq> mix) (OperationErr Op_BuilderBidRandaoMismatch)) (\<lambda>_.
     let blob_limit = max_blobs_per_block_at p (epoch_of p (slot st)) in
     reject (length (bid_blob_kzg_commitments bid) > blob_limit)
       (OperationErr (Op_BuilderBidBlobLimitExceeded (length (bid_blob_kzg_commitments bid)) blob_limit)))))))))"

definition validate_bid_signer_and_funding ::
    "('g1, 'g2, 'gt) ext \<Rightarrow> preset \<Rightarrow> BeaconState \<Rightarrow> SignedExecutionPayloadBid \<Rightarrow> unit tres" where
  "validate_bid_signer_and_funding X p st signed_bid =
     (let bid = sbid_message signed_bid;
          index = bid_builder_index bid
      in
      if index = BUILDER_INDEX_SELF_BUILD then
        bindR (reject (bid_value bid \<noteq> 0) (OperationErr Op_BuilderBidSelfBuildNonZero)) (\<lambda>_.
        reject (\<not> is_g2_point_at_infinity (sbid_signature signed_bid)) (OperationErr Op_BuilderBidSelfBuildSignature))
      else
      bindR (is_active_builder st index) (\<lambda>active.
      bindR (reject (\<not> active) (OperationErr (Op_BuilderNotActive index))) (\<lambda>_.
      bindR (builder st index) (\<lambda>b.
      bindR (reject (bld_version b \<noteq> PAYLOAD_BUILDER_VERSION) (OperationErr (Op_BuilderNotPayloadVersion index))) (\<lambda>_.
      bindR (can_builder_cover_bid st index (bid_value bid)) (\<lambda>covered.
      bindR (reject (\<not> covered) (OperationErr (Op_BuilderInsufficientBalance index))) (\<lambda>_.
      verify_execution_payload_bid_signature X p st signed_bid)))))))"

definition record_accepted_bid :: "preset \<Rightarrow> BeaconState \<Rightarrow> ExecutionPayloadBid \<Rightarrow> ValidatorIndex \<Rightarrow> BeaconState tres" where
  "record_accepted_bid p st bid proposer_index =
     (let st = st\<lparr>latest_execution_payload_bid := bid\<rparr> in
      if bid_value bid = 0 then Inr st
      else
      let payment = \<lparr>bpp_weight = 0,
            bpp_withdrawal = \<lparr>bpw_fee_recipient = bid_fee_recipient bid, bpw_amount = bid_value bid, bpw_builder_index = bid_builder_index bid\<rparr>,
            bpp_proposer_index = proposer_index\<rparr>;
          window_index = SLOTS_PER_EPOCH p + bid_slot bid mod SLOTS_PER_EPOCH p
      in
      bindR (idx_set (builder_pending_payments st) window_index payment) (\<lambda>ps.
      Inr (st\<lparr>builder_pending_payments := ps\<rparr>)))"

definition process_execution_payload_bid ::
    "('g1, 'g2, 'gt) ext \<Rightarrow> preset \<Rightarrow> BeaconState \<Rightarrow> SignedExecutionPayloadBid \<Rightarrow> BeaconState tres" where
  "process_execution_payload_bid X p st signed_bid =
     (let bid = sbid_message signed_bid in
      bindR (validate_bid_identity p st bid) (\<lambda>_.
      bindR (validate_bid_signer_and_funding X p st signed_bid) (\<lambda>_.
      bindR (get_beacon_proposer_index p st) (\<lambda>proposer_index.
      record_accepted_bid p st bid proposer_index))))"

section \<open>Payload attestations\<close>

definition get_indexed_payload_attestation :: "preset \<Rightarrow> BeaconState \<Rightarrow> PayloadAttestation \<Rightarrow> IndexedPayloadAttestation tres" where
  "get_indexed_payload_attestation p st attestation =
     bindR (get_ptc p st (pad_slot (pa_data attestation))) (\<lambda>committee.
     let attesting = sort (map fst (filter snd (zip committee (pa_aggregation_bits attestation)))) in
     bindR (foldR (\<lambda>indices vi. or_err (list_push (PTC_SIZE p) indices vi)
                                  (BoundedListFull BL_IndexedPayloadAttestationIndices)) [] attesting) (\<lambda>indices.
     Inr \<lparr>ipa_attesting_indices = indices, ipa_data = pa_data attestation, ipa_signature = pa_signature attestation\<rparr>))"

definition is_valid_indexed_payload_attestation ::
    "('g1, 'g2, 'gt) ext \<Rightarrow> preset \<Rightarrow> BeaconState \<Rightarrow> IndexedPayloadAttestation \<Rightarrow> unit tres" where
  "is_valid_indexed_payload_attestation X p st indexed =
     bindR (reject (ipa_attesting_indices indexed = []) (OperationErr Op_AttestationParticipantsEmpty)) (\<lambda>_.
     bindR (reject (\<not> sorted (ipa_attesting_indices indexed)) (OperationErr Op_IndexedAttestationNotSorted)) (\<lambda>_.
     bindR (mapR (\<lambda>i. bindR (validator st i) (\<lambda>v. Inr (v_pubkey v))) (ipa_attesting_indices indexed)) (\<lambda>pubkeys.
     let data = ipa_data indexed in
     bindR (domain_for X p st DOMAIN_PTC_ATTESTER (epoch_of p (pad_slot data))) (\<lambda>dmn.
     bindR (compute_signing_root X PayloadAttestationData_ty (PayloadAttestationData_val data) dmn Mer_PayloadAttestationData) (\<lambda>signing_root.
     fast_aggregate_verify X pubkeys signing_root (ipa_signature indexed) Sig_PayloadAttestation)))))"

definition process_payload_attestation ::
    "('g1, 'g2, 'gt) ext \<Rightarrow> preset \<Rightarrow> BeaconState \<Rightarrow> PayloadAttestation \<Rightarrow> BeaconState tres" where
  "process_payload_attestation X p st attestation =
     (let data = pa_data attestation;
          parent_block_root = bbh_parent_root (latest_block_header st)
      in
      bindR (reject (pad_beacon_block_root data \<noteq> parent_block_root) (OperationErr Op_PayloadAttestationBlockRootMismatch)) (\<lambda>_.
      bindR (or_err (checked_add (pad_slot data) 1) (ArithmeticOverflow Arith_Slot)) (\<lambda>next_slot.
      bindR (reject (next_slot \<noteq> slot st) (OperationErr Op_PayloadAttestationSlotMismatch)) (\<lambda>_.
      bindR (get_indexed_payload_attestation p st attestation) (\<lambda>indexed.
      bindR (is_valid_indexed_payload_attestation X p st indexed) (\<lambda>_.
      Inr st))))))"

definition ptc_window_index_for_slot :: "preset \<Rightarrow> BeaconState \<Rightarrow> Slot \<Rightarrow> usize option" where
  "ptc_window_index_for_slot p st sl =
     (let epoch = epoch_of p sl;
          state_epoch = epoch_of p (slot st);
          bucket = (if checked_add epoch 1 = Some state_epoch then Some 0
                    else if epoch = state_epoch then Some 1
                    else if checked_add state_epoch 1 = Some epoch then Some 2
                    else None);
          offset = sl mod SLOTS_PER_EPOCH p
      in map_option (\<lambda>b. b * SLOTS_PER_EPOCH p + offset) bucket)"

section \<open>Bids and payload attestations keep the invariant\<close>

lemma proposer_u64:
  assumes "state_ok p st" and "get_beacon_proposer_index p st = Inr i"
  shows "i \<le> u64_max"
  using assms(2) state_ok_proposer_lookahead(2) [OF assms(1)] nth_mem
  by (fastforce simp: get_beacon_proposer_index_def Let_def res_simps get_at_eq_Some)

lemma bid_identity_safe:
  assumes ok: "state_ok p st"
  shows "safe (validate_bid_identity p st bid) (\<lambda>_. bid_slot bid = slot st)"
  unfolding validate_bid_identity_def Let_def safe_bind safe_reject safe_u_sub
  by (auto simp: GENESIS_SLOT_def safe_simps intro!: safe_mono [OF block_root_safe [OF ok]] safe_mono [OF randao_mix_safe [OF ok]])

lemma bid_funding_safe: "safe (validate_bid_signer_and_funding X p st sb) (\<lambda>_. True)"
  unfolding validate_bid_signer_and_funding_def Let_def
  by (auto simp: safe_simps is_active_builder_def can_builder_cover_bid_def verify_execution_payload_bid_signature_def Let_def
      verify_signature_safe res_simps)

lemma record_bid_safe:
  assumes ok: "state_ok p st" and bid: "ExecutionPayloadBid_ok bid" and i: "i \<le> u64_max"
  shows "safe (record_accepted_bid p st bid i) (\<lambda>st'. state_ok p st' \<and> chain_frame st' = chain_frame st)"
proof -
  let ?st = "st\<lparr>latest_execution_payload_bid := bid\<rparr>"
  have st: "state_ok p ?st" by (rule state_ok_upd_latest_execution_payload_bid [OF ok bid])
  have w: "SLOTS_PER_EPOCH p + bid_slot bid mod SLOTS_PER_EPOCH p < length (builder_pending_payments st)"
    using state_ok_builder_pending_payments(1) [OF ok] mod_less_divisor [OF slots_per_epoch_pos] by (simp add: window_len)
  have "state_ok p (?st\<lparr>builder_pending_payments := (builder_pending_payments ?st)[k := \<lparr>bpp_weight = 0,
      bpp_withdrawal = \<lparr>bpw_fee_recipient = bid_fee_recipient bid, bpw_amount = bid_value bid, bpw_builder_index = bid_builder_index bid\<rparr>,
      bpp_proposer_index = i\<rparr>]\<rparr>)" for k
    by (rule state_ok_set_payment [OF st])
      (use bid i in \<open>simp add: BuilderPendingPayment_ok_iff BuilderPendingWithdrawal_ok_iff ExecutionPayloadBid_ok_iff\<close>)
  then show ?thesis using w st by (simp add: record_accepted_bid_def Let_def safe_simps)
qed

lemma bid_phase:
  assumes "SignedExecutionPayloadBid_ok sb"
  shows "phase X p (\<lambda>st. process_execution_payload_bid X p st sb)"
proof
  fix st assume ok: "state_ok p st"
  have bid: "ExecutionPayloadBid_ok (sbid_message sb)" using assms by (simp add: SignedExecutionPayloadBid_ok_iff)
  show "safe (process_execution_payload_bid X p st sb) (\<lambda>st'. state_ok p st' \<and> chain_frame st' = chain_frame st)"
    unfolding process_execution_payload_bid_def Let_def safe_bind beacon_proposer_index_safe
    by (intro safe_mono [OF bid_identity_safe [OF ok]] safe_mono [OF bid_funding_safe] allI impI record_bid_safe [OF ok bid] proposer_u64 [OF ok])
qed

lemma payload_attestation_safe:
  assumes ok: "state_ok p st"
  shows "safe (process_payload_attestation X p st a) (\<lambda>st'. st' = st)"
  unfolding process_payload_attestation_def get_indexed_payload_attestation_def is_valid_indexed_payload_attestation_def Let_def
    safe_bind safe_reject safe_or_err
  by (intro impI allI safe_mono [OF get_ptc_safe [OF ok]] safe_mono [OF push_all_safe])
    (auto simp: safe_simps intro!: safe_mono [OF keys_safe] safe_mono [OF fast_aggregate_verify_safe])

interpretation payload_attestation: phase X p "\<lambda>st. process_payload_attestation X p st a" for X p a
  by unfold_locales (rule safe_mono [OF payload_attestation_safe], auto)

text \<open>The committee lookup reads the window at the position that \<open>ptc_window_index_for_slot\<close> gives.\<close>

lemma get_ptc_window:
  assumes "get_ptc p st sl = Inr js"
  shows "\<exists>k. ptc_window_index_for_slot p st sl = Some k \<and> get_at (ptc_window st) k = Some js"
proof (cases "epoch_of p sl = Suc (epoch_of p (slot st))")
  case True
  then show ?thesis using assms
    by (simp add: get_ptc_def ptc_window_index_for_slot_def Let_def res_simps checked_add_def MIN_SEED_LOOKAHEAD_def mult_2 split: if_splits)
next
  case False
  then show ?thesis using assms
    by (auto simp: get_ptc_def ptc_window_index_for_slot_def Let_def res_simps checked_add_def MIN_SEED_LOOKAHEAD_def split: if_splits)
qed

section \<open>Builders stay solvent\<close>

definition builder_owed :: "BeaconState \<Rightarrow> BuilderIndex \<Rightarrow> nat" where
  "builder_owed st i = sum_list (map bpw_amount (filter (\<lambda>w. bpw_builder_index w = i) (builder_pending_withdrawals st)))
     + sum_list (map (\<lambda>q. bpw_amount (bpp_withdrawal q)) (filter (\<lambda>q. bpw_builder_index (bpp_withdrawal q) = i) (builder_pending_payments st)))"

lemma pending_for_builder_eq:
  "get_pending_balance_to_withdraw_for_builder st i = Inr t \<longleftrightarrow> t = builder_owed st i \<and> t \<le> u64_max"
proof
  assume "t = builder_owed st i \<and> t \<le> u64_max"
  then show "get_pending_balance_to_withdraw_for_builder st i = Inr t"
    by (simp add: get_pending_balance_to_withdraw_for_builder_def builder_owed_def slashing_sum_eq)
next
  assume r: "get_pending_balance_to_withdraw_for_builder st i = Inr t"
  then have t: "t = builder_owed st i"
    by (auto simp: get_pending_balance_to_withdraw_for_builder_def bindR_eq_Inr builder_owed_def dest!: slashing_sum)
  have sum: "safe (foldR (\<lambda>s amount. or_err (checked_add s amount) e) s as) (\<lambda>s. s \<le> u64_max)" if "s \<le> u64_max" for s as e
    using that by (intro safe_foldR) (auto simp: safe_or_err res_simps)
  have "safe (get_pending_balance_to_withdraw_for_builder st i) (\<lambda>s. s \<le> u64_max)"
    unfolding get_pending_balance_to_withdraw_for_builder_def safe_bind by (rule safe_mono [OF sum sum]) simp_all
  then show "t = builder_owed st i \<and> t \<le> u64_max" using t r by simp
qed

lemma sum_filter_update:
  fixes f :: "'a \<Rightarrow> nat"
  shows "sum_list (map f (filter P (xs[k := x]))) \<le> sum_list (map f (filter P xs)) + f x"
  by (induction xs arbitrary: k) (auto split: nat.split simp: add.assoc add_mono trans_le_add2)

text \<open>
  C31: accepting a bid keeps the builder solvent. After a bid of a registered builder has been
  accepted, everything the builder owes, the new bid included, and the minimum deposit together are
  covered by its balance, and the accepted bid is the one recorded.
\<close>

theorem bid_keeps_builder_solvent:
  assumes run: "process_execution_payload_bid X p st sb = Inr st'"
    and i: "bid_builder_index (sbid_message sb) = i" "i \<noteq> BUILDER_INDEX_SELF_BUILD"
  shows "i < length (builders st') \<and> MIN_DEPOSIT_AMOUNT + builder_owed st' i \<le> bld_balance (builders st' ! i)
    \<and> latest_execution_payload_bid st' = sbid_message sb"
proof -
  let ?bid = "sbid_message sb"
  have "i < length (builders st) \<and> MIN_DEPOSIT_AMOUNT + builder_owed st i + bid_value ?bid \<le> bld_balance (builders st ! i)"
    using run i by (auto simp: process_execution_payload_bid_def validate_bid_signer_and_funding_def can_builder_cover_bid_def Let_def
        bindR_eq_Inr reject_eq_Inr or_err_eq_Inr pending_for_builder_eq builder_eq_Inr res_simps split: if_splits)
  moreover obtain j where "record_accepted_bid p st ?bid j = Inr st'"
    using run by (auto simp: process_execution_payload_bid_def Let_def bindR_eq_Inr)
  moreover from this have "builders st' = builders st" "latest_execution_payload_bid st' = ?bid"
    "builder_owed st' i \<le> builder_owed st i + bid_value ?bid"
    by (auto simp: record_accepted_bid_def Let_def bindR_eq_Inr idx_set_eq_Inr builder_owed_def add.assoc
        intro!: order_trans [OF sum_filter_update] split: if_splits)
  ultimately show ?thesis by auto
qed

definition ex_builder :: Builder where
  "ex_builder = \<lparr>bld_pubkey = ex_pubkey 1, bld_version = 0, bld_execution_address = replicate 20 0, bld_balance = 10000000000,
     bld_deposit_epoch = 1, bld_withdrawable_epoch = FAR_FUTURE_EPOCH\<rparr>"

definition ex_offer :: SignedExecutionPayloadBid where
  "ex_offer = \<lparr>sbid_message = ex_bid\<lparr>bid_slot := 47, bid_parent_block_hash := replicate 32 4, bid_value := 5000000000\<rparr>,
     sbid_signature = replicate 96 0\<rparr>"

lemma ex_bid_signature:
  assumes "fork st = fork (ex_state Minimal)" "genesis_validators_root st = replicate 32 0" "slot st = 47" "builders st = [ex_builder]"
  shows "verify_execution_payload_bid_signature ex_ext Minimal st ex_offer = Inr ()"
proof -
  have bid: "ExecutionPayloadBid_ty \<in> set (container_types Minimal)" by (simp add: container_types_def)
  have typed: "well_typed ExecutionPayloadBid_ty (ExecutionPayloadBid_val (sbid_message ex_offer))"
    by (simp add: ExecutionPayloadBid_ok_iff ex_offer_def ex_bid_def u64_max_def flip: ExecutionPayloadBid_ok_def)
  obtain d where d: "compute_domain ex_ext DOMAIN_BEACON_BUILDER (replicate 4 0) (replicate 32 0) = Inr d" "length d = 32"
    using compute_domain_total [OF ex_ext_ok, of DOMAIN_BEACON_BUILDER "replicate 4 0" "replicate 32 0"] by (auto simp: DOMAIN_BEACON_BUILDER_def)
  obtain r where r: "compute_signing_root ex_ext ExecutionPayloadBid_ty (ExecutionPayloadBid_val (sbid_message ex_offer)) d
      Mer_ExecutionPayloadBid = Inr r"
    using compute_signing_root_total [OF ex_ext_ok bid typed d(2)] by blast
  then show ?thesis using d assms
    by (simp add: verify_execution_payload_bid_signature_def Let_def signing_root_for_def get_domain_def fork_version_at_def builder_def get_at_def
        ex_offer_def ex_bid_def ex_builder_def verify_signature_def parse_pubkey_def parse_signature_def hash_to_g2_def verify_pairing_def ex_ext_def)
qed

theorem bid_keeps_builder_solvent_witness:
  "\<exists>st'. process_execution_payload_bid ex_ext Minimal ((ex_state Minimal)\<lparr>builders := [ex_builder]\<rparr>) ex_offer = Inr st'
     \<and> bid_value (latest_execution_payload_bid st') = 5000000000 \<and> MIN_DEPOSIT_AMOUNT + builder_owed st' 0 \<le> bld_balance (builders st' ! 0)"
proof -
  let ?st = "(ex_state Minimal)\<lparr>builders := [ex_builder]\<rparr>"
  have sig: "verify_execution_payload_bid_signature ex_ext Minimal ?st ex_offer = Inr ()"
    by (rule ex_bid_signature) simp_all
  have owed: "get_pending_balance_to_withdraw_for_builder ?st 0 = Inr 0"
    by (simp add: pending_for_builder_eq builder_owed_def ex_payment_def filter_replicate sum_list_replicate)
  have fund: "validate_bid_signer_and_funding ex_ext Minimal ?st ex_offer = Inr ()"
    using sig owed
    by (simp add: validate_bid_signer_and_funding_def Let_def ex_offer_def ex_bid_def BUILDER_INDEX_SELF_BUILD_def u64_max_def is_active_builder_def
        builder_def get_at_def ex_builder_def PAYLOAD_BUILDER_VERSION_def can_builder_cover_bid_def checked_add_def checked_sub_def
        MIN_DEPOSIT_AMOUNT_def)
  have ident: "validate_bid_identity Minimal ?st (sbid_message ex_offer) = Inr ()"
    by (simp add: validate_bid_identity_def ex_offer_def ex_bid_def GENESIS_SLOT_def u_sub_def block_root_at_slot_def idx_def
        SLOTS_PER_HISTORICAL_ROOT_def get_randao_mix_def EPOCHS_PER_HISTORICAL_VECTOR_def epoch_of_def SLOTS_PER_EPOCH_def Let_def)
  have "\<exists>st'. process_execution_payload_bid ex_ext Minimal ?st ex_offer = Inr st'"
    using fund ident
    by (simp add: process_execution_payload_bid_def get_beacon_proposer_index_def Let_def get_at_def record_accepted_bid_def ex_offer_def
        SLOTS_PER_EPOCH_def PROPOSER_LOOKAHEAD_LEN_def MIN_SEED_LOOKAHEAD_def BUILDER_PAYMENT_WINDOW_LEN_def idx_set_def)
  then obtain st' where run: "process_execution_payload_bid ex_ext Minimal ?st ex_offer = Inr st'"
    by blast
  show ?thesis using run bid_keeps_builder_solvent [OF run, of 0] by (simp add: ex_offer_def ex_bid_def BUILDER_INDEX_SELF_BUILD_def u64_max_def)
qed

end
