(* ===== verification/Block.thy ===== *)
theory Block
  imports Bids
begin

text \<open>
  Block processing: the body operations (\<open>state_transition/operations.rs\<close>), settlement of the parent
  payload (\<open>block/parent_payload.rs\<close>), the sync aggregate (\<open>block/sync_aggregate.rs\<close>) and the phases of
  a block (\<open>block.rs\<close>), with the helpers \<open>header\<close> and \<open>is_empty\<close> of the containers.
\<close>

section \<open>Operations of the body (operations.rs)\<close>

definition process_operations :: "('g1, 'g2, 'gt) ext \<Rightarrow> preset \<Rightarrow> BeaconState \<Rightarrow> BeaconBlockBody \<Rightarrow> BeaconState tres" where
  "process_operations X p st body =
     bindR (reject (body_deposits body \<noteq> []) (OperationErr Op_DepositsNotAllowed)) (\<lambda>_.
     bindR (foldR (process_proposer_slashing X p) st (body_proposer_slashings body)) (\<lambda>st.
     bindR (foldR (process_attester_slashing X p) st (body_attester_slashings body)) (\<lambda>st.
     bindR (foldR (process_attestation X p) st (body_attestations body)) (\<lambda>st.
     bindR (foldR (process_voluntary_exit X p) st (body_voluntary_exits body)) (\<lambda>st.
     bindR (foldR (process_bls_to_execution_change X p) st (body_bls_to_execution_changes body)) (\<lambda>st.
     foldR (process_payload_attestation X p) st (body_payload_attestations body)))))))"

section \<open>The parent payload (block/parent_payload.rs)\<close>

record ParentPayloadCommitment =
  ppc_slot :: Slot
  ppc_block_hash :: Hash32
  ppc_payment :: BuilderPendingWithdrawal

definition ExecutionRequests_is_empty :: "ExecutionRequests \<Rightarrow> bool" where
  "ExecutionRequests_is_empty r \<longleftrightarrow> er_deposits r = [] \<and> er_withdrawals r = [] \<and> er_consolidations r = []
     \<and> er_builder_deposits r = [] \<and> er_builder_exits r = []"

text \<open>The requests of the payload, in the order of the code.\<close>

definition apply_execution_requests ::
    "('g1, 'g2, 'gt) ext \<Rightarrow> preset \<Rightarrow> BeaconState \<Rightarrow> ExecutionRequests \<Rightarrow> BeaconState tres" where
  "apply_execution_requests X p st requests =
     bindR (foldR process_deposit_request st (er_deposits requests)) (\<lambda>st.
     bindR (foldR (process_withdrawal_request p) st (er_withdrawals requests)) (\<lambda>st.
     bindR (foldR (process_consolidation_request p) st (er_consolidations requests)) (\<lambda>st.
     bindR (foldR (process_builder_deposit_request X p) st (er_builder_deposits requests)) (\<lambda>st.
     foldR (process_builder_exit_request p) st (er_builder_exits requests)))))"

definition apply_parent_execution_payload ::
    "('g1, 'g2, 'gt) ext \<Rightarrow> preset \<Rightarrow> BeaconState \<Rightarrow> ExecutionRequests \<Rightarrow> BeaconState tres" where
  "apply_parent_execution_payload X p st requests =
     (let parent_bid = latest_execution_payload_bid st;
          commitment = \<lparr>ppc_slot = bid_slot parent_bid, ppc_block_hash = bid_block_hash parent_bid,
            ppc_payment = \<lparr>bpw_fee_recipient = bid_fee_recipient parent_bid, bpw_amount = bid_value parent_bid,
                           bpw_builder_index = bid_builder_index parent_bid\<rparr>\<rparr>
      in
      bindR (apply_execution_requests X p st requests) (\<lambda>st.
      bindR (case builder_payment_index_for_slot p st (ppc_slot commitment) of
               Some payment_index \<Rightarrow> settle_builder_payment st payment_index
             | None \<Rightarrow>
                 if bpw_amount (ppc_payment commitment) > 0 then queue_builder_pending_withdrawal st (ppc_payment commitment)
                 else Inr st) (\<lambda>st.
      let st = st\<lparr>execution_payload_availability :=
                bits_set (execution_payload_availability st) (ppc_slot commitment mod SLOTS_PER_HISTORICAL_ROOT p) True\<rparr>
      in Inr (st\<lparr>latest_block_hash := ppc_block_hash commitment\<rparr>))))"

definition process_parent_execution_payload ::
    "('g1, 'g2, 'gt) ext \<Rightarrow> preset \<Rightarrow> BeaconState \<Rightarrow> BeaconBlock \<Rightarrow> BeaconState tres" where
  "process_parent_execution_payload X p st block =
     (let bid = sbid_message (body_signed_execution_payload_bid (blk_body block));
          parent_bid = latest_execution_payload_bid st;
          requests = body_parent_execution_requests (blk_body block)
      in
      if bid_parent_block_hash bid \<noteq> bid_block_hash parent_bid then
        bindR (reject (\<not> ExecutionRequests_is_empty requests) (BlockErr Block_ParentPayloadUnexpectedRequests)) (\<lambda>_. Inr st)
      else
      bindR (tree_root_of X ExecutionRequests_ty (ExecutionRequests_val requests) Mer_ExecutionRequests) (\<lambda>requests_root.
      bindR (reject (requests_root \<noteq> bid_execution_requests_root parent_bid) (BlockErr Block_ParentPayloadRequestsMismatch)) (\<lambda>_.
      apply_parent_execution_payload X p st requests)))"

section \<open>The sync aggregate (block/sync_aggregate.rs)\<close>

record SyncAggregateRewards =
  sar_participant :: Gwei
  sar_proposer :: Gwei

definition sync_committee_pubkeys :: "BeaconState \<Rightarrow> BLSPubkey list" where
  "sync_committee_pubkeys st = sc_pubkeys (current_sync_committee st)"

definition participating_sync_pubkeys :: "BLSPubkey list \<Rightarrow> SyncAggregate \<Rightarrow> BLSPubkey list" where
  "participating_sync_pubkeys committee_pubkeys sync_aggregate =
     map fst (filter snd (zip committee_pubkeys (sag_sync_committee_bits sync_aggregate)))"

definition verify_sync_aggregate_signature ::
    "('g1, 'g2, 'gt) ext \<Rightarrow> preset \<Rightarrow> BeaconState \<Rightarrow> SyncAggregate \<Rightarrow> BLSPubkey list \<Rightarrow> unit tres" where
  "verify_sync_aggregate_signature X p st sync_aggregate participant_pubkeys =
     (let previous_slot = saturating_sub (slot st) 1 in
      bindR (block_root_at_slot p st previous_slot) (\<lambda>block_root.
      bindR (signing_root_from_root X p st block_root DOMAIN_SYNC_COMMITTEE (epoch_of p previous_slot)) (\<lambda>signing_root.
      fast_aggregate_verify X participant_pubkeys signing_root (sag_sync_committee_signature sync_aggregate) Sig_SyncAggregate)))"

definition sync_aggregate_rewards :: "preset \<Rightarrow> BeaconState \<Rightarrow> SyncAggregateRewards tres" where
  "sync_aggregate_rewards p st =
     bindR (get_total_active_balance p st) (\<lambda>total.
     bindR (u_div total EFFECTIVE_BALANCE_INCREMENT) (\<lambda>total_active_increments.
     bindR (get_base_reward_per_increment p st) (\<lambda>base_reward_per_increment.
     bindR (u_mul base_reward_per_increment total_active_increments) (\<lambda>total_base_rewards.
     bindR (u_mul total_base_rewards SYNC_REWARD_WEIGHT) (\<lambda>weighted.
     bindR (u_div weighted WEIGHT_DENOMINATOR) (\<lambda>per_epoch.
     bindR (u_div per_epoch (SLOTS_PER_EPOCH p)) (\<lambda>max_participant_rewards.
     bindR (u_div max_participant_rewards (SYNC_COMMITTEE_SIZE p)) (\<lambda>participant_reward.
     bindR (u_mul participant_reward PROPOSER_WEIGHT) (\<lambda>w.
     bindR (u_sub WEIGHT_DENOMINATOR PROPOSER_WEIGHT) (\<lambda>d.
     bindR (u_div w d) (\<lambda>proposer_reward.
     Inr \<lparr>sar_participant = participant_reward, sar_proposer = proposer_reward\<rparr>)))))))))))"

text \<open>The body of the loop over the committee.\<close>

definition reward_sync_member ::
    "SyncAggregateRewards \<Rightarrow> ValidatorIndex \<Rightarrow> BeaconState \<Rightarrow> BLSPubkey \<times> bool \<Rightarrow> BeaconState tres" where
  "reward_sync_member rewards proposer_index st = (\<lambda>(pk, bit).
     bindR (or_err (validator_index st pk) (RegistryErr Reg_SyncCommitteeMemberNotFound)) (\<lambda>member_index.
     if bit then
       bindR (increase_balance st member_index (sar_participant rewards)) (\<lambda>st.
       increase_balance st proposer_index (sar_proposer rewards))
     else decrease_balance st member_index (sar_participant rewards)))"

definition apply_sync_aggregate_rewards ::
    "preset \<Rightarrow> BeaconState \<Rightarrow> SyncAggregate \<Rightarrow> BLSPubkey list \<Rightarrow> SyncAggregateRewards \<Rightarrow> BeaconState tres" where
  "apply_sync_aggregate_rewards p st sync_aggregate committee_pubkeys rewards =
     bindR (get_beacon_proposer_index p st) (\<lambda>proposer_index.
     foldR (reward_sync_member rewards proposer_index) st (zip committee_pubkeys (sag_sync_committee_bits sync_aggregate)))"

definition process_sync_aggregate :: "('g1, 'g2, 'gt) ext \<Rightarrow> preset \<Rightarrow> BeaconState \<Rightarrow> SyncAggregate \<Rightarrow> BeaconState tres" where
  "process_sync_aggregate X p st sync_aggregate =
     (let committee_pubkeys = sync_committee_pubkeys st;
          participant_pubkeys = participating_sync_pubkeys committee_pubkeys sync_aggregate
      in
      bindR (verify_sync_aggregate_signature X p st sync_aggregate participant_pubkeys) (\<lambda>_.
      bindR (sync_aggregate_rewards p st) (\<lambda>rewards.
      apply_sync_aggregate_rewards p st sync_aggregate committee_pubkeys rewards)))"

section \<open>The phases of a block (block.rs)\<close>

definition header :: "BeaconBlock \<Rightarrow> Root \<Rightarrow> Root \<Rightarrow> BeaconBlockHeader" where
  "header block body_root state_root =
     \<lparr>bbh_slot = blk_slot block, bbh_proposer_index = blk_proposer_index block, bbh_parent_root = blk_parent_root block,
      bbh_state_root = state_root, bbh_body_root = body_root\<rparr>"

definition process_block_header :: "('g1, 'g2, 'gt) ext \<Rightarrow> preset \<Rightarrow> BeaconState \<Rightarrow> BeaconBlock \<Rightarrow> BeaconState tres" where
  "process_block_header X p st block =
     bindR (reject (blk_slot block \<noteq> slot st) (BlockErr (Block_BlockSlotMismatch (blk_slot block) (slot st)))) (\<lambda>_.
     bindR (reject (blk_slot block \<le> bbh_slot (latest_block_header st))
              (BlockErr (Block_SlotNotAfterParent (blk_slot block) (bbh_slot (latest_block_header st))))) (\<lambda>_.
     bindR (get_beacon_proposer_index p st) (\<lambda>expected_proposer.
     bindR (reject (blk_proposer_index block \<noteq> expected_proposer)
              (BlockErr (Block_ProposerIndexMismatch (blk_proposer_index block) expected_proposer))) (\<lambda>_.
     bindR (tree_root_of X BeaconBlockHeader_ty (BeaconBlockHeader_val (latest_block_header st)) Mer_BeaconBlockHeader) (\<lambda>parent_root.
     bindR (reject (blk_parent_root block \<noteq> parent_root)
              (BlockErr (Block_ParentRootMismatch (blk_parent_root block) parent_root))) (\<lambda>_.
     bindR (tree_root_of X (BeaconBlockBody_ty p) (BeaconBlockBody_val (blk_body block)) Mer_BeaconBlockBody) (\<lambda>body_root.
     let st = st\<lparr>latest_block_header := header block body_root Root_ZERO\<rparr> in
     bindR (validator st (blk_proposer_index block)) (\<lambda>v.
     bindR (reject (v_slashed v) (BlockErr (Block_ProposerSlashed (blk_proposer_index block)))) (\<lambda>_.
     Inr st)))))))))"

definition process_randao :: "('g1, 'g2, 'gt) ext \<Rightarrow> preset \<Rightarrow> BeaconState \<Rightarrow> BeaconBlockBody \<Rightarrow> BeaconState tres" where
  "process_randao X p st body =
     (let epoch = epoch_of p (slot st) in
      bindR (get_beacon_proposer_index p st) (\<lambda>proposer_index.
      bindR (validator st proposer_index) (\<lambda>v.
      let pubkey = v_pubkey v in
      bindR (signing_root_for X p st Epoch_ty (VUint epoch) DOMAIN_RANDAO epoch Mer_Epoch) (\<lambda>signing_root.
      bindR (verify_signature X pubkey signing_root (body_randao_reveal body) Sig_RandaoReveal) (\<lambda>_.
      let mix_index = epoch mod EPOCHS_PER_HISTORICAL_VECTOR p;
          reveal_hash = ext_sha256 X (body_randao_reveal body)
      in
      bindR (idx (randao_mixes st) mix_index) (\<lambda>mix.
      bindR (idx_set (randao_mixes st) mix_index (map (\<lambda>(m, h). m XOR h) (zip mix reveal_hash))) (\<lambda>mixes.
      Inr (st\<lparr>randao_mixes := mixes\<rparr>))))))))"

definition process_eth1_data :: "preset \<Rightarrow> BeaconState \<Rightarrow> BeaconBlockBody \<Rightarrow> BeaconState tres" where
  "process_eth1_data p st body =
     bindR (reject (length (eth1_data_votes st) \<ge> ETH1_DATA_VOTES_LEN p) (BlockErr Block_Eth1VotesFull)) (\<lambda>_.
     bindR (or_err (list_push (ETH1_DATA_VOTES_LEN p) (eth1_data_votes st) (body_eth1_data body)) (BlockErr Block_Eth1VotesFull)) (\<lambda>votes.
     let st = st\<lparr>eth1_data_votes := votes\<rparr>;
         votes_for = length (filter (\<lambda>v. v = body_eth1_data body) (eth1_data_votes st))
     in
     bindR (u_mul votes_for 2) (\<lambda>twice.
     Inr (if twice > ETH1_DATA_VOTES_LEN p then st\<lparr>eth1_data := body_eth1_data body\<rparr> else st))))"

definition process_block :: "('g1, 'g2, 'gt) ext \<Rightarrow> preset \<Rightarrow> BeaconState \<Rightarrow> BeaconBlock \<Rightarrow> BeaconState tres" where
  "process_block X p st block =
     bindR (process_parent_execution_payload X p st block) (\<lambda>st.
     bindR (process_block_header X p st block) (\<lambda>st.
     bindR (process_withdrawals p st) (\<lambda>st.
     bindR (process_execution_payload_bid X p st (body_signed_execution_payload_bid (blk_body block))) (\<lambda>st.
     bindR (process_randao X p st (blk_body block)) (\<lambda>st.
     bindR (process_eth1_data p st (blk_body block)) (\<lambda>st.
     bindR (process_operations X p st (blk_body block)) (\<lambda>st.
     process_sync_aggregate X p st (body_sync_aggregate (blk_body block)))))))))"

section \<open>Operations and requests keep the invariant\<close>

lemma builder_deposit_phase: "BuilderDepositRequest_ok r \<Longrightarrow> phase X p (\<lambda>st. process_builder_deposit_request X p st r)"
  by unfold_locales (rule builder_deposit_safe)

lemma requests_phase:
  assumes "ExecutionRequests_ok r"
  shows "phase X p (\<lambda>st. apply_execution_requests X p st r)"
  unfolding apply_execution_requests_def
  by (intro phase_seq phase_for deposit_request_phase builder_deposit_phase withdrawal_request.phase_axioms
      consolidation_request.phase_axioms builder_exit.phase_axioms)
    (use assms in \<open>auto simp: ExecutionRequests_ok_iff\<close>)

lemma operations_phase:
  assumes "BeaconBlockBody_ok p body"
  shows "phase X p (\<lambda>st. process_operations X p st body)"
proof (cases "body_deposits body = []")
  case True
  then have "process_operations X p st body =
     bindR (foldR (process_proposer_slashing X p) st (body_proposer_slashings body)) (\<lambda>st.
     bindR (foldR (process_attester_slashing X p) st (body_attester_slashings body)) (\<lambda>st.
     bindR (foldR (process_attestation X p) st (body_attestations body)) (\<lambda>st.
     bindR (foldR (process_voluntary_exit X p) st (body_voluntary_exits body)) (\<lambda>st.
     bindR (foldR (process_bls_to_execution_change X p) st (body_bls_to_execution_changes body)) (\<lambda>st.
     foldR (process_payload_attestation X p) st (body_payload_attestations body))))))" for st
    by (simp add: process_operations_def)
  then show ?thesis
    by (simp only:) (intro phase_seq phase_for proposer_slashing.phase_axioms attester_slashing.phase_axioms attestation.phase_axioms
        voluntary_exit.phase_axioms bls_change_phase payload_attestation.phase_axioms,
        use assms in \<open>auto simp: BeaconBlockBody_ok_iff\<close>)
next
  case False
  then show ?thesis by unfold_locales (simp add: process_operations_def)
qed

lemma set_availability_ok:
  "state_ok p st \<Longrightarrow> state_ok p (st\<lparr>execution_payload_availability := bits_set (execution_payload_availability st) i b\<rparr>)"
  by (rule state_ok_upd_execution_payload_availability) (auto simp: bits_set_def state_ok_execution_payload_availability)

lemma parent_payload_phase:
  assumes "ExecutionRequests_ok r"
  shows "phase X p (\<lambda>st. apply_parent_execution_payload X p st r)"
proof
  fix st assume X: "ext_ok X" and ok: "state_ok p st"
  let ?bid = "latest_execution_payload_bid st"
  let ?w = "\<lparr>bpw_fee_recipient = bid_fee_recipient ?bid, bpw_amount = bid_value ?bid, bpw_builder_index = bid_builder_index ?bid\<rparr>"
  have bid: "ExecutionPayloadBid_ok ?bid" by (rule state_ok_latest_execution_payload_bid [OF ok])
  then have w: "BuilderPendingWithdrawal_ok ?w" by (simp add: ExecutionPayloadBid_ok_iff BuilderPendingWithdrawal_ok_iff)
  have pay: "safe (case i of Some i \<Rightarrow> settle_builder_payment s i
      | None \<Rightarrow> if bpw_amount ?w > 0 then queue_builder_pending_withdrawal s ?w else Inr s)
      (\<lambda>s'. state_ok p s' \<and> chain_frame s' = chain_frame s)" if "state_ok p s" for i s
    using that by (auto split: option.split intro!: settle_payment_safe safe_mono [OF queue_withdrawal_safe [OF that w]])
  have done': "state_ok p (s\<lparr>execution_payload_availability := bits_set (execution_payload_availability s) i True,
      latest_block_hash := bid_block_hash ?bid\<rparr>)" if "state_ok p s" for s i
    by (rule state_ok_upd_latest_block_hash [OF set_availability_ok [OF that]]) (use bid in \<open>simp add: ExecutionPayloadBid_ok_iff\<close>)
  show "safe (apply_parent_execution_payload X p st r) (\<lambda>st'. state_ok p st' \<and> chain_frame st' = chain_frame st)"
    unfolding apply_parent_execution_payload_def Let_def safe_bind ParentPayloadCommitment.select_convs
    by (rule safe_mono [OF phase.keeps [OF requests_phase [OF assms] X ok]], elim conjE)
      (rule safe_mono [OF pay], simp, simp add: done')
qed

lemma parent_execution_payload_phase:
  assumes "BeaconBlock_ok p block"
  shows "phase X p (\<lambda>st. process_parent_execution_payload X p st block)"
proof
  fix st assume X: "ext_ok X" and ok: "state_ok p st"
  have r: "ExecutionRequests_ok (body_parent_execution_requests (blk_body block))"
    using assms by (simp add: BeaconBlock_ok_iff BeaconBlockBody_ok_iff)
  show "safe (process_parent_execution_payload X p st block) (\<lambda>st'. state_ok p st' \<and> chain_frame st' = chain_frame st)"
    using ok phase.keeps [OF parent_payload_phase [OF r] X ok]
    by (simp add: process_parent_execution_payload_def Let_def safe_simps)
qed

section \<open>The rewards of the sync aggregate do not overflow\<close>

lemma base_rewards_bound:
  assumes "EFFECTIVE_BALANCE_INCREMENT \<le> t" and "t \<le> u64_max"
  shows "EFFECTIVE_BALANCE_INCREMENT * BASE_REWARD_FACTOR div integer_squareroot t * (t div EFFECTIVE_BALANCE_INCREMENT) \<le> 2 ^ 42"
proof -
  let ?E = EFFECTIVE_BALANCE_INCREMENT and ?s = "integer_squareroot t"
  let ?q = "?E * BASE_REWARD_FACTOR div ?s" and ?n = "t div ?E"
  have E: "0 < ?E" by (simp add: EFFECTIVE_BALANCE_INCREMENT_def)
  have s: "?s ^ 2 \<le> t" "t < (?s + 1) ^ 2" "0 < ?s"
    using integer_squareroot_bounds [OF assms(2)] integer_squareroot_pos assms E by auto
  have "(?s + 1) ^ 2 \<le> (2 * ?s) ^ 2" by (rule power_mono) (use s(3) in auto)
  then have t: "t \<le> 4 * ?s ^ 2" using s(2) by (simp add: power_mult_distrib)
  have "(?q * ?s) * (?n * ?E) \<le> (?E * BASE_REWARD_FACTOR) * t" by (rule mult_le_mono) simp_all
  then have "?E * (?q * ?n * ?s) \<le> ?E * (BASE_REWARD_FACTOR * t)" by (simp add: ac_simps)
  then have "?q * ?n * ?s \<le> BASE_REWARD_FACTOR * t" using E by simp
  also have "\<dots> \<le> 256 * ?s * ?s" using t by (simp add: BASE_REWARD_FACTOR_def power2_eq_square)
  finally have qn: "?q * ?n \<le> 256 * ?s" using s(3) by simp
  have "?s < 2 ^ 32"
  proof (rule ccontr)
    assume "\<not> ?s < 2 ^ 32"
    then have "(2 ^ 32) ^ 2 \<le> ?s ^ 2" by (intro power_mono) auto
    then show False using s(1) assms(2) by (simp add: u64_max_def)
  qed
  with qn show ?thesis by simp
qed

lemma sync_rewards_safe:
  "safe (sync_aggregate_rewards p st) (\<lambda>_. True)"
proof (cases "get_total_active_balance p st")
  case (Inl e)
  then show ?thesis using get_total_active_balance_safe [of p st] by (auto simp: sync_aggregate_rewards_def)
next
  case (Inr t)
  let ?E = EFFECTIVE_BALANCE_INCREMENT and ?r = "\<lambda>t. EFFECTIVE_BALANCE_INCREMENT * BASE_REWARD_FACTOR div integer_squareroot t"
  have t: "?E \<le> t" "t \<le> u64_max" using get_total_active_balance_safe [of p st] Inr by auto
  have c: "?E * BASE_REWARD_FACTOR \<le> u64_max" "0 < ?E" by (simp_all add: EFFECTIVE_BALANCE_INCREMENT_def BASE_REWARD_FACTOR_def u64_max_def)
  have s: "0 < integer_squareroot t" using integer_squareroot_pos t c(2) by auto
  have b: "?r t * (t div ?E) \<le> 2 ^ 42" by (rule base_rewards_bound [OF t])
  have "?r t * (t div ?E) div 32 div SLOTS_PER_EPOCH p div SYNC_COMMITTEE_SIZE p \<le> ?r t * (t div ?E)"
    by (meson div_le_dividend le_trans)
  then have p: "?r t * (t div ?E) div 32 div SLOTS_PER_EPOCH p div SYNC_COMMITTEE_SIZE p * 8 \<le> u64_max"
    using b by (simp add: u64_max_def)
  have "SYNC_COMMITTEE_SIZE p \<noteq> 0" by (cases p) (simp_all add: SYNC_COMMITTEE_SIZE_def)
  then show ?thesis using Inr c s b p
    by (simp add: sync_aggregate_rewards_def get_base_reward_per_increment_def safe_simps checked_mul_def or_err_def u_div_def
        SYNC_REWARD_WEIGHT_def WEIGHT_DENOMINATOR_def PROPOSER_WEIGHT_def u64_max_def)
qed

lemma sync_member_phase: "phase X p (\<lambda>st. reward_sync_member r i st m)"
proof
  fix st assume ok: "state_ok p st"
  show "safe (reward_sync_member r i st m) (\<lambda>st'. state_ok p st' \<and> chain_frame st' = chain_frame st)"
    unfolding reward_sync_member_def case_prod_unfold safe_bind safe_or_err safe_if
    by (intro allI impI conjI safe_mono [OF increase_balance_ok [OF ok]] safe_mono [OF decrease_balance_ok [OF ok]], elim conjE)
      (rule safe_mono [OF increase_balance_ok], auto)
qed

interpretation sync_aggregate: phase X p "\<lambda>st. process_sync_aggregate X p st sa" for X p sa
proof
  fix st assume X: "ext_ok X" and ok: "state_ok p st"
  have loop: "safe (foldR (reward_sync_member r i) st ms) (\<lambda>st'. state_ok p st' \<and> chain_frame st' = chain_frame st)" for r i ms
    by (rule phase.keeps [OF phase_for [OF sync_member_phase] X ok])
  show "safe (process_sync_aggregate X p st sa) (\<lambda>st'. state_ok p st' \<and> chain_frame st' = chain_frame st)"
    unfolding process_sync_aggregate_def verify_sync_aggregate_signature_def apply_sync_aggregate_rewards_def Let_def safe_bind
      signing_safe beacon_proposer_index_safe
    by (intro safe_mono [OF block_root_safe [OF ok]] allI impI safe_mono [OF fast_aggregate_verify_safe] safe_mono [OF sync_rewards_safe] loop)
qed

section \<open>A block keeps the invariant\<close>

lemma header_phase:
  assumes "BeaconBlock_ok p block"
  shows "phase X p (\<lambda>st. process_block_header X p st block)"
proof
  fix st assume X: "ext_ok X" and ok: "state_ok p st"
  have body: "well_typed (BeaconBlockBody_ty p) (BeaconBlockBody_val (blk_body block))"
    using assms by (simp add: BeaconBlock_ok_iff BeaconBlockBody_ok_def)
  have "BeaconBlockBody_ty p \<in> set (container_types p)" by (simp add: container_types_def)
  then have "length r = 32" if "tree_root_of X (BeaconBlockBody_ty p) (BeaconBlockBody_val (blk_body block)) e = Inr r" for e r
    using tree_root_length [OF X _ body that] by blast
  then have "state_ok p (st\<lparr>latest_block_header := header block r Root_ZERO\<rparr>)"
    if "tree_root_of X (BeaconBlockBody_ty p) (BeaconBlockBody_val (blk_body block)) e = Inr r" for e r
    using that assms by (intro state_ok_upd_latest_block_header [OF ok])
      (simp add: header_def BeaconBlockHeader_ok_iff BeaconBlock_ok_iff Root_ZERO_def)
  then show "safe (process_block_header X p st block) (\<lambda>st'. state_ok p st' \<and> chain_frame st' = chain_frame st)"
    unfolding process_block_header_def Let_def safe_bind safe_reject beacon_proposer_index_safe tree_root_safe safe_validator by simp
qed

interpretation randao: phase X p "\<lambda>st. process_randao X p st body" for X p body
proof
  fix st assume X: "ext_ok X" and ok: "state_ok p st"
  let ?i = "epoch_of p (slot st) mod EPOCHS_PER_HISTORICAL_VECTOR p"
  have mixes: "length (randao_mixes st) = EPOCHS_PER_HISTORICAL_VECTOR p" "\<forall>m \<in> set (randao_mixes st). length m = 32"
    by (rule state_ok_randao_mixes [OF ok])+
  then have i: "?i < length (randao_mixes st)" using ring_sizes_pos [of p] by simp
  have hash: "length (ext_sha256 X bs) = 32" for bs using X by (simp add: ext_ok_def)
  have mix: "length (map (\<lambda>(m, h). m XOR h) (zip (randao_mixes st ! ?i) (ext_sha256 X r))) = 32" for r
    using mixes(2) nth_mem [OF i] hash by simp
  have "state_ok p (st\<lparr>randao_mixes := (randao_mixes st)[?i := map (\<lambda>(m, h). m XOR h) (zip (randao_mixes st ! ?i) (ext_sha256 X r))]\<rparr>)" for r
    by (rule state_ok_upd_randao_mixes [OF ok]) (simp add: mixes(1), rule set_update_all [OF mixes(2) mix])
  then show "safe (process_randao X p st body) (\<lambda>st'. state_ok p st' \<and> chain_frame st' = chain_frame st)"
    unfolding process_randao_def Let_def safe_bind beacon_proposer_index_safe safe_validator signing_safe safe_idx safe_idx_set
    using i by (intro allI impI safe_mono [OF verify_signature_safe]) simp
qed

lemma eth1_phase:
  assumes "Eth1Data_ok (body_eth1_data body)"
  shows "phase X p (\<lambda>st. process_eth1_data p st body)"
proof
  fix st assume ok: "state_ok p st"
  let ?votes = "eth1_data_votes st @ [body_eth1_data body]"
  have st: "state_ok p (st\<lparr>eth1_data_votes := ?votes\<rparr>)" if "length (eth1_data_votes st) < ETH1_DATA_VOTES_LEN p"
    using that assms state_ok_eth1_data_votes(2) [OF ok] by (intro state_ok_upd_eth1_data_votes [OF ok]) auto
  have "ETH1_DATA_VOTES_LEN p \<le> 2048"
    by (cases p) (simp_all add: ETH1_DATA_VOTES_LEN_def EPOCHS_PER_ETH1_VOTING_PERIOD_def SLOTS_PER_EPOCH_def)
  then have "length (filter (\<lambda>v. v = body_eth1_data body) ?votes) * 2 \<le> u64_max" if "length (eth1_data_votes st) < ETH1_DATA_VOTES_LEN p"
    using that length_filter_le [of "\<lambda>v. v = body_eth1_data body" "eth1_data_votes st"] by (simp add: u64_max_def del: length_filter_le)
  then show "safe (process_eth1_data p st body) (\<lambda>st'. state_ok p st' \<and> chain_frame st' = chain_frame st)"
    using st state_ok_upd_eth1_data [OF st assms] by (simp add: process_eth1_data_def Let_def safe_simps res_simps)
qed

lemma block_phase:
  assumes "BeaconBlock_ok p block"
  shows "phase X p (\<lambda>st. process_block X p st block)"
  unfolding process_block_def
  by (intro phase_seq parent_execution_payload_phase header_phase withdrawals.phase_axioms bid_phase randao.phase_axioms eth1_phase
      operations_phase sync_aggregate.phase_axioms)
    (use assms in \<open>auto simp: BeaconBlock_ok_iff BeaconBlockBody_ok_iff\<close>)

section \<open>Settlement of the parent payload\<close>

lemma history_pos [simp]: "0 < SLOTS_PER_HISTORICAL_ROOT p"
  by (cases p) (simp_all add: SLOTS_PER_HISTORICAL_ROOT_def)

lemma settle_clears:
  assumes "settle_builder_payment st i = Inr st'"
  shows "builder_pending_payments st' ! i = BuilderPendingPayment_default"
proof -
  obtain s ps where "idx_set (builder_pending_payments s) i BuilderPendingPayment_default = Inr ps" and "st' = s\<lparr>builder_pending_payments := ps\<rparr>"
    using assms unfolding settle_builder_payment_def bindR_eq_Inr by blast
  then show ?thesis by (simp add: idx_set_eq_Inr)
qed


definition ex_body :: BeaconBlockBody where
  "ex_body = \<lparr>body_randao_reveal = replicate 96 0,
     body_eth1_data = \<lparr>eth1_deposit_root = replicate 32 0, eth1_deposit_count = 4, eth1_block_hash = replicate 32 0\<rparr>,
     body_graffiti = replicate 32 0, body_proposer_slashings = [], body_attester_slashings = [], body_attestations = [],
     body_deposits = [], body_voluntary_exits = [],
     body_sync_aggregate = \<lparr>sag_sync_committee_bits = replicate (SYNC_COMMITTEE_SIZE Minimal) False,
       sag_sync_committee_signature = G2_POINT_AT_INFINITY\<rparr>,
     body_bls_to_execution_changes = [],
     body_signed_execution_payload_bid = \<lparr>sbid_message = ex_bid\<lparr>bid_slot := 47, bid_parent_block_hash := replicate 32 5,
       bid_builder_index := BUILDER_INDEX_SELF_BUILD\<rparr>, sbid_signature = G2_POINT_AT_INFINITY\<rparr>,
     body_payload_attestations = [],
     body_parent_execution_requests = \<lparr>er_deposits = [], er_withdrawals = [], er_consolidations = [], er_builder_deposits = [],
       er_builder_exits = []\<rparr>\<rparr>"

definition ex_block :: BeaconBlock where
  "ex_block = \<lparr>blk_slot = 47, blk_proposer_index = 0, blk_parent_root = replicate 32 0, blk_state_root = replicate 32 0,
     blk_body = ex_body\<rparr>"

lemma ex_block_ok: "BeaconBlock_ok Minimal ex_block"
  by (simp add: BeaconBlock_ok_iff BeaconBlockBody_ok_iff ex_block_def ex_body_def Eth1Data_ok_iff SyncAggregate_ok_iff
      SignedExecutionPayloadBid_ok_iff ExecutionPayloadBid_ok_iff ExecutionRequests_ok_iff ex_bid_def G2_POINT_AT_INFINITY_def u64_max_def
      BUILDER_INDEX_SELF_BUILD_def)

text \<open>With the constant digest of \<open>ex_ext\<close> every container of at least two fields has the zero root.\<close>

lemma ex_container_root:
  assumes "hash_tree_root (ext_sha256 ex_ext) (TContainer ts) (VContainer vs) = Inr r" and "1 < length ts" "length ts \<le> u64_max"
    and "length vs = length ts"
  shows "r = replicate 32 0"
proof -
  obtain rs where rs: "mapR (\<lambda>(f, v). f v) (zip (map (hash_tree_root (ext_sha256 ex_ext)) ts) vs) = Inr rs"
    and r: "r = merkleize_roots (ext_sha256 ex_ext) rs"
    using assms(1) by (auto simp: bindR_eq_Inr)
  have len: "length rs = length ts" using mapR_length [OF rs] assms(4) by simp
  have "length rs \<le> 2 ^ tree_depth_for_limit (length rs)" by (rule tree_depth_for_limit) (use len assms in simp)
  with len assms(2) obtain d where "tree_depth_for_limit (length rs) = Suc d" by (cases "tree_depth_for_limit (length rs)") auto
  then show ?thesis
    using r len assms(2,3) by (simp add: merkleize_roots_def merkleize_roots_unchecked_tree max_absorb1 hash_pair_def ex_ext_def)
qed


end
