(* ===== verification/Transition.thy ===== *)
theory Transition
  imports Block
begin

text \<open>
  The transition of a slot (\<open>state_transition/slot.rs\<close>) and of a signed block
  (\<open>state_transition.rs\<close>), and the consensus-side checks of a delivered payload envelope. The code
  works on a clone of the state and commits it only on success; here an error carries no state and
  the caller keeps the one it had.
\<close>

section \<open>Slots (slot.rs)\<close>

definition checked_next_slot :: "Slot \<Rightarrow> Slot tres" where
  "checked_next_slot sl = or_err (checked_add sl 1) (SlotErr (Slot_NextSlotOverflow sl))"

definition with_state_root :: "BeaconBlockHeader \<Rightarrow> Root \<Rightarrow> BeaconBlockHeader" where
  "with_state_root h state_root = h\<lparr>bbh_state_root := state_root\<rparr>"

definition state_root_of :: "('g1, 'g2, 'gt) ext \<Rightarrow> preset \<Rightarrow> BeaconState \<Rightarrow> Root tres" where
  "state_root_of X p st = tree_root_of X (BeaconState_ty p) (BeaconState_val st) Mer_BeaconState"

definition process_slot :: "('g1, 'g2, 'gt) ext \<Rightarrow> preset \<Rightarrow> BeaconState \<Rightarrow> BeaconState tres" where
  "process_slot X p st =
     bindR (checked_next_slot (slot st)) (\<lambda>next_slot.
     bindR (state_root_of X p st) (\<lambda>previous_state_root.
     let index = slot st mod SLOTS_PER_HISTORICAL_ROOT p in
     bindR (idx_set (state_roots st) index previous_state_root) (\<lambda>roots.
     let st = st\<lparr>state_roots := roots\<rparr>;
         st = (if bbh_state_root (latest_block_header st) = Root_ZERO
               then st\<lparr>latest_block_header := with_state_root (latest_block_header st) previous_state_root\<rparr> else st)
     in
     bindR (tree_root_of X BeaconBlockHeader_ty (BeaconBlockHeader_val (latest_block_header st)) Mer_BeaconBlockHeader) (\<lambda>previous_block_root.
     bindR (idx_set (block_roots st) index previous_block_root) (\<lambda>roots.
     let st = st\<lparr>block_roots := roots\<rparr>;
         next_index = next_slot mod SLOTS_PER_HISTORICAL_ROOT p
     in Inr (st\<lparr>execution_payload_availability := bits_set (execution_payload_availability st) next_index False\<rparr>))))))"

lemma process_slot_slot: "process_slot X p st = Inr st' \<Longrightarrow> slot st' = slot st"
  by (auto simp: process_slot_def Let_def bindR_eq_Inr)

text \<open>The loop of \<open>process_slots\<close>: every iteration brings the slot one closer to the target.\<close>

function slots_loop :: "('g1, 'g2, 'gt) ext \<Rightarrow> preset \<Rightarrow> Slot \<Rightarrow> BeaconState \<Rightarrow> BeaconState tres" where
  "slots_loop X p target st =
     (if slot st < target then
        bindR (process_slot X p st) (\<lambda>st.
        bindR (checked_next_slot (slot st)) (\<lambda>next_slot.
        bindR (if next_slot mod SLOTS_PER_EPOCH p = 0 then process_epoch X p st else Inr st) (\<lambda>st.
        slots_loop X p target (st\<lparr>slot := next_slot\<rparr>))))
      else Inr st)"
  by pat_completeness auto
termination
  by (relation "measure (\<lambda>(X, p, target, st). target - slot st)")
    (auto simp: checked_next_slot_def res_simps dest!: process_slot_slot)

declare slots_loop.simps [simp del]

definition process_slots :: "('g1, 'g2, 'gt) ext \<Rightarrow> preset \<Rightarrow> BeaconState \<Rightarrow> Slot \<Rightarrow> BeaconState tres" where
  "process_slots X p st target =
     bindR (reject (slot st \<ge> target) (SlotErr (Slot_NotAfter (slot st) target))) (\<lambda>_.
     slots_loop X p target st)"

section \<open>Signed blocks (state_transition.rs)\<close>

definition verify_block_signature :: "('g1, 'g2, 'gt) ext \<Rightarrow> preset \<Rightarrow> BeaconState \<Rightarrow> SignedBeaconBlock \<Rightarrow> unit tres" where
  "verify_block_signature X p st signed_block =
     (let proposer_index = blk_proposer_index (sblk_message signed_block) in
      bindR (validator st proposer_index) (\<lambda>v.
      bindR (domain_for X p st DOMAIN_BEACON_PROPOSER (epoch_of p (slot st))) (\<lambda>dmn.
      bindR (compute_signing_root X (BeaconBlock_ty p) (BeaconBlock_val (sblk_message signed_block)) dmn Mer_BeaconBlock) (\<lambda>signing_root.
      verify_signature X (v_pubkey v) signing_root (sblk_signature signed_block) (Sig_BlockProposer proposer_index)))))"

definition expect_post_state_root :: "('g1, 'g2, 'gt) ext \<Rightarrow> preset \<Rightarrow> BeaconState \<Rightarrow> Root \<Rightarrow> unit tres" where
  "expect_post_state_root X p st expected =
     bindR (state_root_of X p st) (\<lambda>post_root.
     reject (expected \<noteq> post_root) (StateRootMismatch expected post_root))"

definition state_transition :: "('g1, 'g2, 'gt) ext \<Rightarrow> preset \<Rightarrow> BeaconState \<Rightarrow> SignedBeaconBlock \<Rightarrow> BeaconState tres" where
  "state_transition X p st signed_block =
     bindR (process_slots X p st (blk_slot (sblk_message signed_block))) (\<lambda>next.
     bindR (verify_block_signature X p next signed_block) (\<lambda>_.
     bindR (process_block X p next (sblk_message signed_block)) (\<lambda>next.
     bindR (expect_post_state_root X p next (blk_state_root (sblk_message signed_block))) (\<lambda>_.
     Inr next))))"

section \<open>Payload envelopes (state_transition.rs)\<close>

definition current_block_root :: "('g1, 'g2, 'gt) ext \<Rightarrow> preset \<Rightarrow> BeaconState \<Rightarrow> Root tres" where
  "current_block_root X p st =
     bindR (state_root_of X p st) (\<lambda>state_root.
     tree_root_of X BeaconBlockHeader_ty (BeaconBlockHeader_val (with_state_root (latest_block_header st) state_root)) Mer_BeaconBlockHeader)"

definition execution_payload_envelope_signer :: "preset \<Rightarrow> BeaconState \<Rightarrow> BuilderIndex \<Rightarrow> BLSPubkey tres" where
  "execution_payload_envelope_signer p st index =
     (if index = BUILDER_INDEX_SELF_BUILD then
        bindR (get_beacon_proposer_index p st) (\<lambda>proposer.
        bindR (validator st proposer) (\<lambda>v. Inr (v_pubkey v)))
      else bindR (builder st index) (\<lambda>b. Inr (bld_pubkey b)))"

definition verify_execution_payload_envelope_signature ::
    "('g1, 'g2, 'gt) ext \<Rightarrow> preset \<Rightarrow> BeaconState \<Rightarrow> SignedExecutionPayloadEnvelope \<Rightarrow> unit tres" where
  "verify_execution_payload_envelope_signature X p st signed_envelope =
     (let envelope = senv_message signed_envelope in
      bindR (execution_payload_envelope_signer p st (env_builder_index envelope)) (\<lambda>signer_pubkey.
      bindR (signing_root_for X p st (ExecutionPayloadEnvelope_ty p) (ExecutionPayloadEnvelope_val envelope)
               DOMAIN_BEACON_BUILDER (epoch_of p (slot st)) Mer_ExecutionPayloadEnvelope) (\<lambda>signing_root.
      verify_signature X signer_pubkey signing_root (senv_signature signed_envelope)
        (Sig_ExecutionPayloadEnvelope (env_builder_index envelope)))))"

definition compute_time_at_slot :: "preset \<Rightarrow> BeaconState \<Rightarrow> Slot \<Rightarrow> u64 tres" where
  "compute_time_at_slot p st sl =
     (let slots_since_genesis = saturating_sub sl GENESIS_SLOT in
      or_err (case checked_mul slots_since_genesis (SLOT_DURATION_MS p) of
                None \<Rightarrow> None
              | Some ms \<Rightarrow> checked_add (genesis_time st) (ms div 1000)) (BlockErr Block_EnvelopeTimestampOverflow))"

definition validate_execution_payload_envelope ::
    "('g1, 'g2, 'gt) ext \<Rightarrow> preset \<Rightarrow> BeaconState \<Rightarrow> ExecutionPayloadEnvelope \<Rightarrow> unit tres" where
  "validate_execution_payload_envelope X p st envelope =
     (let bid = latest_execution_payload_bid st; payload = env_payload envelope in
      bindR (reject (env_builder_index envelope \<noteq> bid_builder_index bid) (BlockErr Block_EnvelopeBuilderMismatch)) (\<lambda>_.
      bindR (reject (ep_prev_randao payload \<noteq> bid_prev_randao bid) (BlockErr Block_EnvelopeRandaoMismatch)) (\<lambda>_.
      bindR (reject (ep_gas_limit payload \<noteq> bid_gas_limit bid) (BlockErr Block_EnvelopeGasLimitMismatch)) (\<lambda>_.
      bindR (reject (ep_block_hash payload \<noteq> bid_block_hash bid) (BlockErr Block_EnvelopePayloadHashMismatch)) (\<lambda>_.
      bindR (tree_root_of X ExecutionRequests_ty (ExecutionRequests_val (env_execution_requests envelope)) Mer_ExecutionRequests) (\<lambda>requests_root.
      bindR (reject (requests_root \<noteq> bid_execution_requests_root bid) (BlockErr Block_EnvelopeRequestsRootMismatch)) (\<lambda>_.
      bindR (reject (ep_slot_number payload \<noteq> slot st) (BlockErr Block_EnvelopeSlotMismatch)) (\<lambda>_.
      bindR (reject (ep_parent_hash payload \<noteq> latest_block_hash st)
               (BlockErr (Block_EnvelopeParentHashMismatch (ep_parent_hash payload) (latest_block_hash st)))) (\<lambda>_.
      bindR (compute_time_at_slot p st (slot st)) (\<lambda>expected_timestamp.
      bindR (reject (ep_timestamp payload \<noteq> expected_timestamp)
               (BlockErr (Block_EnvelopeTimestampMismatch (ep_timestamp payload) expected_timestamp))) (\<lambda>_.
      reject (ep_withdrawals payload \<noteq> payload_expected_withdrawals st) (BlockErr Block_WithdrawalsRootMismatch))))))))))))"

definition verify_execution_payload_envelope ::
    "('g1, 'g2, 'gt) ext \<Rightarrow> preset \<Rightarrow> BeaconState \<Rightarrow> SignedExecutionPayloadEnvelope \<Rightarrow> unit tres" where
  "verify_execution_payload_envelope X p st signed_envelope =
     (let envelope = senv_message signed_envelope in
      bindR (current_block_root X p st) (\<lambda>root.
      bindR (reject (env_beacon_block_root envelope \<noteq> root) (BlockErr Block_EnvelopeBlockRootMismatch)) (\<lambda>_.
      bindR (reject (env_parent_beacon_block_root envelope \<noteq> bbh_parent_root (latest_block_header st))
               (BlockErr Block_EnvelopeParentMismatch)) (\<lambda>_.
      bindR (verify_execution_payload_envelope_signature X p st signed_envelope) (\<lambda>_.
      validate_execution_payload_envelope X p st envelope)))))"

section \<open>Advancing slots\<close>

lemma state_root_safe:
  assumes "ext_ok X" and "state_ok p st"
  shows "safe (state_root_of X p st) (\<lambda>r. length r = 32)"
proof -
  have "BeaconState_ty p \<in> set (container_types p)" by (simp add: container_types_def)
  then show ?thesis
    unfolding state_root_of_def using container_root_safe [OF assms(1)] assms(2) by (simp add: state_ok_def BeaconState_ok_def)
qed

lemma header_root_length:
  assumes "ext_ok X" and "BeaconBlockHeader_ok h" and "tree_root_of X BeaconBlockHeader_ty (BeaconBlockHeader_val h) e = Inr r"
  shows "length r = 32"
proof -
  have "BeaconBlockHeader_ty \<in> set (container_types Mainnet)" by (simp add: container_types_def)
  then show ?thesis using tree_root_length [OF assms(1) _ _ assms(3)] assms(2) unfolding BeaconBlockHeader_ok_def by blast
qed

lemma set_root_ok:
  assumes "state_ok p st" and "length r = 32"
  shows "state_ok p (st\<lparr>state_roots := (state_roots st)[i := r]\<rparr>)" and "state_ok p (st\<lparr>block_roots := (block_roots st)[i := r]\<rparr>)"
  by (rule state_ok_upd_state_roots [OF assms(1)],
      simp_all add: state_ok_state_roots(1) [OF assms(1)] set_update_all [OF state_ok_state_roots(2) [OF assms(1)] assms(2)])
    (rule state_ok_upd_block_roots [OF assms(1)],
      simp_all add: state_ok_block_roots(1) [OF assms(1)] set_update_all [OF state_ok_block_roots(2) [OF assms(1)] assms(2)])

interpretation slot_end: phase X p "process_slot X p" for X p
proof
  fix st assume X: "ext_ok X" and ok: "state_ok p st"
  let ?i = "slot st mod SLOTS_PER_HISTORICAL_ROOT p"
  have len: "?i < length (state_roots st)" "?i < length (block_roots st)"
    using state_ok_state_roots(1) [OF ok] state_ok_block_roots(1) [OF ok] by simp_all
  let ?s = "\<lambda>r. st\<lparr>state_roots := (state_roots st)[?i := r]\<rparr>"
  let ?t = "\<lambda>r. if bbh_state_root (latest_block_header (?s r)) = Root_ZERO
      then (?s r)\<lparr>latest_block_header := with_state_root (latest_block_header (?s r)) r\<rparr> else ?s r"
  have t: "state_ok p (?t r)" if "length r = 32" for r
    using set_root_ok(1) [OF ok that, of ?i] state_ok_latest_block_header [OF ok] that
    by (auto intro!: state_ok_upd_latest_block_header simp: BeaconBlockHeader_ok_iff with_state_root_def)
  have "state_ok p ((?t r)\<lparr>block_roots := (block_roots (?t r))[?i := b],
      execution_payload_availability := bits_set (execution_payload_availability ((?t r)\<lparr>block_roots := (block_roots (?t r))[?i := b]\<rparr>)) k False\<rparr>)"
    if "length r = 32" "tree_root_of X BeaconBlockHeader_ty (BeaconBlockHeader_val (latest_block_header (?t r))) e = Inr b" for r b e k
    by (rule set_availability_ok [OF set_root_ok(2) [OF t [OF that(1)] header_root_length
          [OF X state_ok_latest_block_header [OF t [OF that(1)]] that(2)]]])
  then show "safe (process_slot X p st) (\<lambda>st'. state_ok p st' \<and> chain_frame st' = chain_frame st)"
    unfolding process_slot_def Let_def safe_bind checked_next_slot_def safe_or_err safe_idx_set tree_root_safe
    using len by (intro allI impI safe_mono [OF state_root_safe [OF X ok]]) auto
qed

lemma next_slot_safe [safe_simps]: "safe (checked_next_slot sl) Q = (sl + 1 \<le> u64_max \<longrightarrow> Q (sl + 1))"
  by (simp add: checked_next_slot_def safe_simps res_simps)

lemma slots_loop_safe:
  assumes X: "ext_ok X"
  shows "state_ok p st \<Longrightarrow> slot st \<le> target \<Longrightarrow> safe (slots_loop X p target st) (\<lambda>st'. state_ok p st' \<and> slot st' = target)"
proof (induction "target - slot st" arbitrary: st rule: less_induct)
  case less
  have epoch: "safe (if c then process_epoch X p s else Inr s) (\<lambda>s'. state_ok p s' \<and> chain_frame s' = chain_frame s)"
    if "state_ok p s" for s c
    using that epoch.keeps [OF X that] by simp
  show ?case
  proof (cases "slot st < target")
    case True
    have "safe (slots_loop X p target (s'\<lparr>slot := slot s + 1\<rparr>)) (\<lambda>st'. state_ok p st' \<and> slot st' = target)"
      if "chain_frame s = chain_frame st" "slot s + 1 \<le> u64_max" "state_ok p s'" for s s' :: BeaconState
      by (rule less.hyps) (use True chain_frame_eqD(1) [OF that(1)] that in \<open>auto intro: state_upd\<close>)
    then show ?thesis
      unfolding slots_loop.simps [of X p target st] if_P [OF True] safe_bind next_slot_safe
      by (intro safe_mono [OF slot_end.keeps [OF X less.prems(1)]] impI safe_mono [OF epoch]) auto
  next
    case False
    then show ?thesis using less.prems by (simp add: slots_loop.simps)
  qed
qed

lemma slots_loop_compose:
  "slots_loop X p a st = Inr s \<Longrightarrow> a \<le> b \<Longrightarrow> slots_loop X p b s = slots_loop X p b st"
proof (induction "a - slot st" arbitrary: st rule: less_induct)
  case less
  show ?case
  proof (cases "slot st < a")
    case True
    then obtain t n u where t: "process_slot X p st = Inr t" and n: "checked_next_slot (slot t) = Inr n"
      and u: "(if n mod SLOTS_PER_EPOCH p = 0 then process_epoch X p t else Inr t) = Inr u"
      and rest: "slots_loop X p a (u\<lparr>slot := n\<rparr>) = Inr s"
      using less.prems(1) unfolding slots_loop.simps [of X p a st] if_P [OF True] bindR_eq_Inr by blast
    have "n = slot st + 1" using n process_slot_slot [OF t] by (simp add: checked_next_slot_def res_simps)
    then have "slots_loop X p b s = slots_loop X p b (u\<lparr>slot := n\<rparr>)"
      using True by (intro less.hyps [OF _ rest less.prems(2)]) simp
    also have "\<dots> = slots_loop X p b st"
      using True less.prems(2) t n u by (simp add: slots_loop.simps [of X p b st])
    finally show ?thesis .
  next
    case False
    then show ?thesis using less.prems by (simp add: slots_loop.simps [of X p a st])
  qed
qed

text \<open>
  C33: advancing slots terminates and ends exactly at the target. It never panics; it is rejected when
  the target is not ahead of the state; and when it succeeds the state is at the target slot and
  satisfies the invariant.
\<close>

theorem process_slots_reaches:
  assumes X: "ext_ok X" and ok: "state_ok p st"
  shows "process_slots X p st target \<noteq> Inl Panic
    \<and> (target \<le> slot st \<longrightarrow> process_slots X p st target = fail (SlotErr (Slot_NotAfter (slot st) target)))
    \<and> (\<forall>st'. process_slots X p st target = Inr st' \<longrightarrow> slot st < target \<and> slot st' = target \<and> state_ok p st')"
proof (cases "slot st < target")
  case True
  then have eq: "process_slots X p st target = slots_loop X p target st" by (simp add: process_slots_def)
  have "safe (slots_loop X p target st) (\<lambda>st'. state_ok p st' \<and> slot st' = target)"
    by (rule slots_loop_safe [OF X ok]) (use True in simp)
  with True show ?thesis unfolding eq by (cases "slots_loop X p target st") auto
next
  case False
  then show ?thesis by (simp add: process_slots_def)
qed

text \<open>
  C34: advancing slots in two steps is the same as in one: from the state at an intermediate slot the
  same state, or the same error, is reached as from the start. A state cached at an earlier slot can
  be advanced later.
\<close>

theorem process_slots_compose:
  assumes "process_slots X p st a = Inr s" and "ext_ok X" and "state_ok p st" and "a < b"
  shows "process_slots X p s b = process_slots X p st b"
proof -
  have st: "slot st < a" and loop: "slots_loop X p a st = Inr s"
    using assms(1) by (auto simp: process_slots_def bindR_eq_Inr reject_eq_Inr)
  have "slot s = a" using safeD [OF slots_loop_safe [OF assms(2,3)] loop] st by simp
  then show ?thesis using slots_loop_compose [OF loop, of b] st assms(4) by (simp add: process_slots_def)
qed

section \<open>The transition of a signed block\<close>

lemma verify_block_signature_safe: "safe (verify_block_signature X p st b) (\<lambda>_. True)"
  by (simp add: verify_block_signature_def Let_def safe_simps verify_signature_safe)

lemma expect_root_safe:
  assumes "ext_ok X" and "state_ok p st"
  shows "safe (expect_post_state_root X p st r) (\<lambda>_. state_root_of X p st = Inr r)"
  unfolding expect_post_state_root_def safe_bind
  by (rule safe_mono [OF state_root_safe [OF assms]]) (simp add: safe_reject)

text \<open>
  C35: the transition of a block is safe. Applied to a state that satisfies the invariant and to any
  well-formed signed block it never panics. A state it returns satisfies the invariant, is at the
  slot of the block, which is after the slot before, belongs to the same chain, and has exactly the
  state root that the block claims.
\<close>

theorem state_transition_safe:
  assumes X: "ext_ok X" and ok: "state_ok p st" and b: "SignedBeaconBlock_ok p b"
  shows "state_transition X p st b \<noteq> Inl Panic
    \<and> (\<forall>st'. state_transition X p st b = Inr st' \<longrightarrow> state_ok p st' \<and> slot st < slot st' \<and> slot st' = blk_slot (sblk_message b)
         \<and> state_root_of X p st' = Inr (blk_state_root (sblk_message b)))"
proof -
  have block: "BeaconBlock_ok p (sblk_message b)" using b by (simp add: SignedBeaconBlock_ok_iff)
  have slots: "safe (process_slots X p st t) (\<lambda>s. state_ok p s \<and> slot st < t \<and> slot s = t)" for t
    unfolding process_slots_def safe_bind safe_reject by (auto intro!: safe_mono [OF slots_loop_safe [OF X ok]])
  have "safe (state_transition X p st b) (\<lambda>st'. state_ok p st' \<and> slot st < slot st' \<and> slot st' = blk_slot (sblk_message b)
         \<and> state_root_of X p st' = Inr (blk_state_root (sblk_message b)))"
    unfolding state_transition_def safe_bind
    by (rule safe_mono [OF slots], elim conjE, rule safe_mono [OF verify_block_signature_safe],
        rule safe_mono [OF phase.keeps [OF block_phase [OF block] X]], assumption, elim conjE, rule safe_mono [OF expect_root_safe [OF X]])
      (auto dest: chain_frame_eqD(1))
  then show ?thesis by (cases "state_transition X p st b") auto
qed

section \<open>Examples\<close>

lemma process_slot_total:
  assumes X: "ext_ok X" and ok: "state_ok p st" and "slot st < u64_max"
  shows "\<exists>s. process_slot X p st = Inr s"
proof -
  let ?i = "slot st mod SLOTS_PER_HISTORICAL_ROOT p"
  have len: "?i < length (state_roots st)" "?i < length (block_roots st)"
    using state_ok_state_roots(1) [OF ok] state_ok_block_roots(1) [OF ok] by simp_all
  have types: "BeaconState_ty p \<in> set (container_types p)" "BeaconBlockHeader_ty \<in> set (container_types p)"
    by (simp_all add: container_types_def)
  obtain r where r: "state_root_of X p st = Inr r" "length r = 32"
    using tree_root_of_total [OF X _ _, of "BeaconState_ty p" "BeaconState_val st" Mer_BeaconState] container_ty_ok [OF types(1)] ok
    by (auto simp: state_root_of_def state_ok_def BeaconState_ok_def)
  have h: "\<exists>b. tree_root_of X BeaconBlockHeader_ty (BeaconBlockHeader_val h) Mer_BeaconBlockHeader = Inr b" if "BeaconBlockHeader_ok h" for h
    using tree_root_of_total [OF X _ _, of BeaconBlockHeader_ty "BeaconBlockHeader_val h" Mer_BeaconBlockHeader] container_ty_ok [OF types(2)] that
    by (auto simp: BeaconBlockHeader_ok_def)
  have hdr: "BeaconBlockHeader_ok (latest_block_header st)" by (rule state_ok_latest_block_header [OF ok])
  then have "BeaconBlockHeader_ok (with_state_root (latest_block_header st) r)"
    using r(2) by (simp add: BeaconBlockHeader_ok_iff with_state_root_def)
  from h [OF this] show ?thesis using r(1) len assms(3) h [OF hdr]
    by (auto simp: process_slot_def Let_def checked_next_slot_def checked_add_def idx_set_def)
qed

lemma one_slot:
  assumes X: "ext_ok X" and ok: "state_ok p st" and "slot st < u64_max" and "(slot st + 1) mod SLOTS_PER_EPOCH p \<noteq> 0"
  shows "\<exists>s. process_slots X p st (slot st + 1) = Inr s"
proof -
  obtain s where s: "process_slot X p st = Inr s" using process_slot_total [OF assms(1-3)] ..
  have "slot s = slot st" by (rule process_slot_slot [OF s])
  then show ?thesis using s assms(3,4)
    by (simp add: process_slots_def slots_loop.simps [of X p "Suc (slot st)"] checked_next_slot_def checked_add_def)
qed

lemma ex_early: "state_ok Minimal ((ex_state Minimal)\<lparr>slot := 44\<rparr>)"
  by (rule state_ok_upd_slot [OF ex_state_ok]) (simp add: u64_max_def)

theorem process_slots_reaches_witness:
  "\<exists>st'. process_slots ex_ext Minimal ((ex_state Minimal)\<lparr>slot := 44\<rparr>) 45 = Inr st' \<and> slot st' = 45 \<and> state_ok Minimal st'"
proof -
  let ?st = "(ex_state Minimal)\<lparr>slot := 44\<rparr>"
  obtain s where s: "process_slots ex_ext Minimal ?st 45 = Inr s"
    using one_slot [OF ex_ext_ok ex_early] by (auto simp: u64_max_def SLOTS_PER_EPOCH_def)
  then show ?thesis using process_slots_reaches [OF ex_ext_ok ex_early, of 45] by blast
qed

theorem process_slots_compose_witness:
  "\<exists>s t. process_slots ex_ext Minimal ((ex_state Minimal)\<lparr>slot := 44\<rparr>) 45 = Inr s \<and> process_slots ex_ext Minimal s 46 = Inr t
     \<and> process_slots ex_ext Minimal ((ex_state Minimal)\<lparr>slot := 44\<rparr>) 46 = Inr t"
proof -
  let ?st = "(ex_state Minimal)\<lparr>slot := 44\<rparr>"
  obtain s where s: "process_slots ex_ext Minimal ?st 45 = Inr s"
    using one_slot [OF ex_ext_ok ex_early] by (auto simp: u64_max_def SLOTS_PER_EPOCH_def)
  have "slots_loop ex_ext Minimal 45 ?st = Inr s" using s by (simp add: process_slots_def)
  then have "state_ok Minimal s \<and> slot s = 45" by (intro safeD [OF slots_loop_safe [OF ex_ext_ok ex_early]]) simp_all
  then obtain t where "process_slots ex_ext Minimal s 46 = Inr t"
    using one_slot [OF ex_ext_ok, of Minimal s] by (auto simp: u64_max_def SLOTS_PER_EPOCH_def)
  with s process_slots_compose [OF s ex_ext_ok ex_early, of 46] show ?thesis by (auto intro: sym)
qed

theorem state_transition_safe_witness:
  "state_transition ex_ext Minimal (ex_state Minimal) \<lparr>sblk_message = ex_block, sblk_signature = replicate 96 0\<rparr> \<noteq> Inl Panic"
proof -
  have "SignedBeaconBlock_ok Minimal \<lparr>sblk_message = ex_block, sblk_signature = replicate 96 0\<rparr>"
    using ex_block_ok by (simp add: SignedBeaconBlock_ok_iff)
  from state_transition_safe [OF ex_ext_ok ex_state_ok this] show ?thesis by blast
qed

end
