(* ===== verification/Polynomials.thy ===== *)
theory Polynomials
  imports Runtime Complex_Main "HOL-Library.Multiset"
begin

text \<open>
  The scalar-field part of \<open>crypto/kzg/cells.rs\<close>: polynomials in coefficient form as lists, the
  radix-2 Fourier transform, interpolation, and the recovery of a blob polynomial from half of its
  cells. The scalar field of the curve library is an arbitrary field; the one function of that
  library that is not field arithmetic, the root of unity of a given order, is the parameter \<open>R\<close>.
  The slices of the code are lists; every index the code computes is in bounds once the checks in
  front of it have passed, so the assignments are list updates.
\<close>

section \<open>Errors (crypto/kzg/error.rs)\<close>

datatype KzgError =
    PolynomialTooLarge usize usize
  | EmptyPolynomial
  | DomainSizeMismatch usize usize
  | DomainSizeOverflow usize
  | UnsupportedDomainSize usize
  | InvalidFieldElement
  | InvalidG1
  | BatchLengthMismatch usize usize usize usize
  | KzgLengthMismatch string usize usize
  | CellIndexOutOfRange u64 usize
  | CommitmentIndexOutOfRange u64 usize
  | InvalidCellLength usize usize
  | InvalidCosetLength usize usize
  | InvalidBlobLength usize usize
  | NotEnoughCells usize usize
  | TooManyCells usize usize
  | DuplicateCellIndex u64
  | CellIndicesNotSorted
  | EmptyDivisor
  | DivisionByZero
  | CosetDivisionByZero
  | DuplicateInterpolationPoint
  | MissingG2Power usize usize
  | CommitmentBytesLengthMismatch usize usize
  | CommitmentBytesPointMismatch usize

type_synonym 'a kres = "(KzgError, 'a) res"

definition PRIMITIVE_ROOT_OF_UNITY :: u64 where
  "PRIMITIVE_ROOT_OF_UNITY = 7"

text \<open>\<open>Field::inverse\<close> of the curve library.\<close>

definition fr_inverse :: "'f::field \<Rightarrow> 'f option" where
  "fr_inverse x = (if x = 0 then None else Some (inverse x))"

section \<open>Powers and bit reversal\<close>

primrec powers_loop :: "'f::field \<Rightarrow> 'f \<Rightarrow> nat \<Rightarrow> 'f list" where
  "powers_loop x current_power 0 = []"
| "powers_loop x current_power (Suc n) = current_power # powers_loop x (current_power * x) n"

definition compute_powers :: "'f::field \<Rightarrow> usize \<Rightarrow> 'f list" where
  "compute_powers x n = powers_loop x 1 n"

fun is_power_of_two :: "nat \<Rightarrow> bool" where
  "is_power_of_two n = (if n = 0 then False else if odd n then n = 1 else is_power_of_two (n div 2))"

declare is_power_of_two.simps [simp del]

definition compute_roots_of_unity :: "(nat \<Rightarrow> 'f option) \<Rightarrow> usize \<Rightarrow> 'f::field list kres" where
  "compute_roots_of_unity R order =
     bindR (failIf (order = 0 \<or> \<not> is_power_of_two order) (UnsupportedDomainSize order)) (\<lambda>_.
     bindR (ok_or (R order) (UnsupportedDomainSize order)) (\<lambda>root_of_unity.
     Inr (compute_powers root_of_unity order)))"

text \<open>\<open>usize::trailing_zeros\<close>.\<close>

fun trailing_zeros :: "nat \<Rightarrow> nat" where
  "trailing_zeros n = (if n = 0 then 64 else if odd n then 0 else Suc (trailing_zeros (n div 2)))"

declare trailing_zeros.simps [simp del]

definition reverse_bits :: "usize \<Rightarrow> usize \<Rightarrow> usize" where
  "reverse_bits v order = foldl (\<lambda>out i. 2 * out + (v div 2 ^ i) mod 2) 0 [0..<trailing_zeros order]"

definition bit_reversal_permutation :: "'a list \<Rightarrow> 'a list" where
  "bit_reversal_permutation values =
     map snd (sort_key fst (map (\<lambda>(index, v). (reverse_bits index (length values), v)) (enumerated values)))"

section \<open>The Fourier transform\<close>

text \<open>\<open>iter().step_by(2)\<close>.\<close>

fun step_by_two :: "'a list \<Rightarrow> 'a list" where
  "step_by_two [] = []"
| "step_by_two [x] = [x]"
| "step_by_two (x # y # xs) = x # step_by_two xs"

lemma length_step_by_two: "length (step_by_two xs) = (length xs + 1) div 2"
  by (induction xs rule: step_by_two.induct) auto

text \<open>The butterfly loop: \<open>out[i]\<close> and \<open>out[i + left.len()]\<close> from the two half transforms.\<close>

definition fft_butterfly :: "'f::field list \<Rightarrow> 'f list \<Rightarrow> 'f list \<Rightarrow> 'f list \<Rightarrow> 'f list" where
  "fft_butterfly roots left right out =
     fold (\<lambda>(i, x, y) out.
             let y_times_root = y * roots ! i
             in (out[i := x + y_times_root])[i + length left := x - y_times_root])
       (enumerated (zip left right)) out"

text \<open>
  The recursion of the code ends at length one; its callers never pass the empty list, on which it
  would not end.
\<close>

function fft_field_impl :: "'f::field list \<Rightarrow> 'f list \<Rightarrow> 'f list" where
  "fft_field_impl vals roots_of_unity =
     (if length vals \<le> 1 then vals
      else
        let even_vals = step_by_two vals;
            odd_vals = step_by_two (drop 1 vals);
            even_roots = step_by_two roots_of_unity;
            left = fft_field_impl even_vals even_roots;
            right = fft_field_impl odd_vals even_roots
        in fft_butterfly roots_of_unity left right (replicate (length vals) 0))"
  by pat_completeness auto
termination
  by (relation "measure (\<lambda>(vals, _). length vals)") (auto simp: length_step_by_two)

declare fft_field_impl.simps [simp del]

definition fft_field :: "'f::field list \<Rightarrow> 'f list \<Rightarrow> bool \<Rightarrow> 'f list kres" where
  "fft_field vals roots_of_unity inverted =
     bindR (failIf (length vals \<noteq> length roots_of_unity)
              (KzgLengthMismatch ''FFT domain'' (length vals) (length roots_of_unity))) (\<lambda>_.
     bindR (failIf (vals = [] \<or> \<not> is_power_of_two (length vals)) (UnsupportedDomainSize (length vals))) (\<lambda>_.
     if inverted then
       let inverse_roots = roots_of_unity ! 0 # rev (drop 1 roots_of_unity) in
       bindR (ok_or (fr_inverse (of_nat (length vals))) DivisionByZero) (\<lambda>inv_len.
       Inr (map (\<lambda>x. x * inv_len) (fft_field_impl vals inverse_roots)))
     else Inr (fft_field_impl vals roots_of_unity)))"

primrec shift_loop :: "'f::field \<Rightarrow> 'f \<Rightarrow> 'f list \<Rightarrow> 'f list" where
  "shift_loop factor shift [] = []"
| "shift_loop factor shift (v # vals) = v * shift # shift_loop factor (shift * factor) vals"

definition shift_vals :: "'f::field list \<Rightarrow> 'f \<Rightarrow> 'f list kres" where
  "shift_vals vals factor = Inr (shift_loop factor 1 vals)"

definition coset_fft_field :: "'f::field list \<Rightarrow> 'f list \<Rightarrow> bool \<Rightarrow> 'f list kres" where
  "coset_fft_field vals roots_of_unity inverted =
     (let shift_factor = of_nat PRIMITIVE_ROOT_OF_UNITY in
      if inverted then
        bindR (fft_field vals roots_of_unity True) (\<lambda>vals.
        bindR (ok_or (fr_inverse shift_factor) DivisionByZero) (\<lambda>factor.
        shift_vals vals factor))
      else
        bindR (shift_vals vals shift_factor) (\<lambda>shifted.
        fft_field shifted roots_of_unity False))"

section \<open>Cell cosets\<close>

text \<open>\<open>EXT_ROOTS_OF_UNITY_BRP\<close>, a table computed once.\<close>

definition EXT_ROOTS_OF_UNITY_BRP :: "(nat \<Rightarrow> 'f option) \<Rightarrow> 'f::field list kres" where
  "EXT_ROOTS_OF_UNITY_BRP R =
     bindR (compute_roots_of_unity R FIELD_ELEMENTS_PER_EXT_BLOB) (\<lambda>roots. Inr (bit_reversal_permutation roots))"

definition coset_shift_for_cell :: "(nat \<Rightarrow> 'f option) \<Rightarrow> u64 \<Rightarrow> 'f::field kres" where
  "coset_shift_for_cell R cell_index =
     bindR (failIf (cell_index \<ge> CELLS_PER_EXT_BLOB) (CellIndexOutOfRange cell_index CELLS_PER_EXT_BLOB)) (\<lambda>_.
     bindR (EXT_ROOTS_OF_UNITY_BRP R) (\<lambda>roots_of_unity_brp.
     Inr (roots_of_unity_brp ! (FIELD_ELEMENTS_PER_CELL * cell_index))))"

definition coset_for_cell :: "(nat \<Rightarrow> 'f option) \<Rightarrow> u64 \<Rightarrow> 'f::field list kres" where
  "coset_for_cell R cell_index =
     bindR (failIf (cell_index \<ge> CELLS_PER_EXT_BLOB) (CellIndexOutOfRange cell_index CELLS_PER_EXT_BLOB)) (\<lambda>_.
     bindR (EXT_ROOTS_OF_UNITY_BRP R) (\<lambda>roots_of_unity_brp.
     Inr (take FIELD_ELEMENTS_PER_CELL (drop (FIELD_ELEMENTS_PER_CELL * cell_index) roots_of_unity_brp))))"

section \<open>Coefficient-form polynomials\<close>

text \<open>The inner loops \<open>out[offset + i] += value\<close>.\<close>

definition accumulate :: "usize \<Rightarrow> 'f::field list \<Rightarrow> 'f list \<Rightarrow> 'f list" where
  "accumulate offset values out = fold (\<lambda>(i, v) out. out[offset + i := out ! (offset + i) + v]) (enumerated values) out"

definition add_polynomialcoeff :: "'f::field list \<Rightarrow> 'f list \<Rightarrow> 'f list" where
  "add_polynomialcoeff a b = accumulate 0 b (accumulate 0 a (replicate (max (length a) (length b)) 0))"

definition multiply_polynomialcoeff :: "'f::field list \<Rightarrow> 'f list \<Rightarrow> 'f list" where
  "multiply_polynomialcoeff a b =
     (if a = [] \<or> b = [] then []
      else fold (\<lambda>(i, lhs) out. accumulate i (map (\<lambda>rhs. lhs * rhs) b) out)
             (enumerated a) (replicate (length a + length b - 1) 0))"

text \<open>One round of the long division: the next quotient coefficient, and the divisor subtracted.\<close>

definition divide_step :: "'f::field list \<Rightarrow> 'f \<Rightarrow> 'f list \<times> 'f list \<Rightarrow> usize \<Rightarrow> 'f list \<times> 'f list" where
  "divide_step b leading_inverse = (\<lambda>(remainder, quotient) quotient_index.
     let remainder_index = quotient_index + length b - 1;
         quotient_value = remainder ! remainder_index * leading_inverse
     in (accumulate quotient_index (map (\<lambda>divisor_value. - (divisor_value * quotient_value)) b) remainder,
         quotient[quotient_index := quotient_value]))"

definition divide_polynomialcoeff :: "'f::field list \<Rightarrow> 'f list \<Rightarrow> 'f list kres" where
  "divide_polynomialcoeff a b =
     bindR (failIf (b = []) EmptyDivisor) (\<lambda>_.
     bindR (ok_or (fr_inverse (b ! (length b - 1))) DivisionByZero) (\<lambda>leading_inverse.
     if length a < length b then Inr []
     else Inr (snd (foldl (divide_step b leading_inverse) (a, replicate (length a - length b + 1) 0)
                     (rev [0..<length a - length b + 1])))))"

definition vanishing_polynomialcoeff :: "'f::field list \<Rightarrow> 'f list" where
  "vanishing_polynomialcoeff xs = foldl (\<lambda>out x. multiply_polynomialcoeff out [- x, 1]) [1] xs"

definition evaluate_polynomialcoeff :: "'f::field list \<Rightarrow> 'f \<Rightarrow> 'f" where
  "evaluate_polynomialcoeff polynomial_coeff z = foldl (\<lambda>y coefficient. y * z + coefficient) 0 (rev polynomial_coeff)"

definition polynomial_eval_to_coeff :: "(nat \<Rightarrow> 'f option) \<Rightarrow> 'f::field list \<Rightarrow> 'f list kres" where
  "polynomial_eval_to_coeff R polynomial =
     bindR (failIf (length polynomial \<noteq> FIELD_ELEMENTS_PER_BLOB)
              (KzgLengthMismatch ''blob polynomial'' FIELD_ELEMENTS_PER_BLOB (length polynomial))) (\<lambda>_.
     bindR (compute_roots_of_unity R FIELD_ELEMENTS_PER_BLOB) (\<lambda>roots_of_unity.
     fft_field (bit_reversal_permutation polynomial) roots_of_unity True))"

text \<open>The inner loop of the interpolation: the basis polynomial of a point and its denominator.\<close>

definition interpolation_basis :: "'f::field list \<Rightarrow> usize \<Rightarrow> 'f \<Rightarrow> 'f list \<times> 'f" where
  "interpolation_basis xs i x_i =
     foldl (\<lambda>(basis, denominator) (j, x_j).
              if i = j then (basis, denominator)
              else (multiply_polynomialcoeff basis [- x_j, 1], denominator * (x_i - x_j)))
       ([1], 1) (enumerated xs)"

definition interpolation_step :: "'f::field list \<Rightarrow> 'f list \<Rightarrow> 'f list \<Rightarrow> nat \<times> 'f \<Rightarrow> 'f list kres" where
  "interpolation_step xs ys out = (\<lambda>(i, x_i).
     let (basis, denominator) = interpolation_basis xs i x_i in
     bindR (ok_or (fr_inverse denominator) DuplicateInterpolationPoint) (\<lambda>denominator_inverse.
     let scale = ys ! i * denominator_inverse
     in Inr (accumulate 0 (map (\<lambda>coefficient. coefficient * scale) basis) out)))"

definition interpolate_polynomialcoeff :: "'f::field list \<Rightarrow> 'f list \<Rightarrow> 'f list kres" where
  "interpolate_polynomialcoeff xs ys =
     bindR (failIf (length xs \<noteq> length ys) (KzgLengthMismatch ''interpolation'' (length xs) (length ys))) (\<lambda>_.
     foldR (interpolation_step xs ys) (replicate (length xs) 0) (enumerated xs))"

section \<open>Recovery\<close>

definition construct_vanishing_polynomial :: "(nat \<Rightarrow> 'f option) \<Rightarrow> u64 list \<Rightarrow> 'f::field list kres" where
  "construct_vanishing_polynomial R missing_cell_indices =
     bindR (failIf (length missing_cell_indices \<ge> CELLS_PER_EXT_BLOB)
              (TooManyCells (CELLS_PER_EXT_BLOB - 1) (length missing_cell_indices))) (\<lambda>_.
     bindR (compute_roots_of_unity R CELLS_PER_EXT_BLOB) (\<lambda>roots_of_unity_reduced.
     bindR (mapR (\<lambda>index.
              bindR (failIf (index \<ge> CELLS_PER_EXT_BLOB) (CellIndexOutOfRange index CELLS_PER_EXT_BLOB)) (\<lambda>_.
              Inr (roots_of_unity_reduced ! reverse_bits index CELLS_PER_EXT_BLOB))) missing_cell_indices) (\<lambda>roots.
     let short_zero_poly = vanishing_polynomialcoeff roots
     in Inr (fold (\<lambda>(i, coeff) zero_poly_coeff. zero_poly_coeff[i * FIELD_ELEMENTS_PER_CELL := coeff])
               (enumerated short_zero_poly) (replicate FIELD_ELEMENTS_PER_EXT_BLOB 0)))))"

text \<open>The loop that copies the cells given into the extended evaluation.\<close>

definition place_cell :: "'f::field list \<times> bool list \<Rightarrow> u64 \<times> 'f list \<Rightarrow> ('f list \<times> bool list) kres" where
  "place_cell = (\<lambda>(extended, present) (index, cell).
     bindR (failIf (length cell \<noteq> FIELD_ELEMENTS_PER_CELL) (InvalidCosetLength FIELD_ELEMENTS_PER_CELL (length cell))) (\<lambda>_.
     bindR (failIf (index \<ge> CELLS_PER_EXT_BLOB) (CellIndexOutOfRange index CELLS_PER_EXT_BLOB)) (\<lambda>_.
     let start = index * FIELD_ELEMENTS_PER_CELL
     in Inr (take start extended @ cell @ drop (start + FIELD_ELEMENTS_PER_CELL) extended, present[index := True]))))"

text \<open>The division over the coset.\<close>

definition divide_pointwise :: "'f::field list \<Rightarrow> 'f list \<Rightarrow> 'f list kres" where
  "divide_pointwise numerators denominators =
     mapR (\<lambda>(numerator, denominator).
             bindR (ok_or (fr_inverse denominator) CosetDivisionByZero) (\<lambda>denominator_inverse.
             Inr (numerator * denominator_inverse))) (zip numerators denominators)"

definition recover_polynomialcoeff :: "(nat \<Rightarrow> 'f option) \<Rightarrow> u64 list \<Rightarrow> 'f::field list list \<Rightarrow> 'f list kres" where
  "recover_polynomialcoeff R cell_indices cosets_evals =
     bindR (failIf (length cell_indices \<noteq> length cosets_evals)
              (KzgLengthMismatch ''recovery cells'' (length cell_indices) (length cosets_evals))) (\<lambda>_.
     bindR (compute_roots_of_unity R FIELD_ELEMENTS_PER_EXT_BLOB) (\<lambda>roots_of_unity_extended.
     bindR (foldR place_cell (replicate FIELD_ELEMENTS_PER_EXT_BLOB 0, replicate CELLS_PER_EXT_BLOB False)
              (zip cell_indices cosets_evals)) (\<lambda>(extended_evaluation_rbo, present).
     let extended_evaluation = bit_reversal_permutation extended_evaluation_rbo;
         missing_cell_indices = filter (\<lambda>cell_index. \<not> present ! cell_index) [0..<CELLS_PER_EXT_BLOB]
     in
     bindR (construct_vanishing_polynomial R missing_cell_indices) (\<lambda>zero_poly_coeff.
     bindR (fft_field zero_poly_coeff roots_of_unity_extended False) (\<lambda>zero_poly_eval.
     let extended_evaluation_times_zero = map (\<lambda>(a, b). a * b) (zip zero_poly_eval extended_evaluation) in
     bindR (fft_field extended_evaluation_times_zero roots_of_unity_extended True) (\<lambda>extended_evaluation_times_zero_coeffs.
     bindR (coset_fft_field extended_evaluation_times_zero_coeffs roots_of_unity_extended False) (\<lambda>extended_evaluations_over_coset.
     bindR (coset_fft_field zero_poly_coeff roots_of_unity_extended False) (\<lambda>zero_poly_over_coset.
     bindR (divide_pointwise extended_evaluations_over_coset zero_poly_over_coset) (\<lambda>reconstructed_poly_over_coset.
     bindR (coset_fft_field reconstructed_poly_over_coset roots_of_unity_extended True) (\<lambda>reconstructed_poly_coeff.
     Inr (take FIELD_ELEMENTS_PER_BLOB reconstructed_poly_coeff)))))))))))"


section \<open>Evaluation\<close>

text \<open>Lemmas write \<open>ev\<close> for the evaluation of the code.\<close>

abbreviation ev :: "'f::field list \<Rightarrow> 'f \<Rightarrow> 'f" where
  "ev \<equiv> evaluate_polynomialcoeff"

lemma ev_Nil [simp]: "ev [] z = 0"
  by (simp add: evaluate_polynomialcoeff_def)

lemma ev_Cons [simp]: "ev (c # cs) z = c + z * ev cs z"
  by (simp add: evaluate_polynomialcoeff_def)

lemma ev_sum: "ev cs z = (\<Sum>i<length cs. cs ! i * z ^ i)"
proof (induction cs)
  case Nil
  then show ?case by simp
next
  case (Cons c cs)
  then show ?case by (simp add: sum.lessThan_Suc_shift sum_distrib_left mult_ac del: sum.lessThan_Suc)
qed

lemma ev_append: "ev (xs @ ys) z = ev xs z + z ^ length xs * ev ys z"
  by (induction xs) (simp_all add: algebra_simps)

lemma ev_replicate_0 [simp]: "ev (replicate n 0) z = 0"
  by (induction n) simp_all

lemma ev_map_mult: "ev (map (\<lambda>c. c * k) cs) z = ev cs z * k" "ev (map (\<lambda>c. k * c) cs) z = k * ev cs z"
  by (induction cs) (simp_all add: algebra_simps)

lemma ev_map_minus: "ev (map (\<lambda>c. - (c * k)) cs) z = - (ev cs z * k)"
  by (induction cs) (simp_all add: algebra_simps)

lemma ev_update: "i < length cs \<Longrightarrow> ev (cs[i := v]) z = ev cs z + (v - cs ! i) * z ^ i"
proof (induction cs arbitrary: i)
  case (Cons c cs)
  then show ?case by (cases i) (simp_all, simp_all add: algebra_simps)
qed simp

lemma length_fold_update:
  "(\<And>x out. length (f x out) = length out) \<Longrightarrow> length (fold f xs out) = length out"
  by (induction xs arbitrary: out) simp_all

lemma length_accumulate [simp]: "length (accumulate k xs out) = length out"
  unfolding accumulate_def by (rule length_fold_update) auto

lemma accumulate_loop:
  "k + n + length xs \<le> length out \<Longrightarrow>
   ev (fold (\<lambda>(i, v) out. out[k + i := out ! (k + i) + v]) (List.enumerate n xs) out) z = ev out z + z ^ (k + n) * ev xs z"
proof (induction xs arbitrary: n out)
  case Nil
  then show ?case by simp
next
  case (Cons x xs)
  let ?out = "out[k + n := out ! (k + n) + x]"
  have "ev (fold (\<lambda>(i, v) out. out[k + i := out ! (k + i) + v]) (List.enumerate (Suc n) xs) ?out) z
      = ev ?out z + z ^ (k + Suc n) * ev xs z"
    by (rule Cons.IH) (use Cons.prems in simp)
  moreover have "ev ?out z = ev out z + x * z ^ (k + n)" using Cons.prems by (simp add: ev_update)
  ultimately show ?case by (simp add: algebra_simps)
qed

lemma ev_accumulate: "k + length xs \<le> length out \<Longrightarrow> ev (accumulate k xs out) z = ev out z + z ^ k * ev xs z"
  unfolding accumulate_def using accumulate_loop [of k 0 xs out z] by simp

lemma length_add [simp]: "length (add_polynomialcoeff a b) = max (length a) (length b)"
  by (simp add: add_polynomialcoeff_def)

lemma ev_add: "ev (add_polynomialcoeff a b) z = ev a z + ev b z"
  by (simp add: add_polynomialcoeff_def ev_accumulate)

lemma length_multiply [simp]:
  "length (multiply_polynomialcoeff a b) = (if a = [] \<or> b = [] then 0 else length a + length b - 1)"
  unfolding multiply_polynomialcoeff_def using length_fold_update [of "\<lambda>(i, lhs). accumulate i (map (\<lambda>rhs. lhs * rhs) b)"]
  by (simp add: split_beta)

lemma multiply_loop:
  "n + length a + length b \<le> length out + 1 \<Longrightarrow>
   ev (fold (\<lambda>(i, lhs) out. accumulate i (map (\<lambda>rhs. lhs * rhs) b) out) (List.enumerate n a) out) z
     = ev out z + z ^ n * (ev a z * ev b z)"
proof (induction a arbitrary: n out)
  case Nil
  then show ?case by simp
next
  case (Cons x a)
  let ?out = "accumulate n (map (\<lambda>rhs. x * rhs) b) out"
  have "ev (fold (\<lambda>(i, lhs) out. accumulate i (map (\<lambda>rhs. lhs * rhs) b) out) (List.enumerate (Suc n) a) ?out) z
      = ev ?out z + z ^ Suc n * (ev a z * ev b z)"
    by (rule Cons.IH) (use Cons.prems in simp)
  moreover have "ev ?out z = ev out z + z ^ n * (x * ev b z)"
    using Cons.prems by (simp add: ev_accumulate ev_map_mult)
  ultimately show ?case by (simp, simp add: algebra_simps)
qed

lemma ev_multiply: "ev (multiply_polynomialcoeff a b) z = ev a z * ev b z"
  using multiply_loop [of 0 a b "replicate (length a + length b - 1) 0" z]
  by (auto simp: multiply_polynomialcoeff_def Suc_leI)

lemma vanishing_loop: "out \<noteq> [] \<Longrightarrow>
   length (foldl (\<lambda>out x. multiply_polynomialcoeff out [- x, 1]) out xs) = length out + length xs
   \<and> ev (foldl (\<lambda>out x. multiply_polynomialcoeff out [- x, 1]) out xs) z = ev out z * (\<Prod>x\<leftarrow>xs. z - x)"
proof (induction xs arbitrary: out)
  case Nil
  then show ?case by simp
next
  case (Cons x xs)
  have "length (multiply_polynomialcoeff out [- x, 1]) = Suc (length out)" using Cons.prems by simp
  moreover from this have "multiply_polynomialcoeff out [- x, 1] \<noteq> []" by (metis list.size(3) nat.distinct(1))
  ultimately show ?case using Cons.IH [of "multiply_polynomialcoeff out [- x, 1]"] by (simp add: ev_multiply mult.assoc)
qed

lemma length_vanishing [simp]: "length (vanishing_polynomialcoeff xs) = Suc (length xs)"
  unfolding vanishing_polynomialcoeff_def using vanishing_loop [of "[1]" xs] by simp

lemma ev_vanishing: "ev (vanishing_polynomialcoeff xs) z = (\<Prod>x\<leftarrow>xs. z - x)"
  unfolding vanishing_polynomialcoeff_def using vanishing_loop [of "[1]" xs] by simp

lemma ev_vanishing_eq_0: "ev (vanishing_polynomialcoeff xs) z = 0 \<longleftrightarrow> z \<in> set xs"
  unfolding ev_vanishing by (induction xs) auto

lemma divide_step_eval:
  assumes "qi + length b \<le> length r" and "b \<noteq> []" and "qi < length q" and "q ! qi = 0"
    and "divide_step b li (r, q) qi = (r', q')"
  shows "ev q' z * ev b z + ev r' z = ev q z * ev b z + ev r z \<and> length r' = length r \<and> length q' = length q"
  using assms by (auto simp: divide_step_def Let_def ev_accumulate ev_map_minus ev_update algebra_simps)

lemma accumulate_nth_loop:
  fixes xs :: "'f::field list"
  shows "k + n + length xs \<le> length out \<Longrightarrow> j < length out \<Longrightarrow>
   fold (\<lambda>(i, v) out. out[k + i := out ! (k + i) + v]) (List.enumerate n xs) out ! j
     = out ! j + (if k + n \<le> j \<and> j < k + n + length xs then xs ! (j - (k + n)) else 0)"
proof (induction xs arbitrary: n out)
  case Nil
  then show ?case by auto
next
  case (Cons x xs)
  let ?out = "out[k + n := out ! (k + n) + x]"
  have "fold (\<lambda>(i, v) out. out[k + i := out ! (k + i) + v]) (List.enumerate (Suc n) xs) ?out ! j
      = ?out ! j + (if k + Suc n \<le> j \<and> j < k + Suc n + length xs then xs ! (j - (k + Suc n)) else 0)"
    by (rule Cons.IH) (use Cons.prems in simp_all)
  then show ?case using Cons.prems by (auto simp: nth_list_update nth_Cons' not_le)
qed

lemma accumulate_nth:
  "k + length xs \<le> length out \<Longrightarrow> j < length out \<Longrightarrow>
   accumulate k xs out ! j = out ! j + (if k \<le> j \<and> j < k + length xs then xs ! (j - k) else 0)"
  unfolding accumulate_def using accumulate_nth_loop [of k 0 xs out j] by simp


lemma divide_step_top:
  assumes "qi + length b \<le> length r" and "b \<noteq> []" and "li = inverse (b ! (length b - 1))" and "b ! (length b - 1) \<noteq> 0"
    and "divide_step b li (r, q) qi = (r', q')" and top: "\<And>j. qi + length b \<le> j \<Longrightarrow> j < length r \<Longrightarrow> r ! j = 0"
    and j: "qi + length b - 1 \<le> j" "j < length r"
  shows "r' ! j = 0"
proof -
  let ?v = "r ! (qi + length b - 1) * li"
  have "r' = accumulate qi (map (\<lambda>d. - (d * ?v)) b) r" using assms(5) by (simp add: divide_step_def Let_def)
  then have r': "r' ! j = r ! j + (if qi \<le> j \<and> j < qi + length b then map (\<lambda>d. - (d * ?v)) b ! (j - qi) else 0)"
    using accumulate_nth [of qi "map (\<lambda>d. - (d * ?v)) b" r j] assms(1) j(2) by simp
  show ?thesis
  proof (cases "j = qi + length b - 1")
    case True
    then have "j < qi + length b" "qi \<le> j" "j - qi = length b - 1" using assms(2) by (cases b; simp)+
    then show ?thesis using r' assms(2-4) True by simp
  next
    case False
    then have "qi + length b \<le> j" using j(1) by linarith
    then show ?thesis using r' top [of j] j(2) by simp
  qed
qed

lemma divide_loop:
  assumes b: "b \<noteq> []" "li = inverse (b ! (length b - 1))" "b ! (length b - 1) \<noteq> 0"
  shows "foldl (divide_step b li) (r, q) (rev [0..<n]) = (r', q') \<Longrightarrow> n + length b - 1 \<le> length r \<Longrightarrow> n \<le> length q
      \<Longrightarrow> (\<And>j. j < n \<Longrightarrow> q ! j = 0) \<Longrightarrow> (\<And>j. n + length b - 1 \<le> j \<Longrightarrow> j < length r \<Longrightarrow> r ! j = 0)
    \<Longrightarrow> (\<forall>z. ev q' z * ev b z + ev r' z = ev q z * ev b z + ev r z) \<and> length r' = length r \<and> length q' = length q
      \<and> (\<forall>j. length b - 1 \<le> j \<longrightarrow> j < length r \<longrightarrow> r' ! j = 0)"
proof (induction n arbitrary: r q)
  case 0
  then show ?case by simp
next
  case (Suc n)
  obtain s t where st: "divide_step b li (r, q) n = (s, t)" by fastforce
  have fit: "n + length b \<le> length r" "n < length q" "q ! n = 0" using Suc.prems b(1) by simp_all
  have ev: "ev t z * ev b z + ev s z = ev q z * ev b z + ev r z" and len: "length s = length r" "length t = length q" for z
    using divide_step_eval [OF fit(1) b(1) fit(2,3) st] by simp_all
  have top: "s ! j = 0" if "n + length b - 1 \<le> j" "j < length r" for j
    by (rule divide_step_top [OF fit(1) b st _ that]) (use Suc.prems(5) in simp)
  have low: "t ! j = 0" if "j < n" for j
    using st Suc.prems(4) [of j] that fit(2) by (auto simp: divide_step_def Let_def)
  have "foldl (divide_step b li) (s, t) (rev [0..<n]) = (r', q')" using Suc.prems(1) st by simp
  from Suc.IH [OF this] show ?case using fit len top low ev by simp
qed

lemma ev_take_zero: "(\<And>j. n \<le> j \<Longrightarrow> j < length cs \<Longrightarrow> cs ! j = 0) \<Longrightarrow> ev (take n cs) z = ev cs z"
proof -
  assume zero: "\<And>j. n \<le> j \<Longrightarrow> j < length cs \<Longrightarrow> cs ! j = 0"
  have "drop n cs = replicate (length cs - n) 0" by (rule nth_equalityI) (simp_all add: zero)
  then have "ev (drop n cs) z = 0" by simp
  then show "ev (take n cs) z = ev cs z"
    using ev_append [of "take n cs" "drop n cs" z] by (simp only: append_take_drop_id) simp
qed

lemma divide_correct:
  assumes "divide_polynomialcoeff a b = Inr q"
  shows "\<exists>r. length r < length b \<and> (\<forall>z. ev a z = ev q z * ev b z + ev r z)"
proof -
  let ?li = "inverse (b ! (length b - 1))"
  have b: "b \<noteq> []" and lead: "b ! (length b - 1) \<noteq> 0"
    using assms by (auto simp: divide_polynomialcoeff_def fr_inverse_def bindR_eq_Inr failIf_eq_Inr split: if_splits)
  show ?thesis
  proof (cases "length a < length b")
    case True
    then show ?thesis using assms b lead by (intro exI [of _ a]) (simp add: divide_polynomialcoeff_def fr_inverse_def)
  next
    case False
    let ?n = "length a - length b + 1"
    obtain r where run: "foldl (divide_step b ?li) (a, replicate ?n 0) (rev [0..<?n]) = (r, q)"
      using assms b lead False by (auto simp: divide_polynomialcoeff_def fr_inverse_def simp del: upt_Suc) (metis prod.collapse)
    have "(\<forall>z. ev q z * ev b z + ev r z = ev (replicate ?n 0) z * ev b z + ev a z) \<and> length r = length a
        \<and> length q = length (replicate ?n (0::'a)) \<and> (\<forall>j. length b - 1 \<le> j \<longrightarrow> j < length a \<longrightarrow> r ! j = 0)"
      by (rule divide_loop [OF b refl lead run]) (use False b in \<open>auto simp del: replicate_Suc\<close>)
    then have eval: "ev q z * ev b z + ev r z = ev a z" and zero: "length b - 1 \<le> j \<Longrightarrow> j < length r \<Longrightarrow> r ! j = 0" for z j
      by (simp_all del: replicate_Suc)
    have "length (take (length b - 1) r) < length b" using b by (cases b) auto
    moreover have "ev a z = ev q z * ev b z + ev (take (length b - 1) r) z" for z
      using eval [of z] ev_take_zero [OF zero] by simp
    ultimately show ?thesis by blast
  qed
qed


section \<open>Interpolation\<close>

text \<open>The points other than the one at position \<open>i\<close>.\<close>

definition other_points :: "nat \<Rightarrow> 'f list \<Rightarrow> 'f list" where
  "other_points i xs = map snd (filter (\<lambda>(j, _). i \<noteq> j) (enumerated xs))"

lemma basis_loop:
  "foldl (\<lambda>(basis, denominator) (j, x_j). if i = j then (basis, denominator)
            else (multiply_polynomialcoeff basis [- x_j, 1], denominator * (x_i - x_j))) (b, d) es
   = (foldl (\<lambda>out x. multiply_polynomialcoeff out [- x, 1]) b (map snd (filter (\<lambda>(j, _). i \<noteq> j) es)),
      d * (\<Prod>x\<leftarrow>map snd (filter (\<lambda>(j, _). i \<noteq> j) es). x_i - x))"
  by (induction es arbitrary: b d) (auto simp: mult.assoc)

lemma interpolation_basis_eq:
  "interpolation_basis xs i x_i = (vanishing_polynomialcoeff (other_points i xs), ev (vanishing_polynomialcoeff (other_points i xs)) x_i)"
  unfolding interpolation_basis_def basis_loop ev_vanishing by (simp add: vanishing_polynomialcoeff_def other_points_def)

lemma set_other_points: "set (other_points i xs) = {xs ! j | j. j < length xs \<and> j \<noteq> i}"
  by (force simp: other_points_def in_set_enumerate_eq)

lemma length_other_points: "i < length xs \<Longrightarrow> length (other_points i xs) = length xs - 1"
proof -
  assume i: "i < length xs"
  have "length (other_points i xs) = card {j \<in> {..<length xs}. i \<noteq> j}"
    by (auto simp: other_points_def length_filter_conv_card nth_enumerate_eq intro!: arg_cong [of _ _ card])
  also have "{j \<in> {..<length xs}. i \<noteq> j} = {..<length xs} - {i}" by auto
  finally show ?thesis using i by simp
qed

lemma interpolation_step_ok:
  assumes "distinct xs" and "i < length xs" and "length out = length xs"
  shows "\<exists>out'. interpolation_step xs ys out (i, xs ! i) = Inr out' \<and> length out' = length xs
    \<and> (\<forall>j<length xs. ev out' (xs ! j) = ev out (xs ! j) + (if j = i then ys ! i else 0))"
proof -
  let ?v = "vanishing_polynomialcoeff (other_points i xs)"
  have zero: "ev ?v (xs ! j) = 0 \<longleftrightarrow> j \<noteq> i" if "j < length xs" for j
    using assms(1,2) that by (auto simp: ev_vanishing_eq_0 set_other_points nth_eq_iff_index_eq)
  have nz: "ev ?v (xs ! i) \<noteq> 0" using zero [OF assms(2)] by simp
  let ?s = "ys ! i * inverse (ev ?v (xs ! i))"
  have "interpolation_step xs ys out (i, xs ! i) = Inr (accumulate 0 (map (\<lambda>c. c * ?s) ?v) out)"
    by (simp add: interpolation_step_def interpolation_basis_eq fr_inverse_def nz)
  moreover have "ev (accumulate 0 (map (\<lambda>c. c * ?s) ?v) out) z = ev out z + ev ?v z * ?s" for z
    using assms(2,3) by (simp add: ev_accumulate ev_map_mult length_other_points)
  moreover have "ev ?v (xs ! j) * ?s = (if j = i then ys ! i else 0)" if "j < length xs" for j
    using zero [OF that] nz by simp
  ultimately show ?thesis using assms(3) by simp
qed

lemma interpolation_loop:
  assumes "distinct xs"
  shows "zs = drop m xs \<Longrightarrow> length out = length xs \<Longrightarrow> (\<And>j. j < length xs \<Longrightarrow> ev out (xs ! j) = (if j < m then ys ! j else 0))
    \<Longrightarrow> \<exists>cs. foldR (interpolation_step xs ys) out (List.enumerate m zs) = Inr cs \<and> length cs = length xs
      \<and> (\<forall>j<length xs. ev cs (xs ! j) = ys ! j)"
proof (induction zs arbitrary: m out)
  case Nil
  then show ?case by (auto simp: not_le)
next
  case (Cons z zs)
  have m: "m < length xs" and z: "z = xs ! m" and zs: "zs = drop (Suc m) xs"
    using Cons.prems(1) by (metis drop_eq_Nil list.distinct(1) not_le, metis nth_via_drop, metis drop_Suc list.sel(3) tl_drop)
  obtain out' where step: "interpolation_step xs ys out (m, xs ! m) = Inr out'" and len: "length out' = length xs"
    and ev: "\<And>j. j < length xs \<Longrightarrow> ev out' (xs ! j) = ev out (xs ! j) + (if j = m then ys ! m else 0)"
    using interpolation_step_ok [OF assms m Cons.prems(2)] by metis
  have "\<exists>cs. foldR (interpolation_step xs ys) out' (List.enumerate (Suc m) zs) = Inr cs \<and> length cs = length xs
      \<and> (\<forall>j<length xs. ev cs (xs ! j) = ys ! j)"
    by (rule Cons.IH [OF zs len]) (auto simp: ev Cons.prems(3) less_Suc_eq)
  then show ?case using step z by simp
qed

lemma interpolate_correct:
  assumes "distinct xs" and "length ys = length xs"
  shows "\<exists>cs. interpolate_polynomialcoeff xs ys = Inr cs \<and> length cs = length xs \<and> (\<forall>j<length xs. ev cs (xs ! j) = ys ! j)"
  using interpolation_loop [OF assms(1), of xs 0 "replicate (length xs) 0" ys] assms(2)
  by (simp add: interpolate_polynomialcoeff_def)


section \<open>The transform evaluates\<close>

text \<open>What the library documents of \<open>get_root_of_unity(n)\<close>: a root of unity of order exactly \<open>n\<close>.\<close>

definition primitive_root :: "'f::field \<Rightarrow> nat \<Rightarrow> bool" where
  "primitive_root w n \<longleftrightarrow> w ^ n = 1 \<and> (\<forall>d. 0 < d \<longrightarrow> d < n \<longrightarrow> w ^ d \<noteq> 1)"

lemma powers_loop_eq: "powers_loop x c n = map (\<lambda>i. c * x ^ i) [0..<n]"
proof (induction n arbitrary: c)
  case (Suc n)
  then show ?case by (simp add: upt_conv_Cons mult.assoc map_Suc_upt [symmetric] del: upt_Suc)
qed simp

lemma compute_powers_eq: "compute_powers x n = map (\<lambda>i. x ^ i) [0..<n]"
  by (simp add: compute_powers_def powers_loop_eq)

lemma length_compute_powers [simp]: "length (compute_powers x n) = n"
  by (simp add: compute_powers_eq)

lemma nth_compute_powers [simp]: "i < n \<Longrightarrow> compute_powers x n ! i = x ^ i"
  by (simp add: compute_powers_eq)

lemma step_by_two_Cons: "step_by_two (x # xs) = x # step_by_two (drop 1 xs)"
  by (cases xs) simp_all

lemma step_by_two_nth: "i < length (step_by_two xs) \<Longrightarrow> step_by_two xs ! i = xs ! (2 * i)"
proof (induction xs arbitrary: i rule: step_by_two.induct)
  case (3 x y xs)
  then show ?case by (cases i) simp_all
qed simp_all

lemma ev_step_by_two: "ev cs z = ev (step_by_two cs) (z ^ 2) + z * ev (step_by_two (drop 1 cs)) (z ^ 2)"
proof (induction cs rule: step_by_two.induct)
  case (3 x y cs)
  then show ?case by (simp add: step_by_two_Cons, simp add: algebra_simps power2_eq_square)
qed simp_all

lemma step_by_two_powers: "step_by_two (compute_powers w (2 * m)) = compute_powers (w ^ 2) m"
  by (rule nth_equalityI) (simp_all add: length_step_by_two step_by_two_nth power_mult)

lemma primitive_root_half:
  assumes "primitive_root w (2 * m)" and "0 < m"
  shows "w ^ m = - 1" and "primitive_root (w ^ 2) m"
proof -
  have "(w ^ m) ^ 2 = 1" using assms by (simp add: primitive_root_def mult.commute flip: power_mult)
  moreover have "w ^ m \<noteq> 1" using assms by (simp add: primitive_root_def)
  ultimately show "w ^ m = - 1" by (simp add: power2_eq_1_iff)
  show "primitive_root (w ^ 2) m" using assms by (auto simp: primitive_root_def simp flip: power_mult)
qed

lemma butterfly_loop:
  "s + length zs \<le> h \<Longrightarrow> 2 * h \<le> length out \<Longrightarrow> j < length out \<Longrightarrow>
   fold (\<lambda>(i, x, y) out. let t = y * roots ! i in (out[i := x + t])[i + h := x - t]) (List.enumerate s zs) out ! j
   = (if s \<le> j \<and> j < s + length zs then fst (zs ! (j - s)) + snd (zs ! (j - s)) * roots ! j
      else if s + h \<le> j \<and> j < s + h + length zs then fst (zs ! (j - h - s)) - snd (zs ! (j - h - s)) * roots ! (j - h)
      else out ! j)"
proof (induction zs arbitrary: s out)
  case Nil
  then show ?case by auto
next
  case (Cons z zs)
  obtain x y where z: "z = (x, y)" by fastforce
  let ?out = "(out[s := x + y * roots ! s])[s + h := x - y * roots ! s]"
  let ?f = "\<lambda>(i, x, y) out. let t = y * roots ! i in (out[i := x + t])[i + h := x - t]"
  have "fold ?f (List.enumerate s (z # zs)) out ! j = fold ?f (List.enumerate (Suc s) zs) ?out ! j" by (simp add: z Let_def)
  also have "\<dots> = (if Suc s \<le> j \<and> j < Suc s + length zs then fst (zs ! (j - Suc s)) + snd (zs ! (j - Suc s)) * roots ! j
      else if Suc s + h \<le> j \<and> j < Suc s + h + length zs then fst (zs ! (j - h - Suc s)) - snd (zs ! (j - h - Suc s)) * roots ! (j - h)
      else ?out ! j)"
    by (rule Cons.IH) (use Cons.prems in simp_all)
  also have "\<dots> = (if s \<le> j \<and> j < s + length (z # zs) then fst ((z # zs) ! (j - s)) + snd ((z # zs) ! (j - s)) * roots ! j
      else if s + h \<le> j \<and> j < s + h + length (z # zs) then fst ((z # zs) ! (j - h - s)) - snd ((z # zs) ! (j - h - s)) * roots ! (j - h)
      else out ! j)"
    using Cons.prems by (auto simp: z nth_Cons' nth_list_update) (metis add_diff_cancel_right' le_antisym not_less_eq_eq)
  finally show ?case .
qed

lemma fft_butterfly_nth:
  assumes "length left = h" "length right = h" "length out = 2 * h" "j < 2 * h"
  shows "fft_butterfly roots left right out ! j =
    (if j < h then left ! j + right ! j * roots ! j else left ! (j - h) - right ! (j - h) * roots ! (j - h))"
  unfolding fft_butterfly_def using butterfly_loop [of 0 "zip left right" h out j roots] assms by auto

lemma length_fft_butterfly [simp]: "length (fft_butterfly roots left right out) = length out"
  unfolding fft_butterfly_def by (rule length_fold_update) (auto simp: Let_def)

lemma fft_field_impl_correct:
  "length vals = 2 ^ k \<Longrightarrow> primitive_root w (2 ^ k) \<Longrightarrow>
   fft_field_impl vals (compute_powers w (2 ^ k)) = map (ev vals) (compute_powers w (2 ^ k))"
proof (induction k arbitrary: vals w)
  case 0
  then obtain v where "vals = [v]" by (auto simp: length_Suc_conv)
  then show ?case by (simp add: fft_field_impl.simps compute_powers_eq)
next
  case (Suc k)
  let ?n = "2 ^ k :: nat" and ?even = "step_by_two vals" and ?odd = "step_by_two (drop 1 vals)"
  note half = primitive_root_half [of w ?n, simplified, OF Suc.prems(2) [simplified]]
  have len: "length ?even = ?n" "length ?odd = ?n" using Suc.prems(1) by (simp_all add: length_step_by_two)
  let ?l = "map (ev ?even) (compute_powers (w ^ 2) ?n)" and ?r = "map (ev ?odd) (compute_powers (w ^ 2) ?n)"
  let ?roots = "compute_powers w (2 * ?n)"
  have "1 < length vals" using Suc.prems(1) by (simp add: Suc_lessI)
  then have "fft_field_impl vals ?roots = fft_butterfly ?roots ?l ?r (replicate (2 * ?n) 0)"
    using Suc.IH [OF len(1) half(2)] Suc.IH [OF len(2) half(2)] Suc.prems(1)
    by (simp add: fft_field_impl.simps [of vals] step_by_two_powers Let_def)
  moreover have "fft_butterfly ?roots ?l ?r (replicate (2 * ?n) 0) ! j = ev vals (w ^ j)" if j: "j < 2 * ?n" for j
  proof (cases "j < ?n")
    case True
    then show ?thesis
      by (subst fft_butterfly_nth [of _ ?n]) (simp_all add: ev_step_by_two [of vals "w ^ j"] mult.commute flip: power_mult)
  next
    case False
    then have "w ^ j = - (w ^ (j - ?n))" using half(1) power_add [of w ?n "j - ?n"] by simp
    then show ?thesis using False j
      by (subst fft_butterfly_nth [of _ ?n]) (simp_all add: ev_step_by_two [of vals "- (w ^ (j - ?n))"] mult.commute flip: power_mult)
  qed
  ultimately show ?case by (intro nth_equalityI) simp_all
qed


lemma is_power_of_two_pow [simp]: "is_power_of_two (2 ^ k)"
  by (induction k) (simp_all add: is_power_of_two.simps [of "Suc 0"] is_power_of_two.simps [of "2 * 2 ^ _"])

lemma fft_field_forward:
  assumes "length vals = n" and "n = 2 ^ k" and "primitive_root w n"
  shows "fft_field vals (compute_powers w n) False = Inr (map (ev vals) (compute_powers w n))"
proof -
  have "vals \<noteq> []" using assms(1,2) by auto
  then show ?thesis using fft_field_impl_correct [of vals k w] assms by (simp add: fft_field_def)
qed

lemma inverse_power_eq:
  assumes "w ^ n = (1::'f::field)" and "i \<le> n"
  shows "w ^ (n - i) = inverse w ^ i"
proof -
  have "w ^ (n - i) * w ^ i = 1" using assms by (simp flip: power_add)
  then show ?thesis by (metis inverse_unique mult.commute power_inverse)
qed

lemma primitive_root_inverse: "primitive_root w n \<Longrightarrow> primitive_root (inverse w) n"
  by (simp add: primitive_root_def power_inverse)

lemma inverse_roots_eq:
  assumes "primitive_root w n" and "0 < n"
  shows "compute_powers w n ! 0 # rev (drop 1 (compute_powers w n)) = compute_powers (inverse w) n"
proof (rule nth_equalityI)
  fix i assume "i < length (compute_powers w n ! 0 # rev (drop 1 (compute_powers w n)))"
  then have "i < n" using assms(2) by simp
  then show "(compute_powers w n ! 0 # rev (drop 1 (compute_powers w n))) ! i = compute_powers (inverse w) n ! i"
    using inverse_power_eq [of w n i] assms by (cases i) (simp_all add: rev_nth primitive_root_def Suc_diff_Suc del: power_Suc)
qed (use assms in simp)

lemma primitive_root_inj:
  assumes "primitive_root w n" and "i < n" and "j < n" and "w ^ i * inverse w ^ j = 1"
  shows "i = j"
proof -
  have nz: "w \<noteq> 0" using assms(1,2) by (auto simp: primitive_root_def power_0_left split: if_splits)
  then have eq: "w ^ i = w ^ j" using assms(4) by (simp add: power_inverse field_simps)
  have "a = b" if "w ^ a = w ^ b" "a \<le> b" "b < n" for a b
  proof (rule ccontr)
    assume "a \<noteq> b"
    have "w ^ a * w ^ (b - a) = w ^ b" using that(2) by (simp flip: power_add)
    then have "w ^ a * w ^ (b - a) = w ^ a * 1" using that(1) by simp
    then have "w ^ (b - a) = 1" using nz by simp
    then show False using assms(1) that \<open>a \<noteq> b\<close> by (auto simp: primitive_root_def)
  qed
  then show ?thesis using eq assms(2,3) by (metis nat_le_linear)
qed

lemma root_orthogonal:
  assumes "primitive_root w n" and "l < n" and "i < n"
  shows "(\<Sum>j<n. (w ^ l * inverse w ^ i) ^ j) = (if l = i then of_nat n else 0)"
proof (cases "l = i")
  case True
  have "w \<noteq> 0" using assms(1,2) by (auto simp: primitive_root_def power_0_left split: if_splits)
  then have "w ^ l * inverse w ^ i = 1" using True by (simp add: power_inverse)
  then show ?thesis using True by simp
next
  case False
  let ?x = "w ^ l * inverse w ^ i"
  have "?x \<noteq> 1" using primitive_root_inj [OF assms] False by blast
  moreover have "?x ^ n = (w ^ n) ^ l * inverse ((w ^ n) ^ i)"
    by (simp add: power_mult_distrib power_inverse mult.commute flip: power_mult)
  ultimately show ?thesis using False assms(1) by (simp add: geometric_sum primitive_root_def)
qed

lemma fft_field_inverse:
  assumes "length cs = n" and "n = 2 ^ k" and w: "primitive_root w n" and nz: "(of_nat n :: 'f::field) \<noteq> 0"
  shows "fft_field (map (ev cs) (compute_powers w n)) (compute_powers w n) True = Inr (cs :: 'f list)"
proof -
  let ?ys = "map (ev cs) (compute_powers w n)" and ?v = "inverse w"
  have n: "0 < n" using assms(2) by simp
  have "fft_field_impl ?ys (compute_powers ?v n) = map (ev ?ys) (compute_powers ?v n)"
    using fft_field_impl_correct [of ?ys k ?v] primitive_root_inverse [OF w] assms(2) by simp
  moreover have "ev ?ys (?v ^ i) * inverse (of_nat n) = cs ! i" if i: "i < n" for i
  proof -
    have "ev ?ys (?v ^ i) = (\<Sum>j<n. \<Sum>l<n. cs ! l * (w ^ l * ?v ^ i) ^ j)"
      using assms(1) by (simp add: ev_sum sum_distrib_left sum_distrib_right power_mult_distrib mult_ac flip: power_mult)
    also have "\<dots> = (\<Sum>l<n. cs ! l * (\<Sum>j<n. (w ^ l * ?v ^ i) ^ j))"
      by (subst sum.swap) (simp add: sum_distrib_left)
    also have "\<dots> = (\<Sum>l<n. if l = i then cs ! l * of_nat n else 0)"
      by (rule sum.cong) (simp_all add: root_orthogonal [OF w _ i])
    also have "\<dots> = cs ! i * of_nat n" using i by (simp add: sum.delta)
    finally show ?thesis using nz by simp
  qed
  then have "map (\<lambda>x. x * inverse (of_nat n)) (map (ev ?ys) (compute_powers ?v n)) = cs"
    using assms(1) by (intro nth_equalityI) simp_all
  ultimately show ?thesis
    using n nz assms(2) inverse_roots_eq [OF w n] by (simp add: fft_field_def fr_inverse_def flip: length_0_conv)
qed


section \<open>Cosets and bit reversal\<close>

lemma length_shift_loop [simp]: "length (shift_loop f s vals) = length vals"
  by (induction vals arbitrary: s) simp_all

lemma ev_shift_loop: "ev (shift_loop f s cs) z = s * ev cs (f * z)"
  by (induction cs arbitrary: s) (simp, simp, simp add: algebra_simps)

lemma shift_loop_inverse: "f \<noteq> 0 \<Longrightarrow> s * t = 1 \<Longrightarrow> shift_loop (inverse f) t (shift_loop f s cs) = cs"
  by (induction cs arbitrary: s t) (simp_all add: mult.assoc, simp add: field_simps)

lemma coset_fft_forward:
  assumes "length cs = n" and "n = 2 ^ k" and "primitive_root w n"
  shows "coset_fft_field cs (compute_powers w n) False
    = Inr (map (\<lambda>x. ev cs (of_nat PRIMITIVE_ROOT_OF_UNITY * x)) (compute_powers w n))"
  using fft_field_forward [of "shift_loop (of_nat PRIMITIVE_ROOT_OF_UNITY) 1 cs" n k w] assms
  by (simp add: coset_fft_field_def shift_vals_def ev_shift_loop fun_eq_iff)

lemma coset_fft_inverse:
  assumes "length cs = n" and "n = 2 ^ k" and "primitive_root w n" and "(of_nat n :: 'f::field) \<noteq> 0"
    and g: "(of_nat PRIMITIVE_ROOT_OF_UNITY :: 'f) \<noteq> 0"
  shows "coset_fft_field (map (\<lambda>x. ev cs (of_nat PRIMITIVE_ROOT_OF_UNITY * x)) (compute_powers w n)) (compute_powers w n) True
    = Inr (cs :: 'f list)"
proof -
  let ?s = "shift_loop (of_nat PRIMITIVE_ROOT_OF_UNITY) 1 cs"
  have eq: "map (\<lambda>x. ev cs (of_nat PRIMITIVE_ROOT_OF_UNITY * x)) (compute_powers w n) = map (ev ?s) (compute_powers w n)"
    by (simp add: ev_shift_loop)
  have "fft_field (map (ev ?s) (compute_powers w n)) (compute_powers w n) True = Inr ?s"
    by (rule fft_field_inverse [of _ n k]) (use assms in simp_all)
  then show ?thesis
    unfolding eq using g shift_loop_inverse [OF g, of 1 1 cs] by (simp add: coset_fft_field_def shift_vals_def fr_inverse_def)
qed

definition rev_bits :: "nat \<Rightarrow> nat \<Rightarrow> nat" where
  "rev_bits k v = foldl (\<lambda>out i. 2 * out + (v div 2 ^ i) mod 2) 0 [0..<k]"

lemma trailing_zeros_pow [simp]: "trailing_zeros (2 ^ k) = k"
  by (induction k) (simp_all add: trailing_zeros.simps [of "Suc 0"] trailing_zeros.simps [of "2 * 2 ^ _"])

lemma reverse_bits_pow: "reverse_bits v (2 ^ k) = rev_bits k v"
  by (simp add: reverse_bits_def rev_bits_def)

lemma rev_bits_0 [simp]: "rev_bits 0 v = 0"
  by (simp add: rev_bits_def)

lemma rev_bits_Suc: "rev_bits (Suc k) v = 2 * rev_bits k v + (v div 2 ^ k) mod 2"
  by (simp add: rev_bits_def)

lemma rev_bits_Suc': "rev_bits (Suc k) v = (v mod 2) * 2 ^ k + rev_bits k (v div 2)"
proof (induction k)
  case (Suc k)
  have "rev_bits (Suc (Suc k)) v = 2 * ((v mod 2) * 2 ^ k + rev_bits k (v div 2)) + (v div 2 ^ Suc k) mod 2"
    by (subst rev_bits_Suc) (simp add: Suc)
  then show ?case by (simp add: rev_bits_Suc [of k "v div 2"] div_mult2_eq)
qed (simp add: rev_bits_Suc)

lemma rev_bits_less: "rev_bits k v < 2 ^ k"
proof (induction k)
  case (Suc k)
  have "(v div 2 ^ k) mod 2 < 2" by simp
  with Suc show ?case by (simp add: rev_bits_Suc)
qed simp

lemma rev_bits_twice: "rev_bits k (rev_bits k v) = v mod 2 ^ k"
proof (induction k)
  case (Suc k)
  have "rev_bits (Suc k) (rev_bits (Suc k) v) = (v div 2 ^ k) mod 2 * 2 ^ k + rev_bits k (rev_bits k v)"
    unfolding rev_bits_Suc' [of k "rev_bits (Suc k) v"] unfolding rev_bits_Suc [of k v] by simp
  also have "\<dots> = v mod 2 ^ Suc k" using mod_mult2_eq [of v "2 ^ k" 2] by (simp add: Suc mult.commute)
  finally show ?case .
qed simp

lemma rev_bits_split: "rev_bits (a + b) v mod 2 ^ a = rev_bits a (v div 2 ^ b)"
proof (induction a)
  case (Suc a)
  have "rev_bits (Suc a + b) v mod 2 ^ Suc a = (2 * rev_bits (a + b) v + (v div 2 ^ (a + b)) mod 2) mod (2 * 2 ^ a)"
    by (simp add: rev_bits_Suc)
  also have "\<dots> = 2 * (rev_bits (a + b) v mod 2 ^ a) + (v div 2 ^ (a + b)) mod 2"
    by (subst mod_mult2_eq) simp
  also have "\<dots> = rev_bits (Suc a) (v div 2 ^ b)"
    using div_mult2_eq [of v "2 ^ b" "2 ^ a"] by (simp add: Suc rev_bits_Suc power_add mult.commute)
  finally show ?case .
qed simp

lemma bit_reversal_eq:
  assumes "length xs = 2 ^ k"
  shows "bit_reversal_permutation xs = map (\<lambda>j. xs ! rev_bits k j) [0..<2 ^ k]"
proof -
  let ?n = "2 ^ k :: nat"
  let ?ps = "map (\<lambda>i. (rev_bits k i, xs ! i)) [0..<?n]" and ?qs = "map (\<lambda>j. (j, xs ! rev_bits k j)) [0..<?n]"
  have ps: "map (\<lambda>(index, v). (reverse_bits index (length xs), v)) (enumerated xs) = ?ps"
    by (rule nth_equalityI) (simp_all add: nth_enumerate_eq assms reverse_bits_pow)
  have inv: "rev_bits k (rev_bits k i) = i" if "i < ?n" for i using rev_bits_twice [of k i] that by simp
  have inj: "inj_on (rev_bits k) {0..<?n}" by (rule inj_on_inverseI [of _ "rev_bits k"]) (simp add: inv)
  have "set ?ps = set ?qs"
  proof (intro set_eqI iffI)
    fix e assume "e \<in> set ?ps"
    then obtain i where "i < ?n" "e = (rev_bits k i, xs ! i)" by auto
    then show "e \<in> set ?qs" using inv [of i] rev_bits_less [of k i] by (auto intro!: image_eqI [of _ _ "rev_bits k i"])
  next
    fix e assume "e \<in> set ?qs"
    then obtain j where "j < ?n" "e = (j, xs ! rev_bits k j)" by auto
    then show "e \<in> set ?ps" using inv [of j] rev_bits_less [of k j] by (auto intro!: image_eqI [of _ _ "rev_bits k j"])
  qed
  moreover have "distinct ?ps" using inj by (auto simp: distinct_map inj_on_def)
  moreover have "distinct ?qs" by (simp add: distinct_map inj_on_def)
  ultimately have "mset ?ps = mset ?qs" by (simp only: set_eq_iff_mset_eq_distinct)
  moreover have "inj_on fst (set ?ps)" using inj by (auto simp: inj_on_def)
  ultimately have "sort_key fst ?ps = ?qs" by (intro sort_key_inj_key_eq) (simp_all add: comp_def)
  then show ?thesis unfolding bit_reversal_permutation_def ps by simp
qed

lemma bit_reversal_nth:
  "length xs = 2 ^ k \<Longrightarrow> j < 2 ^ k \<Longrightarrow> bit_reversal_permutation xs ! j = xs ! rev_bits k j"
  by (simp add: bit_reversal_eq)

lemma bit_reversal_involutive:
  assumes "length xs = 2 ^ k"
  shows "bit_reversal_permutation (bit_reversal_permutation xs) = xs"
proof (rule nth_equalityI)
  have len: "length (bit_reversal_permutation xs) = 2 ^ k" by (simp add: bit_reversal_eq [OF assms])
  then show "length (bit_reversal_permutation (bit_reversal_permutation xs)) = length xs" by (simp add: bit_reversal_eq assms)
  fix j assume "j < length (bit_reversal_permutation (bit_reversal_permutation xs))"
  then have "j < 2 ^ k" using len by (simp add: bit_reversal_eq)
  then show "bit_reversal_permutation (bit_reversal_permutation xs) ! j = xs ! j"
    using bit_reversal_nth [OF len] bit_reversal_nth [OF assms rev_bits_less, of j] rev_bits_twice [of k j] by simp
qed


section \<open>Recovery of a polynomial\<close>

text \<open>
  What the recovery relies on in the curve library: the root of the extended domain has exactly that
  order, the root of the domain of cells is its power, the field has a large characteristic, and the
  shift of the coset is not itself in the domain.
\<close>

definition roots_ok :: "(nat \<Rightarrow> 'f option) \<Rightarrow> 'f::field \<Rightarrow> bool" where
  "roots_ok R w \<longleftrightarrow> R FIELD_ELEMENTS_PER_EXT_BLOB = Some w \<and> primitive_root w FIELD_ELEMENTS_PER_EXT_BLOB
     \<and> R CELLS_PER_EXT_BLOB = Some (w ^ FIELD_ELEMENTS_PER_CELL)
     \<and> (of_nat FIELD_ELEMENTS_PER_EXT_BLOB :: 'f) \<noteq> 0
     \<and> (of_nat PRIMITIVE_ROOT_OF_UNITY :: 'f) \<noteq> 0 \<and> (of_nat PRIMITIVE_ROOT_OF_UNITY :: 'f) ^ FIELD_ELEMENTS_PER_EXT_BLOB \<noteq> 1"

lemma cell_sizes:
  "FIELD_ELEMENTS_PER_EXT_BLOB = 2 ^ 13" "CELLS_PER_EXT_BLOB = 2 ^ 7" "FIELD_ELEMENTS_PER_CELL = 2 ^ 6" "FIELD_ELEMENTS_PER_BLOB = 2 ^ 12"
  "CELLS_PER_EXT_BLOB * FIELD_ELEMENTS_PER_CELL = FIELD_ELEMENTS_PER_EXT_BLOB"
  by (simp_all add: FIELD_ELEMENTS_PER_EXT_BLOB_def CELLS_PER_EXT_BLOB_def FIELD_ELEMENTS_PER_CELL_def FIELD_ELEMENTS_PER_BLOB_def)

lemma cell_sizes_pos [simp]: "0 < FIELD_ELEMENTS_PER_CELL" "0 < CELLS_PER_EXT_BLOB" "0 < FIELD_ELEMENTS_PER_EXT_BLOB"
  by (simp_all add: cell_sizes)

lemma cell_position: "c < CELLS_PER_EXT_BLOB \<Longrightarrow> t < FIELD_ELEMENTS_PER_CELL
    \<Longrightarrow> c * FIELD_ELEMENTS_PER_CELL + t < FIELD_ELEMENTS_PER_EXT_BLOB"
  by (simp add: cell_sizes)

lemma ext_roots_ok: "roots_ok R w \<Longrightarrow> compute_roots_of_unity R FIELD_ELEMENTS_PER_EXT_BLOB = Inr (compute_powers w FIELD_ELEMENTS_PER_EXT_BLOB)"
  using is_power_of_two_pow [of 13] by (simp add: compute_roots_of_unity_def roots_ok_def cell_sizes)

lemma cell_roots_ok:
  "roots_ok R w \<Longrightarrow> compute_roots_of_unity R CELLS_PER_EXT_BLOB = Inr (compute_powers (w ^ FIELD_ELEMENTS_PER_CELL) CELLS_PER_EXT_BLOB)"
  using is_power_of_two_pow [of 7] by (simp add: compute_roots_of_unity_def roots_ok_def cell_sizes)

lemma coset_for_cell_ok:
  assumes "roots_ok R w" and "c < CELLS_PER_EXT_BLOB"
  shows "coset_for_cell R c = Inr (map (\<lambda>t. w ^ rev_bits 13 (c * FIELD_ELEMENTS_PER_CELL + t)) [0..<FIELD_ELEMENTS_PER_CELL])"
proof -
  let ?r = "compute_powers w FIELD_ELEMENTS_PER_EXT_BLOB"
  have len: "length (bit_reversal_permutation ?r) = FIELD_ELEMENTS_PER_EXT_BLOB"
    by (simp add: bit_reversal_eq [of _ 13] cell_sizes)
  have nth: "bit_reversal_permutation ?r ! j = w ^ rev_bits 13 j" if "j < FIELD_ELEMENTS_PER_EXT_BLOB" for j
    using bit_reversal_nth [of ?r 13 j] rev_bits_less [of 13 j] that by (simp add: cell_sizes)
  have "take FIELD_ELEMENTS_PER_CELL (drop (FIELD_ELEMENTS_PER_CELL * c) (bit_reversal_permutation ?r))
      = map (\<lambda>t. w ^ rev_bits 13 (c * FIELD_ELEMENTS_PER_CELL + t)) [0..<FIELD_ELEMENTS_PER_CELL]"
  proof (rule nth_equalityI)
    have "c * FIELD_ELEMENTS_PER_CELL + FIELD_ELEMENTS_PER_CELL \<le> FIELD_ELEMENTS_PER_EXT_BLOB" using assms(2) by (simp add: cell_sizes)
    then show "length (take FIELD_ELEMENTS_PER_CELL (drop (FIELD_ELEMENTS_PER_CELL * c) (bit_reversal_permutation ?r)))
        = length (map (\<lambda>t. w ^ rev_bits 13 (c * FIELD_ELEMENTS_PER_CELL + t)) [0..<FIELD_ELEMENTS_PER_CELL])"
      using len by (simp add: mult.commute)
  next
    fix t assume "t < length (take FIELD_ELEMENTS_PER_CELL (drop (FIELD_ELEMENTS_PER_CELL * c) (bit_reversal_permutation ?r)))"
    then have t: "t < FIELD_ELEMENTS_PER_CELL" by simp
    note pos = cell_position [OF assms(2) t]
    show "take FIELD_ELEMENTS_PER_CELL (drop (FIELD_ELEMENTS_PER_CELL * c) (bit_reversal_permutation ?r)) ! t
        = map (\<lambda>t. w ^ rev_bits 13 (c * FIELD_ELEMENTS_PER_CELL + t)) [0..<FIELD_ELEMENTS_PER_CELL] ! t"
      using t pos nth [OF pos] len by (simp add: mult.commute)
  qed
  then show ?thesis using assms ext_roots_ok [OF assms(1)] by (simp add: coset_for_cell_def EXT_ROOTS_OF_UNITY_BRP_def)
qed

text \<open>The extended evaluation while cells are placed: the given cells evaluate \<open>P\<close>, the rest is zero.\<close>

definition placed :: "'f::field list \<Rightarrow> 'f \<Rightarrow> 'f list \<times> bool list \<Rightarrow> bool" where
  "placed P w = (\<lambda>(ext, present). length ext = FIELD_ELEMENTS_PER_EXT_BLOB \<and> length present = CELLS_PER_EXT_BLOB
     \<and> (\<forall>c<CELLS_PER_EXT_BLOB. \<forall>t<FIELD_ELEMENTS_PER_CELL. ext ! (c * FIELD_ELEMENTS_PER_CELL + t)
          = (if present ! c then ev P (w ^ rev_bits 13 (c * FIELD_ELEMENTS_PER_CELL + t)) else 0)))"

lemma cell_order: "c < d \<Longrightarrow> t < FIELD_ELEMENTS_PER_CELL \<Longrightarrow> c * FIELD_ELEMENTS_PER_CELL + t < d * FIELD_ELEMENTS_PER_CELL"
  by (simp add: cell_sizes)

lemma place_cell_ok:
  assumes ok: "placed P w (ext, present)" and c: "c < CELLS_PER_EXT_BLOB"
    and cell: "cell = map (\<lambda>t. ev P (w ^ rev_bits 13 (c * FIELD_ELEMENTS_PER_CELL + t))) [0..<FIELD_ELEMENTS_PER_CELL]"
  shows "\<exists>ext'. place_cell (ext, present) (c, cell) = Inr (ext', present[c := True]) \<and> placed P w (ext', present[c := True])"
proof -
  let ?s = "c * FIELD_ELEMENTS_PER_CELL"
  let ?e = "take ?s ext @ cell @ drop (?s + FIELD_ELEMENTS_PER_CELL) ext"
  have len: "length ext = FIELD_ELEMENTS_PER_EXT_BLOB" "length present = CELLS_PER_EXT_BLOB" "length cell = FIELD_ELEMENTS_PER_CELL"
    using ok cell by (simp_all add: placed_def)
  have room: "?s + FIELD_ELEMENTS_PER_CELL \<le> length ext" using c by (simp add: len cell_sizes)
  have "?e ! (d * FIELD_ELEMENTS_PER_CELL + t)
      = (if present[c := True] ! d then ev P (w ^ rev_bits 13 (d * FIELD_ELEMENTS_PER_CELL + t)) else 0)"
    if d: "d < CELLS_PER_EXT_BLOB" and t: "t < FIELD_ELEMENTS_PER_CELL" for d t
  proof -
    consider "d < c" | "d = c" | "c < d" by linarith
    then show ?thesis
    proof cases
      case 1
      then show ?thesis using cell_order [OF 1 t] ok d t room by (simp add: nth_append placed_def)
    next
      case 2
      then show ?thesis using t c room len cell by (simp add: nth_append)
    next
      case 3
      have after: "?s + FIELD_ELEMENTS_PER_CELL \<le> d * FIELD_ELEMENTS_PER_CELL" using 3 by (simp add: cell_sizes)
      then have "\<not> d * FIELD_ELEMENTS_PER_CELL + t - ?s < FIELD_ELEMENTS_PER_CELL" by linarith
      with after show ?thesis using 3 ok d t room len cell_position [OF d t] by (simp add: nth_append placed_def)
    qed
  qed
  moreover have "length ?e = FIELD_ELEMENTS_PER_EXT_BLOB" using room len by simp
  ultimately have "placed P w (?e, present[c := True])" using len by (simp add: placed_def)
  then show ?thesis using c len by (intro exI [of _ ?e]) (simp add: place_cell_def Let_def)
qed

lemma place_cells_ok:
  assumes "roots_ok R w"
  shows "placed P w (ext, present) \<Longrightarrow> (\<And>c. c \<in> set idxs \<Longrightarrow> c < CELLS_PER_EXT_BLOB)
    \<Longrightarrow> mapR (\<lambda>c. bindR (coset_for_cell R c) (\<lambda>coset. Inr (map (ev P) coset))) idxs = Inr evals
    \<Longrightarrow> \<exists>ext' present'. foldR place_cell (ext, present) (zip idxs evals) = Inr (ext', present') \<and> placed P w (ext', present')
      \<and> (\<forall>c<CELLS_PER_EXT_BLOB. present' ! c = (present ! c \<or> c \<in> set idxs))"
proof (induction idxs arbitrary: ext present evals)
  case Nil
  then show ?case by auto
next
  case (Cons c idxs)
  have c: "c < CELLS_PER_EXT_BLOB" using Cons.prems(2) by simp
  obtain rest where evals: "evals = map (\<lambda>t. ev P (w ^ rev_bits 13 (c * FIELD_ELEMENTS_PER_CELL + t))) [0..<FIELD_ELEMENTS_PER_CELL] # rest"
    and rest: "mapR (\<lambda>c. bindR (coset_for_cell R c) (\<lambda>coset. Inr (map (ev P) coset))) idxs = Inr rest"
    using Cons.prems(3) by (auto simp: coset_for_cell_ok [OF assms c] bindR_eq_Inr comp_def)
  obtain ext1 where step: "place_cell (ext, present) (c, hd evals) = Inr (ext1, present[c := True])"
    and ok: "placed P w (ext1, present[c := True])"
    using place_cell_ok [OF Cons.prems(1) c] evals by auto
  have "present[c := True] ! d = (d = c \<or> present ! d)" if "d < CELLS_PER_EXT_BLOB" for d
    using Cons.prems(1) c that by (auto simp: placed_def nth_list_update)
  moreover obtain ext' present' where "foldR place_cell (ext1, present[c := True]) (zip idxs rest) = Inr (ext', present')"
    "placed P w (ext', present')" "\<forall>d<CELLS_PER_EXT_BLOB. present' ! d = (present[c := True] ! d \<or> d \<in> set idxs)"
    using Cons.IH [OF ok _ rest] Cons.prems(2) by auto
  ultimately show ?case using step evals by auto
qed


lemma spread_loop:
  assumes "0 < L"
  shows "(\<And>j. s \<le> j \<Longrightarrow> j < s + length cs \<Longrightarrow> j * L < length out \<and> out ! (j * L) = 0) \<Longrightarrow>
    ev (fold (\<lambda>(i, c) out. out[i * L := c]) (List.enumerate s cs) out) x = ev out x + x ^ (s * L) * ev cs (x ^ L)"
proof (induction cs arbitrary: s out)
  case Nil
  then show ?case by simp
next
  case (Cons c cs)
  let ?out = "out[s * L := c]"
  have "ev (fold (\<lambda>(i, c) out. out[i * L := c]) (List.enumerate (Suc s) cs) ?out) x = ev ?out x + x ^ (Suc s * L) * ev cs (x ^ L)"
    by (rule Cons.IH) (use Cons.prems assms in \<open>auto simp: nth_list_update\<close>)
  moreover have "ev ?out x = ev out x + c * x ^ (s * L)" using Cons.prems [of s] by (simp add: ev_update)
  ultimately show ?case by (simp add: power_add, simp add: algebra_simps)
qed

definition spread :: "nat \<Rightarrow> 'f::field list \<Rightarrow> 'f list" where
  "spread n cs = fold (\<lambda>(i, c) out. out[i * FIELD_ELEMENTS_PER_CELL := c]) (enumerated cs) (replicate n 0)"

lemma length_spread [simp]: "length (spread n cs) = n"
  unfolding spread_def by (subst length_fold_update) auto

lemma ev_spread:
  assumes "cs \<noteq> []" and "(length cs - 1) * FIELD_ELEMENTS_PER_CELL < n"
  shows "ev (spread n cs) x = ev cs (x ^ FIELD_ELEMENTS_PER_CELL)"
proof -
  have "j * FIELD_ELEMENTS_PER_CELL < n" if "j < length cs" for j
    using that assms(2) mult_le_mono1 [of j "length cs - 1" FIELD_ELEMENTS_PER_CELL] by linarith
  then show ?thesis
    unfolding spread_def using spread_loop [OF cell_sizes_pos(1), of 0 cs "replicate n 0" x] by simp
qed

text \<open>The polynomial that vanishes exactly on the cosets of the missing cells.\<close>

definition missing_roots :: "'f::field \<Rightarrow> u64 list \<Rightarrow> 'f list" where
  "missing_roots w missing = map (\<lambda>c. w ^ (FIELD_ELEMENTS_PER_CELL * rev_bits 7 c)) missing"

lemma construct_vanishing_ok:
  assumes "roots_ok R w" and "\<And>c. c \<in> set missing \<Longrightarrow> c < CELLS_PER_EXT_BLOB" and "length missing < CELLS_PER_EXT_BLOB"
  shows "construct_vanishing_polynomial R missing
    = Inr (spread FIELD_ELEMENTS_PER_EXT_BLOB (vanishing_polynomialcoeff (missing_roots w missing)))"
proof -
  have less: "rev_bits 7 c < CELLS_PER_EXT_BLOB" for c using rev_bits_less [of 7 c] by (simp add: cell_sizes)
  have rb: "reverse_bits c CELLS_PER_EXT_BLOB = rev_bits 7 c" for c by (simp only: cell_sizes(2) reverse_bits_pow)
  have "mapR (\<lambda>index. bindR (failIf (index \<ge> CELLS_PER_EXT_BLOB) (CellIndexOutOfRange index CELLS_PER_EXT_BLOB)) (\<lambda>_.
          Inr (compute_powers (w ^ FIELD_ELEMENTS_PER_CELL) CELLS_PER_EXT_BLOB ! reverse_bits index CELLS_PER_EXT_BLOB))) missing
      = Inr (missing_roots w missing)"
    unfolding missing_roots_def
  proof (rule mapR_Inr_map)
    fix c assume "c \<in> set missing"
    then show "bindR (failIf (c \<ge> CELLS_PER_EXT_BLOB) (CellIndexOutOfRange c CELLS_PER_EXT_BLOB)) (\<lambda>_.
          Inr (compute_powers (w ^ FIELD_ELEMENTS_PER_CELL) CELLS_PER_EXT_BLOB ! reverse_bits c CELLS_PER_EXT_BLOB))
        = Inr (w ^ (FIELD_ELEMENTS_PER_CELL * rev_bits 7 c))"
      using assms(2) [of c] less [of c] rb [of c] by (simp add: power_mult)
  qed
  then show ?thesis
    using assms(3) cell_roots_ok [OF assms(1)] by (simp add: construct_vanishing_polynomial_def spread_def Let_def)
qed

lemma missing_product:
  assumes "x ^ FIELD_ELEMENTS_PER_CELL = w ^ (FIELD_ELEMENTS_PER_CELL * rev_bits 7 c)" and "c \<in> set missing"
  shows "ev (vanishing_polynomialcoeff (missing_roots w missing)) (x ^ FIELD_ELEMENTS_PER_CELL) = 0"
  using assms by (auto simp: ev_vanishing_eq_0 missing_roots_def)

lemma root_of_cell:
  assumes "roots_ok R w"
  shows "(w ^ i) ^ FIELD_ELEMENTS_PER_CELL = w ^ (FIELD_ELEMENTS_PER_CELL * (i mod CELLS_PER_EXT_BLOB))"
proof -
  let ?L = FIELD_ELEMENTS_PER_CELL and ?M = CELLS_PER_EXT_BLOB
  have one: "w ^ (?M * ?L) = 1" using assms by (simp add: roots_ok_def primitive_root_def cell_sizes(5))
  have "i * ?L = ?M * ?L * (i div ?M) + ?L * (i mod ?M)"
    by (subst mult_div_mod_eq [of ?M i, symmetric]) (simp only: distrib_right distrib_left mult_ac)
  then have "(w ^ i) ^ ?L = (w ^ (?M * ?L)) ^ (i div ?M) * w ^ (?L * (i mod ?M))"
    by (simp only: power_mult [symmetric] power_add [symmetric])
  then show ?thesis by (simp add: one)
qed

lemma coset_nonzero:
  assumes "roots_ok R w"
  shows "ev (vanishing_polynomialcoeff (missing_roots w missing)) ((of_nat PRIMITIVE_ROOT_OF_UNITY * w ^ i) ^ FIELD_ELEMENTS_PER_CELL) \<noteq> 0"
proof
  let ?g = "of_nat PRIMITIVE_ROOT_OF_UNITY :: 'a" and ?L = FIELD_ELEMENTS_PER_CELL and ?M = CELLS_PER_EXT_BLOB
  have one: "w ^ (?M * ?L) = 1" using assms by (simp add: roots_ok_def primitive_root_def cell_sizes(5))
  assume "ev (vanishing_polynomialcoeff (missing_roots w missing)) ((?g * w ^ i) ^ ?L) = 0"
  then obtain r where "(?g * w ^ i) ^ ?L = w ^ (?L * r)" by (auto simp: ev_vanishing_eq_0 missing_roots_def)
  then have "((?g * w ^ i) ^ ?L) ^ ?M = (w ^ (?L * r)) ^ ?M" by simp
  then have "?g ^ (?M * ?L) * (w ^ (?M * ?L)) ^ i = (w ^ (?M * ?L)) ^ r"
    by (simp add: power_mult_distrib mult_ac flip: power_mult)
  then show False using one assms by (simp add: cell_sizes(5) roots_ok_def)
qed


lemma divide_pointwise_ok:
  assumes "length ys = length xs" and "length ds = length xs" and "\<And>i. i < length xs \<Longrightarrow> ds ! i \<noteq> 0 \<and> ys ! i = xs ! i * ds ! i"
  shows "divide_pointwise ys ds = Inr xs"
proof -
  have "divide_pointwise ys ds = Inr (map (\<lambda>(y, d). y * inverse d) (zip ys ds))"
    unfolding divide_pointwise_def
    by (rule mapR_Inr_map) (use assms in \<open>auto simp: set_zip fr_inverse_def\<close>)
  also have "map (\<lambda>(y, d). y * inverse d) (zip ys ds) = xs"
    by (rule nth_equalityI) (use assms in simp_all)
  finally show ?thesis .
qed

lemma placed_times_zero:
  assumes R: "roots_ok R w" and ok: "placed P w (ext, present)" and i: "i < FIELD_ELEMENTS_PER_EXT_BLOB"
    and missing: "\<And>c. c < CELLS_PER_EXT_BLOB \<Longrightarrow> \<not> present ! c \<Longrightarrow> c \<in> set missing"
  shows "ev (vanishing_polynomialcoeff (missing_roots w missing)) ((w ^ i) ^ FIELD_ELEMENTS_PER_CELL) * bit_reversal_permutation ext ! i
    = ev (vanishing_polynomialcoeff (missing_roots w missing)) ((w ^ i) ^ FIELD_ELEMENTS_PER_CELL) * ev P (w ^ i)"
proof -
  let ?j = "rev_bits 13 i"
  let ?c = "?j div FIELD_ELEMENTS_PER_CELL" and ?t = "?j mod FIELD_ELEMENTS_PER_CELL"
  have j: "?j < FIELD_ELEMENTS_PER_EXT_BLOB" using rev_bits_less [of 13 i] by (simp add: cell_sizes)
  have c: "?c < CELLS_PER_EXT_BLOB" using j by (simp add: cell_sizes)
  have jj: "?c * FIELD_ELEMENTS_PER_CELL + ?t = ?j" by simp
  have again: "rev_bits 13 ?j = i" using rev_bits_twice [of 13 i] i by (simp add: cell_sizes)
  have "length ext = 2 ^ 13" using ok by (simp add: placed_def cell_sizes)
  then have "bit_reversal_permutation ext ! i = ext ! ?j" by (rule bit_reversal_nth) (use i in \<open>simp only: cell_sizes(1)\<close>)
  moreover have "ext ! (?c * FIELD_ELEMENTS_PER_CELL + ?t)
      = (if present ! ?c then ev P (w ^ rev_bits 13 (?c * FIELD_ELEMENTS_PER_CELL + ?t)) else 0)"
    using ok c mod_less_divisor [OF cell_sizes_pos(1), of ?j] unfolding placed_def prod.case by blast
  then have "ext ! ?j = (if present ! ?c then ev P (w ^ rev_bits 13 ?j) else 0)" by (simp only: jj)
  ultimately have val: "bit_reversal_permutation ext ! i = (if present ! ?c then ev P (w ^ i) else 0)" by (simp only: again)
  show ?thesis
  proof (cases "present ! ?c")
    case False
    have "i mod CELLS_PER_EXT_BLOB = rev_bits 7 ?c"
      using rev_bits_split [of 7 6 ?j] again by (simp add: cell_sizes)
    then have "(w ^ i) ^ FIELD_ELEMENTS_PER_CELL = w ^ (FIELD_ELEMENTS_PER_CELL * rev_bits 7 ?c)" by (simp add: root_of_cell [OF R])
    from missing_product [OF this missing [OF c False]] show ?thesis by (simp only: mult_zero_left)
  qed (simp add: val)
qed

lemma padded_product:
  assumes "P \<noteq> []" and "length P + (length v - 1) * FIELD_ELEMENTS_PER_CELL \<le> n" and "v \<noteq> []"
  obtains Q where "length Q = n" and "\<And>x. ev Q x = ev v (x ^ FIELD_ELEMENTS_PER_CELL) * ev P x"
proof -
  let ?s = "spread ((length v - 1) * FIELD_ELEMENTS_PER_CELL + 1) v"
  let ?Q = "multiply_polynomialcoeff P ?s"
  have "length ?s \<noteq> 0" by simp
  then have "?s \<noteq> []" unfolding length_0_conv .
  then have "length ?Q \<le> n" using assms(1,2) by simp
  moreover have "ev ?Q x = ev v (x ^ FIELD_ELEMENTS_PER_CELL) * ev P x" for x using assms(3) by (simp add: ev_multiply ev_spread)
  ultimately show thesis
    by (intro that [of "?Q @ replicate (n - length ?Q) 0"])
      (simp_all only: length_append length_replicate ev_append ev_replicate_0 mult_zero_right add_0_right le_add_diff_inverse)
qed

lemma recover_from_placed:
  assumes R: "roots_ok R w" and P: "length P = FIELD_ELEMENTS_PER_BLOB"
    and fold: "foldR place_cell (replicate FIELD_ELEMENTS_PER_EXT_BLOB 0, replicate CELLS_PER_EXT_BLOB False) (zip idxs evals) = Inr (ext, present)"
    and ok: "placed P w (ext, present)" and len: "length idxs = length evals"
    and half: "2 * length (filter (\<lambda>c. \<not> present ! c) [0..<CELLS_PER_EXT_BLOB]) \<le> CELLS_PER_EXT_BLOB"
  shows "recover_polynomialcoeff R idxs evals = Inr P"
proof -
  let ?N = FIELD_ELEMENTS_PER_EXT_BLOB and ?L = FIELD_ELEMENTS_PER_CELL and ?g = "of_nat PRIMITIVE_ROOT_OF_UNITY :: 'a"
  let ?roots = "compute_powers w ?N"
  define missing where "missing = filter (\<lambda>c. \<not> present ! c) [0..<CELLS_PER_EXT_BLOB]"
  define v where "v = vanishing_polynomialcoeff (missing_roots w missing)"
  define Z where "Z = spread ?N v"
  have N: "?N = 2 ^ 13" and w: "primitive_root w ?N" and nz: "(of_nat ?N :: 'a) \<noteq> 0" and g: "?g \<noteq> 0"
    using R by (simp_all add: cell_sizes roots_ok_def)
  have lenv: "length v = Suc (length missing)" by (simp add: v_def missing_roots_def)
  then have v: "v \<noteq> []" "length v - 1 = length missing" by auto
  have m: "length missing * ?L + length P \<le> ?N" "length missing < CELLS_PER_EXT_BLOB"
    using half unfolding missing_def [symmetric] by (simp_all add: P cell_sizes)
  have Z: "length Z = ?N" "ev Z x = ev v (x ^ ?L)" for x
    unfolding Z_def using v m P by (simp_all add: ev_spread cell_sizes(4))
  have P0: "P \<noteq> []" using P by (auto simp: cell_sizes)
  obtain Q where Q: "length Q = ?N" "\<And>x. ev Q x = ev v (x ^ ?L) * ev P x"
    using padded_product [OF P0 _ v(1), of ?N] v(2) m(1) by (auto simp: add.commute)
  have times: "map (\<lambda>(a, b). a * b) (zip (map (ev Z) ?roots) (bit_reversal_permutation ext)) = map (ev Q) ?roots"
  proof (rule nth_equalityI)
    have b: "length (bit_reversal_permutation ext) = ?N" using ok by (simp add: placed_def bit_reversal_eq [of _ 13] cell_sizes)
    then show "length (map (\<lambda>(a, b). a * b) (zip (map (ev Z) ?roots) (bit_reversal_permutation ext))) = length (map (ev Q) ?roots)" by simp
    fix i assume "i < length (map (\<lambda>(a, b). a * b) (zip (map (ev Z) ?roots) (bit_reversal_permutation ext)))"
    then have i: "i < ?N" by simp
    show "map (\<lambda>(a, b). a * b) (zip (map (ev Z) ?roots) (bit_reversal_permutation ext)) ! i = map (ev Q) ?roots ! i"
      using i b placed_times_zero [OF R ok i, of missing] by (simp add: Z Q v_def missing_def)
  qed
  obtain Pn where Pn: "Pn = P @ replicate (?N - length P) 0" by blast
  then have Pn': "length Pn = ?N" "ev Pn x = ev P x" "take FIELD_ELEMENTS_PER_BLOB Pn = P" for x
    using P m by (simp_all add: ev_append)
  have quotient: "divide_pointwise (map (\<lambda>x. ev Q (?g * x)) ?roots) (map (\<lambda>x. ev Z (?g * x)) ?roots) = Inr (map (\<lambda>x. ev Pn (?g * x)) ?roots)"
    by (rule divide_pointwise_ok) (simp_all add: Z Q Pn'(2) v_def coset_nonzero [OF R])
  have "construct_vanishing_polynomial R missing = Inr Z"
    unfolding Z_def v_def by (rule construct_vanishing_ok [OF R _ m(2)]) (simp add: missing_def)
  then show ?thesis
    using fold len times quotient
    by (simp add: recover_polynomialcoeff_def Let_def ext_roots_ok [OF R] missing_def [symmetric] Pn'(3)
        fft_field_forward [OF Z(1) N w] fft_field_inverse [OF Q(1) N w nz] coset_fft_forward [OF Q(1) N w] coset_fft_forward [OF Z(1) N w]
        coset_fft_inverse [OF Pn'(1) N w nz g])
qed


section \<open>Properties\<close>

text \<open>
  C36: the Fourier transform of the code is polynomial evaluation, and its inverse is interpolation.
  On a domain generated by a root of unity of order a power of two, the forward transform returns the
  values of the coefficient-form polynomial at the successive powers of the root, and the inverse
  transform of these values returns the coefficients.
\<close>

theorem fft_evaluates_and_inverts:
  fixes vals :: "'f::field list"
  assumes "length vals = 2 ^ k" and "primitive_root w (2 ^ k)" and "(of_nat (2 ^ k) :: 'f) \<noteq> 0"
  shows "\<exists>ys. fft_field vals (compute_powers w (2 ^ k)) False = Inr ys \<and> length ys = 2 ^ k
    \<and> (\<forall>i<2 ^ k. ys ! i = evaluate_polynomialcoeff vals (w ^ i))
    \<and> fft_field ys (compute_powers w (2 ^ k)) True = Inr vals"
  using fft_field_forward [OF assms(1) refl assms(2)] fft_field_inverse [OF assms(1) refl assms(2,3)]
  by (intro exI [of _ "map (ev vals) (compute_powers w (2 ^ k))"] conjI) simp_all

theorem fft_evaluates_and_inverts_witness:
  "primitive_root (-1 :: rat) (2 ^ 1) \<and>
   (\<exists>ys. fft_field [3, 4 :: rat] (compute_powers (-1) (2 ^ 1)) False = Inr ys \<and> length ys = 2 ^ 1
    \<and> (\<forall>i<2 ^ 1. ys ! i = evaluate_polynomialcoeff [3, 4] ((-1) ^ i))
    \<and> fft_field ys (compute_powers (-1) (2 ^ 1)) True = Inr [3, 4])"
proof -
  have "primitive_root (-1 :: rat) (2 ^ 1)"
    by (auto simp: primitive_root_def less_Suc_eq numeral_2_eq_2)
  then show ?thesis using fft_evaluates_and_inverts [of "[3, 4 :: rat]" 1 "-1"] by simp
qed

lemma interpolation_step_error: "interpolation_step xs ys out e = Inl er \<Longrightarrow> er = DuplicateInterpolationPoint"
  by (auto simp: interpolation_step_def Let_def bindR_eq_Inl ok_or_eq_Inl split: prod.splits)

lemma foldR_error: "foldR f s es = Inl er \<Longrightarrow> (\<And>s e er. f s e = Inl er \<Longrightarrow> Q er) \<Longrightarrow> Q er"
  by (induction es arbitrary: s) (auto simp: bindR_eq_Inl)

lemma foldR_step: "foldR f s es = Inr t \<Longrightarrow> e \<in> set es \<Longrightarrow> \<exists>u v. f u e = Inr v"
  by (induction es arbitrary: s) (auto simp: bindR_eq_Inr)

lemma interpolate_duplicate:
  assumes "\<not> distinct xs" and "length xs = length ys"
  shows "interpolate_polynomialcoeff xs ys = Inl DuplicateInterpolationPoint"
proof (cases "foldR (interpolation_step xs ys) (replicate (length xs) 0) (enumerated xs)")
  case (Inl er)
  then have "er = DuplicateInterpolationPoint" by (rule foldR_error) (rule interpolation_step_error)
  then show ?thesis using Inl assms(2) by (simp add: interpolate_polynomialcoeff_def)
next
  case (Inr cs)
  obtain i j where ij: "i < length xs" "j < length xs" "i \<noteq> j" "xs ! i = xs ! j" using assms(1) by (auto simp: distinct_conv_nth)
  then have "(i, xs ! i) \<in> set (enumerated xs)" by (simp add: in_set_enumerate_eq)
  from foldR_step [OF Inr this] obtain u v where "interpolation_step xs ys u (i, xs ! i) = Inr v" by blast
  moreover have "ev (vanishing_polynomialcoeff (other_points i xs)) (xs ! i) = 0"
    unfolding ev_vanishing_eq_0 set_other_points using ij by auto
  ultimately show ?thesis by (simp add: interpolation_step_def interpolation_basis_eq fr_inverse_def)
qed

text \<open>
  C37: interpolation succeeds exactly on distinct points. For lists of points and values of the same
  length the interpolation returns a polynomial with as many coefficients as points that takes the
  given value at every point when the points are distinct, and the error for a duplicate point
  otherwise.
\<close>

theorem interpolation_exact:
  assumes "length xs = length ys"
  shows "if distinct xs
    then \<exists>cs. interpolate_polynomialcoeff xs ys = Inr cs \<and> length cs = length xs
      \<and> (\<forall>i<length xs. evaluate_polynomialcoeff cs (xs ! i) = ys ! i)
    else interpolate_polynomialcoeff xs ys = Inl DuplicateInterpolationPoint"
  using interpolate_correct [of xs ys] interpolate_duplicate [of xs ys] assms by simp

theorem interpolation_exact_witness:
  "\<exists>cs. interpolate_polynomialcoeff [0, 1, 2 :: rat] [5, 6, 9] = Inr cs \<and> length cs = 3
    \<and> evaluate_polynomialcoeff cs 2 = 9"
proof -
  have "\<exists>cs. interpolate_polynomialcoeff [0, 1, 2 :: rat] [5, 6, 9] = Inr cs \<and> length cs = 3
      \<and> (\<forall>i<3. evaluate_polynomialcoeff cs ([0, 1, 2] ! i) = [5, 6, 9] ! i)"
    using interpolation_exact [of "[0, 1, 2 :: rat]" "[5, 6, 9]"] by (simp add: numeral_3_eq_3)
  then obtain cs where "interpolate_polynomialcoeff [0, 1, 2 :: rat] [5, 6, 9] = Inr cs" "length cs = 3"
    "\<And>i. i < 3 \<Longrightarrow> evaluate_polynomialcoeff cs ([0, 1, 2] ! i) = [5, 6, 9] ! i" by blast
  from this(1,2) this(3) [of 2] show ?thesis by simp
qed

text \<open>
  C38: any half of the cells determines the blob. When at least half of the cells of an extended blob
  are given, each with the values of the blob polynomial on its coset, recovery succeeds and returns
  exactly the coefficients of that polynomial, whichever cells are missing.
\<close>

theorem recovery_correct:
  fixes P :: "'f::field list"
  assumes R: "roots_ok R w" and P: "length P = FIELD_ELEMENTS_PER_BLOB"
    and "distinct idxs" and idxs: "\<forall>c\<in>set idxs. c < CELLS_PER_EXT_BLOB" and "CELLS_PER_EXT_BLOB \<le> 2 * length idxs"
    and evals: "mapR (\<lambda>c. bindR (coset_for_cell R c) (\<lambda>coset. Inr (map (evaluate_polynomialcoeff P) coset))) idxs = Inr evals"
  shows "recover_polynomialcoeff R idxs evals = Inr P"
proof -
  have "placed P w (replicate FIELD_ELEMENTS_PER_EXT_BLOB 0, replicate CELLS_PER_EXT_BLOB False)"
    by (auto simp: placed_def cell_position)
  from place_cells_ok [OF R this _ evals] idxs obtain ext present where
    fold: "foldR place_cell (replicate FIELD_ELEMENTS_PER_EXT_BLOB 0, replicate CELLS_PER_EXT_BLOB False) (zip idxs evals) = Inr (ext, present)"
    and ok: "placed P w (ext, present)" and present: "\<And>c. c < CELLS_PER_EXT_BLOB \<Longrightarrow> present ! c \<longleftrightarrow> c \<in> set idxs"
    by auto
  have "length (filter (\<lambda>c. \<not> present ! c) [0..<CELLS_PER_EXT_BLOB]) = card ({0..<CELLS_PER_EXT_BLOB} - set idxs)"
    using present by (subst distinct_card [symmetric]) (auto intro!: arg_cong [of _ _ card])
  also have "\<dots> = CELLS_PER_EXT_BLOB - length idxs"
    using idxs distinct_card [OF assms(3)] by (subst card_Diff_subset) auto
  finally have "2 * length (filter (\<lambda>c. \<not> present ! c) [0..<CELLS_PER_EXT_BLOB]) \<le> CELLS_PER_EXT_BLOB" using assms(5) by simp
  then show ?thesis using recover_from_placed [OF R P fold ok] mapR_length [OF evals] by simp
qed

text \<open>The complex numbers have roots of unity of every order.\<close>

definition complex_root :: "nat \<Rightarrow> complex option" where
  "complex_root n = Some (cis (2 * pi / real n))"

lemma cis_primitive_root: "0 < n \<Longrightarrow> primitive_root (cis (2 * pi / real n)) n"
proof -
  assume n: "0 < n"
  have pow: "cis (2 * pi / real n) ^ d = cis (2 * pi * (real d / real n))" for d
    by (simp add: Complex.DeMoivre mult.commute)
  have "cis (2 * pi * (real d / real n)) \<noteq> 1" if d: "0 < d" "d < n" for d
  proof
    let ?t = "2 * pi * (real d / real n)"
    assume "cis ?t = 1"
    then have "cos ?t = 1" by (metis cis.simps(1) one_complex.simps(1))
    then obtain k :: int where k: "?t = of_int k * 2 * pi" using cos_one_2pi_int by blast
    then have "2 * pi * (real d / real n) = 2 * pi * of_int k" by (simp only: mult_ac)
    then have "real d / real n = of_int k" using pi_gt_zero by (simp only: mult_cancel_left) simp
    moreover have "0 < real d / real n" "real d / real n < 1" using d by simp_all
    ultimately have "0 < k" "k < 1" by simp_all
    then show False by linarith
  qed
  then show ?thesis using n by (simp add: primitive_root_def pow)
qed

lemma complex_root_ok: "roots_ok complex_root (cis (2 * pi / real FIELD_ELEMENTS_PER_EXT_BLOB))"
proof -
  have "cis (2 * pi / real CELLS_PER_EXT_BLOB) = cis (2 * pi / real FIELD_ELEMENTS_PER_EXT_BLOB) ^ FIELD_ELEMENTS_PER_CELL"
    by (simp add: Complex.DeMoivre cell_sizes)
  moreover have "(7::complex) ^ FIELD_ELEMENTS_PER_EXT_BLOB \<noteq> 1"
  proof
    assume "(7::complex) ^ FIELD_ELEMENTS_PER_EXT_BLOB = 1"
    then have "cmod 7 ^ FIELD_ELEMENTS_PER_EXT_BLOB = 1" by (metis norm_one norm_power)
    then show False using one_less_power [of "7::real" FIELD_ELEMENTS_PER_EXT_BLOB] by simp
  qed
  ultimately show ?thesis
    by (simp add: roots_ok_def complex_root_def cis_primitive_root PRIMITIVE_ROOT_OF_UNITY_def flip: length_greater_0_conv)
qed

theorem recovery_correct_witness:
  "\<exists>evals. mapR (\<lambda>c. bindR (coset_for_cell complex_root c) (\<lambda>coset.
       Inr (map (evaluate_polynomialcoeff (replicate FIELD_ELEMENTS_PER_BLOB 1)) coset))) [0..<64] = Inr evals
     \<and> recover_polynomialcoeff complex_root [0..<64] evals = Inr (replicate FIELD_ELEMENTS_PER_BLOB 1)"
proof -
  let ?f = "\<lambda>c. bindR (coset_for_cell complex_root c) (\<lambda>coset. Inr (map (evaluate_polynomialcoeff (replicate FIELD_ELEMENTS_PER_BLOB 1)) coset))"
  have "c \<in> set [0..<64] \<Longrightarrow> \<exists>y. ?f c = Inr y" for c
    by (simp add: coset_for_cell_ok [OF complex_root_ok] cell_sizes)
  then obtain g where "\<And>c. c \<in> set [0..<64] \<Longrightarrow> ?f c = Inr (g c)" by metis
  then have evals: "mapR ?f [0..<64] = Inr (map g [0..<64])" by (rule mapR_Inr_map)
  have "recover_polynomialcoeff complex_root [0..<64] (map g [0..<64]) = Inr (replicate FIELD_ELEMENTS_PER_BLOB 1)"
    by (rule recovery_correct [OF complex_root_ok _ _ _ _ evals]) (simp_all add: cell_sizes del: upt_rec_numeral)
  with evals show ?thesis by blast
qed

end
