(* ===== verification/Kzg.thy ===== *)
theory Kzg
  imports Polynomials "HOL-Library.List_Lexorder"
begin

text \<open>
  KZG commitments (\<open>crypto/kzg\<close>): the setup material, the byte encodings of scalars, points and cells,
  cell computation, recovery, and the batch verification of cell proofs. Scalars are elements of an
  arbitrary field, points are elements of arbitrary types; what the code calls in the crates
  \<open>ark-bls12-381\<close>, \<open>ark-ec\<close> and \<open>ark-ff\<close> beyond field arithmetic are fields of the record \<open>kzg_ext\<close> and
  of the record \<open>ext\<close>. Conversions between affine and projective coordinates are the identity.
\<close>

section \<open>External code and setup material (setup.rs)\<close>

record ('f, 'g1, 'g2) kzg_ext =
  kx_from_be_bytes_mod_order :: "bytes \<Rightarrow> 'f"
  kx_to_be_bytes :: "'f \<Rightarrow> bytes"
  kx_root_of_unity :: "nat \<Rightarrow> 'f option"
  kx_g1_msm :: "'g1 list \<Rightarrow> 'f list \<Rightarrow> 'g1"
  kx_g1_sub :: "'g1 \<Rightarrow> 'g1 \<Rightarrow> 'g1"
  kx_g1_mul :: "'g1 \<Rightarrow> 'f \<Rightarrow> 'g1"
  kx_g2_generator :: 'g2
  kx_g2_sub :: "'g2 \<Rightarrow> 'g2 \<Rightarrow> 'g2"
  kx_g2_mul :: "'g2 \<Rightarrow> 'f \<Rightarrow> 'g2"

record ('g1, 'g2) KzgSetup =
  g1_powers :: "'g1 list"
  g1_affine_powers :: "'g1 list"
  g2_powers :: "'g2 list"
  tau_g2 :: 'g2

datatype SetupFileError =
    MissingTauG2
  | InvalidUtf8 usize "usize option"
  | InvalidTextLineCount usize usize
  | InvalidTextCount usize
  | TextCountOverflow usize
  | InvalidHexLength usize usize usize
  | InvalidHexCharacter usize char
  | InvalidG1Point usize
  | InvalidG2Point usize
  | SizeOverflow

definition ensure_supported :: "usize \<Rightarrow> usize \<Rightarrow> unit kres" where
  "ensure_supported coefficients setup_powers =
     failIf (coefficients > setup_powers) (PolynomialTooLarge coefficients setup_powers)"

definition from_monomial_powers :: "'g1 list \<times> 'g2 list \<Rightarrow> (SetupFileError, ('g1, 'g2) KzgSetup) res" where
  "from_monomial_powers = (\<lambda>(g1_affine_powers, g2_affine_powers).
     bindR (ok_or (get_at g2_affine_powers 1) MissingTauG2) (\<lambda>tau_g2.
     Inr \<lparr>g1_powers = g1_affine_powers, g1_affine_powers = g1_affine_powers, g2_powers = g2_affine_powers, tau_g2 = tau_g2\<rparr>))"

definition from_g1_affine_powers :: "('f, 'g1, 'g2) kzg_ext \<Rightarrow> 'g1 list \<Rightarrow> 'g2 \<Rightarrow> ('g1, 'g2) KzgSetup" where
  "from_g1_affine_powers K g1s tau =
     \<lparr>g1_powers = g1s, g1_affine_powers = g1s, g2_powers = [kx_g2_generator K, tau], tau_g2 = tau\<rparr>"

text \<open>\<open>KzgSetup::setup\<close>: the two loops multiply the generators by successive powers of the secret.\<close>

definition kzg_setup :: "('g1, 'g2, 'gt) ext \<Rightarrow> ('f::field, 'g1, 'g2) kzg_ext \<Rightarrow> 'f \<Rightarrow> usize \<Rightarrow> ('g1, 'g2) KzgSetup" where
  "kzg_setup X K secret powers =
     (let g1s = map (kx_g1_mul K (ext_g1_generator X)) (powers_loop secret 1 powers);
          g2s = map (kx_g2_mul K (kx_g2_generator K)) (powers_loop secret 1 powers)
      in \<lparr>g1_powers = g1s, g1_affine_powers = g1s, g2_powers = g2s, tau_g2 = kx_g2_mul K (kx_g2_generator K) secret\<rparr>)"

section \<open>Single-point openings (opening.rs)\<close>

definition commit :: "('f, 'g1, 'g2) kzg_ext \<Rightarrow> ('g1, 'g2) KzgSetup \<Rightarrow> 'f list \<Rightarrow> 'g1 kres" where
  "commit K s coefficients =
     bindR (ensure_supported (length coefficients) (length (g1_affine_powers s))) (\<lambda>_.
     Inr (kx_g1_msm K (take (length coefficients) (g1_affine_powers s)) coefficients))"

definition verify_opening ::
    "('g1, 'g2, 'gt) ext \<Rightarrow> ('f, 'g1, 'g2) kzg_ext \<Rightarrow> ('g1, 'g2) KzgSetup \<Rightarrow> 'g1 \<Rightarrow> 'f \<Rightarrow> 'f \<Rightarrow> 'g1 \<Rightarrow> bool kres" where
  "verify_opening X K s commitment point v proof =
     (let value_g1 = kx_g1_mul K (ext_g1_generator X) v;
          point_g2 = kx_g2_mul K (kx_g2_generator K) point;
          lhs = ext_pairing X (kx_g1_sub K commitment value_g1) (kx_g2_generator K);
          rhs = ext_pairing X proof (kx_g2_sub K (tau_g2 s) point_g2)
      in Inr (lhs = rhs))"

section \<open>Byte encodings (cells.rs)\<close>

definition BYTES_PER_BLOB :: usize where
  "BYTES_PER_BLOB = FIELD_ELEMENTS_PER_BLOB * BYTES_PER_FIELD_ELEMENT"

definition RANDOM_CHALLENGE_KZG_CELL_BATCH_DOMAIN :: bytes where
  "RANDOM_CHALLENGE_KZG_CELL_BATCH_DOMAIN = map (\<lambda>c. word_of_nat (of_char c)) ''RCKZGCBATCH__V1_''"

definition KZG_G1_POINT_AT_INFINITY :: bytes where
  "KZG_G1_POINT_AT_INFINITY = 0xC0 # replicate 47 0"

definition BLS_MODULUS_BYTES :: bytes where
  "BLS_MODULUS_BYTES =
     [0x73, 0xed, 0xa7, 0x53, 0x29, 0x9d, 0x7d, 0x48, 0x33, 0x39, 0xd8, 0x08, 0x09, 0xa1, 0xd8, 0x05,
      0x53, 0xbd, 0xa4, 0x02, 0xff, 0xfe, 0x5b, 0xfe, 0xff, 0xff, 0xff, 0xff, 0x00, 0x00, 0x00, 0x01]"

definition hash_to_bls_field :: "('g1, 'g2, 'gt) ext \<Rightarrow> ('f, 'g1, 'g2) kzg_ext \<Rightarrow> bytes \<Rightarrow> 'f" where
  "hash_to_bls_field X K data = kx_from_be_bytes_mod_order K (ext_sha256 X data)"

definition bytes_to_bls_field :: "('f, 'g1, 'g2) kzg_ext \<Rightarrow> bytes \<Rightarrow> 'f kres" where
  "bytes_to_bls_field K bs =
     bindR (failIf (bs \<ge> BLS_MODULUS_BYTES) InvalidFieldElement) (\<lambda>_. Inr (kx_from_be_bytes_mod_order K bs))"

text \<open>The bytes of the integer, right-aligned in a buffer of 32 bytes.\<close>

definition bls_field_to_bytes :: "('f, 'g1, 'g2) kzg_ext \<Rightarrow> 'f \<Rightarrow> bytes" where
  "bls_field_to_bytes K v =
     (let bs = kx_to_be_bytes K v in replicate (BYTES_PER_FIELD_ELEMENT - length bs) 0 @ bs)"

definition validate_kzg_g1 :: "('g1, 'g2, 'gt) ext \<Rightarrow> bytes \<Rightarrow> 'g1 kres" where
  "validate_kzg_g1 X bs =
     (if bs = KZG_G1_POINT_AT_INFINITY then Inr (ext_g1_zero X) else ok_or (ext_g1_deserialize X bs) InvalidG1)"

definition bytes_to_kzg_commitment :: "('g1, 'g2, 'gt) ext \<Rightarrow> KZGCommitment \<Rightarrow> 'g1 kres" where
  "bytes_to_kzg_commitment X commitment = validate_kzg_g1 X commitment"

definition bytes_to_kzg_proof :: "('g1, 'g2, 'gt) ext \<Rightarrow> KZGProof \<Rightarrow> 'g1 kres" where
  "bytes_to_kzg_proof X proof = validate_kzg_g1 X proof"

definition g1_to_kzg_proof :: "('g1, 'g2, 'gt) ext \<Rightarrow> 'g1 \<Rightarrow> KZGProof kres" where
  "g1_to_kzg_proof X point =
     bindR (ok_or (ext_g1_serialize X point) InvalidG1) (\<lambda>bs.
     bindR (failIf (length bs \<noteq> 48) InvalidG1) (\<lambda>_. Inr bs))"

definition blob_to_polynomial :: "('f, 'g1, 'g2) kzg_ext \<Rightarrow> bytes \<Rightarrow> 'f list kres" where
  "blob_to_polynomial K blob =
     bindR (failIf (length blob \<noteq> BYTES_PER_BLOB) (InvalidBlobLength BYTES_PER_BLOB (length blob))) (\<lambda>_.
     mapR (bytes_to_bls_field K) (chunks_exact BYTES_PER_FIELD_ELEMENT blob))"

definition cell_to_coset_evals :: "('f, 'g1, 'g2) kzg_ext \<Rightarrow> Cell \<Rightarrow> 'f list kres" where
  "cell_to_coset_evals K cell = mapR (bytes_to_bls_field K) (chunks_exact BYTES_PER_FIELD_ELEMENT cell)"

definition coset_evals_to_cell :: "('f, 'g1, 'g2) kzg_ext \<Rightarrow> 'f list \<Rightarrow> Cell kres" where
  "coset_evals_to_cell K coset_evals =
     bindR (failIf (length coset_evals \<noteq> FIELD_ELEMENTS_PER_CELL)
              (InvalidCosetLength FIELD_ELEMENTS_PER_CELL (length coset_evals))) (\<lambda>_.
     Inr (concat (map (bls_field_to_bytes K) coset_evals)))"

section \<open>Linear combinations and proofs\<close>

definition g1_lincomb :: "('g1, 'g2, 'gt) ext \<Rightarrow> ('f, 'g1, 'g2) kzg_ext \<Rightarrow> 'g1 list \<Rightarrow> 'f list \<Rightarrow> 'g1 kres" where
  "g1_lincomb X K points scalars =
     bindR (failIf (length points \<noteq> length scalars)
              (KzgLengthMismatch ''G1 linear combination'' (length points) (length scalars))) (\<lambda>_.
     if points = [] then Inr (ext_g1_zero X) else Inr (kx_g1_msm K points scalars))"

definition setup_g1_lincomb :: "('f, 'g1, 'g2) kzg_ext \<Rightarrow> 'g1 list \<Rightarrow> 'f list \<Rightarrow> 'g1 kres" where
  "setup_g1_lincomb K setup_g1_affine_powers scalars =
     bindR (failIf (length setup_g1_affine_powers < length scalars)
              (PolynomialTooLarge (length scalars) (length setup_g1_affine_powers))) (\<lambda>_.
     Inr (kx_g1_msm K (take (length scalars) setup_g1_affine_powers) scalars))"

definition compute_kzg_proof_multi_impl ::
    "('g1, 'g2, 'gt) ext \<Rightarrow> ('f::field, 'g1, 'g2) kzg_ext \<Rightarrow> ('g1, 'g2) KzgSetup \<Rightarrow> 'f list \<Rightarrow> 'f list
      \<Rightarrow> (KZGProof \<times> 'f list) kres" where
  "compute_kzg_proof_multi_impl X K s polynomial_coeff zs =
     (let ys = map (evaluate_polynomialcoeff polynomial_coeff) zs;
          denominator_poly = vanishing_polynomialcoeff zs
      in
      bindR (divide_polynomialcoeff polynomial_coeff denominator_poly) (\<lambda>quotient_polynomial.
      bindR (setup_g1_lincomb K (g1_affine_powers s) quotient_polynomial) (\<lambda>proof.
      bindR (g1_to_kzg_proof X proof) (\<lambda>proof_bytes.
      Inr (proof_bytes, ys)))))"

definition compute_cells_polynomialcoeff :: "('f::field, 'g1, 'g2) kzg_ext \<Rightarrow> 'f list \<Rightarrow> Cell list kres" where
  "compute_cells_polynomialcoeff K polynomial_coeff =
     mapR (\<lambda>i. bindR (coset_for_cell (kx_root_of_unity K) i) (\<lambda>coset.
               coset_evals_to_cell K (map (evaluate_polynomialcoeff polynomial_coeff) coset)))
       [0..<CELLS_PER_EXT_BLOB]"

definition compute_cells :: "('f::field, 'g1, 'g2) kzg_ext \<Rightarrow> bytes \<Rightarrow> Cell list kres" where
  "compute_cells K blob =
     bindR (blob_to_polynomial K blob) (\<lambda>polynomial.
     bindR (polynomial_eval_to_coeff (kx_root_of_unity K) polynomial) (\<lambda>polynomial_coeff.
     compute_cells_polynomialcoeff K polynomial_coeff))"

definition compute_cells_and_kzg_proofs_polynomialcoeff ::
    "('g1, 'g2, 'gt) ext \<Rightarrow> ('f::field, 'g1, 'g2) kzg_ext \<Rightarrow> ('g1, 'g2) KzgSetup \<Rightarrow> 'f list
      \<Rightarrow> (Cell list \<times> KZGProof list) kres" where
  "compute_cells_and_kzg_proofs_polynomialcoeff X K s polynomial_coeff =
     bindR (mapR (\<lambda>i. bindR (coset_for_cell (kx_root_of_unity K) i) (\<lambda>coset.
                      bindR (compute_kzg_proof_multi_impl X K s polynomial_coeff coset) (\<lambda>(proof, ys).
                      bindR (coset_evals_to_cell K ys) (\<lambda>cell. Inr (cell, proof)))))
              [0..<CELLS_PER_EXT_BLOB]) (\<lambda>pairs.
     Inr (map fst pairs, map snd pairs))"

definition compute_cells_and_kzg_proofs ::
    "('g1, 'g2, 'gt) ext \<Rightarrow> ('f::field, 'g1, 'g2) kzg_ext \<Rightarrow> ('g1, 'g2) KzgSetup \<Rightarrow> bytes \<Rightarrow> (Cell list \<times> KZGProof list) kres" where
  "compute_cells_and_kzg_proofs X K s blob =
     bindR (blob_to_polynomial K blob) (\<lambda>polynomial.
     bindR (polynomial_eval_to_coeff (kx_root_of_unity K) polynomial) (\<lambda>polynomial_coeff.
     compute_cells_and_kzg_proofs_polynomialcoeff X K s polynomial_coeff))"

section \<open>Recovery\<close>

text \<open>The loop over the indices: in range, ascending, no duplicates.\<close>

definition check_recovery_index :: "usize option \<times> bool list \<Rightarrow> u64 \<Rightarrow> (usize option \<times> bool list) kres" where
  "check_recovery_index = (\<lambda>(previous, seen) index.
     bindR (failIf (index \<ge> CELLS_PER_EXT_BLOB) (CellIndexOutOfRange index CELLS_PER_EXT_BLOB)) (\<lambda>_.
     bindR (failIf (case previous of None \<Rightarrow> False | Some previous \<Rightarrow> previous > index) CellIndicesNotSorted) (\<lambda>_.
     bindR (failIf (seen ! index) (DuplicateCellIndex index)) (\<lambda>_.
     Inr (Some index, seen[index := True])))))"

definition validate_recovery_inputs :: "u64 list \<Rightarrow> Cell list \<Rightarrow> unit kres" where
  "validate_recovery_inputs cell_indices cells =
     bindR (failIf (length cell_indices \<noteq> length cells)
              (KzgLengthMismatch ''recovery inputs'' (length cell_indices) (length cells))) (\<lambda>_.
     let minimum = CELLS_PER_EXT_BLOB div 2 in
     bindR (failIf (length cell_indices < minimum) (NotEnoughCells minimum (length cell_indices))) (\<lambda>_.
     bindR (failIf (length cell_indices > CELLS_PER_EXT_BLOB) (TooManyCells CELLS_PER_EXT_BLOB (length cell_indices))) (\<lambda>_.
     bindR (foldR check_recovery_index (None, replicate CELLS_PER_EXT_BLOB False) cell_indices) (\<lambda>_.
     Inr ()))))"

definition recover_cells_and_kzg_proofs ::
    "('g1, 'g2, 'gt) ext \<Rightarrow> ('f::field, 'g1, 'g2) kzg_ext \<Rightarrow> ('g1, 'g2) KzgSetup \<Rightarrow> u64 list \<Rightarrow> Cell list
      \<Rightarrow> (Cell list \<times> KZGProof list) kres" where
  "recover_cells_and_kzg_proofs X K s cell_indices cells =
     bindR (validate_recovery_inputs cell_indices cells) (\<lambda>_.
     bindR (mapR (cell_to_coset_evals K) cells) (\<lambda>cosets_evals.
     bindR (recover_polynomialcoeff (kx_root_of_unity K) cell_indices cosets_evals) (\<lambda>polynomial_coeff.
     compute_cells_and_kzg_proofs_polynomialcoeff X K s polynomial_coeff)))"


section \<open>Batch verification\<close>

record ('f, 'g1) ParsedCellKzgProofBatch =
  pb_commitments_bytes :: "KZGCommitment list"
  pb_commitments :: "'g1 list"
  pb_commitment_indices :: "u64 list"
  pb_cell_indices :: "u64 list"
  pb_cosets_evals :: "'f list list"
  pb_proofs_bytes :: "KZGProof list"
  pb_proofs :: "'g1 list"

definition to_be_bytes :: "nat \<Rightarrow> nat \<Rightarrow> bytes" where
  "to_be_bytes w n = rev (to_le_bytes w n)"

definition compute_verify_cell_kzg_proof_batch_challenge ::
    "('g1, 'g2, 'gt) ext \<Rightarrow> ('f, 'g1, 'g2) kzg_ext \<Rightarrow> KZGCommitment list \<Rightarrow> u64 list \<Rightarrow> u64 list \<Rightarrow> 'f list list
      \<Rightarrow> KZGProof list \<Rightarrow> 'f" where
  "compute_verify_cell_kzg_proof_batch_challenge X K commitments commitment_indices cell_indices cosets_evals proofs =
     hash_to_bls_field X K
       (RANDOM_CHALLENGE_KZG_CELL_BATCH_DOMAIN
        @ to_be_bytes 8 FIELD_ELEMENTS_PER_BLOB @ to_be_bytes 8 FIELD_ELEMENTS_PER_CELL
        @ to_be_bytes 8 (length commitments) @ to_be_bytes 8 (length cell_indices)
        @ concat commitments
        @ concat (map (\<lambda>(k, coset_evals).
            to_be_bytes 8 (commitment_indices ! k) @ to_be_bytes 8 (cell_indices ! k)
            @ concat (map (bls_field_to_bytes K) coset_evals) @ proofs ! k) (enumerated cosets_evals)))"

definition validate_parsed_commitments :: "('g1, 'g2, 'gt) ext \<Rightarrow> ('f, 'g1) ParsedCellKzgProofBatch \<Rightarrow> unit kres" where
  "validate_parsed_commitments X batch =
     bindR (failIf (length (pb_commitments_bytes batch) \<noteq> length (pb_commitments batch))
              (CommitmentBytesLengthMismatch (length (pb_commitments_bytes batch)) (length (pb_commitments batch)))) (\<lambda>_.
     foldR (\<lambda>_ (index, commitment_bytes, commitment).
              bindR (bytes_to_kzg_commitment X commitment_bytes) (\<lambda>parsed.
              failIf (parsed \<noteq> commitment) (CommitmentBytesPointMismatch index)))
       () (enumerated (zip (pb_commitments_bytes batch) (pb_commitments batch))))"

text \<open>The checks in front of the computation.\<close>

definition check_batch :: "('g1, 'g2, 'gt) ext \<Rightarrow> ('f, 'g1) ParsedCellKzgProofBatch \<Rightarrow> unit kres" where
  "check_batch X batch =
     (let num_cells = length (pb_cell_indices batch) in
      bindR (validate_parsed_commitments X batch) (\<lambda>_.
      bindR (failIf (length (pb_commitment_indices batch) \<noteq> num_cells)
               (KzgLengthMismatch ''commitment indices'' num_cells (length (pb_commitment_indices batch)))) (\<lambda>_.
      bindR (failIf (length (pb_cosets_evals batch) \<noteq> num_cells)
               (KzgLengthMismatch ''coset evaluations'' num_cells (length (pb_cosets_evals batch)))) (\<lambda>_.
      bindR (failIf (length (pb_proofs_bytes batch) \<noteq> num_cells \<or> length (pb_proofs batch) \<noteq> num_cells)
               (KzgLengthMismatch ''proofs'' num_cells (min (length (pb_proofs_bytes batch)) (length (pb_proofs batch))))) (\<lambda>_.
      bindR (foldR (\<lambda>_ commitment_index. failIf (commitment_index \<ge> length (pb_commitments batch))
                      (CommitmentIndexOutOfRange commitment_index (length (pb_commitments batch))))
               () (pb_commitment_indices batch)) (\<lambda>_.
      foldR (\<lambda>_ coset_evals. failIf (length coset_evals \<noteq> FIELD_ELEMENTS_PER_CELL)
                (InvalidCosetLength FIELD_ELEMENTS_PER_CELL (length coset_evals)))
        () (pb_cosets_evals batch)))))))"

text \<open>The loops of the verification: the weight of each commitment, the sum of the scaled
  interpolation polynomials, and the powers weighted by the coset shifts.\<close>

definition commitment_weights :: "('f::field, 'g1) ParsedCellKzgProofBatch \<Rightarrow> 'f list \<Rightarrow> 'f list" where
  "commitment_weights batch r_powers =
     fold (\<lambda>(k, commitment_index) weights. weights[commitment_index := weights ! commitment_index + r_powers ! k])
       (enumerated (pb_commitment_indices batch)) (replicate (length (pb_commitments batch)) 0)"

definition sum_interp_polys :: "('f::field, 'g1, 'g2) kzg_ext \<Rightarrow> ('f, 'g1) ParsedCellKzgProofBatch \<Rightarrow> 'f list \<Rightarrow> 'f list kres" where
  "sum_interp_polys K batch r_powers =
     foldR (\<lambda>sum_interp_polys_coeff (k, r_power).
              bindR (coset_for_cell (kx_root_of_unity K) (pb_cell_indices batch ! k)) (\<lambda>coset.
              bindR (interpolate_polynomialcoeff coset (pb_cosets_evals batch ! k)) (\<lambda>interp_poly_coeff.
              let interp_poly_scaled_coeff = multiply_polynomialcoeff [r_power] interp_poly_coeff
              in Inr (add_polynomialcoeff sum_interp_polys_coeff interp_poly_scaled_coeff))))
       (replicate FIELD_ELEMENTS_PER_CELL 0) (enumerated r_powers)"

definition weight_r_powers :: "('f::field, 'g1, 'g2) kzg_ext \<Rightarrow> ('f, 'g1) ParsedCellKzgProofBatch \<Rightarrow> 'f list \<Rightarrow> 'f list kres" where
  "weight_r_powers K batch r_powers =
     mapR (\<lambda>(k, r_power).
             bindR (coset_shift_for_cell (kx_root_of_unity K) (pb_cell_indices batch ! k)) (\<lambda>h_k.
             Inr (r_power * h_k ^ FIELD_ELEMENTS_PER_CELL))) (enumerated r_powers)"

definition verify_cell_kzg_proof_batch_impl ::
    "('g1, 'g2, 'gt) ext \<Rightarrow> ('f::field, 'g1, 'g2) kzg_ext \<Rightarrow> ('g1, 'g2) KzgSetup \<Rightarrow> ('f, 'g1) ParsedCellKzgProofBatch \<Rightarrow> bool kres" where
  "verify_cell_kzg_proof_batch_impl X K s batch =
     (let num_cells = length (pb_cell_indices batch) in
      bindR (check_batch X batch) (\<lambda>_.
      if num_cells = 0 then Inr True
      else
      let r = compute_verify_cell_kzg_proof_batch_challenge X K (pb_commitments_bytes batch) (pb_commitment_indices batch)
                (pb_cell_indices batch) (pb_cosets_evals batch) (pb_proofs_bytes batch);
          r_powers = compute_powers r num_cells
      in
      bindR (g1_lincomb X K (pb_proofs batch) r_powers) (\<lambda>ll.
      bindR (ok_or (get_at (g2_powers s) FIELD_ELEMENTS_PER_CELL)
               (MissingG2Power FIELD_ELEMENTS_PER_CELL (length (g2_powers s)))) (\<lambda>lr.
      bindR (g1_lincomb X K (pb_commitments batch) (commitment_weights batch r_powers)) (\<lambda>rlc.
      bindR (sum_interp_polys K batch r_powers) (\<lambda>sum_interp_polys_coeff.
      bindR (setup_g1_lincomb K (g1_affine_powers s) sum_interp_polys_coeff) (\<lambda>rli.
      bindR (weight_r_powers K batch r_powers) (\<lambda>weighted_r_powers.
      bindR (g1_lincomb X K (pb_proofs batch) weighted_r_powers) (\<lambda>rlp.
      let rl = ext_g1_add X (kx_g1_sub K rlc rli) rlp;
          lhs = ext_pairing X ll lr;
          rhs = ext_pairing X rl (kx_g2_generator K)
      in Inr (lhs = rhs))))))))))"

text \<open>The loop that deduplicates the commitments and parses each distinct one once.\<close>

definition dedup_commitment ::
    "('g1, 'g2, 'gt) ext \<Rightarrow> KZGCommitment list \<times> 'g1 list \<times> u64 list \<Rightarrow> KZGCommitment \<Rightarrow> (KZGCommitment list \<times> 'g1 list \<times> u64 list) kres" where
  "dedup_commitment X = (\<lambda>(stored_bytes, stored, indices) commitment_bytes.
     case position (\<lambda>b. b = commitment_bytes) stored_bytes of
       Some index \<Rightarrow> Inr (stored_bytes, stored, indices @ [index])
     | None \<Rightarrow>
         bindR (bytes_to_kzg_commitment X commitment_bytes) (\<lambda>commitment.
         Inr (stored_bytes @ [commitment_bytes], stored @ [commitment], indices @ [length stored_bytes])))"

definition verify_cell_kzg_proof_batch ::
    "('g1, 'g2, 'gt) ext \<Rightarrow> ('f::field, 'g1, 'g2) kzg_ext \<Rightarrow> ('g1, 'g2) KzgSetup \<Rightarrow> KZGCommitment list \<Rightarrow> u64 list \<Rightarrow> Cell list
      \<Rightarrow> KZGProof list \<Rightarrow> bool kres" where
  "verify_cell_kzg_proof_batch X K s commitments_bytes cell_indices cells proofs_bytes =
     bindR (failIf (length commitments_bytes \<noteq> length cell_indices \<or> length commitments_bytes \<noteq> length cells
                      \<or> length commitments_bytes \<noteq> length proofs_bytes)
              (BatchLengthMismatch (length commitments_bytes) (length cell_indices) (length cells) (length proofs_bytes))) (\<lambda>_.
     bindR (foldR (\<lambda>_ cell_index. failIf (cell_index \<ge> CELLS_PER_EXT_BLOB) (CellIndexOutOfRange cell_index CELLS_PER_EXT_BLOB))
              () cell_indices) (\<lambda>_.
     bindR (foldR (dedup_commitment X) ([], [], []) commitments_bytes) (\<lambda>(stored_bytes, stored, commitment_indices).
     bindR (mapR (cell_to_coset_evals K) cells) (\<lambda>cosets_evals.
     bindR (mapR (bytes_to_kzg_proof X) proofs_bytes) (\<lambda>proofs.
     verify_cell_kzg_proof_batch_impl X K s
       \<lparr>pb_commitments_bytes = stored_bytes, pb_commitments = stored, pb_commitment_indices = commitment_indices,
        pb_cell_indices = cell_indices, pb_cosets_evals = cosets_evals, pb_proofs_bytes = proofs_bytes, pb_proofs = proofs\<rparr>)))))"

end
