(* ===== verification/Data_Availability.thy ===== *)
theory Data_Availability
  imports Kzg Signing
begin

text \<open>
  Data availability (\<open>containers/data_availability.rs\<close>): custody assignment, the matrix of cells, the
  column sidecars and their checks, and decimal node identifiers. Strings are ASCII.
\<close>

section \<open>Errors and helpers\<close>

datatype DataAvailabilityError =
    TooManyCustodyGroups u64 u64
  | CustodyGroupOutOfRange u64 u64
  | InvalidNodeIdDecimal
  | NodeIdOverflow
  | TooManyBlobRows usize usize
  | CellsProofsLengthMismatch usize usize usize
  | CellsProofsColumnCountMismatch usize usize usize usize
  | DA_SszSerialize SerializeError
  | DA_Merkleization MerkleizationError

type_synonym 'a dres = "(DataAvailabilityError, 'a) res"

definition PARTIAL_DATA_COLUMN_GROUP_ID_VERSION :: byte where
  "PARTIAL_DATA_COLUMN_GROUP_ID_VERSION = 1"

text \<open>Multiplication of a little-endian \<open>uint256\<close> by ten: the loop over the bytes with its carry.\<close>

fun times_ten_loop :: "nat \<Rightarrow> bytes \<Rightarrow> bytes \<times> nat" where
  "times_ten_loop carry [] = ([], carry)"
| "times_ten_loop carry (b # bs) =
     (let next = unat b * 10 + carry;
          (rest, carry) = times_ten_loop (next div 256) bs
      in (word_of_nat (next mod 256) # rest, carry))"

definition multiply_node_id_by_10_and_add :: "bytes \<Rightarrow> nat \<Rightarrow> bytes dres" where
  "multiply_node_id_by_10_and_add bs digit =
     (let (out, carry) = times_ten_loop digit bs
      in bindR (failIf (carry \<noteq> 0) NodeIdOverflow) (\<lambda>_. Inr out))"

fun increment_node_id :: "bytes \<Rightarrow> bytes" where
  "increment_node_id [] = []"
| "increment_node_id (b # bs) = (if b + 1 = 0 then 0 # increment_node_id bs else (b + 1) # bs)"

definition is_ascii_whitespace :: "char \<Rightarrow> bool" where
  "is_ascii_whitespace c = (let n = of_char c :: nat in n = 32 \<or> 9 \<le> n \<and> n \<le> 13)"

definition trim :: "string \<Rightarrow> string" where
  "trim s = rev (dropWhile is_ascii_whitespace (rev (dropWhile is_ascii_whitespace s)))"

definition digit_step :: "bytes \<Rightarrow> char \<Rightarrow> bytes dres" where
  "digit_step out c =
     (let n = of_char c :: nat in
      bindR (failIf (\<not> (48 \<le> n \<and> n \<le> 57)) InvalidNodeIdDecimal) (\<lambda>_.
      multiply_node_id_by_10_and_add out (n - 48)))"

definition node_id_from_decimal :: "string \<Rightarrow> bytes dres" where
  "node_id_from_decimal decimal =
     (let trimmed = trim decimal in
      bindR (failIf (trimmed = []) InvalidNodeIdDecimal) (\<lambda>_.
      foldR digit_step (replicate 32 0) trimmed))"

section \<open>Custody\<close>

text \<open>The loop of \<open>get_custody_groups\<close> ends only when the digests hit enough distinct groups.\<close>

partial_function (option) custody_loop ::
    "('g1, 'g2, 'gt) ext \<Rightarrow> usize \<Rightarrow> bytes \<Rightarrow> u64 list \<Rightarrow> u64 list option" where
  "custody_loop X n current_id groups =
     (if length groups < n then
        let custody_group = from_le_bytes (take 8 (ext_sha256 X current_id)) mod NUMBER_OF_CUSTODY_GROUPS
        in custody_loop X n (increment_node_id current_id)
             (if custody_group \<in> set groups then groups else groups @ [custody_group])
      else Some groups)"

definition get_custody_groups :: "('g1, 'g2, 'gt) ext \<Rightarrow> bytes \<Rightarrow> u64 \<Rightarrow> u64 list dres option" where
  "get_custody_groups X node_id custody_group_count =
     (if custody_group_count > NUMBER_OF_CUSTODY_GROUPS then
        Some (Inl (TooManyCustodyGroups custody_group_count NUMBER_OF_CUSTODY_GROUPS))
      else if custody_group_count = NUMBER_OF_CUSTODY_GROUPS then Some (Inr [0..<NUMBER_OF_CUSTODY_GROUPS])
      else map_option (\<lambda>groups. Inr (sort groups)) (custody_loop X custody_group_count node_id []))"

definition compute_columns_for_custody_group :: "u64 \<Rightarrow> u64 list dres" where
  "compute_columns_for_custody_group custody_group =
     bindR (failIf (custody_group \<ge> NUMBER_OF_CUSTODY_GROUPS)
              (CustodyGroupOutOfRange custody_group NUMBER_OF_CUSTODY_GROUPS)) (\<lambda>_.
     let columns_per_group = NUMBER_OF_COLUMNS div NUMBER_OF_CUSTODY_GROUPS
     in Inr (map (\<lambda>i. NUMBER_OF_CUSTODY_GROUPS * i + custody_group) [0..<columns_per_group]))"

definition compute_max_request_data_column_sidecars :: u64 where
  "compute_max_request_data_column_sidecars = MAX_REQUEST_BLOCKS_DENEB * NUMBER_OF_COLUMNS"

definition compute_subnet_for_data_column_sidecar :: "ColumnIndex \<Rightarrow> u64" where
  "compute_subnet_for_data_column_sidecar column_index = column_index mod DATA_COLUMN_SIDECAR_SUBNET_COUNT"

section \<open>The matrix\<close>

definition matrix_row :: "u64 \<Rightarrow> Cell list \<times> KZGProof list \<Rightarrow> MatrixEntry list" where
  "matrix_row row_index = (\<lambda>(cells, proofs).
     map (\<lambda>(cell_index, cell, proof).
            \<lparr>me_cell = cell, me_kzg_proof = proof, me_column_index = cell_index, me_row_index = row_index\<rparr>)
       (enumerated (zip cells proofs)))"

definition compute_matrix ::
    "('g1, 'g2, 'gt) ext \<Rightarrow> ('f::field, 'g1, 'g2) kzg_ext \<Rightarrow> ('g1, 'g2) KzgSetup \<Rightarrow> bytes list \<Rightarrow> MatrixEntry list kres" where
  "compute_matrix X K s blobs =
     bindR (mapR (\<lambda>(blob_index, blob). bindR (compute_cells_and_kzg_proofs X K s blob) (\<lambda>row. Inr (matrix_row blob_index row)))
              (enumerated blobs)) (\<lambda>rows. Inr (concat rows))"

definition recover_matrix ::
    "('g1, 'g2, 'gt) ext \<Rightarrow> ('f::field, 'g1, 'g2) kzg_ext \<Rightarrow> ('g1, 'g2) KzgSetup \<Rightarrow> MatrixEntry list \<Rightarrow> u64 \<Rightarrow> MatrixEntry list kres" where
  "recover_matrix X K s partial_matrix blob_count =
     bindR (mapR (\<lambda>blob_index.
              let row_entries = sort_key me_column_index (filter (\<lambda>entry. me_row_index entry = blob_index) partial_matrix)
              in bindR (recover_cells_and_kzg_proofs X K s (map me_column_index row_entries) (map me_cell row_entries)) (\<lambda>row.
                 Inr (matrix_row blob_index row)))
              [0..<blob_count]) (\<lambda>rows. Inr (concat rows))"

section \<open>Column sidecars\<close>

definition validate_row :: "nat \<times> Cell list \<times> KZGProof list \<Rightarrow> unit dres" where
  "validate_row = (\<lambda>(row, cells, proofs).
     bindR (failIf (length cells \<noteq> length proofs) (CellsProofsLengthMismatch row (length cells) (length proofs))) (\<lambda>_.
     failIf (length cells \<noteq> NUMBER_OF_COLUMNS \<or> length proofs \<noteq> NUMBER_OF_COLUMNS)
       (CellsProofsColumnCountMismatch row NUMBER_OF_COLUMNS (length cells) (length proofs))))"

definition validate_cells_and_kzg_proofs :: "(Cell list \<times> KZGProof list) list \<Rightarrow> unit dres" where
  "validate_cells_and_kzg_proofs rows =
     bindR (failIf (length rows > MAX_BLOB_COMMITMENTS_PER_BLOCK)
              (TooManyBlobRows (length rows) MAX_BLOB_COMMITMENTS_PER_BLOCK)) (\<lambda>_.
     foldR (\<lambda>_ row. validate_row row) () (enumerated rows))"

text \<open>The two pushes of the loop over the rows for one column.\<close>

definition push_row ::
    "usize \<Rightarrow> usize \<Rightarrow> Cell list \<times> KZGProof list \<Rightarrow> Cell list \<times> KZGProof list \<Rightarrow> (Cell list \<times> KZGProof list) dres" where
  "push_row row_count column_index = (\<lambda>(column, kzg_proofs) (cells, proofs).
     let full = TooManyBlobRows row_count MAX_BLOB_COMMITMENTS_PER_BLOCK in
     bindR (ok_or (list_push MAX_BLOB_COMMITMENTS_PER_BLOCK column (cells ! column_index)) full) (\<lambda>column.
     bindR (ok_or (list_push MAX_BLOB_COMMITMENTS_PER_BLOCK kzg_proofs (proofs ! column_index)) full) (\<lambda>kzg_proofs.
     Inr (column, kzg_proofs))))"

definition get_data_column_sidecars ::
    "Root \<Rightarrow> Slot \<Rightarrow> (Cell list \<times> KZGProof list) list \<Rightarrow> DataColumnSidecar list dres" where
  "get_data_column_sidecars beacon_block_root sl rows =
     bindR (validate_cells_and_kzg_proofs rows) (\<lambda>_.
     mapR (\<lambda>column_index.
             bindR (foldR (push_row (length rows) column_index) ([], []) rows) (\<lambda>(column, kzg_proofs).
             Inr \<lparr>dcs_index = column_index, dcs_column = column, dcs_kzg_proofs = kzg_proofs, dcs_slot = sl,
                  dcs_beacon_block_root = beacon_block_root\<rparr>))
       [0..<NUMBER_OF_COLUMNS])"

definition get_data_column_sidecars_from_block ::
    "('g1, 'g2, 'gt) ext \<Rightarrow> preset \<Rightarrow> SignedBeaconBlock \<Rightarrow> (Cell list \<times> KZGProof list) list \<Rightarrow> DataColumnSidecar list dres" where
  "get_data_column_sidecars_from_block X p signed_block rows =
     bindR (map_err DA_Merkleization
              (hash_tree_root (ext_sha256 X) (BeaconBlock_ty p) (BeaconBlock_val (sblk_message signed_block)))) (\<lambda>block_root.
     get_data_column_sidecars block_root (blk_slot (sblk_message signed_block)) rows)"

definition get_data_column_sidecars_from_column_sidecar ::
    "DataColumnSidecar \<Rightarrow> (Cell list \<times> KZGProof list) list \<Rightarrow> DataColumnSidecar list dres" where
  "get_data_column_sidecars_from_column_sidecar sidecar rows =
     get_data_column_sidecars (dcs_beacon_block_root sidecar) (dcs_slot sidecar) rows"

definition verify_data_column_sidecar :: "DataColumnSidecar \<Rightarrow> KZGCommitment list \<Rightarrow> bool" where
  "verify_data_column_sidecar sidecar kzg_commitments =
     (if dcs_index sidecar \<ge> NUMBER_OF_COLUMNS then False
      else if dcs_column sidecar = [] then False
      else if length (dcs_column sidecar) \<noteq> length kzg_commitments then False
      else if length (dcs_column sidecar) \<noteq> length (dcs_kzg_proofs sidecar) then False
      else True)"

definition verify_data_column_sidecar_kzg_proofs ::
    "('g1, 'g2, 'gt) ext \<Rightarrow> ('f::field, 'g1, 'g2) kzg_ext \<Rightarrow> DataColumnSidecar \<Rightarrow> KZGCommitment list \<Rightarrow> ('g1, 'g2) KzgSetup \<Rightarrow> bool kres" where
  "verify_data_column_sidecar_kzg_proofs X K sidecar kzg_commitments s =
     verify_cell_kzg_proof_batch X K s kzg_commitments (replicate (length (dcs_column sidecar)) (dcs_index sidecar))
       (dcs_column sidecar) (dcs_kzg_proofs sidecar)"

definition verify_partial_data_column_sidecar :: "PartialDataColumnSidecar \<Rightarrow> KZGCommitment list \<Rightarrow> bool" where
  "verify_partial_data_column_sidecar sidecar kzg_commitments =
     (let ones = length (filter id (pdcs_cells_present_bitmap sidecar)) in
      if length (pdcs_cells_present_bitmap sidecar) \<noteq> length kzg_commitments then False
      else if ones = 0 then False
      else if length (pdcs_partial_column sidecar) \<noteq> length (pdcs_kzg_proofs sidecar) then False
      else if length (pdcs_partial_column sidecar) \<noteq> ones then False
      else True)"

definition verify_partial_data_column_sidecar_kzg_proofs ::
    "('g1, 'g2, 'gt) ext \<Rightarrow> ('f::field, 'g1, 'g2) kzg_ext \<Rightarrow> PartialDataColumnSidecar \<Rightarrow> KZGCommitment list \<Rightarrow> ColumnIndex
      \<Rightarrow> ('g1, 'g2) KzgSetup \<Rightarrow> bool kres" where
  "verify_partial_data_column_sidecar_kzg_proofs X K sidecar kzg_commitments column_index s =
     (if column_index \<ge> NUMBER_OF_COLUMNS then Inr False
      else if \<not> verify_partial_data_column_sidecar sidecar kzg_commitments then Inr False
      else
        let commitments = map fst (filter snd (zip kzg_commitments (pdcs_cells_present_bitmap sidecar)))
        in verify_cell_kzg_proof_batch X K s commitments (replicate (length commitments) column_index)
             (pdcs_partial_column sidecar) (pdcs_kzg_proofs sidecar))"

definition PartialDataColumnGroupID_val :: "PartialDataColumnGroupID \<Rightarrow> ssz_val" where
  "PartialDataColumnGroupID_val x = VContainer [VUint (pdcg_slot x), VBytes (pdcg_beacon_block_root x)]"

definition partial_data_column_group_id_bytes :: "PartialDataColumnGroupID \<Rightarrow> bytes dres" where
  "partial_data_column_group_id_bytes group_id =
     bindR (map_err DA_SszSerialize (serialize PartialDataColumnGroupID_ty (PartialDataColumnGroupID_val group_id))) (\<lambda>bs.
     Inr (PARTIAL_DATA_COLUMN_GROUP_ID_VERSION # bs))"

text \<open>\<open>has_complete_column_set\<close> (\<open>fork_choice/on_execution_payload_envelope.rs\<close>): its loop over the seen flags.\<close>

fun complete_columns_loop :: "bool list \<Rightarrow> DataColumnSidecar list \<Rightarrow> bool" where
  "complete_columns_loop seen [] = True"
| "complete_columns_loop seen (sidecar # sidecars) =
     (let index = dcs_index sidecar in
      if index \<ge> NUMBER_OF_COLUMNS \<or> seen ! index then False
      else complete_columns_loop (seen[index := True]) sidecars)"

definition has_complete_column_set :: "DataColumnSidecar list \<Rightarrow> bool" where
  "has_complete_column_set sidecars =
     (if length sidecars \<noteq> NUMBER_OF_COLUMNS then False
      else complete_columns_loop (replicate NUMBER_OF_COLUMNS False) sidecars)"

section \<open>Decimal identifiers\<close>

lemma times_ten_correct:
  "carry < 10 \<Longrightarrow> times_ten_loop carry bs = (out, c) \<Longrightarrow>
   length out = length bs \<and> from_le_bytes out + 256 ^ length bs * c = 10 * from_le_bytes bs + carry"
proof (induction bs arbitrary: carry out c)
  case Nil
  then show ?case by simp
next
  case (Cons b bs)
  let ?n = "unat b * 10 + carry"
  have "unat b < 256" using unsigned_less [of b, where ?'a = nat] by simp
  then have less: "?n div 256 < 10" using Cons.prems(1) by (simp add: div_less_iff_less_mult)
  obtain rest where rest: "times_ten_loop (?n div 256) bs = (rest, c)" and out: "out = word_of_nat (?n mod 256) # rest"
    using Cons.prems(2) by (auto simp: Let_def split: prod.splits)
  have "unat (word_of_nat (?n mod 256) :: byte) = ?n mod 256" by (simp add: unat_of_nat)
  then show ?case using Cons.IH [OF less rest] out mod_mult_div_eq [of ?n 256] by (simp, linarith)
qed

definition decimal_value :: "string \<Rightarrow> nat" where
  "decimal_value s = foldl (\<lambda>v c. 10 * v + (of_char c - 48)) 0 s"

definition is_decimal :: "string \<Rightarrow> bool" where
  "is_decimal s \<longleftrightarrow> s \<noteq> [] \<and> list_all (\<lambda>c. (48::nat) \<le> of_char c \<and> (of_char c :: nat) \<le> 57) s"

lemma digit_step_correct:
  assumes "48 \<le> (of_char c :: nat)" and "(of_char c :: nat) \<le> 57"
  shows "digit_step out c = (let v = 10 * from_le_bytes out + (of_char c - 48) in
           if v < 256 ^ length out then digit_step out c else Inl NodeIdOverflow)
    \<and> (\<forall>out'. digit_step out c = Inr out' \<longrightarrow> length out' = length out \<and> from_le_bytes out' = 10 * from_le_bytes out + (of_char c - 48))
    \<and> (10 * from_le_bytes out + (of_char c - 48) < 256 ^ length out \<longrightarrow> (\<exists>out'. digit_step out c = Inr out'))"
proof -
  let ?d = "of_char c - 48 :: nat"
  obtain o1 c1 where run: "times_ten_loop ?d out = (o1, c1)" by fastforce
  have eq: "length o1 = length out" "from_le_bytes o1 + 256 ^ length out * c1 = 10 * from_le_bytes out + ?d"
    using times_ten_correct [OF _ run] assms by simp_all
  have lt: "from_le_bytes o1 < 256 ^ length out" using from_le_bytes_lt [of o1] eq(1) by simp
  have step: "digit_step out c = (if c1 \<noteq> 0 then Inl NodeIdOverflow else Inr o1)"
    using assms run by (simp add: digit_step_def multiply_node_id_by_10_and_add_def Let_def)
  have "c1 = 0 \<longleftrightarrow> 10 * from_le_bytes out + ?d < 256 ^ length out"
    using eq(2) lt by (cases c1) auto
  then show ?thesis using step eq by (auto simp: Let_def)
qed

lemma decimal_grow: "(v :: nat) \<le> foldl (\<lambda>v c. 10 * v + (of_char c - 48)) v (s :: string)"
proof (induction s arbitrary: v)
  case (Cons c s)
  have "v \<le> 10 * v + (of_char c - 48)" by simp
  also have "\<dots> \<le> foldl (\<lambda>v c. 10 * v + (of_char c - 48)) (10 * v + (of_char c - 48)) s" by (rule Cons.IH)
  finally show ?case by simp
qed simp

lemma decimal_loop:
  assumes "list_all (\<lambda>c. (48::nat) \<le> of_char c \<and> (of_char c :: nat) \<le> 57) s"
  shows "if foldl (\<lambda>v c. 10 * v + (of_char c - 48)) (from_le_bytes out) s < 256 ^ length out
    then \<exists>out'. foldR digit_step out s = Inr out' \<and> length out' = length out
      \<and> from_le_bytes out' = foldl (\<lambda>v c. 10 * v + (of_char c - 48)) (from_le_bytes out) s
    else foldR digit_step out s = Inl NodeIdOverflow"
  using assms
proof (induction s arbitrary: out)
  case Nil
  then show ?case using from_le_bytes_lt [of out] by simp
next
  case (Cons c s)
  let ?f = "\<lambda>v c. 10 * v + (of_char c - 48) :: nat" and ?v = "10 * from_le_bytes out + (of_char c - 48)"
  note step = digit_step_correct [of c out]
  show ?case
  proof (cases "?v < 256 ^ length out")
    case True
    then obtain o1 where run: "digit_step out c = Inr o1" and len: "length o1 = length out" and val: "from_le_bytes o1 = ?v"
      using step Cons.prems by auto
    have "list_all (\<lambda>c. (48::nat) \<le> of_char c \<and> (of_char c :: nat) \<le> 57) s" using Cons.prems by simp
    from Cons.IH [OF this, of o1, unfolded len val] show ?thesis by (simp only: foldR.simps run bindR_simps foldl_Cons)
  next
    case False
    then have "digit_step out c = Inl NodeIdOverflow" using step Cons.prems by simp
    moreover have "\<not> foldl ?f ?v s < 256 ^ length out" using decimal_grow [of ?v s] False by linarith
    ultimately show ?thesis by simp
  qed
qed

lemma trim_decimal: "is_decimal s \<Longrightarrow> trim s = s"
proof -
  assume dec: "is_decimal s"
  have keep: "dropWhile is_ascii_whitespace t = t" if "list_all (\<lambda>c. (48::nat) \<le> of_char c \<and> (of_char c :: nat) \<le> 57) t" for t
    using that by (cases t) (auto simp: is_ascii_whitespace_def Let_def)
  have "list_all (\<lambda>c. (48::nat) \<le> of_char c \<and> (of_char c :: nat) \<le> 57) (rev s)" using dec by (simp add: is_decimal_def list_all_iff)
  then show "trim s = s" using dec by (simp add: trim_def keep is_decimal_def)
qed

text \<open>
  Decimal node identifiers are parsed exactly. A non-empty string of decimal digits is accepted if
  and only if its value is below \<open>2 ^ 256\<close>, the 32 little-endian bytes returned then encode exactly that
  value, and a larger value is reported as an overflow.
\<close>

theorem node_id_from_decimal_exact:
  assumes "is_decimal s"
  shows "if decimal_value s < 2 ^ 256
    then \<exists>id. node_id_from_decimal s = Inr id \<and> length id = 32 \<and> from_le_bytes id = decimal_value s
    else node_id_from_decimal s = Inl NodeIdOverflow"
proof -
  have zero: "from_le_bytes (replicate n 0) = 0" for n by (induction n) simp_all
  have "node_id_from_decimal s = foldR digit_step (replicate 32 0) s"
    using assms by (simp add: node_id_from_decimal_def trim_decimal is_decimal_def)
  then show ?thesis
    using decimal_loop [of s "replicate 32 0", unfolded zero length_replicate] assms by (simp add: is_decimal_def decimal_value_def)
qed

theorem node_id_from_decimal_exact_witness:
  "\<exists>id. node_id_from_decimal ''1234'' = Inr id \<and> length id = 32 \<and> from_le_bytes id = 1234"
proof -
  have "is_decimal ''1234''" by (simp add: is_decimal_def)
  from node_id_from_decimal_exact [OF this] show ?thesis by (simp add: decimal_value_def)
qed

section \<open>Columns\<close>

lemma complete_loop_iff:
  "length seen = NUMBER_OF_COLUMNS \<Longrightarrow> complete_columns_loop seen sidecars \<longleftrightarrow>
     (\<forall>c\<in>set sidecars. dcs_index c < NUMBER_OF_COLUMNS \<and> \<not> seen ! dcs_index c) \<and> distinct (map dcs_index sidecars)"
proof (induction sidecars arbitrary: seen)
  case (Cons c cs)
  show ?case
  proof (cases "dcs_index c < NUMBER_OF_COLUMNS \<and> \<not> seen ! dcs_index c")
    case True
    have "seen[dcs_index c := True] ! i = (i = dcs_index c \<or> seen ! i)" if "i < NUMBER_OF_COLUMNS" for i
      using that True Cons.prems by (auto simp: nth_list_update)
    then show ?thesis using True Cons.IH [of "seen[dcs_index c := True]"] Cons.prems by (auto simp: Let_def image_iff)
  qed (auto simp: Let_def)
qed simp

lemma complete_columns_iff:
  "has_complete_column_set sidecars \<longleftrightarrow> distinct (map dcs_index sidecars) \<and> set (map dcs_index sidecars) = {0..<NUMBER_OF_COLUMNS}"
proof -
  let ?is = "map dcs_index sidecars"
  have "has_complete_column_set sidecars \<longleftrightarrow> length ?is = NUMBER_OF_COLUMNS \<and> distinct ?is \<and> set ?is \<subseteq> {0..<NUMBER_OF_COLUMNS}"
    by (auto simp: has_complete_column_set_def complete_loop_iff)
  also have "\<dots> \<longleftrightarrow> distinct ?is \<and> set ?is = {0..<NUMBER_OF_COLUMNS}"
    using distinct_card [of ?is] card_subset_eq [of "{0..<NUMBER_OF_COLUMNS}" "set ?is"] by auto
  finally show ?thesis .
qed

lemma push_rows:
  "length col + length rows \<le> MAX_BLOB_COMMITMENTS_PER_BLOCK \<Longrightarrow> length prs = length col \<Longrightarrow>
   foldR (push_row n i) (col, prs) rows = Inr (col @ map (\<lambda>r. fst r ! i) rows, prs @ map (\<lambda>r. snd r ! i) rows)"
  by (induction rows arbitrary: col prs) (auto simp: push_row_def list_push_def Let_def)

lemma sidecars_eq:
  assumes "get_data_column_sidecars rt sl rows = Inr sidecars"
  shows "length rows \<le> MAX_BLOB_COMMITMENTS_PER_BLOCK
    \<and> sidecars = map (\<lambda>i. \<lparr>dcs_index = i, dcs_column = map (\<lambda>r. fst r ! i) rows, dcs_kzg_proofs = map (\<lambda>r. snd r ! i) rows,
        dcs_slot = sl, dcs_beacon_block_root = rt\<rparr>) [0..<NUMBER_OF_COLUMNS]"
proof -
  have len: "length rows \<le> MAX_BLOB_COMMITMENTS_PER_BLOCK"
    using assms by (auto simp: get_data_column_sidecars_def validate_cells_and_kzg_proofs_def bindR_eq_Inr failIf_eq_Inr)
  have "mapR (\<lambda>i. bindR (foldR (push_row (length rows) i) ([], []) rows) (\<lambda>(column, kzg_proofs).
      Inr \<lparr>dcs_index = i, dcs_column = column, dcs_kzg_proofs = kzg_proofs, dcs_slot = sl, dcs_beacon_block_root = rt\<rparr>))
      [0..<NUMBER_OF_COLUMNS] = Inr sidecars"
    using assms by (auto simp: get_data_column_sidecars_def bindR_eq_Inr)
  then show ?thesis using len by (simp add: push_rows mapR_Inr_map del: mapR.simps)
qed

text \<open>
  C40: the sidecars built from the rows of a block are a complete column set that passes the shape
  check. Whenever the cells and proofs of the blobs are assembled into sidecars, every column index
  occurs exactly once, every sidecar belongs to the block and carries the cells and proofs of its
  column in the order of the rows, and for a block with as many commitments as
  rows, at least one, every sidecar is accepted by the shape check.
\<close>

theorem assembled_sidecars_complete:
  assumes "get_data_column_sidecars rt sl rows = Inr sidecars" and "length commitments = length rows" and "rows \<noteq> []"
  shows "has_complete_column_set sidecars
    \<and> (\<forall>c\<in>set sidecars. dcs_beacon_block_root c = rt \<and> dcs_slot c = sl
        \<and> dcs_column c = map (\<lambda>(cells, proofs). cells ! dcs_index c) rows
        \<and> dcs_kzg_proofs c = map (\<lambda>(cells, proofs). proofs ! dcs_index c) rows
        \<and> verify_data_column_sidecar c commitments)"
proof -
  note eq = conjunct2 [OF sidecars_eq [OF assms(1)]]
  have "map dcs_index sidecars = [0..<NUMBER_OF_COLUMNS]" by (simp add: eq comp_def)
  then show ?thesis using assms(2,3) by (auto simp: complete_columns_iff eq verify_data_column_sidecar_def)
qed

theorem assembled_sidecars_complete_witness:
  "\<exists>sidecars. get_data_column_sidecars Root_ZERO 5 [(replicate NUMBER_OF_COLUMNS [], replicate NUMBER_OF_COLUMNS [])] = Inr sidecars
    \<and> has_complete_column_set sidecars"
proof -
  let ?rows = "[(replicate NUMBER_OF_COLUMNS [], replicate NUMBER_OF_COLUMNS [])] :: (Cell list \<times> KZGProof list) list"
  have "\<exists>sidecars. get_data_column_sidecars Root_ZERO 5 ?rows = Inr sidecars"
    by (simp add: get_data_column_sidecars_def validate_cells_and_kzg_proofs_def validate_row_def push_row_def list_push_def Let_def
        MAX_BLOB_COMMITMENTS_PER_BLOCK_def mapR_Inr_map)
  then show ?thesis using assembled_sidecars_complete [of Root_ZERO 5 ?rows _ "[[]]"] by auto
qed

section \<open>Custody groups\<close>

text \<open>The group of the digest of the \<open>k\<close>-th identifier.\<close>

definition group_at :: "('g1, 'g2, 'gt) ext \<Rightarrow> bytes \<Rightarrow> nat \<Rightarrow> u64" where
  "group_at X node_id k = from_le_bytes (take 8 (ext_sha256 X ((increment_node_id ^^ k) node_id))) mod NUMBER_OF_CUSTODY_GROUPS"

lemma custody_loop_invariant:
  assumes "custody_loop X n id0 groups = Some gs" and "distinct groups" and "\<forall>g\<in>set groups. g < NUMBER_OF_CUSTODY_GROUPS"
    and "length groups \<le> n"
  shows "distinct gs \<and> length gs = n \<and> (\<forall>g\<in>set gs. g < NUMBER_OF_CUSTODY_GROUPS)"
  using assms
proof (induction rule: custody_loop.raw_induct [rotated 1, consumes 1])
  case (1 loop X n id0 groups gs)
  let ?g = "from_le_bytes (take 8 (ext_sha256 X id0)) mod NUMBER_OF_CUSTODY_GROUPS"
  show ?case
  proof (cases "length groups < n")
    case True
    have "?g < NUMBER_OF_CUSTODY_GROUPS" by (simp add: NUMBER_OF_CUSTODY_GROUPS_def)
    then have "distinct (if ?g \<in> set groups then groups else groups @ [?g])"
      and "\<forall>g\<in>set (if ?g \<in> set groups then groups else groups @ [?g]). g < NUMBER_OF_CUSTODY_GROUPS"
      and "length (if ?g \<in> set groups then groups else groups @ [?g]) \<le> n"
      using 1(3-5) True by auto
    moreover have "loop X n (increment_node_id id0) (if ?g \<in> set groups then groups else groups @ [?g]) = Some gs"
      using 1(2) True by (simp add: Let_def)
    ultimately show ?thesis by (rule 1(1) [rotated 1])
  qed (use 1 in auto)
qed

lemma custody_loop_returns:
  "distinct groups \<Longrightarrow> n \<le> card (set groups \<union> group_at X node_id ` {..<m}) \<Longrightarrow> \<exists>gs. custody_loop X n node_id groups = Some gs"
proof (induction m arbitrary: node_id groups)
  case 0
  then show ?case by (simp add: custody_loop.simps distinct_card)
next
  case (Suc m)
  let ?g = "group_at X node_id 0" and ?next = "increment_node_id node_id"
  let ?groups = "if ?g \<in> set groups then groups else groups @ [?g]"
  have shift: "group_at X ?next k = group_at X node_id (Suc k)" for k by (simp add: group_at_def funpow_swap1)
  have "group_at X node_id ` {..<Suc m} = insert ?g (group_at X ?next ` {..<m})"
    by (simp add: lessThan_Suc_eq_insert_0 image_image shift)
  then have "n \<le> card (set ?groups \<union> group_at X ?next ` {..<m})"
    using Suc.prems(2) by (auto simp: insert_absorb Un_insert_left [symmetric] simp del: Un_insert_left)
  moreover have "distinct ?groups" using Suc.prems(1) by simp
  ultimately obtain gs where "custody_loop X n ?next ?groups = Some gs" using Suc.IH by blast
  moreover have "group_at X node_id 0 = from_le_bytes (take 8 (ext_sha256 X node_id)) mod NUMBER_OF_CUSTODY_GROUPS"
    by (simp add: group_at_def)
  ultimately show ?case by (subst custody_loop.simps) (simp only: Let_def split: if_split, simp)
qed

text \<open>
  C39: custody assignment. When the digests of the successive identifiers meet enough distinct groups,
  the assignment terminates; whenever it returns groups they are strictly ascending, below the number
  of groups, and exactly as many as asked for; more than all groups is an error.
\<close>

theorem custody_groups_correct:
  assumes "n < NUMBER_OF_CUSTODY_GROUPS \<Longrightarrow> \<exists>m. n \<le> card (group_at X node_id ` {..<m})"
  shows "\<exists>r. get_custody_groups X node_id n = Some r
    \<and> (if n \<le> NUMBER_OF_CUSTODY_GROUPS
       then \<exists>gs. r = Inr gs \<and> sorted_wrt (<) gs \<and> length gs = n \<and> (\<forall>g\<in>set gs. g < NUMBER_OF_CUSTODY_GROUPS)
       else r = Inl (TooManyCustodyGroups n NUMBER_OF_CUSTODY_GROUPS))"
proof (cases "n < NUMBER_OF_CUSTODY_GROUPS")
  case True
  obtain m where "n \<le> card (group_at X node_id ` {..<m})" using assms True by blast
  then obtain gs where run: "custody_loop X n node_id [] = Some gs" using custody_loop_returns [of "[]" n X node_id m] by auto
  from custody_loop_invariant [OF run] have "distinct gs" "length gs = n" "\<forall>g\<in>set gs. g < NUMBER_OF_CUSTODY_GROUPS" by simp_all
  then show ?thesis using True run by (simp add: get_custody_groups_def strict_sorted_iff)
qed (auto simp: get_custody_groups_def)

theorem custody_groups_correct_witness:
  "\<exists>r gs. get_custody_groups ex_ext (replicate 32 0) 1 = Some r \<and> r = Inr gs \<and> length gs = 1"
proof -
  have "1 \<le> card (group_at ex_ext (replicate 32 0) ` {..<1})" by (simp add: lessThan_Suc)
  then have "\<exists>m. 1 \<le> card (group_at ex_ext (replicate 32 0) ` {..<m})" by blast
  from custody_groups_correct [OF this] show ?thesis by (auto simp: NUMBER_OF_CUSTODY_GROUPS_def)
qed

end
