(* ===== verification/Spec2Isabelle.thy ===== *)
theory Spec2Isabelle
  imports Container_Laws Transition Data_Availability
begin

text \<open>
  \<^bold>\<open>Moonglass: a verification library for the consensus core.\<close>

  Moonglass (\<open>src/moonglass-core\<close>) is a Rust implementation of the Ethereum consensus specification
  (fork Gloas, with enshrined proposer-builder separation). This library models the core crate as
  executable HOL functions, one per Rust function, and proves what makes its parts correct. Names are
  the names of the Rust code, with a prefix where several structs share a field name (\<open>v_slashed\<close> is
  \<open>Validator::slashed\<close>, \<open>blk_slot\<close> is \<open>BeaconBlock::slot\<close>) and a suffix where HOL already has the name.

  \<^bold>\<open>The program and its parts.\<close> Bytes from the network are decoded by the SSZ layer (\<open>ssz/\<close>) into
  containers (\<open>containers/\<close>); containers are hashed to 32-byte roots by the same layer. The state
  transition (\<open>state_transition/\<close>) takes a \<open>BeaconState\<close> and a signed block: it advances empty slots,
  runs the epoch phases at boundaries, checks the proposer signature, runs the block phases in order
  and compares the state root. Data availability rests on the polynomial commitments of
  \<open>crypto/kzg/\<close>.

  \<^bold>\<open>Conventions.\<close> A fallible function returns a value of the sum type \<open>res\<close>, \<open>Inl\<close> the error; the
  combinators \<open>bindR\<close>, \<open>mapR\<close> and \<open>foldR\<close> are the operator \<open>?\<close>, \<open>collect\<close> into a \<open>Result\<close> and a fallible
  \<open>for\<close> loop. The transition adds panics: \<open>'a tres\<close> fails with \<open>Err e\<close> or with \<open>Panic\<close> (an index out of
  bounds, an overflow of an unchecked operator, a division by zero), so that the absence of panics is
  a theorem. The code mutates \<open>self\<close>; the model returns the updated record, and an error carries no
  state: the entry points of the code work on a clone and commit it only on success. \<open>u64\<close> and
  \<open>usize\<close> are natural numbers with the bounds written out in the \<open>checked_\<close>, \<open>saturating_\<close> and panicking
  operations; bytes are \<open>8 word\<close>. The compile-time feature that selects the mainnet or the minimal
  constants is the argument \<open>p\<close> of type \<open>preset\<close>; every theorem holds for both.

  \<^bold>\<open>External code.\<close> SHA-256 and the curve operations (crates \<open>sha2\<close>, \<open>ark-bls12-381\<close>, \<open>ark-ec\<close>,
  \<open>ark-ff\<close>) are fields of the records \<open>ext\<close> (theory \<open>Runtime\<close>) and \<open>kzg_ext\<close> (theory \<open>Kzg\<close>). The
  hypotheses on them are \<open>ext_ok\<close> (lengths of digests and compressed points), \<open>roots_ok\<close> (order of the
  roots of unity) and, where a theorem needs it, a collision-freeness premise; each is instantiated in
  a witness by concrete functions. The scalar field is an arbitrary type of class \<open>field\<close>.

  \<^bold>\<open>Theories.\<close>

  \<^item> \<open>Prelude\<close>: results, 64-bit arithmetic, byte strings, generic lemmas and the collections
    \<open>res_simps\<close> and \<open>u64_simps\<close>.
  \<^item> \<open>Ssz_Codec\<close>, \<open>Ssz_Bits\<close>, \<open>Ssz_Types\<close>, \<open>Ssz_Merkle\<close> with \<open>Ssz_Codec_Laws\<close> and
    \<open>Ssz_Container_Laws\<close>: \<open>ssz/\<close>. The trait impls are functions over a universe of type descriptors
    \<open>ssz_ty\<close>. Decoding accepts exactly the canonical encodings; merkleization with a virtual zero padding
    equals the root of the padded tree; every well-formed value has a root. The locale \<open>item_codec\<close> is the
    contract of an element codec, interpreted on the codec of every descriptor.
  \<^item> \<open>Constants\<close>, \<open>Errors\<close>, \<open>Primitives\<close>: \<open>constants/\<close>, \<open>error/\<close>, \<open>primitives/\<close>.
  \<^item> \<open>Containers\<close>, \<open>Container_Laws\<close>, \<open>Typing\<close>: \<open>containers/\<close>. A record per struct, its descriptor \<open>_ty\<close>
    and its value \<open>_val\<close>; \<open>_ok\<close> says that a record is a value of its Rust type.
  \<^item> \<open>Runtime\<close>: outcomes, external functions, and the weakest preconditions \<open>safe\<close>.
  \<^item> \<open>State_Invariant\<close>, \<open>Phases\<close>, \<open>Example_State\<close>: the invariant \<open>state_ok\<close> (well-typed, per-validator lists
    aligned, indices in range, checkpoints ordered), the locale \<open>phase\<close> (no panic, invariant kept, same
    slot and chain) with its composition rules, and a concrete state that satisfies the invariant.
  \<^item> \<open>Validators\<close>, \<open>Signing\<close>, \<open>Churn\<close>, \<open>Committees\<close>: \<open>balance.rs\<close>, \<open>validator.rs\<close>, \<open>crypto/bls.rs\<close>,
    \<open>signing.rs\<close>, \<open>committee.rs\<close>. Domain separation, exact churn accounting, the shuffle is a permutation,
    the committees of an epoch partition the active validators.
  \<^item> \<open>Finality\<close>, \<open>Accounting\<close>, \<open>Registry\<close>, \<open>Builder_Payments\<close>, \<open>Epoch\<close>: \<open>epoch/\<close>. Checkpoints only move
    forward and do move with two thirds of the stake; deposits and consolidations conserve value; the
    payment window refines a queue; the whole epoch is safe.
  \<^item> \<open>Deposits\<close>, \<open>Attestations\<close>, \<open>Slashings\<close>, \<open>Requests\<close>, \<open>Withdrawals\<close>, \<open>Bids\<close>, \<open>Block\<close>: \<open>operations/\<close>,
    \<open>builder/\<close>, \<open>block/\<close>, \<open>withdrawal.rs\<close>. Votes and evidence count once, requests are authorised,
    withdrawals conserve balances (locale \<open>withdrawal_source\<close>, four interpretations), accepted bids are
    covered, the parent payload is settled exactly once.
  \<^item> \<open>Transition\<close>: \<open>slot.rs\<close> and \<open>state_transition.rs\<close>. Advancing slots terminates at the target and
    composes; the transition of a block never panics, keeps the invariant and commits only a state
    with the claimed root.
  \<^item> \<open>Polynomials\<close>, \<open>Kzg\<close>: \<open>crypto/kzg/\<close>. The Fourier transform evaluates and inverts, interpolation is
    exact, and any half of the cells recovers the blob polynomial.
  \<^item> \<open>Data_Availability\<close>: the functions of \<open>containers/data_availability.rs\<close>. Custody assignment is a partial
    function; it returns the requested groups as soon as the digests meet enough of them. Assembled
    sidecars are complete; decimal identifiers are read exactly.

  \<^bold>\<open>Loops, bounds, fuel.\<close> Loops over collections are structural. The slot loop, the loop over
  selections with a random source and the transforms are functions with termination proofs by a
  measure.

  \<^bold>\<open>Not modelled.\<close> The glossary and the crate documentation carry no code. The node crate
  (\<open>moonglass-node\<close>) and the test crate (\<open>tests\<close>) are network, file and process I/O around the core.
  The trusted-setup text parser, the single-point \<open>open\<close> and the FK batch opening work on the polynomial
  and domain types of \<open>ark-poly\<close>. Fork choice (\<open>fork_choice/\<close>), gossip validation and the networking helpers
  are not modelled.
\<close>

end
